(* ===== verification/Prelude.thy ===== *)
theory Prelude
  imports Complex_Main "HOL-Library.AList" "HOL-Library.Multiset" "HOL-Library.Char_ord"
    "HOL-Library.List_Lexorder" "HOL-Library.Product_Lexorder"
begin

text \<open>
  Shared vocabulary of the MarketSentinel development: the number type that stands for
  Python floats, exceptions as values with a bind, dictionaries that keep insertion order,
  Python's bisection and first-maximum, decimal rendering of integers, and the generic
  lemmas about them that the component theories use through the collections
  \<open>res_simps\<close>, \<open>dict_simps\<close> and \<open>inv_intros\<close>.
\<close>

named_theorems res_simps \<open>rewriting of computations that may raise\<close>
named_theorems dict_simps \<open>lookup after dictionary updates\<close>
named_theorems inv_intros \<open>operations keep their component's invariant\<close>

section \<open>Numbers and exceptions\<close>

text \<open>
  A finite Python float is a rational number. Arithmetic in the model is exact; IEEE
  rounding is outside it. NaN and the infinities only occur where raw input is parsed and
  are constructors of the raw value type there.
\<close>

type_synonym flt = rat

datatype exc =
    ValueError string
  | TypeError
  | OverflowError
  | KeyError string
  | IndexError
  | AttributeError
  | ZeroDivisionError
  | RuntimeError string
  | TimeoutError string
  | SnapshotValidationError string
  | WatchlistFullError
  | WatchlistSymbolError string
  | ProviderError string
  | TuningConfigError string
  | TuningSnapshotError string

type_synonym 'a res = "exc + 'a"

primrec res_bind :: "'e + 'a \<Rightarrow> ('a \<Rightarrow> 'e + 'b) \<Rightarrow> 'e + 'b" where
  "res_bind (Inl e) f = Inl e"
| "res_bind (Inr x) f = f x"

primrec res_filter :: "('a \<Rightarrow> 'e + bool) \<Rightarrow> 'a list \<Rightarrow> 'e + 'a list" where
  "res_filter P [] = Inr []"
| "res_filter P (x # xs) =
     res_bind (P x) (\<lambda>keep. res_bind (res_filter P xs) (\<lambda>ys. Inr (if keep then x # ys else ys)))"

definition raises :: "'e + 'a \<Rightarrow> bool" where
  "raises m \<longleftrightarrow> (case m of Inl _ \<Rightarrow> True | Inr _ \<Rightarrow> False)"

lemma raises_simps [simp]: "raises (Inl e)" "\<not> raises (Inr x)"
  by (simp_all add: raises_def)

lemma not_raises_iff: "\<not> raises m \<longleftrightarrow> (\<exists>x. m = Inr x)"
  by (cases m) auto

lemma res_bind_Inr_iff [res_simps]:
  "res_bind m f = Inr y \<longleftrightarrow> (\<exists>x. m = Inr x \<and> f x = Inr y)"
  by (cases m) auto

lemma res_bind_Inl_iff [res_simps]:
  "res_bind m f = Inl e \<longleftrightarrow> m = Inl e \<or> (\<exists>x. m = Inr x \<and> f x = Inl e)"
  by (cases m) auto

lemma res_bind_InrE:
  assumes "res_bind m f = Inr y"
  obtains x where "m = Inr x" "f x = Inr y"
  using assms by (cases m) auto

lemma res_bind_cong [fundef_cong]:
  "m = m' \<Longrightarrow> (\<And>x. m' = Inr x \<Longrightarrow> f x = g x) \<Longrightarrow> res_bind m f = res_bind m' g"
  by (cases m') auto

lemma res_bind_assoc: "res_bind (res_bind m f) g = res_bind m (\<lambda>x. res_bind (f x) g)"
  by (cases m) auto

lemma res_filter_total:
  "(\<And>x. x \<in> set xs \<Longrightarrow> P x = Inr (Q x)) \<Longrightarrow> res_filter P xs = Inr (filter Q xs)"
  by (induction xs) auto

lemma res_filter_InrD:
  assumes "res_filter P xs = Inr ys"
  shows "ys = filter (\<lambda>x. P x = Inr True) xs"
  using assms by (induction xs arbitrary: ys) (auto simp: res_simps)

lemma res_filter_Inr_total:
  assumes "res_filter P xs = Inr ys" and "x \<in> set xs"
  shows "\<exists>b. P x = Inr b"
  using assms by (induction xs arbitrary: ys) (auto simp: res_simps)

fun res_map :: "('a \<Rightarrow> 'b res) \<Rightarrow> 'a list \<Rightarrow> 'b list res" where
  "res_map f [] = Inr []"
| "res_map f (x # xs) = res_bind (f x) (\<lambda>y. res_bind (res_map f xs) (\<lambda>ys. Inr (y # ys)))"

lemma res_map_total:
  assumes "\<forall>x \<in> set xs. \<exists>y. f x = Inr y \<and> P x y"
  shows "\<exists>ys. res_map f xs = Inr ys \<and> list_all2 P xs ys"
  using assms by (induction xs) fastforce+

section \<open>Raw values\<close>

text \<open>
  What \<open>json.loads\<close> and a vendor quote can hold, and \<open>float()\<close> of it. A string is parsed by a
  parameter; an integer that rounds beyond the largest double raises \<open>OverflowError\<close>.
\<close>

datatype pyfloat = Fin flt | PosInf | NegInf | NaN

datatype pyval =
    PyNone
  | PyBool bool
  | PyInt int
  | PyFloat pyfloat
  | PyStr string
  | PyList "pyval list"
  | PyDict "(string \<times> pyval) list"

definition float_max_int :: int where
  "float_max_int = 2 ^ 1024 - 2 ^ 970"

fun py_float :: "(string \<Rightarrow> pyfloat option) \<Rightarrow> pyval \<Rightarrow> pyfloat res" where
  "py_float parse (PyFloat x) = Inr x"
| "py_float parse (PyInt i) =
     (if \<bar>i\<bar> < float_max_int then Inr (Fin (of_int i)) else Inl OverflowError)"
| "py_float parse (PyBool b) = Inr (Fin (if b then 1 else 0))"
| "py_float parse (PyStr s) =
     (case parse s of Some x \<Rightarrow> Inr x | None \<Rightarrow> Inl (ValueError ''could not convert string to float''))"
| "py_float parse _ = Inl TypeError"

section \<open>Dictionaries in insertion order\<close>

text \<open>
  A Python \<open>dict\<close> keeps insertion order and overwriting a key keeps its place: exactly
  \<open>AList.update\<close>. Where a component only looks keys up, its dictionary is a map.
\<close>

type_synonym ('k, 'v) dict = "('k \<times> 'v) list"

abbreviation dict_get :: "('k, 'v) dict \<Rightarrow> 'k \<Rightarrow> 'v option" where
  "dict_get d k \<equiv> map_of d k"

abbreviation dict_set :: "'k \<Rightarrow> 'v \<Rightarrow> ('k, 'v) dict \<Rightarrow> ('k, 'v) dict" where
  "dict_set k v d \<equiv> AList.update k v d"

abbreviation dict_pop :: "'k \<Rightarrow> ('k, 'v) dict \<Rightarrow> ('k, 'v) dict" where
  "dict_pop k d \<equiv> AList.delete k d"

definition dict_wf :: "('k, 'v) dict \<Rightarrow> bool" where
  "dict_wf d \<longleftrightarrow> distinct (map fst d)"

lemmas dict_lookup [dict_simps] = AList.update_conv' AList.delete_conv'

lemma dict_wf_Nil [simp]: "dict_wf []"
  by (simp add: dict_wf_def)

lemma dict_wf_set [inv_intros]: "dict_wf d \<Longrightarrow> dict_wf (dict_set k v d)"
  by (simp add: dict_wf_def AList.distinct_update)

lemma dict_wf_pop [inv_intros]: "dict_wf d \<Longrightarrow> dict_wf (dict_pop k d)"
  by (simp add: dict_wf_def AList.distinct_delete)

lemma dict_wf_in_set: "dict_wf d \<Longrightarrow> (k, v) \<in> set d \<longleftrightarrow> dict_get d k = Some v"
  by (simp add: dict_wf_def)

lemma dict_set_new: "dict_get d k = None \<Longrightarrow> dict_set k v d = d @ [(k, v)]"
  by (induction d) auto

lemma length_dict_set:
  "length (dict_set k v d) = (if dict_get d k = None then Suc (length d) else length d)"
  by (induction d) auto

lemma map_fst_dict_set:
  "map fst (dict_set k v d) = (if dict_get d k = None then map fst d @ [k] else map fst d)"
  by (induction d) auto

section \<open>Bisection\<close>

text \<open>
  \<open>bisect.bisect_left\<close> and \<open>bisect_right\<close> are binary searches with the insertion side
  as their only difference: the predicate that sends the search to the right half.
\<close>

function bisect_loop :: "('a \<Rightarrow> bool) \<Rightarrow> 'a list \<Rightarrow> nat \<Rightarrow> nat \<Rightarrow> nat" where
  "bisect_loop right xs lo hi =
     (if lo < hi then
        (let mid = (lo + hi) div 2
         in if right (xs ! mid) then bisect_loop right xs (Suc mid) hi
            else bisect_loop right xs lo mid)
      else lo)"
  by pat_completeness auto
termination
  by (relation "measure (\<lambda>(right, xs, lo, hi). hi - lo)") auto

declare bisect_loop.simps [simp del]

definition bisect_left :: "'a::linorder list \<Rightarrow> 'a \<Rightarrow> nat" where
  "bisect_left xs x = bisect_loop (\<lambda>y. y < x) xs 0 (length xs)"

definition bisect_right :: "'a::linorder list \<Rightarrow> 'a \<Rightarrow> nat" where
  "bisect_right xs x = bisect_loop (\<lambda>y. y \<le> x) xs 0 (length xs)"

text \<open>
  On a list that a predicate splits into a true prefix and a false suffix, the search
  returns the length of the prefix.
\<close>

definition splits :: "('a \<Rightarrow> bool) \<Rightarrow> 'a list \<Rightarrow> bool" where
  "splits P xs \<longleftrightarrow> (\<forall>i j. i \<le> j \<longrightarrow> j < length xs \<longrightarrow> P (xs ! j) \<longrightarrow> P (xs ! i))"

lemma bisect_loop_correct:
  assumes "splits P xs" and "lo \<le> hi" and "hi \<le> length xs"
    and "\<And>i. i < lo \<Longrightarrow> P (xs ! i)"
    and "\<And>i. hi \<le> i \<Longrightarrow> i < length xs \<Longrightarrow> \<not> P (xs ! i)"
  shows "bisect_loop P xs lo hi \<le> length xs
    \<and> (\<forall>i < bisect_loop P xs lo hi. P (xs ! i))
    \<and> (\<forall>i. bisect_loop P xs lo hi \<le> i \<longrightarrow> i < length xs \<longrightarrow> \<not> P (xs ! i))"
  using assms
proof (induction P xs lo hi rule: bisect_loop.induct)
  case (1 P xs lo hi)
  show ?case
  proof (cases "lo < hi")
    case False
    then have "bisect_loop P xs lo hi = lo" by (simp add: bisect_loop.simps [of P xs lo hi])
    moreover have "lo = hi" using False "1.prems"(2) by simp
    ultimately show ?thesis using "1.prems"(3,4,5) by simp
  next
    case True
    define mid where "mid = (lo + hi) div 2"
    have mid: "lo \<le> mid" "mid < hi" "mid < length xs"
      using True "1.prems"(3) by (auto simp: mid_def)
    show ?thesis
    proof (cases "P (xs ! mid)")
      case P: True
      have eq: "bisect_loop P xs lo hi = bisect_loop P xs (Suc mid) hi"
        using True P by (subst bisect_loop.simps) (simp add: mid_def)
      have left: "\<And>i. i < Suc mid \<Longrightarrow> P (xs ! i)"
        using "1.prems"(1) P mid(3) unfolding splits_def by (meson less_Suc_eq_le)
      have "Suc mid \<le> hi" using mid by simp
      from "1.IH"(1) [OF True mid_def P "1.prems"(1) this "1.prems"(3) left "1.prems"(5)]
      show ?thesis unfolding eq .
    next
      case P: False
      have eq: "bisect_loop P xs lo hi = bisect_loop P xs lo mid"
        using True P by (subst bisect_loop.simps) (simp add: mid_def)
      have right: "\<And>i. mid \<le> i \<Longrightarrow> i < length xs \<Longrightarrow> \<not> P (xs ! i)"
        using "1.prems"(1) P unfolding splits_def by blast
      have "mid \<le> length xs" using mid by simp
      from "1.IH"(2) [OF True mid_def P "1.prems"(1) mid(1) this "1.prems"(4) right]
      show ?thesis unfolding eq .
    qed
  qed
qed

lemma length_takeWhile_unique:
  assumes "n \<le> length xs" and "\<forall>i < n. P (xs ! i)"
    and "\<forall>i. n \<le> i \<longrightarrow> i < length xs \<longrightarrow> \<not> P (xs ! i)"
  shows "n = length (takeWhile P xs)"
proof -
  have "takeWhile P xs = take n xs"
    using assms by (intro takeWhile_eq_take_P_nth) auto
  then show ?thesis using assms(1) by simp
qed

lemma splits_sorted_less: "sorted xs \<Longrightarrow> splits (\<lambda>y. y < (x::'a::linorder)) xs"
  unfolding splits_def by (meson le_less_trans sorted_iff_nth_mono)

lemma splits_sorted_le: "sorted xs \<Longrightarrow> splits (\<lambda>y. y \<le> (x::'a::linorder)) xs"
  unfolding splits_def by (meson order_trans sorted_iff_nth_mono)

lemma bisect_left_sorted:
  assumes "sorted xs"
  shows "bisect_left xs x = length (takeWhile (\<lambda>y. y < x) xs)"
  unfolding bisect_left_def
  using bisect_loop_correct [OF splits_sorted_less [OF assms], of 0 "length xs"]
  by (intro length_takeWhile_unique) auto

lemma bisect_right_sorted:
  assumes "sorted xs"
  shows "bisect_right xs x = length (takeWhile (\<lambda>y. y \<le> x) xs)"
  unfolding bisect_right_def
  using bisect_loop_correct [OF splits_sorted_le [OF assms], of 0 "length xs"]
  by (intro length_takeWhile_unique) auto

section \<open>Ranks and Python's maximum by key\<close>

text \<open>
  \<open>max(xs, key=rank)\<close> returns the first element whose rank no other exceeds. The enums
  with a severity order (priority, feed status, scheduler level) share the laws of it
  through the locale \<open>ranked\<close>, whose only contract is that ranks identify elements.
\<close>

primrec max_by :: "('a \<Rightarrow> nat) \<Rightarrow> 'a \<Rightarrow> 'a list \<Rightarrow> 'a" where
  "max_by rank best [] = best"
| "max_by rank best (x # xs) = max_by rank (if rank best < rank x then x else best) xs"

lemma max_by_in: "max_by rank b xs \<in> insert b (set xs)"
proof (induction xs arbitrary: b)
  case (Cons x xs)
  then show ?case using Cons.IH [of x] Cons.IH [of b] by auto
qed simp

lemma max_by_ge: "y \<in> insert b (set xs) \<Longrightarrow> rank y \<le> rank (max_by rank b xs)"
proof (induction xs arbitrary: b y)
  case (Cons x xs)
  have "rank (if rank b < rank x then x else b) \<le> rank (max_by rank b (x # xs))"
    using Cons.IH by simp
  moreover have "\<forall>z \<in> set xs. rank z \<le> rank (max_by rank b (x # xs))"
    using Cons.IH by simp
  ultimately show ?case using Cons.prems by (auto split: if_splits)
qed simp

locale ranked =
  fixes rank :: "'a \<Rightarrow> nat"
  assumes rank_inj: "rank x = rank y \<Longrightarrow> x = y"
begin

lemma max_by_eq_iff:
  "max_by rank b xs = m \<longleftrightarrow> m \<in> insert b (set xs) \<and> (\<forall>y \<in> insert b (set xs). rank y \<le> rank m)"
proof
  assume "max_by rank b xs = m"
  then show "m \<in> insert b (set xs) \<and> (\<forall>y \<in> insert b (set xs). rank y \<le> rank m)"
    using max_by_in [of rank b xs] max_by_ge [of _ b xs rank] by blast
next
  assume m: "m \<in> insert b (set xs) \<and> (\<forall>y \<in> insert b (set xs). rank y \<le> rank m)"
  then have "rank (max_by rank b xs) = rank m"
    by (metis max_by_in max_by_ge order_antisym)
  then show "max_by rank b xs = m" by (rule rank_inj)
qed

lemma max_by_set_cong:
  "insert b (set xs) = insert c (set ys) \<Longrightarrow> max_by rank b xs = max_by rank c ys"
  by (metis max_by_eq_iff)

end

section \<open>Rendering\<close>

definition digit_char :: "nat \<Rightarrow> char" where
  "digit_char d = char_of (48 + d)"

fun show_nat :: "nat \<Rightarrow> string" where
  "show_nat n = (if n < 10 then [digit_char n] else show_nat (n div 10) @ [digit_char (n mod 10)])"

declare show_nat.simps [simp del]

definition show_int :: "int \<Rightarrow> string" where
  "show_int i = (if i < 0 then ''-'' @ show_nat (nat (- i)) else show_nat (nat i))"

lemma show_nat_not_Nil [simp]: "show_nat n \<noteq> []"
  by (subst show_nat.simps) simp

section \<open>Lists\<close>

lemma sorted_wrt_dropWhile: "sorted_wrt R xs \<Longrightarrow> sorted_wrt R (dropWhile P xs)"
  by (metis sorted_wrt_append takeWhile_dropWhile_id)

lemma sort_key_Nil_iff [simp]: "sort_key f xs = [] \<longleftrightarrow> xs = []" "[] = sort_key f xs \<longleftrightarrow> xs = []"
  by (metis length_0_conv length_sort)+

lemma fold_inv_rule:
  assumes "I s" and "\<And>x s. x \<in> set xs \<Longrightarrow> I s \<Longrightarrow> I (f x s)"
  shows "I (fold f xs s)"
  using assms by (induction xs arbitrary: s) auto

end
