(* ===== verification/Domain.thy ===== *)
theory Domain
  imports Prelude
begin

text \<open>
  The data model shared by every component: the enums of \<open>domain/enums.py\<close> with their
  string values and severity ranks, the frozen dataclasses of \<open>domain/models.py\<close>,
  \<open>features.py\<close>, \<open>events.py\<close> and \<open>signals.py\<close>, the per-tick results of
  \<open>runtime/results.py\<close>, and the clock.
\<close>

section \<open>Enums\<close>

datatype scheduler_level = COLD | WARM | HOT

datatype feed_status = LIVE | DELAYED | STALE | DISCONNECTED

datatype event_type =
    RAPID_MOVE
  | VOLUME_SPIKE
  | PRICE_VOLUME_EXPANSION
  | DAY_HIGH_BREAKOUT
  | DAY_LOW_BREAKDOWN
  | VWAP_CROSS

datatype event_direction = UP | DOWN | NONE

datatype signal_priority = INFO | NOTICE | IMPORTANT | CRITICAL

datatype generated_by = RULE

fun scheduler_level_value :: "scheduler_level \<Rightarrow> string" where
  "scheduler_level_value COLD = ''COLD''"
| "scheduler_level_value WARM = ''WARM''"
| "scheduler_level_value HOT = ''HOT''"

fun feed_status_value :: "feed_status \<Rightarrow> string" where
  "feed_status_value LIVE = ''LIVE''"
| "feed_status_value DELAYED = ''DELAYED''"
| "feed_status_value STALE = ''STALE''"
| "feed_status_value DISCONNECTED = ''DISCONNECTED''"

fun event_type_value :: "event_type \<Rightarrow> string" where
  "event_type_value RAPID_MOVE = ''rapid_move''"
| "event_type_value VOLUME_SPIKE = ''volume_spike''"
| "event_type_value PRICE_VOLUME_EXPANSION = ''price_volume_expansion''"
| "event_type_value DAY_HIGH_BREAKOUT = ''day_high_breakout''"
| "event_type_value DAY_LOW_BREAKDOWN = ''day_low_breakdown''"
| "event_type_value VWAP_CROSS = ''vwap_cross''"

fun event_direction_value :: "event_direction \<Rightarrow> string" where
  "event_direction_value UP = ''up''"
| "event_direction_value DOWN = ''down''"
| "event_direction_value NONE = ''none''"

fun signal_priority_value :: "signal_priority \<Rightarrow> string" where
  "signal_priority_value INFO = ''info''"
| "signal_priority_value NOTICE = ''notice''"
| "signal_priority_value IMPORTANT = ''important''"
| "signal_priority_value CRITICAL = ''critical''"

subsection \<open>Severity ranks\<close>

text \<open>
  \<open>_PRIORITY_RANK\<close> (the same table in copy, cooldown, pipeline, contract and router),
  \<open>_WORST\<close> of the feed health tracker and \<open>_RANK\<close> of the scheduler.
\<close>

fun priority_rank :: "signal_priority \<Rightarrow> nat" where
  "priority_rank INFO = 1"
| "priority_rank NOTICE = 2"
| "priority_rank IMPORTANT = 3"
| "priority_rank CRITICAL = 4"

fun feed_worst :: "feed_status \<Rightarrow> nat" where
  "feed_worst LIVE = 0"
| "feed_worst DELAYED = 1"
| "feed_worst STALE = 2"
| "feed_worst DISCONNECTED = 3"

fun level_rank :: "scheduler_level \<Rightarrow> nat" where
  "level_rank COLD = 0"
| "level_rank WARM = 1"
| "level_rank HOT = 2"

interpretation priority: ranked priority_rank
proof
  fix x y assume "priority_rank x = priority_rank y"
  then show "x = y" by (cases x; cases y) auto
qed

interpretation feed: ranked feed_worst
proof
  fix x y assume "feed_worst x = feed_worst y"
  then show "x = y" by (cases x; cases y) auto
qed

interpretation level: ranked level_rank
proof
  fix x y assume "level_rank x = level_rank y"
  then show "x = y" by (cases x; cases y) auto
qed

text \<open>The rank order as the library's linear order on priorities.\<close>

instantiation signal_priority :: linorder
begin

definition less_eq_signal_priority :: "signal_priority \<Rightarrow> signal_priority \<Rightarrow> bool" where
  "less_eq_signal_priority p q \<longleftrightarrow> priority_rank p \<le> priority_rank q"

definition less_signal_priority :: "signal_priority \<Rightarrow> signal_priority \<Rightarrow> bool" where
  "less_signal_priority p q \<longleftrightarrow> priority_rank p < priority_rank q"

instance
  by standard
    (auto simp: less_eq_signal_priority_def less_signal_priority_def intro: priority.rank_inj)

end

lemma priority_rank_pos: "1 \<le> priority_rank p"
  by (cases p) auto

lemma priority_rank_le: "priority_rank p \<le> 4"
  by (cases p) auto

section \<open>Snapshots, features and bars\<close>

record market_snapshot =
  ms_symbol :: string
  ms_price :: flt
  ms_open :: flt
  ms_high :: flt
  ms_low :: flt
  ms_prev_close :: flt
  ms_volume :: flt
  ms_turnover :: "flt option"
  ms_market_timestamp :: flt
  ms_received_timestamp :: flt

record watch_item =
  wi_symbol :: string
  wi_enabled :: bool

record feature_policy =
  fp_max_anchor_lag_s :: flt
  fp_volume_ratio_lookback :: int
  fp_bar_seconds :: flt

definition default_feature_policy :: feature_policy where
  "default_feature_policy =
     \<lparr>fp_max_anchor_lag_s = 30, fp_volume_ratio_lookback = 20, fp_bar_seconds = 60\<rparr>"

record market_bar =
  mb_symbol :: string
  mb_start_timestamp :: flt
  mb_end_timestamp :: flt
  mb_open :: flt
  mb_high :: flt
  mb_low :: flt
  mb_close :: flt
  mb_volume :: "flt option"
  mb_turnover :: "flt option"

record market_features =
  mf_symbol :: string
  mf_market_timestamp :: flt
  mf_received_timestamp :: flt
  mf_change_1m :: "flt option"
  mf_change_5m :: "flt option"
  mf_change_15m :: "flt option"
  mf_change_day :: "flt option"
  mf_day_range_position :: "flt option"
  mf_volume_1m :: "flt option"
  mf_volume_5m :: "flt option"
  mf_volume_ratio_1m :: "flt option"
  mf_volume_ratio_5m :: "flt option"
  mf_vwap :: "flt option"
  mf_above_vwap :: "bool option"
  mf_ema5 :: "flt option"
  mf_ema20 :: "flt option"
  mf_rsi14 :: "flt option"
  mf_session_high_ref :: "flt option"
  mf_session_low_ref :: "flt option"
  mf_session_high_obs :: flt
  mf_session_low_obs :: flt

section \<open>Events and signals\<close>

datatype metric = MFloat flt | MBool bool | MNone

record market_event =
  ev_id :: string
  ev_symbol :: string
  ev_type :: event_type
  ev_direction :: event_direction
  ev_severity :: int
  ev_market_timestamp :: flt
  ev_received_timestamp :: flt
  ev_detected_timestamp :: flt
  ev_metrics :: "(string \<times> metric) list"
  ev_dedupe_key :: string
  ev_ttl_s :: flt
  ev_rule_name :: string

text \<open>
  Display copy is Chinese text built from f-string templates. A title is the key of its
  template with the symbol it is filled with, a summary the list of its facts, one
  constructor per template with the numbers it formats.
\<close>

datatype copy_title = Title string string

datatype copy_fact =
    FactChange1m flt
  | FactChange5m flt
  | FactVolumeRatio1m flt
  | FactVolumeRatio5m flt
  | FactHigh flt flt
  | FactLow flt flt
  | FactVwap bool flt
  | FactRules "string list"

record signal =
  sg_id :: string
  sg_event_ids :: "string list"
  sg_symbol :: string
  sg_family :: string
  sg_direction :: event_direction
  sg_priority :: signal_priority
  sg_title :: copy_title
  sg_summary :: "copy_fact list"
  sg_generated_by :: generated_by
  sg_market_timestamp :: flt
  sg_received_timestamp :: flt
  sg_detected_timestamp :: flt
  sg_created_timestamp :: flt
  sg_expires_at :: "flt option"

record signal_trace =
  tr_signal_id :: string
  tr_event_ids :: "string list"
  tr_rule_names :: "string list"
  tr_features :: market_features
  tr_family :: string
  tr_direction :: event_direction
  tr_priority :: signal_priority
  tr_priority_reason :: string
  tr_detected_timestamp :: flt
  tr_created_timestamp :: flt

record signal_pipeline_result =
  pr_accepted_events :: "market_event list"
  pr_signal_updates :: "signal list"
  pr_traces :: "signal_trace list"
  pr_alert_candidates :: "signal list"

definition empty_pipeline_result :: signal_pipeline_result where
  "empty_pipeline_result =
     \<lparr>pr_accepted_events = [], pr_signal_updates = [], pr_traces = [], pr_alert_candidates = []\<rparr>"

record market_state =
  st_symbol :: string
  st_latest :: "market_snapshot option"
  st_level :: scheduler_level
  st_feed_status :: feed_status
  st_feed_latency :: "flt option"
  st_last_update_age :: "flt option"
  st_features :: "market_features option"
  st_active_signals :: "signal list"

section \<open>Tick results\<close>

record symbol_tick_result =
  sr_symbol :: string
  sr_features :: "market_features option"
  sr_accepted_events :: "market_event list"
  sr_signal_updates :: "signal list"
  sr_traces :: "signal_trace list"
  sr_alert_candidates :: "signal list"
  sr_level_before :: scheduler_level
  sr_level_after :: scheduler_level

type_synonym engine_tick_result = "symbol_tick_result list"

fun for_symbol :: "engine_tick_result \<Rightarrow> string \<Rightarrow> symbol_tick_result option" where
  "for_symbol [] symbol = None"
| "for_symbol (item # rest) symbol =
     (if sr_symbol item = symbol then Some item else for_symbol rest symbol)"

section \<open>The clock\<close>

text \<open>
  Every component reads a \<open>Clock\<close>. The model's clock is \<open>FakeClock\<close>: both readings stay
  fixed until an explicit advance, so one operation of the program sees one instant.
\<close>

record fake_clock =
  fc_wall :: flt
  fc_mono :: flt

definition clock_advance :: "fake_clock \<Rightarrow> flt \<Rightarrow> fake_clock" where
  "clock_advance c seconds = c\<lparr>fc_wall := fc_wall c + seconds, fc_mono := fc_mono c + seconds\<rparr>"

definition clock_set_wall :: "fake_clock \<Rightarrow> flt \<Rightarrow> fake_clock" where
  "clock_set_wall c timestamp = c\<lparr>fc_wall := timestamp\<rparr>"

definition clock_advance_wall :: "fake_clock \<Rightarrow> flt \<Rightarrow> fake_clock" where
  "clock_advance_wall c seconds = c\<lparr>fc_wall := fc_wall c + seconds\<rparr>"

definition clock_advance_monotonic :: "fake_clock \<Rightarrow> flt \<Rightarrow> fake_clock" where
  "clock_advance_monotonic c seconds = c\<lparr>fc_mono := fc_mono c + seconds\<rparr>"

text \<open>
  \<open>uuid.uuid4().hex\<close> is the only other source of nondeterminism. The \<open>n\<close>-th draw of a run
  is \<open>uuid n\<close> for a parameter \<open>uuid\<close>; operations that draw thread the number of draws made.
\<close>

type_synonym uuid_source = "nat \<Rightarrow> string"

end
