(* ===== verification/Sessions.thy ===== *)
theory Sessions
  imports Domain
begin

text \<open>
  \<open>market_data/session.py\<close>: the UTC+8 session date of a timestamp, the A-share cash
  session overlap of an interval, and the session extremes a quote implies. Dates are day
  numbers since 1970-01-01; \<open>datetime.fromtimestamp\<close> rounds to microseconds half to even
  and raises outside the years 1 to 9999, which the model keeps.
\<close>

section \<open>Timestamps as UTC+8 microseconds\<close>

definition round_half_even :: "flt \<Rightarrow> int" where
  "round_half_even x =
     (let f = \<lfloor>x\<rfloor>; d = x - of_int f
      in if d < 1 / 2 then f else if d > 1 / 2 then f + 1 else if even f then f else f + 1)"

abbreviation us_per_s :: int where "us_per_s \<equiv> 1000000"

abbreviation us_per_day :: int where "us_per_day \<equiv> 86400000000"

definition from_timestamp :: "flt \<Rightarrow> int res" where
  "from_timestamp ts =
     (let us = round_half_even (ts * of_int us_per_s)
      in if - 62135596800 * us_per_s \<le> us \<and> us + 28800 * us_per_s < 253402300800 * us_per_s
         then Inr (us + 28800 * us_per_s)
         else Inl (ValueError ''timestamp out of range''))"

definition session_id :: "flt \<Rightarrow> int res" where
  "session_id market_timestamp =
     res_bind (from_timestamp market_timestamp) (\<lambda>us. Inr (us div us_per_day))"

definition is_same_session :: "flt \<Rightarrow> flt \<Rightarrow> bool res" where
  "is_same_session left_ts right_ts =
     res_bind (session_id left_ts) (\<lambda>l. res_bind (session_id right_ts) (\<lambda>r. Inr (l = r)))"

definition is_a_share_symbol :: "string \<Rightarrow> bool" where
  "is_a_share_symbol symbol \<longleftrightarrow>
     drop (length symbol - 3) symbol = ''.SH'' \<or> drop (length symbol - 3) symbol = ''.SZ''"

section \<open>Cash session overlap\<close>

definition cash_windows :: "(int \<times> int) list" where
  "cash_windows =
     [((9 * 3600 + 30 * 60) * us_per_s, (11 * 3600 + 30 * 60) * us_per_s),
      (13 * 3600 * us_per_s, 15 * 3600 * us_per_s)]"

definition weekday :: "int \<Rightarrow> int" where
  "weekday day = (day + 3) mod 7"

primrec window_overlaps :: "int \<Rightarrow> int \<Rightarrow> int \<Rightarrow> (int \<times> int) list \<Rightarrow> int \<Rightarrow> int" where
  "window_overlaps start stop day [] tot = tot"
| "window_overlaps start stop day (w # ws) tot =
     (let left = max start (day * us_per_day + fst w);
          right = min stop (day * us_per_day + snd w)
      in window_overlaps start stop day ws
           (if right > left then tot + (right - left) else tot))"

function overlap_days :: "int \<Rightarrow> int \<Rightarrow> int \<Rightarrow> int \<Rightarrow> int \<Rightarrow> int" where
  "overlap_days start stop day final tot =
     (if day \<le> final then
        overlap_days start stop (day + 1) final
          (if weekday day < 5 then window_overlaps start stop day cash_windows tot else tot)
      else tot)"
  by pat_completeness auto
termination
  by (relation "measure (\<lambda>(start, stop, day, final, tot). nat (final + 1 - day))") auto

declare overlap_days.simps [simp del]

definition cash_session_overlap_s :: "pyfloat \<Rightarrow> pyfloat \<Rightarrow> flt res" where
  "cash_session_overlap_s a b =
     (case (a, b) of
        (Fin start_ts, Fin end_ts) \<Rightarrow>
          (let (s, e) = (if end_ts < start_ts then (end_ts, start_ts) else (start_ts, end_ts))
           in if s = e then Inr 0
              else res_bind (from_timestamp s) (\<lambda>start.
                   res_bind (from_timestamp e) (\<lambda>stop.
                     Inr (of_int (overlap_days start stop (start div us_per_day)
                                    (stop div us_per_day) 0) / of_int us_per_s))))
      | _ \<Rightarrow> Inr 0)"

section \<open>Session extremes\<close>

definition session_extreme_high :: "market_snapshot \<Rightarrow> flt" where
  "session_extreme_high s = max (ms_price s) (ms_high s)"

definition session_extreme_low :: "market_snapshot \<Rightarrow> flt" where
  "session_extreme_low s = min (ms_price s) (ms_low s)"

section \<open>Laws of session dates\<close>

lemma round_half_even_mono: "x \<le> y \<Longrightarrow> round_half_even x \<le> round_half_even y"
proof -
  assume le: "x \<le> y"
  then have fl: "\<lfloor>x\<rfloor> \<le> \<lfloor>y\<rfloor>" by (rule floor_mono)
  show ?thesis
  proof (cases "\<lfloor>x\<rfloor> = \<lfloor>y\<rfloor>")
    case True
    with le show ?thesis by (auto simp: round_half_even_def Let_def)
  next
    case False
    with fl have "\<lfloor>x\<rfloor> + 1 \<le> \<lfloor>y\<rfloor>" by simp
    then show ?thesis by (auto simp: round_half_even_def Let_def)
  qed
qed

lemma round_half_even_of_int [simp]: "round_half_even (of_int i) = i"
  by (simp add: round_half_even_def)

lemma from_timestamp_mono:
  "x \<le> y \<Longrightarrow> from_timestamp x = Inr a \<Longrightarrow> from_timestamp y = Inr b \<Longrightarrow> a \<le> b"
  using round_half_even_mono [of "x * of_int us_per_s" "y * of_int us_per_s"]
  by (auto simp: from_timestamp_def Let_def split: if_splits)

lemma from_timestamp_convex:
  assumes "x \<le> y" "y \<le> z" "from_timestamp x = Inr a" "from_timestamp z = Inr c"
  shows "\<exists>b. from_timestamp y = Inr b"
  using assms round_half_even_mono [of "x * of_int us_per_s" "y * of_int us_per_s"]
    round_half_even_mono [of "y * of_int us_per_s" "z * of_int us_per_s"]
  by (auto simp: from_timestamp_def Let_def split: if_splits)

lemma session_id_mono:
  "x \<le> y \<Longrightarrow> session_id x = Inr a \<Longrightarrow> session_id y = Inr b \<Longrightarrow> a \<le> b"
  using from_timestamp_mono [of x y]
  by (auto simp: session_id_def res_simps intro: zdiv_mono1)

lemma session_id_convex:
  assumes "x \<le> y" "y \<le> z" "session_id x = Inr a" "session_id z = Inr c"
  shows "\<exists>b. session_id y = Inr b \<and> a \<le> b \<and> b \<le> c"
proof -
  obtain u v where uv: "from_timestamp x = Inr u" "from_timestamp z = Inr v"
    using assms by (auto simp: session_id_def res_simps)
  obtain w where "from_timestamp y = Inr w"
    using from_timestamp_convex [OF assms(1,2) uv] by blast
  then have "session_id y = Inr (w div us_per_day)" by (simp add: session_id_def)
  then show ?thesis using assms session_id_mono by blast
qed

lemma is_same_session_iff:
  "is_same_session l r = Inr b \<longleftrightarrow>
     (\<exists>x y. session_id l = Inr x \<and> session_id r = Inr y \<and> b = (x = y))"
  by (auto simp: is_same_session_def res_simps)

text \<open>A session is an interval of time: whatever lies between two of its instants is in it.\<close>

lemma same_session_between:
  assumes "is_same_session x z = Inr True" "x \<le> y" "y \<le> z"
  shows "is_same_session y z = Inr True"
  using assms session_id_convex [of x y z] by (force simp: is_same_session_iff)

definition datable :: "flt \<Rightarrow> bool" where
  "datable ts \<longleftrightarrow> \<not> raises (session_id ts)"

lemma datable_iff: "datable ts \<longleftrightarrow> (\<exists>d. session_id ts = Inr d)"
  by (simp add: datable_def not_raises_iff)

lemma is_same_session_datable:
  "datable l \<Longrightarrow> datable r \<Longrightarrow> \<exists>b. is_same_session l r = Inr b"
  by (auto simp: datable_iff is_same_session_iff)

section \<open>Laws of the cash session overlap\<close>

definition clip :: "int \<Rightarrow> int \<Rightarrow> int \<Rightarrow> int \<Rightarrow> int" where
  "clip start stop lo hi = max 0 (min stop hi - max start lo)"

definition day_overlap :: "int \<Rightarrow> int \<Rightarrow> int \<Rightarrow> int" where
  "day_overlap start stop day =
     (if weekday day < 5
      then (\<Sum>w \<leftarrow> cash_windows. clip start stop (day * us_per_day + fst w) (day * us_per_day + snd w))
      else 0)"

lemma window_overlaps_eq:
  "window_overlaps start stop day ws tot =
     tot + (\<Sum>w \<leftarrow> ws. clip start stop (day * us_per_day + fst w) (day * us_per_day + snd w))"
  by (induction ws arbitrary: tot) (auto simp: clip_def Let_def)

lemma overlap_days_eq:
  "overlap_days start stop day final tot = tot + (\<Sum>d \<in> {day..final}. day_overlap start stop d)"
proof (induction start stop day final tot rule: overlap_days.induct)
  case (1 start stop day final tot)
  show ?case
  proof (cases "day \<le> final")
    case True
    then have "{day..final} = insert day {day + 1..final}" by auto
    with True "1.IH" show ?thesis
      by (subst overlap_days.simps) (simp add: day_overlap_def window_overlaps_eq)
  next
    case False
    then show ?thesis by (subst overlap_days.simps) simp
  qed
qed

lemma clip_additive:
  assumes "a \<le> b" "b \<le> c" "lo \<le> hi"
  shows "clip a b lo hi + clip b c lo hi = clip a c lo hi"
  using assms unfolding clip_def max_def min_def by (simp split: if_splits)

lemma day_overlap_additive:
  assumes "a \<le> b" "b \<le> c"
  shows "day_overlap a b d + day_overlap b c d = day_overlap a c d"
proof -
  let ?w = "\<lambda>x y lo hi. clip x y (d * us_per_day + lo) (d * us_per_day + hi)"
  have add: "?w a c lo hi = ?w a b lo hi + ?w b c lo hi" if "lo \<le> hi" for lo hi
    using clip_additive [OF assms] that by simp
  show ?thesis by (simp add: day_overlap_def cash_windows_def add)
qed

lemma day_overlap_nonneg: "0 \<le> day_overlap a b d"
  by (auto simp: day_overlap_def cash_windows_def clip_def)

lemma day_overlap_le: "day_overlap a b d \<le> 14400 * us_per_s"
  by (auto simp: day_overlap_def cash_windows_def clip_def)

lemma day_overlap_outside:
  assumes "d < a div us_per_day \<or> b div us_per_day < d"
  shows "day_overlap a b d = 0"
proof -
  have "a div us_per_day * us_per_day \<le> a" "b < (b div us_per_day + 1) * us_per_day"
    by (simp_all add: algebra_simps)
  moreover have "d * us_per_day + us_per_day \<le> a div us_per_day * us_per_day
      \<or> (b div us_per_day + 1) * us_per_day \<le> d * us_per_day"
    using assms by auto
  ultimately show ?thesis
    by (auto simp: day_overlap_def cash_windows_def clip_def algebra_simps)
qed

definition total_overlap :: "int \<Rightarrow> int \<Rightarrow> int" where
  "total_overlap a b = (\<Sum>d \<in> {a div us_per_day..b div us_per_day}. day_overlap a b d)"

lemma total_overlap_wider:
  assumes "lo \<le> a div us_per_day" "b div us_per_day \<le> hi"
  shows "total_overlap a b = (\<Sum>d \<in> {lo..hi}. day_overlap a b d)"
  unfolding total_overlap_def
  using assms by (intro sum.mono_neutral_left) (auto intro: day_overlap_outside)

lemma total_overlap_additive:
  assumes "a \<le> b" "b \<le> c"
  shows "total_overlap a b + total_overlap b c = total_overlap a c"
proof -
  let ?D = "{a div us_per_day..c div us_per_day}"
  have "a div us_per_day \<le> b div us_per_day" "b div us_per_day \<le> c div us_per_day"
    using assms by (auto intro: zdiv_mono1)
  then have "total_overlap a b = (\<Sum>d \<in> ?D. day_overlap a b d)"
    "total_overlap b c = (\<Sum>d \<in> ?D. day_overlap b c d)"
    by (auto intro: total_overlap_wider)
  then show ?thesis
    using assms by (simp add: total_overlap_def day_overlap_additive flip: sum.distrib)
qed

lemma cash_overlap_total:
  assumes "a < b" "from_timestamp a = Inr s" "from_timestamp b = Inr e"
  shows "cash_session_overlap_s (Fin a) (Fin b) = Inr (of_int (total_overlap s e) / of_int us_per_s)"
  using assms by (simp add: cash_session_overlap_s_def overlap_days_eq total_overlap_def)

lemma total_overlap_self: "total_overlap s s = 0"
  using total_overlap_additive [of s s s] by simp

lemma cash_overlap_total_le:
  assumes "a \<le> b" "from_timestamp a = Inr s" "from_timestamp b = Inr e"
  shows "cash_session_overlap_s (Fin a) (Fin b) = Inr (of_int (total_overlap s e) / of_int us_per_s)"
proof (cases "a = b")
  case True
  with assms show ?thesis by (simp add: cash_session_overlap_s_def total_overlap_self)
next
  case False
  with assms show ?thesis by (intro cash_overlap_total) auto
qed

text \<open>The observed market time is additive. For datable instants \<open>a \<le> b \<le> c\<close> the cash
  session seconds from \<open>a\<close> to \<open>c\<close> are those from \<open>a\<close> to \<open>b\<close> plus those from \<open>b\<close> to \<open>c\<close>, so
  splitting an observation period never loses or double counts a market second, across
  lunch breaks, nights and weekends.
\<close>

theorem cash_session_overlap_additive:
  assumes "a \<le> b" "b \<le> c"
    and "cash_session_overlap_s (Fin a) (Fin b) = Inr x"
    and "cash_session_overlap_s (Fin b) (Fin c) = Inr y"
    and "datable a" "datable b" "datable c"
  shows "cash_session_overlap_s (Fin a) (Fin c) = Inr (x + y)"
proof -
  obtain s t e where st: "from_timestamp a = Inr s" "from_timestamp b = Inr t" "from_timestamp c = Inr e"
    using assms(5-7) by (auto simp: datable_iff session_id_def res_simps)
  have "s \<le> t" "t \<le> e" using from_timestamp_mono assms(1,2) st by blast+
  then have "of_int (total_overlap s t) + of_int (total_overlap t e) = (of_int (total_overlap s e) :: rat)"
    by (simp flip: of_int_add add: total_overlap_additive)
  then show ?thesis
    using assms(1-4) st by (simp add: cash_overlap_total_le add_divide_distrib [symmetric])
qed

theorem cash_session_overlap_additive_witness:
  "cash_session_overlap_s (Fin 1700190000) (Fin 1700204400) = Inr (1800 + 7200)"
proof (rule cash_session_overlap_additive [where b = 1700197200])
  show "cash_session_overlap_s (Fin 1700190000) (Fin 1700197200) = Inr 1800" by code_simp
  show "cash_session_overlap_s (Fin 1700197200) (Fin 1700204400) = Inr 7200" by code_simp
  show "datable 1700190000" "datable 1700197200" "datable 1700204400" by code_simp+
qed simp_all

end
