(* ===== verification/Normalizer.thy ===== *)
theory Normalizer
  imports Domain
begin

text \<open>
  \<open>market_data/normalizer.py\<close>: the symbol format, the field checks that turn a raw quote
  into a \<open>MarketSnapshot\<close>, and the batch loop that drops invalid rows. The parser behind
  \<open>float(str)\<close> and \<open>str()\<close> of a non-string value are parameters.
\<close>

section \<open>Symbols\<close>

definition ascii_alnum :: "char \<Rightarrow> bool" where
  "ascii_alnum c \<longleftrightarrow>
     (let n = (of_char c :: nat)
      in (48 \<le> n \<and> n \<le> 57) \<or> (65 \<le> n \<and> n \<le> 90) \<or> (97 \<le> n \<and> n \<le> 122))"

definition symbol_fullmatch :: "string \<Rightarrow> bool" where
  "symbol_fullmatch s \<longleftrightarrow>
     3 < length s
     \<and> drop (length s - 3) s \<in> {''.SH'', ''.SZ'', ''.HK''}
     \<and> list_all ascii_alnum (take (length s - 3) s)"

text \<open>\<open>re.match\<close> anchors only the start, and \<open>$\<close> also matches before one final newline.\<close>

definition newline :: char where
  "newline = char_of (10 :: nat)"

definition is_valid_symbol :: "string \<Rightarrow> bool" where
  "is_valid_symbol s \<longleftrightarrow>
     symbol_fullmatch s \<or> (s \<noteq> [] \<and> last s = newline \<and> symbol_fullmatch (butlast s))"

section \<open>Field checks\<close>

type_synonym raw_quote = "(string, pyval) dict"

type_synonym float_parser = "string \<Rightarrow> pyfloat option"

definition required_fields :: "string list" where
  "required_fields =
     [''symbol'', ''price'', ''open'', ''high'', ''low'', ''prev_close'', ''volume'',
      ''market_timestamp'']"

fun py_str :: "(pyval \<Rightarrow> string) \<Rightarrow> pyval \<Rightarrow> string" where
  "py_str str_of (PyStr s) = s"
| "py_str str_of v = str_of v"

definition raw_get :: "raw_quote \<Rightarrow> string \<Rightarrow> pyval" where
  "raw_get raw field = (case dict_get raw field of Some v \<Rightarrow> v | None \<Rightarrow> PyNone)"

definition require_finite_number :: "float_parser \<Rightarrow> pyval \<Rightarrow> string \<Rightarrow> flt res" where
  "require_finite_number parse v field =
     (case py_float parse v of
        Inl TypeError \<Rightarrow> Inl (SnapshotValidationError (''invalid '' @ field))
      | Inl (ValueError m) \<Rightarrow> Inl (SnapshotValidationError (''invalid '' @ field))
      | Inl e \<Rightarrow> Inl e
      | Inr (Fin x) \<Rightarrow> Inr x
      | Inr _ \<Rightarrow> Inl (SnapshotValidationError (''invalid '' @ field)))"

definition require_positive_number :: "float_parser \<Rightarrow> pyval \<Rightarrow> string \<Rightarrow> flt res" where
  "require_positive_number parse v field =
     res_bind (require_finite_number parse v field) (\<lambda>number.
       if number \<le> 0 then Inl (SnapshotValidationError (''invalid '' @ field)) else Inr number)"

definition require_timestamp :: "float_parser \<Rightarrow> pyval \<Rightarrow> flt res" where
  "require_timestamp parse v =
     res_bind (require_finite_number parse v ''timestamp'') (\<lambda>number.
       if number < 0 then Inl (SnapshotValidationError ''invalid timestamp'') else Inr number)"

definition require_turnover :: "float_parser \<Rightarrow> raw_quote \<Rightarrow> flt option res" where
  "require_turnover parse raw =
     (case dict_get raw ''turnover'' of
        None \<Rightarrow> Inr None
      | Some PyNone \<Rightarrow> Inr None
      | Some v \<Rightarrow>
          res_bind (require_finite_number parse v ''turnover'') (\<lambda>t.
            if t < 0 then Inl (SnapshotValidationError ''invalid turnover'') else Inr (Some t)))"

definition normalize_snapshot ::
    "float_parser \<Rightarrow> (pyval \<Rightarrow> string) \<Rightarrow> fake_clock \<Rightarrow> raw_quote \<Rightarrow> market_snapshot res" where
  "normalize_snapshot parse str_of clock raw =
     (case filter (\<lambda>field. dict_get raw field = None) required_fields of
        field # _ \<Rightarrow> Inl (SnapshotValidationError (''missing field: '' @ field))
      | [] \<Rightarrow>
         (let symbol = py_str str_of (raw_get raw ''symbol'')
          in if \<not> symbol_fullmatch symbol
             then Inl (SnapshotValidationError (''invalid symbol: '' @ symbol))
             else
               res_bind (require_positive_number parse (raw_get raw ''price'') ''price'') (\<lambda>price.
               res_bind (require_finite_number parse (raw_get raw ''open'') ''open'') (\<lambda>opn.
               res_bind (require_finite_number parse (raw_get raw ''high'') ''high'') (\<lambda>high.
               res_bind (require_finite_number parse (raw_get raw ''low'') ''low'') (\<lambda>low.
               res_bind (require_finite_number parse (raw_get raw ''prev_close'') ''prev_close'') (\<lambda>prev_close.
               res_bind (require_finite_number parse (raw_get raw ''volume'') ''volume'') (\<lambda>volume.
               if volume < 0 then Inl (SnapshotValidationError ''invalid volume'') else
               res_bind (require_timestamp parse (raw_get raw ''market_timestamp'')) (\<lambda>market_timestamp.
               res_bind (require_turnover parse raw) (\<lambda>turnover.
                 Inr \<lparr>ms_symbol = symbol, ms_price = price, ms_open = opn, ms_high = high,
                   ms_low = low, ms_prev_close = prev_close, ms_volume = volume,
                   ms_turnover = turnover, ms_market_timestamp = market_timestamp,
                   ms_received_timestamp = fc_wall clock\<rparr>))))))))))"

primrec normalize_many ::
    "float_parser \<Rightarrow> (pyval \<Rightarrow> string) \<Rightarrow> fake_clock \<Rightarrow> raw_quote list \<Rightarrow> market_snapshot list res" where
  "normalize_many parse str_of clock [] = Inr []"
| "normalize_many parse str_of clock (raw # rows) =
     (case normalize_snapshot parse str_of clock raw of
        Inr s \<Rightarrow> res_bind (normalize_many parse str_of clock rows) (\<lambda>rest. Inr (s # rest))
      | Inl (SnapshotValidationError m) \<Rightarrow> normalize_many parse str_of clock rows
      | Inl e \<Rightarrow> Inl e)"

section \<open>What a normalized snapshot promises\<close>

definition snapshot_ok :: "market_snapshot \<Rightarrow> bool" where
  "snapshot_ok s \<longleftrightarrow>
     symbol_fullmatch (ms_symbol s) \<and> 0 < ms_price s \<and> 0 \<le> ms_volume s
     \<and> (\<forall>t. ms_turnover s = Some t \<longrightarrow> 0 \<le> t) \<and> 0 \<le> ms_market_timestamp s"

definition numeric_fields :: "string list" where
  "numeric_fields = [''price'', ''open'', ''high'', ''low'', ''prev_close'', ''volume'', ''market_timestamp'']"

text \<open>A row whose numeric fields are integers beyond the range of a double.\<close>

definition overflows :: "raw_quote \<Rightarrow> bool" where
  "overflows raw \<longleftrightarrow>
     (\<exists>field \<in> set (''turnover'' # numeric_fields). \<exists>i.
        dict_get raw field = Some (PyInt i) \<and> float_max_int \<le> \<bar>i\<bar>)"

lemma require_finite_number_errors:
  assumes "require_finite_number parse v field = Inl e"
  shows "(\<exists>m. e = SnapshotValidationError m) \<or> (\<exists>i. v = PyInt i \<and> float_max_int \<le> \<bar>i\<bar>)"
  using assms
  by (cases v) (auto simp: require_finite_number_def split: pyfloat.splits option.splits if_splits)

lemma require_positive_number_Inr: "require_positive_number parse v field = Inr x \<Longrightarrow> 0 < x"
  by (auto simp: require_positive_number_def res_simps split: if_splits)

lemma require_timestamp_Inr: "require_timestamp parse v = Inr x \<Longrightarrow> 0 \<le> x"
  by (auto simp: require_timestamp_def res_simps split: if_splits)

lemma require_turnover_Inr: "require_turnover parse raw = Inr (Some x) \<Longrightarrow> 0 \<le> x"
  by (auto simp: require_turnover_def res_simps split: if_splits option.splits pyval.splits)

lemma missing_field_case:
  "(case filter (\<lambda>field. dict_get raw field = None) required_fields of
      field # _ \<Rightarrow> Inl (E field) | [] \<Rightarrow> m) = Inr s \<longleftrightarrow>
   (\<forall>field \<in> set required_fields. dict_get raw field \<noteq> None) \<and> m = Inr s"
  by (cases "filter (\<lambda>field. dict_get raw field = None) required_fields")
    (auto simp: filter_empty_conv dest: arg_cong [where f = set])

lemma if_Inl_eq_Inr: "(if b then Inl e else m) = Inr x \<longleftrightarrow> \<not> b \<and> m = Inr x"
  by simp

lemma normalize_snapshot_fields:
  assumes "normalize_snapshot parse str_of clock raw = Inr s"
  shows "symbol_fullmatch (ms_symbol s)"
    and "ms_symbol s = py_str str_of (raw_get raw ''symbol'')"
    and "require_positive_number parse (raw_get raw ''price'') ''price'' = Inr (ms_price s)"
    and "0 \<le> ms_volume s"
    and "require_turnover parse raw = Inr (ms_turnover s)"
    and "require_timestamp parse (raw_get raw ''market_timestamp'') = Inr (ms_market_timestamp s)"
    and "ms_received_timestamp s = fc_wall clock"
  using assms
  unfolding normalize_snapshot_def missing_field_case Let_def if_Inl_eq_Inr res_bind_Inr_iff
  by auto

text \<open>C38: Normalization guarantees a well-formed snapshot. Whatever raw row the normalizer
  accepts yields a snapshot whose symbol fully matches the exchange format, whose price is
  positive, whose volume, turnover and market time are not negative, and whose receive
  time is the wall clock.
\<close>

theorem normalize_snapshot_ok:
  assumes "normalize_snapshot parse str_of clock raw = Inr s"
  shows "snapshot_ok s \<and> ms_received_timestamp s = fc_wall clock
    \<and> ms_symbol s = py_str str_of (raw_get raw ''symbol'')"
  using normalize_snapshot_fields [OF assms] require_positive_number_Inr require_timestamp_Inr
    require_turnover_Inr
  unfolding snapshot_ok_def by metis

definition sample_quote :: raw_quote where
  "sample_quote =
     [(''symbol'', PyStr ''600519.SH''), (''price'', PyFloat (Fin (3 / 2))), (''open'', PyInt 1),
      (''high'', PyInt 2), (''low'', PyInt 1), (''prev_close'', PyInt 1), (''volume'', PyInt 10),
      (''market_timestamp'', PyInt 1700000000)]"

definition sample_snapshot :: market_snapshot where
  "sample_snapshot =
     \<lparr>ms_symbol = ''600519.SH'', ms_price = 3 / 2, ms_open = 1, ms_high = 2, ms_low = 1,
      ms_prev_close = 1, ms_volume = 10, ms_turnover = None, ms_market_timestamp = 1700000000,
      ms_received_timestamp = 5\<rparr>"

lemma sample_quote_normalized:
  "normalize_snapshot parse str_of \<lparr>fc_wall = 5, fc_mono = 0\<rparr> sample_quote = Inr sample_snapshot"
  by code_simp

theorem normalize_snapshot_ok_witness:
  "snapshot_ok sample_snapshot \<and> ms_received_timestamp sample_snapshot = 5"
  using normalize_snapshot_ok [OF sample_quote_normalized [where parse = "\<lambda>_. None" and str_of = "\<lambda>_. []"]]
  by simp

section \<open>The batch loop\<close>

text \<open>
  A computation is benign for a row when it can only fail with a validation error, which
  the loop drops, unless the row carries an oversized integer.
\<close>

definition benign :: "raw_quote \<Rightarrow> 'a res \<Rightarrow> bool" where
  "benign raw m \<longleftrightarrow> (\<forall>e. m = Inl e \<longrightarrow> (\<exists>msg. e = SnapshotValidationError msg) \<or> overflows raw)"

lemma benign_bind:
  "benign raw m \<Longrightarrow> (\<And>x. benign raw (f x)) \<Longrightarrow> benign raw (res_bind m f)"
  by (auto simp: benign_def res_simps)

lemma benign_if: "benign raw m \<Longrightarrow> benign raw m' \<Longrightarrow> benign raw (if b then m else m')"
  by simp

lemma benign_Inr: "benign raw (Inr x)"
  by (simp add: benign_def)

lemma benign_invalid: "benign raw (Inl (SnapshotValidationError msg))"
  by (simp add: benign_def)

lemmas benign_intros = benign_bind benign_if benign_Inr benign_invalid

lemma benign_require_finite:
  assumes "field \<in> set (''turnover'' # numeric_fields)" and "dict_get raw field = Some v"
  shows "benign raw (require_finite_number parse v name)"
proof (unfold benign_def, intro allI impI)
  fix e assume "require_finite_number parse v name = Inl e"
  then consider (invalid) m where "e = SnapshotValidationError m"
    | (big) i where "v = PyInt i" "float_max_int \<le> \<bar>i\<bar>"
    using require_finite_number_errors by metis
  then show "(\<exists>msg. e = SnapshotValidationError msg) \<or> overflows raw"
  proof cases
    case big
    then show ?thesis
      unfolding overflows_def using assms by (intro disjI2 bexI [of _ field] exI [of _ i]) simp_all
  qed simp
qed

lemma benign_require_turnover: "benign raw (require_turnover parse raw)"
proof (cases "dict_get raw ''turnover''")
  case None
  then show ?thesis by (simp add: require_turnover_def benign_Inr)
next
  case (Some v)
  have "benign raw (res_bind (require_finite_number parse v ''turnover'') (\<lambda>t.
     if t < 0 then Inl (SnapshotValidationError ''invalid turnover'') else Inr (Some t)))"
    using Some by (intro benign_intros benign_require_finite [where field = "''turnover''"]) simp_all
  with Some show ?thesis by (cases v) (simp_all add: require_turnover_def benign_Inr)
qed

lemma benign_normalize_snapshot: "benign raw (normalize_snapshot parse str_of clock raw)"
proof (cases "filter (\<lambda>field. dict_get raw field = None) required_fields")
  case (Cons field rest)
  then show ?thesis by (simp add: normalize_snapshot_def benign_invalid)
next
  case Nil
  have num: "benign raw (require_finite_number parse (raw_get raw field) name)"
    if "field \<in> set numeric_fields" for field name
  proof (rule benign_require_finite)
    show "field \<in> set (''turnover'' # numeric_fields)" using that by simp
    have "field \<in> set required_fields"
      using that unfolding numeric_fields_def required_fields_def set_simps by blast
    then show "dict_get raw field = Some (raw_get raw field)"
      using Nil by (auto simp: filter_empty_conv raw_get_def)
  qed
  show ?thesis
    unfolding normalize_snapshot_def Nil Let_def require_positive_number_def require_timestamp_def
      list.case
    by (intro benign_intros benign_require_turnover num)
      (simp_all only: numeric_fields_def set_simps insert_iff simp_thms)
qed

text \<open>Dropping invalid rows. Unless a row carries an integer beyond the range of a double,
  the batch loop never fails: it returns exactly the snapshots of the acceptable rows, in
  their order.
\<close>

theorem normalize_many_keeps_valid:
  assumes "\<forall>raw \<in> set rows. \<not> overflows raw"
  shows "normalize_many parse str_of clock rows =
    Inr (List.map_filter (\<lambda>raw. case normalize_snapshot parse str_of clock raw of
                            Inr s \<Rightarrow> Some s | Inl _ \<Rightarrow> None) rows)"
  using assms
proof (induction rows)
  case Nil
  then show ?case by (simp add: List.map_filter_def)
next
  case (Cons raw rows)
  show ?case
  proof (cases "normalize_snapshot parse str_of clock raw")
    case (Inl e)
    then obtain m where "e = SnapshotValidationError m"
      using benign_normalize_snapshot Cons.prems unfolding benign_def by fastforce
    with Inl Cons show ?thesis by (simp add: List.map_filter_def)
  next
    case (Inr s)
    with Cons show ?thesis by (simp add: List.map_filter_def)
  qed
qed

theorem normalize_many_keeps_valid_witness:
  "normalize_many (\<lambda>_. None) (\<lambda>_. []) \<lparr>fc_wall = 5, fc_mono = 0\<rparr> [[], sample_quote] =
    Inr [sample_snapshot]"
proof -
  have "\<not> overflows []" by (simp add: overflows_def)
  moreover have "\<not> overflows sample_quote"
    by (simp add: overflows_def sample_quote_def numeric_fields_def float_max_int_def)
  ultimately have "\<forall>raw \<in> set [[], sample_quote]. \<not> overflows raw" by simp
  moreover have "\<exists>e. normalize_snapshot (\<lambda>_. None) (\<lambda>_. []) \<lparr>fc_wall = 5, fc_mono = 0\<rparr> [] = Inl e"
    by (simp add: normalize_snapshot_def required_fields_def)
  ultimately show ?thesis
    using normalize_many_keeps_valid [of "[[], sample_quote]" "\<lambda>_. None" "\<lambda>_. []" "\<lparr>fc_wall = 5, fc_mono = 0\<rparr>"]
    by (auto simp: List.map_filter_def sample_quote_normalized)
qed

text \<open>A row with an oversized integer is not dropped. Such a quote makes \<open>float()\<close> raise
  \<open>OverflowError\<close>, which the batch loop does not catch: the whole batch fails although the
  loop exists to drop invalid snapshots.
\<close>

theorem normalize_many_overflow_escapes:
  "normalize_many parse str_of clock [sample_quote, dict_set ''volume'' (PyInt (2 ^ 1024)) sample_quote]
     = Inl OverflowError"
  by code_simp

text \<open>The public symbol check is wider than the normalizer's. \<open>is_valid_symbol\<close> accepts a
  symbol exactly when the normalizer's full match does or when the symbol is a full match
  followed by one newline, and the normalizer never produces a snapshot with such a symbol.
\<close>

theorem is_valid_symbol_wider:
  "(is_valid_symbol s \<longleftrightarrow> symbol_fullmatch s \<or> (\<exists>t. s = t @ [newline] \<and> symbol_fullmatch t))
   \<and> is_valid_symbol (''600519.SH'' @ [newline])
   \<and> \<not> (\<exists>parse str_of clock raw snap. normalize_snapshot parse str_of clock raw = Inr snap
          \<and> (\<exists>t. ms_symbol snap = t @ [newline]))"
proof (intro conjI)
  show "is_valid_symbol s \<longleftrightarrow> symbol_fullmatch s \<or> (\<exists>t. s = t @ [newline] \<and> symbol_fullmatch t)"
    by (auto simp: is_valid_symbol_def) (metis append_butlast_last_id)
  show "is_valid_symbol (''600519.SH'' @ [newline])" by code_simp
  have no_newline: "\<not> symbol_fullmatch (t @ [newline])" for t
  proof
    assume a: "symbol_fullmatch (t @ [newline])"
    then have "last (drop (length (t @ [newline]) - 3) (t @ [newline])) = newline"
      by (subst last_drop) (auto simp: symbol_fullmatch_def)
    moreover have "last ''.SH'' \<noteq> newline" "last ''.SZ'' \<noteq> newline" "last ''.HK'' \<noteq> newline"
      by code_simp+
    ultimately show False using a unfolding symbol_fullmatch_def by auto
  qed
  show "\<not> (\<exists>parse str_of clock raw snap. normalize_snapshot parse str_of clock raw = Inr snap
          \<and> (\<exists>t. ms_symbol snap = t @ [newline]))"
    using normalize_snapshot_fields(1) no_newline by metis
qed

end
