(* ===== verification/Ring_Buffer.thy ===== *)
theory Ring_Buffer
  imports Domain
begin

text \<open>
  \<open>market_data/ring_buffer.py\<close> and \<open>market_data/buffers.py\<close>: the per-symbol snapshot
  history, kept sorted by market time by binary search, bounded in age and in length.
  The interface the feature code relies on is the locale \<open>timeline\<close>; the abstract view of
  a buffer is the partial map from market time to snapshot.
\<close>

section \<open>The buffer\<close>

record ring_buffer =
  rb_retention_s :: flt
  rb_max_size :: int
  rb_items :: "market_snapshot list"

abbreviation mt :: "market_snapshot \<Rightarrow> flt" where "mt \<equiv> ms_market_timestamp"

definition rb_new :: "flt \<Rightarrow> int \<Rightarrow> ring_buffer res" where
  "rb_new retention_s max_size =
     (if retention_s \<le> 0 then Inl (ValueError ''retention_s must be positive'')
      else if max_size \<le> 0 then Inl (ValueError ''max_size must be positive'')
      else Inr \<lparr>rb_retention_s = retention_s, rb_max_size = max_size, rb_items = []\<rparr>)"

text \<open>\<open>_evict\<close> is only called after an insertion, so \<open>self._items[-1]\<close> exists.\<close>

definition rb_evict :: "ring_buffer \<Rightarrow> ring_buffer" where
  "rb_evict b =
     (let newest = mt (last (rb_items b));
          cutoff = newest - rb_retention_s b;
          items = dropWhile (\<lambda>s. mt s < cutoff) (rb_items b);
          overflow = int (length items) - rb_max_size b
      in b\<lparr>rb_items := if overflow > 0 then drop (nat overflow) items else items\<rparr>)"

definition rb_insert :: "market_snapshot list \<Rightarrow> market_snapshot \<Rightarrow> market_snapshot list" where
  "rb_insert items s =
     (let index = bisect_left (map mt items) (mt s)
      in if index < length items \<and> mt (items ! index) = mt s
         then items[index := s]
         else take index items @ s # drop index items)"

definition rb_append :: "ring_buffer \<Rightarrow> market_snapshot \<Rightarrow> ring_buffer" where
  "rb_append b s = rb_evict (b\<lparr>rb_items := rb_insert (rb_items b) s\<rparr>)"

definition rb_latest :: "ring_buffer \<Rightarrow> market_snapshot option" where
  "rb_latest b = (if rb_items b = [] then None else Some (last (rb_items b)))"

definition rb_since :: "ring_buffer \<Rightarrow> flt \<Rightarrow> market_snapshot list" where
  "rb_since b timestamp = filter (\<lambda>s. timestamp \<le> mt s) (rb_items b)"

definition rb_window :: "ring_buffer \<Rightarrow> flt \<Rightarrow> market_snapshot list" where
  "rb_window b duration_s =
     (case rb_latest b of None \<Rightarrow> [] | Some latest \<Rightarrow> rb_since b (mt latest - duration_s))"

definition rb_at_or_before :: "ring_buffer \<Rightarrow> flt \<Rightarrow> market_snapshot option" where
  "rb_at_or_before b timestamp =
     (if rb_items b = [] then None
      else let index = int (bisect_right (map mt (rb_items b)) timestamp) - 1
           in if index < 0 then None else Some (rb_items b ! nat index))"

section \<open>One buffer per symbol\<close>

record symbol_buffers =
  sb_retention_s :: flt
  sb_max_size :: int
  sb_buffers :: "string \<rightharpoonup> ring_buffer"

definition sb_new :: "flt \<Rightarrow> int \<Rightarrow> symbol_buffers" where
  "sb_new retention_s max_size =
     \<lparr>sb_retention_s = retention_s, sb_max_size = max_size, sb_buffers = Map.empty\<rparr>"

definition sb_buffer_for :: "symbol_buffers \<Rightarrow> string \<Rightarrow> (ring_buffer \<times> symbol_buffers) res" where
  "sb_buffer_for bs symbol =
     (case sb_buffers bs symbol of
        Some b \<Rightarrow> Inr (b, bs)
      | None \<Rightarrow> res_bind (rb_new (sb_retention_s bs) (sb_max_size bs)) (\<lambda>b.
          Inr (b, bs\<lparr>sb_buffers := (sb_buffers bs)(symbol \<mapsto> b)\<rparr>)))"

definition sb_buffer :: "symbol_buffers \<Rightarrow> string \<Rightarrow> ring_buffer option" where
  "sb_buffer bs symbol = sb_buffers bs symbol"

definition sb_append :: "symbol_buffers \<Rightarrow> market_snapshot \<Rightarrow> symbol_buffers res" where
  "sb_append bs s =
     res_bind (sb_buffer_for bs (ms_symbol s)) (\<lambda>(b, bs').
       Inr (bs'\<lparr>sb_buffers := (sb_buffers bs')(ms_symbol s \<mapsto> rb_append b s)\<rparr>))"

definition sb_latest :: "symbol_buffers \<Rightarrow> string \<Rightarrow> market_snapshot option" where
  "sb_latest bs symbol = (case sb_buffers bs symbol of None \<Rightarrow> None | Some b \<Rightarrow> rb_latest b)"

definition sb_at_or_before :: "symbol_buffers \<Rightarrow> string \<Rightarrow> flt \<Rightarrow> market_snapshot option" where
  "sb_at_or_before bs symbol timestamp =
     (case sb_buffers bs symbol of None \<Rightarrow> None | Some b \<Rightarrow> rb_at_or_before b timestamp)"

definition sb_window :: "symbol_buffers \<Rightarrow> string \<Rightarrow> flt \<Rightarrow> (market_snapshot list \<times> symbol_buffers) res" where
  "sb_window bs symbol duration_s =
     res_bind (sb_buffer_for bs symbol) (\<lambda>(b, bs'). Inr (rb_window b duration_s, bs'))"

definition sb_since :: "symbol_buffers \<Rightarrow> string \<Rightarrow> flt \<Rightarrow> (market_snapshot list \<times> symbol_buffers) res" where
  "sb_since bs symbol timestamp =
     res_bind (sb_buffer_for bs symbol) (\<lambda>(b, bs'). Inr (rb_since b timestamp, bs'))"

section \<open>Invariant and abstract view\<close>

definition ascending :: "market_snapshot list \<Rightarrow> bool" where
  "ascending xs \<longleftrightarrow> sorted_wrt (<) (map mt xs)"

definition rb_inv :: "ring_buffer \<Rightarrow> bool" where
  "rb_inv b \<longleftrightarrow>
     0 < rb_retention_s b \<and> 0 < rb_max_size b \<and> ascending (rb_items b)
     \<and> int (length (rb_items b)) \<le> rb_max_size b
     \<and> (\<forall>s \<in> set (rb_items b). mt (last (rb_items b)) - rb_retention_s b \<le> mt s)"

definition view :: "market_snapshot list \<Rightarrow> flt \<rightharpoonup> market_snapshot" where
  "view xs = map_of (map (\<lambda>s. (mt s, s)) xs)"

text \<open>Insertion by position, the reference for the binary search.\<close>

fun ins :: "market_snapshot \<Rightarrow> market_snapshot list \<Rightarrow> market_snapshot list" where
  "ins s [] = [s]"
| "ins s (x # xs) =
     (if mt x < mt s then x # ins s xs else if mt x = mt s then s # xs else s # x # xs)"

lemma ascending_simps [simp]:
  "ascending []"
  "ascending (x # xs) \<longleftrightarrow> (\<forall>y \<in> set xs. mt x < mt y) \<and> ascending xs"
  by (auto simp: ascending_def)

lemma ascending_sorted: "ascending xs \<Longrightarrow> sorted (map mt xs)"
  by (induction xs) (auto simp: less_imp_le)

lemma ascending_append:
  "ascending (xs @ ys) \<longleftrightarrow> ascending xs \<and> ascending ys \<and> (\<forall>x \<in> set xs. \<forall>y \<in> set ys. mt x < mt y)"
  by (induction xs) auto

lemma ascending_drop: "ascending xs \<Longrightarrow> ascending (drop n xs)"
  by (metis append_take_drop_id ascending_append)

lemma ascending_dropWhile: "ascending xs \<Longrightarrow> ascending (dropWhile P xs)"
  by (metis takeWhile_dropWhile_id ascending_append)

lemma ascending_filter: "ascending xs \<Longrightarrow> ascending (filter P xs)"
  by (induction xs) auto

lemma ascending_last: "ascending xs \<Longrightarrow> x \<in> set xs \<Longrightarrow> mt x \<le> mt (last xs)"
  by (induction xs) (auto intro: less_imp_le)

lemma ascending_inj: "ascending xs \<Longrightarrow> x \<in> set xs \<Longrightarrow> y \<in> set xs \<Longrightarrow> mt x = mt y \<Longrightarrow> x = y"
  by (induction xs) auto

lemma insert_at_takeWhile:
  "(let i = length (takeWhile (\<lambda>x. mt x < mt s) xs)
    in if i < length xs \<and> mt (xs ! i) = mt s then xs[i := s] else take i xs @ s # drop i xs) = ins s xs"
  by (induction xs) (auto simp: Let_def)

lemma rb_insert_eq_ins: "ascending xs \<Longrightarrow> rb_insert xs s = ins s xs"
proof -
  assume "ascending xs"
  then have "bisect_left (map mt xs) (mt s) = length (takeWhile (\<lambda>x. mt x < mt s) xs)"
    by (simp add: bisect_left_sorted ascending_sorted takeWhile_map o_def)
  then show ?thesis by (simp add: rb_insert_def insert_at_takeWhile)
qed

lemma set_ins: "ascending xs \<Longrightarrow> set (ins s xs) = insert s {x \<in> set xs. mt x \<noteq> mt s}"
  by (induction xs) auto

lemma ascending_ins: "ascending xs \<Longrightarrow> ascending (ins s xs)"
  by (induction xs) (auto simp: set_ins)

lemma ins_not_Nil [simp]: "ins s xs \<noteq> []"
  by (cases xs) auto

lemma view_Cons [simp]: "view (x # xs) = (view xs)(mt x \<mapsto> x)"
  by (simp add: view_def)

lemma view_Nil [simp]: "view [] = Map.empty"
  by (simp add: view_def)

lemma dom_view: "dom (view xs) = mt ` set xs"
  by (simp add: view_def dom_map_of_conv_image_fst image_image)

lemma view_ins: "ascending xs \<Longrightarrow> view (ins s xs) = (view xs)(mt s \<mapsto> s)"
proof (induction xs)
  case (Cons x xs)
  have "mt x = mt s \<Longrightarrow> view xs (mt s) = None"
    using Cons.prems by (metis ascending_simps(2) domIff dom_view imageE less_irrefl)
  with Cons show ?case by (auto simp: fun_eq_iff)
qed simp

lemma view_append: "view (xs @ ys) t = (case view xs t of Some s \<Rightarrow> Some s | None \<Rightarrow> view ys t)"
  by (induction xs) auto

lemma view_unique: "ascending xs \<Longrightarrow> view xs t = Some s \<longleftrightarrow> s \<in> set xs \<and> mt s = t"
  by (induction xs) auto

lemma view_filter: "ascending xs \<Longrightarrow> view (filter P xs) t =
    (case view xs t of Some s \<Rightarrow> if P s then Some s else None | None \<Rightarrow> None)"
proof (induction xs)
  case (Cons x xs)
  have "view xs (mt x) = None"
    using Cons.prems by (metis ascending_simps(2) domIff dom_view imageE less_irrefl)
  with Cons show ?case by auto
qed simp

lemma dropWhile_old_eq_filter:
  "ascending xs \<Longrightarrow> dropWhile (\<lambda>s. mt s < c) xs = filter (\<lambda>s. c \<le> mt s) xs"
proof (induction xs)
  case (Cons x xs)
  have "c \<le> mt x \<Longrightarrow> filter (\<lambda>s. c \<le> mt s) xs = xs"
    using Cons.prems by (force simp: filter_id_conv)
  with Cons show ?case by auto
qed simp

text \<open>Dropping from the front keeps the snapshots with fewer later ones than places left.\<close>

lemma card_later_bound:
  assumes "ascending xs" "t \<in> mt ` set xs"
  shows "card {u \<in> mt ` set xs. t < u} < length xs"
proof -
  have "{u \<in> mt ` set xs. t < u} \<subset> mt ` set xs" using assms(2) by auto
  then have "card {u \<in> mt ` set xs. t < u} < card (mt ` set xs)"
    by (intro psubset_card_mono) auto
  also have "\<dots> \<le> length xs" by (metis card_length set_map length_map)
  finally show ?thesis .
qed

lemma card_times: "ascending xs \<Longrightarrow> card (mt ` set xs) = length xs"
  by (metis ascending_def distinct_card length_map set_map strict_sorted_iff)

lemma view_suffix:
  assumes "ascending (ys @ zs)"
  shows "view zs = view (ys @ zs) |` {t. card {u \<in> dom (view (ys @ zs)). t < u} < length zs}"
proof
  fix t
  let ?later = "{u \<in> dom (view (ys @ zs)). t < u}"
  have zs: "ascending zs" and ys: "\<And>y z. y \<in> set ys \<Longrightarrow> z \<in> set zs \<Longrightarrow> mt y < mt z"
    using assms by (auto simp: ascending_append)
  show "view zs t = (view (ys @ zs) |` {t. card {u \<in> dom (view (ys @ zs)). t < u} < length zs}) t"
  proof (cases "view ys t")
    case None
    then have same: "view (ys @ zs) t = view zs t" by (simp add: view_append)
    show ?thesis
    proof (cases "view zs t")
      case (Some s)
      then have s: "s \<in> set zs" "mt s = t" using zs by (auto simp: view_unique)
      then have "?later = {u \<in> mt ` set zs. t < u}" using ys by (force simp: dom_view)
      then have "card ?later < length zs" using card_later_bound [OF zs, of t] s by auto
      then show ?thesis by (simp add: same)
    qed (simp add: same restrict_map_def)
  next
    case (Some s)
    then have s: "s \<in> set ys" "mt s = t"
      using assms by (auto simp: view_unique ascending_append)
    have "mt ` set zs \<subseteq> ?later" using ys s by (force simp: dom_view)
    then have "length zs \<le> card ?later"
      unfolding card_times [OF zs, symmetric] by (intro card_mono) (auto simp: dom_view)
    moreover have "view zs t = None"
      using ys s by (metis (no_types, lifting) domIff dom_view imageE less_irrefl)
    ultimately show ?thesis by simp
  qed
qed

lemma view_drop:
  assumes "ascending xs"
  shows "view (drop k xs) = view xs |` {t. card {u \<in> dom (view xs). t < u} < length xs - k}"
  using view_suffix [of "take k xs" "drop k xs"] assms by simp

section \<open>Insertion and eviction\<close>

lemma mt_last_Max:
  assumes "ascending xs" "xs \<noteq> []"
  shows "mt (last xs) = Max (dom (view xs))"
  using assms by (intro Max_eqI [symmetric]) (auto simp: dom_view ascending_last)

lemma rb_append_items:
  assumes "rb_inv b"
  shows "rb_items (rb_append b s) =
    (let xs = ins s (rb_items b);
         ys = filter (\<lambda>x. mt (last xs) - rb_retention_s b \<le> mt x) xs
     in drop (length ys - nat (rb_max_size b)) ys)"
proof -
  have "ascending (ins s (rb_items b))" using assms by (simp add: rb_inv_def ascending_ins)
  moreover have "0 < rb_max_size b" using assms by (simp add: rb_inv_def)
  ultimately show ?thesis
    using assms
    by (simp add: rb_append_def rb_evict_def rb_insert_eq_ins rb_inv_def Let_def
        dropWhile_old_eq_filter nat_diff_distrib')
qed

lemma rb_append_params [simp]:
  "rb_retention_s (rb_append b s) = rb_retention_s b"
  "rb_max_size (rb_append b s) = rb_max_size b"
  by (simp_all add: rb_append_def rb_evict_def Let_def)

lemma last_filter: "xs \<noteq> [] \<Longrightarrow> P (last xs) \<Longrightarrow> last (filter P xs) = last xs"
  by (induction xs) (auto split: if_splits simp: filter_empty_conv)

lemma rb_append_last:
  assumes "rb_inv b"
  shows "rb_items (rb_append b s) \<noteq> []"
    and "last (rb_items (rb_append b s)) = last (ins s (rb_items b))"
proof -
  let ?xs = "ins s (rb_items b)"
  let ?P = "\<lambda>x. mt (last ?xs) - rb_retention_s b \<le> mt x"
  let ?ys = "filter ?P ?xs"
  have pos: "?P (last ?xs)" "0 < nat (rb_max_size b)" using assms by (auto simp: rb_inv_def)
  then have "last ?xs \<in> set ?ys" by simp
  then have ys: "?ys \<noteq> []" "last ?ys = last ?xs"
    using pos(1) by (force, simp add: last_filter)
  then have "length ?ys - nat (rb_max_size b) < length ?ys" using pos by simp
  then show "rb_items (rb_append b s) \<noteq> []"
    "last (rb_items (rb_append b s)) = last (ins s (rb_items b))"
    using ys by (simp_all add: rb_append_items [OF assms] Let_def)
qed

lemma rb_append_inv [inv_intros]:
  assumes "rb_inv b"
  shows "rb_inv (rb_append b s)"
proof -
  let ?xs = "ins s (rb_items b)"
  let ?ys = "filter (\<lambda>x. mt (last ?xs) - rb_retention_s b \<le> mt x) ?xs"
  have items: "rb_items (rb_append b s) = drop (length ?ys - nat (rb_max_size b)) ?ys"
    using rb_append_items [OF assms] by (simp add: Let_def)
  have "ascending ?xs" using assms by (simp add: rb_inv_def ascending_ins)
  then have "ascending ?ys" by (rule ascending_filter)
  then have "ascending (rb_items (rb_append b s))" by (simp add: items ascending_drop)
  moreover have "int (length (rb_items (rb_append b s))) \<le> rb_max_size b"
    using assms by (auto simp: items rb_inv_def)
  moreover have "mt (last ?xs) - rb_retention_s b \<le> mt x" if "x \<in> set (rb_items (rb_append b s))" for x
    using that unfolding items by (auto dest: in_set_dropD)
  ultimately show ?thesis
    using assms rb_append_last(2) [OF assms, of s] by (simp add: rb_inv_def)
qed

text \<open>
  The abstract specification of \<open>append\<close>: update the history at the snapshot's time, then
  keep the times within \<open>retention_s\<close> of the newest that have fewer than \<open>max_size\<close> later ones.
\<close>

definition history_append ::
  "flt \<Rightarrow> int \<Rightarrow> (flt \<rightharpoonup> market_snapshot) \<Rightarrow> market_snapshot \<Rightarrow> (flt \<rightharpoonup> market_snapshot)" where
  "history_append retention_s max_size h s =
     (let m = h(mt s \<mapsto> s)
      in m |` {t. Max (dom m) - retention_s \<le> t \<and> card {u \<in> dom m. t < u} < nat max_size})"

lemma rb_append_view:
  assumes "rb_inv b"
  shows "view (rb_items (rb_append b s)) =
      history_append (rb_retention_s b) (rb_max_size b) (view (rb_items b)) s"
proof -
  let ?xs = "ins s (rb_items b)"
  define m where "m = (view (rb_items b))(mt s \<mapsto> s)"
  define fresh where "fresh = {t. Max (dom m) - rb_retention_s b \<le> t}"
  let ?ys = "filter (\<lambda>x. Max (dom m) - rb_retention_s b \<le> mt x) ?xs"
  have asc: "ascending ?xs" using assms by (simp add: rb_inv_def ascending_ins)
  have m: "m = view ?xs" using assms by (simp add: m_def view_ins rb_inv_def)
  have items: "rb_items (rb_append b s) = drop (length ?ys - nat (rb_max_size b)) ?ys"
    using rb_append_items [OF assms] mt_last_Max [OF asc] by (simp add: Let_def m)
  have ys: "ascending ?ys" using asc by (rule ascending_filter)
  have vys: "view ?ys t = (if t \<in> fresh then m t else None)" for t
    using asc by (cases "view ?xs t") (auto simp: view_filter m fresh_def dest: view_unique [THEN iffD1, rotated])
  have later: "{u \<in> dom (view ?ys). t < u} = {u \<in> dom m. t < u}" if "t \<in> fresh" for t
    using that by (auto simp: vys fresh_def split: if_splits)
  have few: "card {u \<in> dom m. t < u} < length ?ys" if "t \<in> fresh" "m t \<noteq> None" for t
  proof -
    have "t \<in> mt ` set ?ys" using that by (metis vys domIff dom_view)
    then show ?thesis
      using card_later_bound [OF ys, of t] later [OF that(1)] by (simp only: dom_view)
  qed
  have "view (rb_items (rb_append b s)) t =
      (if card {u \<in> dom (view ?ys). t < u} < length ?ys - (length ?ys - nat (rb_max_size b))
       then view ?ys t else None)" for t
    unfolding items view_drop [OF ys] by (simp add: restrict_map_def)
  then have "view (rb_items (rb_append b s)) t =
      (if t \<in> fresh \<and> card {u \<in> dom m. t < u} < nat (rb_max_size b) then m t else None)" for t
    using few [of t] later [of t] by (cases "m t") (auto simp: vys)
  then show "view (rb_items (rb_append b s)) =
      history_append (rb_retention_s b) (rb_max_size b) (view (rb_items b)) s"
    by (auto simp: history_append_def m_def [symmetric] fresh_def restrict_map_def fun_eq_iff Let_def)
qed

text \<open>C2: Appending a snapshot to a buffer refines one step of the abstract history: the
  partial map from market time to snapshot is updated at the snapshot's time (replacing an
  equal time, wherever it falls in the order), and of the result exactly the times remain
  that are within \<open>retention_s\<close> of the newest and have fewer than \<open>max_size\<close> later ones.
  The buffer's invariant (positive bounds, strictly ascending times, at most \<open>max_size\<close>
  items, none older than the retention) is kept.\<close>

theorem rb_append_refines:
  assumes "rb_inv b"
  shows "rb_inv (rb_append b s) \<and> view (rb_items (rb_append b s)) =
      history_append (rb_retention_s b) (rb_max_size b) (view (rb_items b)) s"
  using assms by (simp add: rb_append_inv rb_append_view)

definition tick_at :: "flt \<Rightarrow> flt \<Rightarrow> market_snapshot" where
  "tick_at t p =
     \<lparr>ms_symbol = ''AAPL.US'', ms_price = p, ms_open = p, ms_high = p, ms_low = p, ms_prev_close = p,
      ms_volume = 0, ms_turnover = None, ms_market_timestamp = t, ms_received_timestamp = t\<rparr>"

definition sample_buffer :: ring_buffer where
  "sample_buffer = \<lparr>rb_retention_s = 60, rb_max_size = 2, rb_items = [tick_at 10 1, tick_at 20 2]\<rparr>"

theorem rb_append_refines_witness:
  "rb_inv sample_buffer
   \<and> rb_items (rb_append sample_buffer (tick_at 15 3)) = [tick_at 15 3, tick_at 20 2]
   \<and> view [tick_at 15 3, tick_at 20 2] =
      history_append 60 2 (view [tick_at 10 1, tick_at 20 2]) (tick_at 15 3)"
proof -
  have inv: "rb_inv sample_buffer" by code_simp
  have "rb_items (rb_append sample_buffer (tick_at 15 3)) = [tick_at 15 3, tick_at 20 2]" by code_simp
  then show ?thesis
    using inv rb_append_refines [OF inv, of "tick_at 15 3"] by (simp add: sample_buffer_def)
qed

section \<open>Lookups\<close>

lemma takeWhile_last_greatest:
  assumes "ascending xs" "takeWhile (\<lambda>s. mt s \<le> t) xs \<noteq> []"
  shows "view xs (Max {u \<in> dom (view xs). u \<le> t}) = Some (last (takeWhile (\<lambda>s. mt s \<le> t) xs))"
proof -
  let ?tw = "takeWhile (\<lambda>s. mt s \<le> t) xs"
  have tw: "ascending ?tw" by (metis assms(1) ascending_append takeWhile_dropWhile_id)
  have sets: "set ?tw = {x \<in> set xs. mt x \<le> t}"
    using assms(1) by (induction xs) (auto split: if_splits)
  have "{u \<in> dom (view xs). u \<le> t} = dom (view ?tw)" using sets by (auto simp: dom_view)
  then have "Max {u \<in> dom (view xs). u \<le> t} = mt (last ?tw)"
    using mt_last_Max [OF tw assms(2)] by simp
  moreover have "last ?tw \<in> set xs" using last_in_set [OF assms(2)] sets by blast
  ultimately show ?thesis using assms(1) by (simp add: view_unique)
qed

lemma rb_at_or_before_takeWhile:
  assumes "ascending (rb_items b)"
  shows "rb_at_or_before b t =
    (let tw = takeWhile (\<lambda>s. mt s \<le> t) (rb_items b) in if tw = [] then None else Some (last tw))"
proof -
  let ?tw = "takeWhile (\<lambda>s. mt s \<le> t) (rb_items b)"
  have n: "bisect_right (map mt (rb_items b)) t = length ?tw"
    using assms by (simp add: bisect_right_sorted ascending_sorted takeWhile_map o_def)
  have "?tw \<noteq> [] \<Longrightarrow> rb_items b ! (length ?tw - 1) = last ?tw"
    by (metis last_conv_nth takeWhile_nth diff_less length_greater_0_conv zero_less_one)
  then show ?thesis
    by (cases ?tw) (auto simp: rb_at_or_before_def n Let_def nat_diff_distrib)
qed

text \<open>What the feature code needs of a history, whatever keeps it.\<close>

locale timeline =
  fixes invar :: "'b \<Rightarrow> bool"
    and history :: "'b \<Rightarrow> flt \<rightharpoonup> market_snapshot"
    and append :: "'b \<Rightarrow> market_snapshot \<Rightarrow> 'b"
    and latest :: "'b \<Rightarrow> market_snapshot option"
    and at_or_before :: "'b \<Rightarrow> flt \<Rightarrow> market_snapshot option"
    and since :: "'b \<Rightarrow> flt \<Rightarrow> market_snapshot list"
  assumes append_invar: "invar b \<Longrightarrow> invar (append b s)"
    and history_finite: "invar b \<Longrightarrow> finite (dom (history b))"
    and history_time: "invar b \<Longrightarrow> history b t = Some s \<Longrightarrow> mt s = t"
    and history_append: "invar b \<Longrightarrow> history (append b s) \<subseteq>\<^sub>m (history b)(mt s \<mapsto> s)"
    and append_newest: "invar b \<Longrightarrow> \<forall>u \<in> dom (history b). u \<le> mt s \<Longrightarrow> latest (append b s) = Some s"
    and latest_law: "invar b \<Longrightarrow> latest b =
      (if dom (history b) = {} then None else history b (Max (dom (history b))))"
    and at_or_before_law: "invar b \<Longrightarrow> at_or_before b t =
      (let past = {u \<in> dom (history b). u \<le> t} in if past = {} then None else history b (Max past))"
    and since_law: "invar b \<Longrightarrow>
      sorted_wrt (<) (map mt (since b t)) \<and> set (since b t) = {s \<in> ran (history b). t \<le> mt s}"
begin

lemma latest_is_newest:
  assumes "invar b" "latest b = Some s"
  shows "s \<in> ran (history b)" and "t \<in> dom (history b) \<Longrightarrow> t \<le> mt s"
proof -
  let ?D = "dom (history b)"
  have D: "finite ?D" "?D \<noteq> {}" "history b (Max ?D) = Some s"
    using assms by (auto simp: history_finite latest_law split: if_splits)
  then show "s \<in> ran (history b)" by (auto simp: ran_def)
  show "t \<in> ?D \<Longrightarrow> t \<le> mt s" using D history_time [OF assms(1) D(3)] by simp
qed

lemma at_or_before_iff:
  assumes "invar b"
  shows "at_or_before b t = Some s \<longleftrightarrow>
    s \<in> ran (history b) \<and> mt s \<le> t \<and> (\<forall>x \<in> ran (history b). mt x \<le> t \<longrightarrow> mt x \<le> mt s)"
proof -
  let ?P = "{u \<in> dom (history b). u \<le> t}"
  have fin: "finite ?P" using assms history_finite by simp
  have times: "history b (mt x) = Some x \<longleftrightarrow> x \<in> ran (history b)" for x
    using history_time [OF assms] by (force simp: ran_def)
  show ?thesis
  proof
    assume s: "at_or_before b t = Some s"
    then have P: "?P \<noteq> {}" "history b (Max ?P) = Some s"
      by (auto simp: at_or_before_law [OF assms] Let_def split: if_splits)
    have "Max ?P = mt s" using history_time [OF assms P(2)] by simp
    then show "s \<in> ran (history b) \<and> mt s \<le> t \<and> (\<forall>x \<in> ran (history b). mt x \<le> t \<longrightarrow> mt x \<le> mt s)"
    proof (intro conjI ballI impI)
      show "s \<in> ran (history b)" using P(2) by (rule ranI)
      show "mt s \<le> t" using Max_in [OF fin P(1)] \<open>Max ?P = mt s\<close> by simp
      fix x assume "x \<in> ran (history b)" "mt x \<le> t"
      then have "mt x \<in> ?P" using times by blast
      then show "mt x \<le> mt s" using Max_ge [OF fin] \<open>Max ?P = mt s\<close> by metis
    qed
  next
    assume s: "s \<in> ran (history b) \<and> mt s \<le> t \<and> (\<forall>x \<in> ran (history b). mt x \<le> t \<longrightarrow> mt x \<le> mt s)"
    then have hs: "history b (mt s) = Some s" by (simp add: times)
    have "Max ?P = mt s"
    proof (rule Max_eqI [OF fin])
      fix u assume "u \<in> ?P"
      then show "u \<le> mt s" using s history_time [OF assms] by (force simp: ran_def)
    qed (use s hs in auto)
    then show "at_or_before b t = Some s"
      using hs s by (auto simp: at_or_before_law [OF assms] Let_def)
  qed
qed

lemma at_or_before_latest:
  assumes "invar b" "latest b = Some s" "mt s \<le> t"
  shows "at_or_before b t = Some s"
  unfolding at_or_before_iff [OF assms(1)]
  using assms latest_is_newest [OF assms(1,2)] history_time [OF assms(1)]
  by (force simp: ran_def)

lemma at_or_before_mono:
  assumes "invar b" "at_or_before b t = Some s" "t \<le> u"
  shows "\<exists>s'. at_or_before b u = Some s' \<and> mt s \<le> mt s'"
proof -
  let ?P = "{v \<in> dom (history b). v \<le> u}"
  have s: "s \<in> ran (history b)" "mt s \<le> t" using assms at_or_before_iff by auto
  then have "mt s \<in> ?P" using history_time [OF assms(1)] assms(3) by (force simp: ran_def)
  moreover have "finite ?P" using assms(1) history_finite by simp
  ultimately obtain s' where "history b (Max ?P) = Some s'" and "?P \<noteq> {}"
    by (metis (no_types, lifting) Max_in domD empty_iff mem_Collect_eq)
  then have "at_or_before b u = Some s'" by (simp add: at_or_before_law [OF assms(1)] Let_def)
  moreover have "mt s \<le> mt s'"
    using \<open>at_or_before b u = Some s'\<close> at_or_before_iff [OF assms(1)] s assms(3) by auto
  ultimately show ?thesis by blast
qed

end

lemma ran_view: "ascending xs \<Longrightarrow> ran (view xs) = set xs"
  by (auto simp: ran_def view_unique)

lemma last_ins:
  assumes "ascending xs"
  shows "last (ins s xs) = (if xs \<noteq> [] \<and> mt s < mt (last xs) then last xs else s)"
  using assms
proof (induction xs)
  case (Cons x xs)
  then show ?case by (cases xs) force+
qed simp

lemma ins_newest: "\<forall>x \<in> set xs. mt x \<le> mt s \<Longrightarrow> ascending xs \<Longrightarrow> last (ins s xs) = s"
  by (auto simp: last_ins dest!: last_in_set)

interpretation ring: timeline rb_inv "\<lambda>b. view (rb_items b)" rb_append rb_latest rb_at_or_before rb_since
proof (unfold_locales, goal_cases)
  case (1 b s)
  then show ?case by (rule rb_append_inv)
next
  case (2 b)
  then show ?case by (simp add: dom_view)
next
  case (3 b t s)
  then show ?case by (simp add: rb_inv_def view_unique)
next
  case (4 b s)
  then show ?case
    using rb_append_view [OF 4, of s]
    by (auto simp: history_append_def Let_def map_le_def restrict_map_def simp del: fun_upd_apply
        split: if_splits)
next
  case (5 b s)
  then have "last (ins s (rb_items b)) = s" by (intro ins_newest) (auto simp: dom_view rb_inv_def)
  then show ?case using rb_append_last [OF 5(1), of s] by (simp add: rb_latest_def)
next
  case (6 b)
  then have asc: "ascending (rb_items b)" by (simp add: rb_inv_def)
  show ?case
  proof (cases "rb_items b = []")
    case False
    then have "view (rb_items b) (mt (last (rb_items b))) = Some (last (rb_items b))"
      using asc by (simp add: view_unique)
    then show ?thesis
      using False mt_last_Max [OF asc False] by (simp add: rb_latest_def dom_view)
  qed (simp add: rb_latest_def)
next
  case (7 b t)
  then have asc: "ascending (rb_items b)" by (simp add: rb_inv_def)
  have "takeWhile (\<lambda>s. mt s \<le> t) (rb_items b) = [] \<longleftrightarrow> {u \<in> dom (view (rb_items b)). u \<le> t} = {}"
    using asc by (cases "rb_items b") (force simp: dom_view)+
  then show ?case
    using takeWhile_last_greatest [OF asc, of t] rb_at_or_before_takeWhile [OF asc, of t]
    by (auto simp: Let_def)
next
  case (8 b t)
  then show ?case
    by (auto simp: rb_inv_def rb_since_def ran_view ascending_def [symmetric] intro: ascending_filter)
qed

lemma rb_new_inv: "rb_new r m = Inr b \<Longrightarrow> rb_inv b"
  by (auto simp: rb_new_def rb_inv_def split: if_splits)

lemma rb_new_total: "0 < r \<Longrightarrow> 0 < m \<Longrightarrow> \<exists>b. rb_new r m = Inr b \<and> rb_inv b \<and> rb_items b = []"
  by (auto simp: rb_new_def rb_inv_def)

section \<open>Buffers of many symbols\<close>

definition sb_inv :: "symbol_buffers \<Rightarrow> bool" where
  "sb_inv bs \<longleftrightarrow> 0 < sb_retention_s bs \<and> 0 < sb_max_size bs \<and>
     (\<forall>symbol b. sb_buffers bs symbol = Some b \<longrightarrow>
        rb_inv b \<and> (\<forall>s \<in> set (rb_items b). ms_symbol s = symbol))"

lemma sb_buffer_for_ok:
  assumes "sb_inv bs"
  obtains b bs' where "sb_buffer_for bs symbol = Inr (b, bs')" "sb_inv bs'" "rb_inv b"
    "sb_buffers bs' = (sb_buffers bs)(symbol \<mapsto> b)" "\<forall>s \<in> set (rb_items b). ms_symbol s = symbol"
    "sb_buffers bs symbol = None \<longrightarrow> rb_items b = []"
proof (cases "sb_buffers bs symbol")
  case None
  obtain b where b: "rb_new (sb_retention_s bs) (sb_max_size bs) = Inr b" "rb_inv b" "rb_items b = []"
    using assms rb_new_total unfolding sb_inv_def by blast
  show ?thesis
    by (rule that [of b "bs\<lparr>sb_buffers := (sb_buffers bs)(symbol \<mapsto> b)\<rparr>"])
      (use None b assms in \<open>auto simp: sb_buffer_for_def sb_inv_def\<close>)
next
  case (Some b)
  show ?thesis
    by (rule that [of b bs]) (use Some assms in \<open>auto simp: sb_buffer_for_def sb_inv_def\<close>)
qed

lemma set_rb_append:
  assumes "rb_inv b"
  shows "set (rb_items (rb_append b s)) \<subseteq> insert s (set (rb_items b))"
  using assms
  by (auto simp: rb_append_items Let_def set_ins rb_inv_def dest!: in_set_dropD)

lemma sb_append_ok:
  assumes "sb_inv bs"
  obtains b where "sb_append bs s = Inr (bs\<lparr>sb_buffers := (sb_buffers bs)(ms_symbol s \<mapsto> rb_append b s)\<rparr>)"
    "rb_inv b" "\<forall>x \<in> set (rb_items b). ms_symbol x = ms_symbol s"
    "sb_buffers bs (ms_symbol s) = Some b \<or> sb_buffers bs (ms_symbol s) = None \<and> rb_items b = []"
proof (cases "sb_buffers bs (ms_symbol s)")
  case None
  obtain b where "rb_new (sb_retention_s bs) (sb_max_size bs) = Inr b" "rb_inv b" "rb_items b = []"
    using assms rb_new_total unfolding sb_inv_def by blast
  then show ?thesis
    by (intro that [of b]) (use None in \<open>auto simp: sb_append_def sb_buffer_for_def\<close>)
next
  case (Some b)
  show ?thesis
    by (rule that [of b]) (use Some assms in \<open>auto simp: sb_append_def sb_buffer_for_def sb_inv_def\<close>)
qed

lemma sb_append_total:
  assumes "sb_inv bs"
  shows "\<exists>bs'. sb_append bs s = Inr bs' \<and> sb_inv bs'
    \<and> (\<forall>symbol. symbol \<noteq> ms_symbol s \<longrightarrow> sb_buffers bs' symbol = sb_buffers bs symbol)
    \<and> sb_latest bs' (ms_symbol s) =
        (case sb_latest bs (ms_symbol s) of
           Some old \<Rightarrow> Some (if mt s < mt old then old else s)
         | None \<Rightarrow> Some s)"
proof -
  obtain b where b: "sb_append bs s = Inr (bs\<lparr>sb_buffers := (sb_buffers bs)(ms_symbol s \<mapsto> rb_append b s)\<rparr>)"
    "rb_inv b" "\<forall>x \<in> set (rb_items b). ms_symbol x = ms_symbol s"
    "sb_buffers bs (ms_symbol s) = Some b \<or> sb_buffers bs (ms_symbol s) = None \<and> rb_items b = []"
    using sb_append_ok [OF assms] .
  have old: "sb_latest bs (ms_symbol s) = rb_latest b"
    using b(4) by (auto simp: sb_latest_def rb_latest_def)
  have "rb_latest (rb_append b s) = Some (last (ins s (rb_items b)))"
    using rb_append_last [OF b(2), of s] by (simp add: rb_latest_def)
  also have "last (ins s (rb_items b)) =
      (if rb_items b \<noteq> [] \<and> mt s < mt (last (rb_items b)) then last (rb_items b) else s)"
    using b(2) by (simp add: last_ins rb_inv_def)
  finally have new: "rb_latest (rb_append b s) =
      (case rb_latest b of Some old \<Rightarrow> Some (if mt s < mt old then old else s) | None \<Rightarrow> Some s)"
    by (simp add: rb_latest_def)
  have "sb_inv (bs\<lparr>sb_buffers := (sb_buffers bs)(ms_symbol s \<mapsto> rb_append b s)\<rparr>)"
    using assms b(2,3) set_rb_append [OF b(2), of s]
    by (auto simp: sb_inv_def rb_append_inv)
  then show ?thesis
    using b(1) old new by (auto simp: sb_latest_def)
qed

text \<open>With positive retention and size, \<open>SymbolBuffers.append\<close> never raises, keeps every
  buffer within its invariant and holding only its own symbol's snapshots, leaves the other
  symbols' lookups untouched, and afterwards the symbol's \<open>latest\<close> has the greatest market
  time seen: the new snapshot unless a later one is already held.\<close>

theorem sb_append_frame:
  assumes "sb_inv bs"
  shows "\<exists>bs'. sb_append bs s = Inr bs' \<and> sb_inv bs'
    \<and> (\<forall>symbol. symbol \<noteq> ms_symbol s \<longrightarrow> sb_buffers bs' symbol = sb_buffers bs symbol)
    \<and> sb_latest bs' (ms_symbol s) =
        (case sb_latest bs (ms_symbol s) of
           Some old \<Rightarrow> Some (if mt s < mt old then old else s)
         | None \<Rightarrow> Some s)"
  using assms by (rule sb_append_total)

theorem sb_append_frame_witness:
  "\<exists>bs'. sb_append (sb_new 3600 10000) (tick_at 10 1) = Inr bs' \<and> sb_inv bs'
     \<and> sb_latest bs' ''AAPL.US'' = Some (tick_at 10 1) \<and> sb_latest bs' ''X'' = None"
proof -
  have "sb_inv (sb_new 3600 10000)" by (simp add: sb_inv_def sb_new_def)
  then show ?thesis
    using sb_append_frame [of "sb_new 3600 10000" "tick_at 10 1"]
    by (auto simp: sb_latest_def sb_new_def tick_at_def)
qed

end
