(* ===== verification/Features.thy ===== *)
theory Features
  imports Sessions Ring_Buffer
begin

text \<open>
  \<open>features/indicators.py\<close>, \<open>bars.py\<close>, \<open>rolling.py\<close> and \<open>engine.py\<close>: the feature vector
  computed from one symbol's history. Session tests read a calendar date and raise outside
  the years \<open>datetime\<close> knows, so every function on that path returns a result or an
  exception. The numeric bounds of the indicators, the minute bars, the anchors and the
  absence of exceptions are shown here.
\<close>

section \<open>Indicators\<close>

definition ema :: "flt list \<Rightarrow> int \<Rightarrow> flt option" where
  "ema closes period =
     (if period \<le> 0 \<or> int (length closes) < period then None
      else let seed = sum_list (take (nat period) closes) / of_int period;
               k = 2 / (of_int period + 1)
           in Some (fold (\<lambda>close value. close * k + value * (1 - k)) (drop (nat period) closes) seed))"

definition rsi_wilder :: "flt list \<Rightarrow> int \<Rightarrow> flt option" where
  "rsi_wilder closes period =
     (if period \<le> 0 \<or> int (length closes) < period + 1 then None
      else let p = of_int period;
               changes = map (\<lambda>i. closes ! i - closes ! (i - 1)) [1..<length closes];
               gains = map (\<lambda>c. max c 0) changes;
               losses = map (\<lambda>c. max (- c) 0) changes;
               g0 = sum_list (take (nat period) gains) / p;
               l0 = sum_list (take (nat period) losses) / p;
               (avg_gain, avg_loss) =
                 fold (\<lambda>(gain, loss) (ag, al). ((ag * (p - 1) + gain) / p, (al * (p - 1) + loss) / p))
                   (zip (drop (nat period) gains) (drop (nat period) losses)) (g0, l0)
           in if avg_gain = 0 \<and> avg_loss = 0 then Some 50
              else if avg_loss = 0 then Some 100
              else if avg_gain = 0 then Some 0
              else Some (100 - 100 / (1 + avg_gain / avg_loss)))"

definition session_vwap :: "market_snapshot \<Rightarrow> flt option \<times> bool option" where
  "session_vwap s =
     (case ms_turnover s of
        None \<Rightarrow> (None, None)
      | Some turnover \<Rightarrow>
          if ms_volume s \<le> 0 then (None, None)
          else let vwap = turnover / ms_volume s in (Some vwap, Some (ms_price s > vwap)))"

section \<open>Completed minute bars\<close>

definition bar_start :: "flt \<Rightarrow> flt \<Rightarrow> flt" where
  "bar_start bar_seconds ts = of_int \<lfloor>ts / bar_seconds\<rfloor> * bar_seconds"

definition bucket_add ::
  "flt \<Rightarrow> market_snapshot \<Rightarrow> (flt, market_snapshot list) dict \<Rightarrow> (flt, market_snapshot list) dict" where
  "bucket_add start s d =
     (case dict_get d start of
        None \<Rightarrow> dict_set start [s] d
      | Some grp \<Rightarrow> dict_set start (grp @ [s]) d)"

fun fill_buckets ::
  "flt \<Rightarrow> flt \<Rightarrow> flt \<Rightarrow> market_snapshot list \<Rightarrow> (flt, market_snapshot list) dict
    \<Rightarrow> (flt, market_snapshot list) dict res" where
  "fill_buckets latest_ts bar_seconds forming_start [] d = Inr d"
| "fill_buckets latest_ts bar_seconds forming_start (s # ss) d =
     res_bind (is_same_session (mt s) latest_ts) (\<lambda>same.
       if \<not> same then fill_buckets latest_ts bar_seconds forming_start ss d
       else let start = bar_start bar_seconds (mt s)
            in if start \<ge> forming_start then fill_buckets latest_ts bar_seconds forming_start ss d
               else fill_buckets latest_ts bar_seconds forming_start ss (bucket_add start s d))"

definition interval_delta :: "flt option \<Rightarrow> flt option \<Rightarrow> bool \<Rightarrow> flt option" where
  "interval_delta current previous contiguous =
     (if \<not> contiguous then None
      else case (current, previous) of
             (Some c, Some p) \<Rightarrow> Some (max 0 (c - p))
           | _ \<Rightarrow> None)"

definition make_bar ::
  "flt \<Rightarrow> flt \<Rightarrow> market_snapshot list \<Rightarrow> flt option \<Rightarrow> flt option \<Rightarrow> flt option \<Rightarrow> market_bar" where
  "make_bar bar_seconds start grp prev_end last_volume last_turnover =
     (let lst = last grp;
          prices = map ms_price grp;
          contiguous = (prev_end = Some start)
      in \<lparr>mb_symbol = ms_symbol lst,
          mb_start_timestamp = start,
          mb_end_timestamp = start + bar_seconds,
          mb_open = hd prices,
          mb_high = fold max (tl prices) (hd prices),
          mb_low = fold min (tl prices) (hd prices),
          mb_close = last prices,
          mb_volume = interval_delta (Some (ms_volume lst)) last_volume contiguous,
          mb_turnover = interval_delta (ms_turnover lst) last_turnover contiguous\<rparr>)"

fun build_bars ::
  "flt \<Rightarrow> (flt, market_snapshot list) dict \<Rightarrow> flt list \<Rightarrow> flt option \<Rightarrow> flt option \<Rightarrow> flt option
    \<Rightarrow> market_bar list" where
  "build_bars bar_seconds buckets [] prev_end last_volume last_turnover = []"
| "build_bars bar_seconds buckets (start # starts) prev_end last_volume last_turnover =
     (let grp = sort_key mt (the (dict_get buckets start))
      in make_bar bar_seconds start grp prev_end last_volume last_turnover
         # build_bars bar_seconds buckets starts (Some (start + bar_seconds))
             (Some (ms_volume (last grp))) (ms_turnover (last grp)))"

definition completed_minute_bars ::
  "market_snapshot list \<Rightarrow> flt \<Rightarrow> flt \<Rightarrow> market_bar list res" where
  "completed_minute_bars snapshots latest_ts bar_seconds =
     (if snapshots = [] \<or> bar_seconds \<le> 0 then Inr []
      else res_bind
        (fill_buckets latest_ts bar_seconds (bar_start bar_seconds latest_ts) snapshots []) (\<lambda>buckets.
          Inr (build_bars bar_seconds buckets (sort (map fst buckets)) None None None)))"

section \<open>Rolling windows\<close>

definition snapshot_as_of ::
  "ring_buffer \<Rightarrow> flt \<Rightarrow> market_snapshot \<Rightarrow> flt \<Rightarrow> market_snapshot option res" where
  "snapshot_as_of buffer timestamp latest max_anchor_lag_s =
     (case rb_at_or_before buffer timestamp of
        None \<Rightarrow> Inr None
      | Some found \<Rightarrow>
          res_bind (is_same_session (mt found) (mt latest)) (\<lambda>same.
            if \<not> same then Inr None
            else if timestamp - mt found > max_anchor_lag_s then Inr None
            else Inr (Some found)))"

definition resolve_anchor ::
  "ring_buffer \<Rightarrow> market_snapshot \<Rightarrow> flt \<Rightarrow> flt \<Rightarrow> market_snapshot option res" where
  "resolve_anchor buffer latest window_s max_anchor_lag_s =
     (let t_ref = mt latest - window_s
      in res_bind (is_same_session t_ref (mt latest)) (\<lambda>same.
           if \<not> same then Inr None
           else case rb_at_or_before buffer t_ref of
                  None \<Rightarrow> Inr None
                | Some anchor \<Rightarrow>
                    res_bind (is_same_session (mt anchor) (mt latest)) (\<lambda>same.
                      if \<not> same then Inr None
                      else if t_ref - mt anchor > max_anchor_lag_s then Inr None
                      else Inr (Some anchor))))"

definition price_change ::
  "ring_buffer \<Rightarrow> market_snapshot \<Rightarrow> flt \<Rightarrow> feature_policy \<Rightarrow> flt option res" where
  "price_change buffer latest window_s policy =
     res_bind (resolve_anchor buffer latest window_s (fp_max_anchor_lag_s policy)) (\<lambda>a.
       case a of
         None \<Rightarrow> Inr None
       | Some anchor \<Rightarrow>
           if ms_price anchor = 0 then Inr None
           else Inr (Some ((ms_price latest - ms_price anchor) / ms_price anchor)))"

definition volume_delta ::
  "ring_buffer \<Rightarrow> market_snapshot \<Rightarrow> flt \<Rightarrow> feature_policy \<Rightarrow> flt option res" where
  "volume_delta buffer latest window_s policy =
     res_bind (resolve_anchor buffer latest window_s (fp_max_anchor_lag_s policy)) (\<lambda>a.
       case a of
         None \<Rightarrow> Inr None
       | Some anchor \<Rightarrow> Inr (Some (max 0 (ms_volume latest - ms_volume anchor))))"

fun volume_samples ::
  "ring_buffer \<Rightarrow> market_snapshot \<Rightarrow> flt \<Rightarrow> feature_policy \<Rightarrow> int list \<Rightarrow> flt list \<Rightarrow> flt list option res" where
  "volume_samples buffer latest window_s policy [] samples = Inr (Some samples)"
| "volume_samples buffer latest window_s policy (step # steps) samples =
     (let as_of_ts = mt latest - of_int step * 60
      in res_bind (snapshot_as_of buffer as_of_ts latest (fp_max_anchor_lag_s policy)) (\<lambda>a.
           case a of
             None \<Rightarrow> Inr None
           | Some as_of \<Rightarrow>
               res_bind (volume_delta buffer as_of window_s policy) (\<lambda>d.
                 case d of
                   None \<Rightarrow> Inr None
                 | Some delta \<Rightarrow>
                     volume_samples buffer latest window_s policy steps (samples @ [delta]))))"

definition historical_volume_deltas ::
  "ring_buffer \<Rightarrow> market_snapshot \<Rightarrow> flt \<Rightarrow> feature_policy \<Rightarrow> flt list option res" where
  "historical_volume_deltas buffer latest window_s policy =
     volume_samples buffer latest window_s policy [1..fp_volume_ratio_lookback policy] []"

definition volume_ratio ::
  "ring_buffer \<Rightarrow> market_snapshot \<Rightarrow> flt \<Rightarrow> feature_policy \<Rightarrow> flt option res" where
  "volume_ratio buffer latest window_s policy =
     res_bind (volume_delta buffer latest window_s policy) (\<lambda>c.
       case c of
         None \<Rightarrow> Inr None
       | Some current \<Rightarrow>
           res_bind (historical_volume_deltas buffer latest window_s policy) (\<lambda>h.
             case h of
               None \<Rightarrow> Inr None
             | Some samples \<Rightarrow>
                 if samples = [] then Inl ZeroDivisionError
                 else let baseline = sum_list samples / of_nat (length samples)
                      in if baseline \<le> 0 then Inr None else Inr (Some (current / baseline))))"

section \<open>The feature engine\<close>

fun session_refs_loop ::
  "market_snapshot \<Rightarrow> market_snapshot list \<Rightarrow> flt option \<Rightarrow> flt option \<Rightarrow> (flt option \<times> flt option) res" where
  "session_refs_loop latest [] high_ref low_ref = Inr (high_ref, low_ref)"
| "session_refs_loop latest (s # ss) high_ref low_ref =
     (if mt s \<ge> mt latest then session_refs_loop latest ss high_ref low_ref
      else res_bind (is_same_session (mt s) (mt latest)) (\<lambda>same.
        if \<not> same then session_refs_loop latest ss high_ref low_ref
        else let high = session_extreme_high s;
                 low = session_extreme_low s
             in session_refs_loop latest ss
                  (Some (case high_ref of None \<Rightarrow> high | Some h \<Rightarrow> max h high))
                  (Some (case low_ref of None \<Rightarrow> low | Some l \<Rightarrow> min l low))))"

definition session_refs ::
  "ring_buffer \<Rightarrow> market_snapshot \<Rightarrow> (flt option \<times> flt option) res" where
  "session_refs buffer latest = session_refs_loop latest (rb_since buffer 0) None None"

definition compute_features :: "feature_policy \<Rightarrow> ring_buffer \<Rightarrow> market_features option res" where
  "compute_features policy buffer =
     (case rb_latest buffer of
        None \<Rightarrow> Inr None
      | Some latest \<Rightarrow>
          res_bind (session_refs buffer latest) (\<lambda>(high_ref, low_ref).
          let high_now = (case high_ref of None \<Rightarrow> session_extreme_high latest
                          | Some h \<Rightarrow> max h (session_extreme_high latest));
              low_now = (case low_ref of None \<Rightarrow> session_extreme_low latest
                         | Some l \<Rightarrow> min l (session_extreme_low latest));
              day_range = (if high_now > low_now
                           then Some ((ms_price latest - low_now) / (high_now - low_now)) else None);
              day_change = (if ms_prev_close latest \<noteq> 0
                            then Some ((ms_price latest - ms_prev_close latest) / ms_prev_close latest)
                            else None)
          in
          res_bind (res_filter (\<lambda>s. is_same_session (mt s) (mt latest)) (rb_since buffer 0)) (\<lambda>session_snaps.
          res_bind (completed_minute_bars session_snaps (mt latest) (fp_bar_seconds policy)) (\<lambda>bars.
          let closes = map mb_close bars;
              (vwap, above_vwap) = session_vwap latest
          in
          res_bind (price_change buffer latest 60 policy) (\<lambda>change_1m.
          res_bind (price_change buffer latest 300 policy) (\<lambda>change_5m.
          res_bind (price_change buffer latest 900 policy) (\<lambda>change_15m.
          res_bind (volume_delta buffer latest 60 policy) (\<lambda>volume_1m.
          res_bind (volume_delta buffer latest 300 policy) (\<lambda>volume_5m.
          res_bind (volume_ratio buffer latest 60 policy) (\<lambda>volume_ratio_1m.
          res_bind (volume_ratio buffer latest 300 policy) (\<lambda>volume_ratio_5m.
          Inr (Some
            \<lparr>mf_symbol = ms_symbol latest,
             mf_market_timestamp = mt latest,
             mf_received_timestamp = ms_received_timestamp latest,
             mf_change_1m = change_1m,
             mf_change_5m = change_5m,
             mf_change_15m = change_15m,
             mf_change_day = day_change,
             mf_day_range_position = day_range,
             mf_volume_1m = volume_1m,
             mf_volume_5m = volume_5m,
             mf_volume_ratio_1m = volume_ratio_1m,
             mf_volume_ratio_5m = volume_ratio_5m,
             mf_vwap = vwap,
             mf_above_vwap = above_vwap,
             mf_ema5 = ema closes 5,
             mf_ema20 = ema closes 20,
             mf_rsi14 = rsi_wilder closes 14,
             mf_session_high_ref = high_ref,
             mf_session_low_ref = low_ref,
             mf_session_high_obs = session_extreme_high latest,
             mf_session_low_obs = session_extreme_low latest\<rparr>))))))))))))"

section \<open>Bounds of the indicators\<close>

lemma sum_list_bounds:
  assumes "\<And>x. x \<in> set xs \<Longrightarrow> lo \<le> x \<and> x \<le> (hi :: flt)"
  shows "of_nat (length xs) * lo \<le> sum_list xs \<and> sum_list xs \<le> of_nat (length xs) * hi"
  using assms by (induction xs) (auto simp: algebra_simps add_mono)

lemma mean_bounds:
  assumes "\<And>x. x \<in> set xs \<Longrightarrow> lo \<le> x \<and> x \<le> (hi :: flt)" "xs \<noteq> []"
  shows "lo \<le> sum_list xs / of_nat (length xs) \<and> sum_list xs / of_nat (length xs) \<le> hi"
proof -
  have pos: "(0 :: flt) < of_nat (length xs)" using assms(2) by simp
  show ?thesis
    unfolding pos_le_divide_eq [OF pos] pos_divide_le_eq [OF pos]
    using sum_list_bounds [of xs lo hi] assms(1) by (simp add: mult.commute)
qed

lemma blend_bounds:
  assumes "lo \<le> x \<and> x \<le> hi" "lo \<le> y \<and> y \<le> hi" "0 \<le> k" "k \<le> (1 :: flt)"
  shows "lo \<le> x * k + y * (1 - k) \<and> x * k + y * (1 - k) \<le> hi"
proof -
  have "lo * k \<le> x * k" "x * k \<le> hi * k" "lo * (1 - k) \<le> y * (1 - k)" "y * (1 - k) \<le> hi * (1 - k)"
    using assms by (auto intro: mult_right_mono)
  then show ?thesis by (simp add: algebra_simps)
qed

lemma ema_bounds:
  assumes "ema closes period = Some v" "\<And>c. c \<in> set closes \<Longrightarrow> lo \<le> c \<and> c \<le> hi"
  shows "lo \<le> v \<and> v \<le> hi"
proof -
  let ?n = "nat period"
  define k where "k = (2 :: flt) / (of_int period + 1)"
  have p: "0 < period" "?n \<le> length closes" using assms(1) by (auto simp: ema_def split: if_splits)
  have k: "0 \<le> k" "k \<le> 1" using p(1) by (auto simp: k_def)
  have len: "length (take ?n closes) = ?n" "take ?n closes \<noteq> []" using p by auto
  have "lo \<le> sum_list (take ?n closes) / of_nat ?n \<and> sum_list (take ?n closes) / of_nat ?n \<le> hi"
    using mean_bounds [of "take ?n closes" lo hi] assms(2) len by (metis in_set_takeD)
  then have "lo \<le> fold (\<lambda>c v. c * k + v * (1 - k)) (drop ?n closes) (sum_list (take ?n closes) / of_nat ?n)
      \<and> fold (\<lambda>c v. c * k + v * (1 - k)) (drop ?n closes) (sum_list (take ?n closes) / of_nat ?n) \<le> hi"
    by (rule fold_inv_rule) (use assms(2) k blend_bounds in_set_dropD in metis)
  moreover have "v = fold (\<lambda>c v. c * k + v * (1 - k)) (drop ?n closes) (sum_list (take ?n closes) / of_nat ?n)"
    using assms(1) p unfolding ema_def k_def Let_def by (simp add: of_nat_nat split: if_splits)
  ultimately show ?thesis by simp
qed

lemma wilder_nonneg:
  fixes p :: flt
  assumes "1 \<le> p" "\<And>g l. (g, l) \<in> set zs \<Longrightarrow> 0 \<le> g \<and> 0 \<le> l" "0 \<le> a \<and> 0 \<le> b"
  shows "case fold (\<lambda>(gain, loss) (ag, al). ((ag * (p - 1) + gain) / p, (al * (p - 1) + loss) / p)) zs (a, b)
         of (ag, al) \<Rightarrow> 0 \<le> ag \<and> 0 \<le> al"
  by (rule fold_inv_rule) (use assms in \<open>auto simp: split_beta intro!: divide_nonneg_nonneg add_nonneg_nonneg\<close>)

lemma rs_bounds: "0 \<le> ag \<Longrightarrow> 0 \<le> al \<Longrightarrow> ag \<noteq> 0 \<Longrightarrow> al \<noteq> 0 \<Longrightarrow>
  0 \<le> 100 - 100 / (1 + ag / al) \<and> 100 - 100 / (1 + ag / al) \<le> (100 :: flt)"
  by (auto simp: field_simps divide_le_eq)

lemma rsi_bounds:
  assumes "rsi_wilder closes period = Some v"
  shows "0 \<le> v \<and> v \<le> 100"
proof -
  define p where "p = (of_int period :: flt)"
  define changes where "changes = map (\<lambda>i. closes ! i - closes ! (i - 1)) [1..<length closes]"
  define gains where "gains = map (\<lambda>c. max c 0) changes"
  define losses where "losses = map (\<lambda>c. max (- c) 0) changes"
  define zs where "zs = zip (drop (nat period) gains) (drop (nat period) losses)"
  have p: "1 \<le> p" using assms by (auto simp: rsi_wilder_def p_def split: if_splits)
  have nonneg: "\<And>g. g \<in> set gains \<Longrightarrow> 0 \<le> g" "\<And>l. l \<in> set losses \<Longrightarrow> 0 \<le> l"
    by (auto simp: gains_def losses_def)
  have zs: "0 \<le> g \<and> 0 \<le> l" if "(g, l) \<in> set zs" for g l
    using that nonneg unfolding zs_def by (metis set_zip_leftD set_zip_rightD in_set_dropD)
  have start: "0 \<le> sum_list (take (nat period) gains) / p \<and> 0 \<le> sum_list (take (nat period) losses) / p"
    using p nonneg by (auto intro!: divide_nonneg_nonneg sum_list_nonneg dest: in_set_takeD)
  obtain ag al where avg: "fold (\<lambda>(gain, loss) (ag, al). ((ag * (p - 1) + gain) / p, (al * (p - 1) + loss) / p))
      zs (sum_list (take (nat period) gains) / p, sum_list (take (nat period) losses) / p) = (ag, al)"
    by (rule prod.exhaust)
  have "0 \<le> ag \<and> 0 \<le> al" using wilder_nonneg [OF p _ start, of zs] zs by (simp add: avg)
  then show ?thesis
    using assms avg rs_bounds [of ag al]
    by (auto simp: rsi_wilder_def Let_def p_def changes_def gains_def losses_def zs_def split: if_splits)
qed

section \<open>Anchors\<close>

lemma same_sessionI: "is_same_session x y = Inr True \<Longrightarrow> datable x \<and> datable y"
  by (auto simp: is_same_session_iff datable_iff)

lemma anchor_iff:
  assumes "rb_inv b"
  shows "rb_at_or_before b t = Some a \<longleftrightarrow>
    a \<in> set (rb_items b) \<and> mt a \<le> t \<and> (\<forall>x \<in> set (rb_items b). mt x \<le> t \<longrightarrow> mt x \<le> mt a)"
  using ring.at_or_before_iff [OF assms, of t a] assms by (simp add: ran_view rb_inv_def)

text \<open>
  An anchor in the latest snapshot's session makes the separate session test of the
  reference time redundant, because the reference time lies between the two.
\<close>

lemma resolve_anchor_iff:
  assumes "rb_inv b" "0 \<le> window_s"
  shows "resolve_anchor b latest window_s lag = Inr (Some a) \<longleftrightarrow>
    a \<in> set (rb_items b) \<and> mt a \<le> mt latest - window_s
    \<and> (\<forall>x \<in> set (rb_items b). mt x \<le> mt latest - window_s \<longrightarrow> mt x \<le> mt a)
    \<and> is_same_session (mt a) (mt latest) = Inr True \<and> mt latest - window_s - mt a \<le> lag"
    (is "?lhs \<longleftrightarrow> ?rhs")
proof
  assume ?lhs
  then show ?rhs
    using anchor_iff [OF assms(1), of "mt latest - window_s" a]
    by (auto simp: resolve_anchor_def Let_def res_simps split: if_splits option.splits)
next
  assume r: ?rhs
  then have "rb_at_or_before b (mt latest - window_s) = Some a"
    using anchor_iff [OF assms(1), of "mt latest - window_s" a] by blast
  moreover have "is_same_session (mt latest - window_s) (mt latest) = Inr True"
    using r assms(2) same_session_between [of "mt a" "mt latest" "mt latest - window_s"] by simp
  ultimately show ?lhs using r by (simp add: resolve_anchor_def Let_def)
qed

text \<open>A price change over a window is reported exactly when some snapshot lies at or before
  the reference time, in the latest snapshot's session, no older than the permitted anchor lag
  and with a price other than zero; it is then the relative change against the newest such
  snapshot, and never against one from another session.\<close>

theorem price_change_iff:
  assumes "rb_inv b" "0 \<le> window_s"
  shows "price_change b latest window_s policy = Inr (Some c) \<longleftrightarrow>
    (\<exists>a \<in> set (rb_items b). mt a \<le> mt latest - window_s
      \<and> (\<forall>x \<in> set (rb_items b). mt x \<le> mt latest - window_s \<longrightarrow> mt x \<le> mt a)
      \<and> is_same_session (mt a) (mt latest) = Inr True
      \<and> mt latest - window_s - mt a \<le> fp_max_anchor_lag_s policy
      \<and> ms_price a \<noteq> 0 \<and> c = (ms_price latest - ms_price a) / ms_price a)"
proof -
  have "price_change b latest window_s policy = Inr (Some c) \<longleftrightarrow>
    (\<exists>a. resolve_anchor b latest window_s (fp_max_anchor_lag_s policy) = Inr (Some a)
      \<and> ms_price a \<noteq> 0 \<and> c = (ms_price latest - ms_price a) / ms_price a)"
    by (auto simp: price_change_def res_simps split: option.splits if_splits)
  then show ?thesis by (auto simp: resolve_anchor_iff [OF assms])
qed

definition minute_buffer :: ring_buffer where
  "minute_buffer = \<lparr>rb_retention_s = 3600, rb_max_size = 100,
     rb_items = [tick_at 1000 10, tick_at 1030 20, tick_at 1095 25]\<rparr>"

theorem price_change_iff_witness:
  "price_change minute_buffer (tick_at 1095 25) 60 default_feature_policy = Inr (Some (1 / 4))
   \<and> rb_inv minute_buffer"
proof -
  have inv: "rb_inv minute_buffer" by code_simp
  have a: "tick_at 1030 20 \<in> set (rb_items minute_buffer)" by code_simp
  have "mt (tick_at 1030 20) \<le> mt (tick_at 1095 25) - 60
      \<and> (\<forall>x \<in> set (rb_items minute_buffer). mt x \<le> mt (tick_at 1095 25) - 60 \<longrightarrow> mt x \<le> mt (tick_at 1030 20))
      \<and> is_same_session (mt (tick_at 1030 20)) (mt (tick_at 1095 25)) = Inr True
      \<and> mt (tick_at 1095 25) - 60 - mt (tick_at 1030 20) \<le> fp_max_anchor_lag_s default_feature_policy
      \<and> ms_price (tick_at 1030 20) \<noteq> 0
      \<and> 1 / 4 = (ms_price (tick_at 1095 25) - ms_price (tick_at 1030 20)) / ms_price (tick_at 1030 20)"
    by code_simp
  then show ?thesis
    using price_change_iff [OF inv, of 60 "tick_at 1095 25" default_feature_policy "1 / 4"] a inv
    by fastforce
qed

section \<open>No exceptions\<close>

definition dated :: "market_snapshot list \<Rightarrow> bool" where
  "dated ss \<longleftrightarrow> (\<forall>s \<in> set ss. 0 \<le> mt s \<and> datable (mt s))"

lemma datable_between: "datable lo \<Longrightarrow> datable hi \<Longrightarrow> lo \<le> t \<Longrightarrow> t \<le> hi \<Longrightarrow> datable t"
  using session_id_convex [of lo t hi] by (auto simp: datable_iff)

lemma datable_reference:
  assumes "datable t" "0 \<le> t" "0 \<le> w" "w \<le> 900"
  shows "datable (t - w)"
proof -
  have "datable (- 900)" by code_simp
  then show ?thesis using assms datable_between [of "- 900" t "t - w"] by simp
qed

lemma session_refs_total:
  assumes "dated ss" "datable (mt latest)"
  shows "\<exists>r. session_refs_loop latest ss h l = Inr r"
  using assms
proof (induction ss arbitrary: h l)
  case (Cons s ss)
  then obtain same where "is_same_session (mt s) (mt latest) = Inr same"
    using is_same_session_datable [of "mt s" "mt latest"] by (auto simp: dated_def)
  then show ?case using Cons by (auto simp: dated_def Let_def)
qed simp

lemma same_session_total:
  "dated ss \<Longrightarrow> datable t \<Longrightarrow> s \<in> set ss \<Longrightarrow>
    is_same_session (mt s) t = Inr (is_same_session (mt s) t = Inr True)"
  using is_same_session_datable [of "mt s" t] by (auto simp: dated_def)

lemma resolve_anchor_total:
  assumes "rb_inv b" "dated (rb_items b)" "latest \<in> set (rb_items b)" "0 \<le> w" "w \<le> 900"
  shows "\<exists>r. resolve_anchor b latest w lag = Inr r"
proof -
  have dl: "datable (mt latest)" using assms(2,3) by (simp add: dated_def)
  have "datable (mt latest - w)" using assms datable_reference by (simp add: dated_def)
  then obtain same where "is_same_session (mt latest - w) (mt latest) = Inr same"
    using is_same_session_datable dl by blast
  moreover have "\<exists>x. is_same_session (mt a) (mt latest) = Inr x" if "rb_at_or_before b (mt latest - w) = Some a" for a
    using that anchor_iff [OF assms(1)] same_session_total [OF assms(2) dl] by blast
  ultimately show ?thesis
    by (auto simp: resolve_anchor_def Let_def split: option.split)
qed

lemma snapshot_as_of_total:
  assumes "rb_inv b" "dated (rb_items b)" "latest \<in> set (rb_items b)"
  shows "\<exists>r. snapshot_as_of b t latest lag = Inr r \<and> (\<forall>a. r = Some a \<longrightarrow> a \<in> set (rb_items b))"
proof (cases "rb_at_or_before b t")
  case (Some a)
  then have a: "a \<in> set (rb_items b)" using anchor_iff [OF assms(1)] by blast
  then obtain same where "is_same_session (mt a) (mt latest) = Inr same"
    using is_same_session_datable [of "mt a" "mt latest"] assms(2,3) by (auto simp: dated_def)
  then show ?thesis using Some a by (auto simp: snapshot_as_of_def)
qed (simp add: snapshot_as_of_def)

lemma volume_delta_total:
  assumes "rb_inv b" "dated (rb_items b)" "latest \<in> set (rb_items b)" "0 \<le> w" "w \<le> 900"
  shows "\<exists>r. volume_delta b latest w policy = Inr r"
  using resolve_anchor_total [OF assms, of "fp_max_anchor_lag_s policy"] by (auto simp: volume_delta_def split: option.split)

lemma price_change_total:
  assumes "rb_inv b" "dated (rb_items b)" "latest \<in> set (rb_items b)" "0 \<le> w" "w \<le> 900"
  shows "\<exists>r. price_change b latest w policy = Inr r"
  using resolve_anchor_total [OF assms, of "fp_max_anchor_lag_s policy"] by (auto simp: price_change_def split: option.split)

lemma volume_samples_total:
  assumes "rb_inv b" "dated (rb_items b)" "latest \<in> set (rb_items b)" "0 \<le> w" "w \<le> 900"
  shows "\<exists>r. volume_samples b latest w policy steps acc = Inr r
    \<and> (\<forall>xs. r = Some xs \<longrightarrow> length xs = length acc + length steps)"
proof (induction steps arbitrary: acc)
  case (Cons step steps)
  obtain a where a: "snapshot_as_of b (mt latest - of_int step * 60) latest (fp_max_anchor_lag_s policy) = Inr a"
    and am: "\<And>x. a = Some x \<Longrightarrow> x \<in> set (rb_items b)"
    using snapshot_as_of_total [OF assms(1-3)] by blast
  show ?case
  proof (cases a)
    case (Some x)
    then obtain d where "volume_delta b x w policy = Inr d"
      using volume_delta_total [OF assms(1,2) am [OF Some] assms(4,5)] by blast
    then show ?thesis using a Some Cons.IH [of "acc @ [the d]"] by (auto split: option.split)
  qed (simp add: a)
qed simp

lemma volume_ratio_total:
  assumes "rb_inv b" "dated (rb_items b)" "latest \<in> set (rb_items b)" "0 \<le> w" "w \<le> 900"
    and "0 < fp_volume_ratio_lookback policy"
  shows "\<exists>r. volume_ratio b latest w policy = Inr r"
proof -
  obtain c where c: "volume_delta b latest w policy = Inr c"
    using volume_delta_total [OF assms(1-5)] by blast
  obtain h where h: "historical_volume_deltas b latest w policy = Inr h"
    and len: "\<And>xs. h = Some xs \<Longrightarrow> xs \<noteq> []"
    using volume_samples_total [OF assms(1-5), of policy "[1..fp_volume_ratio_lookback policy]" "[]"] assms(6)
    by (fastforce simp: historical_volume_deltas_def)
  show ?thesis using c h len by (auto simp: volume_ratio_def Let_def split: option.split)
qed

lemma fill_buckets_total:
  assumes "dated ss" "datable latest_ts"
  shows "\<exists>d'. fill_buckets latest_ts bar_s forming ss d = Inr d'"
  using assms
proof (induction ss arbitrary: d)
  case (Cons s ss)
  then obtain same where "is_same_session (mt s) latest_ts = Inr same"
    using is_same_session_datable [of "mt s" latest_ts] by (auto simp: dated_def)
  then show ?case using Cons by (auto simp: dated_def Let_def)
qed simp

lemma completed_minute_bars_total:
  "dated ss \<Longrightarrow> datable latest_ts \<Longrightarrow> \<exists>bars. completed_minute_bars ss latest_ts bar_s = Inr bars"
  using fill_buckets_total [of ss latest_ts bar_s "bar_start bar_s latest_ts" "[]"]
  by (auto simp: completed_minute_bars_def)

lemma rb_latest_in: "rb_latest b = Some s \<Longrightarrow> s \<in> set (rb_items b)"
  by (auto simp: rb_latest_def split: if_splits)

text \<open>C18: On a well-formed history whose market times are in the calendar's range, and with a
  positive lookback, the feature engine returns features for every non-empty history and none
  for the empty one: no session test, division or lookup in it raises.\<close>

theorem compute_features_total:
  assumes "rb_inv b" "dated (rb_items b)" "0 < fp_volume_ratio_lookback policy"
  shows "compute_features policy b = Inr None \<and> rb_items b = []
    \<or> (\<exists>f. compute_features policy b = Inr (Some f) \<and> rb_items b \<noteq> []
        \<and> mf_symbol f = ms_symbol (last (rb_items b)) \<and> mf_market_timestamp f = mt (last (rb_items b)))"
proof (cases "rb_latest b")
  case None
  then show ?thesis by (simp add: compute_features_def rb_latest_def split: if_splits)
next
  case (Some latest)
  then have l: "latest \<in> set (rb_items b)" "rb_items b \<noteq> []" "latest = last (rb_items b)"
    using rb_latest_in by (auto simp: rb_latest_def split: if_splits)
  then have dl: "datable (mt latest)" using assms(2) by (simp add: dated_def)
  have since: "dated (rb_since b 0)" using assms(2) by (auto simp: dated_def rb_since_def)
  obtain hr lr where refs: "session_refs b latest = Inr (hr, lr)"
    using session_refs_total [OF since dl, of None None] by (auto simp: session_refs_def)
  let ?P = "\<lambda>s. is_same_session (mt s) (mt latest)"
  have snaps: "res_filter ?P (rb_since b 0) = Inr (filter (\<lambda>s. ?P s = Inr True) (rb_since b 0))"
    by (rule res_filter_total) (rule same_session_total [OF since dl])
  have "dated (filter (\<lambda>s. ?P s = Inr True) (rb_since b 0))" using since by (auto simp: dated_def)
  then obtain bars where bars: "completed_minute_bars (filter (\<lambda>s. ?P s = Inr True) (rb_since b 0))
      (mt latest) (fp_bar_seconds policy) = Inr bars"
    using completed_minute_bars_total dl by blast
  note total = price_change_total [OF assms(1,2) l(1)] volume_delta_total [OF assms(1,2) l(1)]
    volume_ratio_total [OF assms(1,2) l(1) _ _ assms(3)]
  obtain c1 c5 c15 where "price_change b latest 60 policy = Inr c1" "price_change b latest 300 policy = Inr c5"
    "price_change b latest 900 policy = Inr c15"
    using total(1) [of 60] total(1) [of 300] total(1) [of 900] by fastforce
  moreover obtain v1 v5 where "volume_delta b latest 60 policy = Inr v1" "volume_delta b latest 300 policy = Inr v5"
    using total(2) [of 60] total(2) [of 300] by fastforce
  moreover obtain r1 r5 where "volume_ratio b latest 60 policy = Inr r1" "volume_ratio b latest 300 policy = Inr r5"
    using total(3) [of 60] total(3) [of 300] by fastforce
  ultimately show ?thesis
    using Some l(2) bars
    by (simp add: compute_features_def refs snaps split_beta Let_def l(3) [symmetric])
qed

theorem compute_features_total_witness:
  "\<exists>f. compute_features default_feature_policy minute_buffer = Inr (Some f) \<and> mf_market_timestamp f = 1095"
proof -
  have "rb_inv minute_buffer" "dated (rb_items minute_buffer)"
    "0 < fp_volume_ratio_lookback default_feature_policy" "rb_items minute_buffer \<noteq> []"
    "mt (last (rb_items minute_buffer)) = 1095"
    by code_simp+
  then show ?thesis using compute_features_total [of minute_buffer default_feature_policy] by auto
qed

section \<open>Minute bars against a reference\<close>

text \<open>
  The reference groups the completed snapshots by minute without dictionary or running
  state: a bar's volume is the difference to the previous minute's last snapshot, if that
  minute has one.
\<close>

definition minute_group :: "flt \<Rightarrow> market_snapshot list \<Rightarrow> flt \<Rightarrow> market_snapshot list" where
  "minute_group bar_s ss start = filter (\<lambda>s. bar_start bar_s (mt s) = start) ss"

definition completed :: "flt \<Rightarrow> flt \<Rightarrow> market_snapshot list \<Rightarrow> market_snapshot list" where
  "completed bar_s latest_ts ss =
     filter (\<lambda>s. is_same_session (mt s) latest_ts = Inr True
                 \<and> bar_start bar_s (mt s) < bar_start bar_s latest_ts) ss"

definition bar_reference :: "flt \<Rightarrow> market_snapshot list \<Rightarrow> flt \<Rightarrow> market_bar" where
  "bar_reference bar_s ss start =
     (let grp = minute_group bar_s ss start;
          prev = minute_group bar_s ss (start - bar_s)
      in \<lparr>mb_symbol = ms_symbol (last grp),
          mb_start_timestamp = start,
          mb_end_timestamp = start + bar_s,
          mb_open = ms_price (hd grp),
          mb_high = Max (ms_price ` set grp),
          mb_low = Min (ms_price ` set grp),
          mb_close = ms_price (last grp),
          mb_volume = (if prev = [] then None
                       else Some (max 0 (ms_volume (last grp) - ms_volume (last prev)))),
          mb_turnover = (if prev = [] then None
                         else case (ms_turnover (last grp), ms_turnover (last prev)) of
                                (Some c, Some p) \<Rightarrow> Some (max 0 (c - p))
                              | _ \<Rightarrow> None)\<rparr>)"

definition buckets_of :: "flt \<Rightarrow> market_snapshot list \<Rightarrow> (flt, market_snapshot list) dict \<Rightarrow> bool" where
  "buckets_of bar_s ss d \<longleftrightarrow> dict_wf d \<and>
     (\<forall>start. dict_get d start =
        (if minute_group bar_s ss start = [] then None else Some (minute_group bar_s ss start)))"

lemma bucket_add_of:
  "buckets_of bar_s ss d \<Longrightarrow> buckets_of bar_s (ss @ [s]) (bucket_add (bar_start bar_s (mt s)) s d)"
  by (auto simp: buckets_of_def bucket_add_def minute_group_def AList.update_conv' dict_wf_set
      split: option.splits if_splits)

lemma fill_buckets_of:
  assumes "fill_buckets latest_ts bar_s (bar_start bar_s latest_ts) ss d = Inr d'" "buckets_of bar_s pre d"
  shows "buckets_of bar_s (pre @ completed bar_s latest_ts ss) d'"
  using assms
proof (induction ss arbitrary: d pre)
  case (Cons s ss)
  then show ?case
    using Cons.IH [of "bucket_add (bar_start bar_s (mt s)) s d" "pre @ [s]"] bucket_add_of [of bar_s pre d s]
    by (auto simp: completed_def res_simps Let_def not_le split: if_splits)
qed (simp add: completed_def)

lemma fold_max_Max: "fold max xs (x :: flt) = Max (insert x (set xs))"
  by (metis Max.set_eq_fold list.simps(15))

lemma fold_min_Min: "fold min xs (x :: flt) = Min (insert x (set xs))"
  by (metis Min.set_eq_fold list.simps(15))

lemma fold_extremes:
  assumes "xs \<noteq> []"
  shows "fold max (tl (map f xs)) (hd (map f xs)) = (Max (f ` set xs) :: flt)"
    and "fold min (tl (map f xs)) (hd (map f xs)) = (Min (f ` set xs) :: flt)"
  using assms by (cases xs; simp add: fold_max_Max fold_min_Min)+

lemma bar_starts_apart:
  assumes "0 < bar_s" "bar_start bar_s x < bar_start bar_s y"
  shows "bar_start bar_s x + bar_s \<le> bar_start bar_s y"
proof -
  have "\<lfloor>x / bar_s\<rfloor> < \<lfloor>y / bar_s\<rfloor>"
    using assms by (simp add: bar_start_def mult_less_cancel_right)
  then have "\<lfloor>x / bar_s\<rfloor> + 1 \<le> \<lfloor>y / bar_s\<rfloor>" by simp
  then have "(of_int (\<lfloor>x / bar_s\<rfloor> + 1) :: flt) \<le> of_int \<lfloor>y / bar_s\<rfloor>" by (simp only: of_int_le_iff)
  then have "of_int (\<lfloor>x / bar_s\<rfloor> + 1) * bar_s \<le> of_int \<lfloor>y / bar_s\<rfloor> * bar_s"
    using assms(1) by (intro mult_right_mono) auto
  then show ?thesis by (simp add: bar_start_def algebra_simps)
qed

definition minutes :: "flt \<Rightarrow> market_snapshot list \<Rightarrow> flt set" where
  "minutes bar_s ss = (\<lambda>s. bar_start bar_s (mt s)) ` set ss"

lemma minute_group_empty: "minute_group bar_s ss start = [] \<longleftrightarrow> start \<notin> minutes bar_s ss"
  by (auto simp: minute_group_def minutes_def filter_empty_conv)

lemma buckets_dom: "buckets_of bar_s ss d \<Longrightarrow> set (map fst d) = minutes bar_s ss"
  unfolding buckets_of_def set_map dom_map_of_conv_image_fst [symmetric]
  by (auto simp: dom_def minute_group_empty)

lemma minute_group_sorted: "ascending ss \<Longrightarrow> sort_key mt (minute_group bar_s ss start) = minute_group bar_s ss start"
  by (simp add: minute_group_def ascending_filter ascending_sorted sort_key_id_if_sorted)

lemma sorted_le_last: "sorted_wrt (<) xs \<Longrightarrow> x \<in> set xs \<Longrightarrow> x \<le> (last xs :: flt)"
  by (induction xs) (auto intro: less_imp_le)

text \<open>The minute before \<open>start\<close> is in the set iff it is the last of the earlier ones.\<close>

lemma previous_minute:
  assumes "0 < bar_s" "sorted_wrt (<) (pre @ start # post)" "set (pre @ start # post) = minutes bar_s ss"
  shows "start - bar_s \<in> minutes bar_s ss \<longleftrightarrow> pre \<noteq> [] \<and> last pre + bar_s = start"
proof
  assume m: "start - bar_s \<in> minutes bar_s ss"
  have "start - bar_s \<in> set (pre @ start # post)" "start - bar_s \<noteq> start" "\<not> start < start - bar_s"
    using m assms(1) unfolding assms(3) by simp_all
  then have in_pre: "start - bar_s \<in> set pre" using assms(2) by (auto simp: sorted_wrt_append)
  then have pre: "pre \<noteq> []" "start - bar_s \<le> last pre"
    using assms(2) sorted_le_last [of pre "start - bar_s"] by (auto simp: sorted_wrt_append)
  have lt: "last pre < start" using assms(2) pre(1) by (simp add: sorted_wrt_append)
  moreover have "last pre \<in> minutes bar_s ss" "start \<in> minutes bar_s ss" using pre(1) by (auto simp: assms(3) [symmetric])
  ultimately have "last pre + bar_s \<le> start"
    using bar_starts_apart [OF assms(1)] by (auto simp: minutes_def)
  then show "pre \<noteq> [] \<and> last pre + bar_s = start" using pre by simp
next
  assume "pre \<noteq> [] \<and> last pre + bar_s = start"
  then have "start - bar_s = last pre" "last pre \<in> minutes bar_s ss" by (auto simp: assms(3) [symmetric])
  then show "start - bar_s \<in> minutes bar_s ss" by simp
qed

lemma make_bar_reference:
  assumes "start \<in> minutes bar_s ss"
    and "start - bar_s \<in> minutes bar_s ss \<longleftrightarrow> prev_end = Some start"
    and "prev_end = Some start \<Longrightarrow> lv = Some (ms_volume (last (minute_group bar_s ss (start - bar_s))))
      \<and> lt = ms_turnover (last (minute_group bar_s ss (start - bar_s)))"
  shows "make_bar bar_s start (minute_group bar_s ss start) prev_end lv lt = bar_reference bar_s ss start"
proof -
  have ne: "minute_group bar_s ss start \<noteq> []" using assms(1) by (simp add: minute_group_empty)
  note ends = fold_extremes [OF ne, of ms_price, unfolded hd_map [OF ne]] hd_map [OF ne] last_map [OF ne]
  show ?thesis
    unfolding make_bar_def bar_reference_def Let_def ends
    using assms(2,3) by (auto simp: minute_group_empty interval_delta_def split: option.splits)
qed

lemma build_bars_reference:
  assumes "0 < bar_s" "ascending ss" "buckets_of bar_s ss d"
    and "sorted_wrt (<) (pre @ starts)" "set (pre @ starts) = minutes bar_s ss"
    and "if pre = [] then prev_end = None
      else prev_end = Some (last pre + bar_s)
        \<and> lv = Some (ms_volume (last (minute_group bar_s ss (last pre))))
        \<and> lt = ms_turnover (last (minute_group bar_s ss (last pre)))"
  shows "build_bars bar_s d starts prev_end lv lt = map (bar_reference bar_s ss) starts"
  using assms(4-6)
proof (induction starts arbitrary: pre prev_end lv lt)
  case (Cons start starts)
  have mem: "start \<in> minutes bar_s ss" using Cons.prems(2) by auto
  then have grp: "dict_get d start = Some (minute_group bar_s ss start)"
    using assms(3) by (simp add: buckets_of_def minute_group_empty)
  have prev: "start - bar_s \<in> minutes bar_s ss \<longleftrightarrow> pre \<noteq> [] \<and> last pre + bar_s = start"
    using previous_minute [OF assms(1)] Cons.prems(1,2) by blast
  have "make_bar bar_s start (minute_group bar_s ss start) prev_end lv lt = bar_reference bar_s ss start"
    by (rule make_bar_reference [OF mem]) (use prev Cons.prems(3) in \<open>auto split: if_splits\<close>)
  moreover have "build_bars bar_s d starts (Some (start + bar_s)) (Some (ms_volume (last (minute_group bar_s ss start))))
      (ms_turnover (last (minute_group bar_s ss start))) = map (bar_reference bar_s ss) starts"
    using Cons.prems by (intro Cons.IH [of "pre @ [start]"]) auto
  ultimately show ?case by (simp add: grp minute_group_sorted [OF assms(2)])
qed simp

text \<open>C17: The minute bars equal a stateless reference: one bar for each minute that holds a
  completed snapshot of the current session, in ascending order, with the first, last, greatest
  and least price of the minute, and a volume (turnover) exactly when the minute immediately
  before has a snapshot too, namely the non-negative increase against that minute's last one.\<close>

theorem completed_minute_bars_reference:
  assumes "ascending ss" "dated ss" "datable latest_ts" "0 < bar_s"
  shows "completed_minute_bars ss latest_ts bar_s =
    Inr (map (bar_reference bar_s (completed bar_s latest_ts ss))
          (sorted_list_of_set (minutes bar_s (completed bar_s latest_ts ss))))"
proof -
  let ?done = "completed bar_s latest_ts ss"
  obtain d where d: "fill_buckets latest_ts bar_s (bar_start bar_s latest_ts) ss [] = Inr d"
    using fill_buckets_total [OF assms(2,3)] by blast
  have of: "buckets_of bar_s ?done d"
    using fill_buckets_of [OF d, of "[]"] by (simp add: buckets_of_def minute_group_def)
  have asc: "ascending ?done" using assms(1) by (simp add: completed_def ascending_filter)
  have starts: "sort (map fst d) = sorted_list_of_set (minutes bar_s ?done)"
    using of buckets_dom [OF of] by (metis buckets_of_def dict_wf_def sorted_list_of_set_sort_remdups distinct_remdups_id)
  have "build_bars bar_s d (sort (map fst d)) None None None = map (bar_reference bar_s ?done) (sort (map fst d))"
    by (rule build_bars_reference [OF assms(4) asc of, of "[]"])
      (use starts in \<open>auto simp: strict_sorted_list_of_set minutes_def\<close>)
  then show ?thesis
    using d starts assms(4) by (cases "ss = []") (simp_all add: completed_minute_bars_def completed_def minutes_def)
qed

theorem completed_minute_bars_reference_witness:
  "completed_minute_bars [tick_at 10 5, tick_at 70 6] 130 60 =
     Inr (map (bar_reference 60 (completed 60 130 [tick_at 10 5, tick_at 70 6]))
       (sorted_list_of_set (minutes 60 (completed 60 130 [tick_at 10 5, tick_at 70 6]))))
   \<and> map mb_volume (map (bar_reference 60 [tick_at 10 5, tick_at 70 6]) [0, 60]) = [None, Some 0]"
proof -
  have "ascending [tick_at 10 5, tick_at 70 6]" "dated [tick_at 10 5, tick_at 70 6]" "datable 130" by code_simp+
  moreover have "map mb_volume (map (bar_reference 60 [tick_at 10 5, tick_at 70 6]) [0, 60]) = [None, Some 0]"
    by code_simp
  ultimately show ?thesis
    using completed_minute_bars_reference [of "[tick_at 10 5, tick_at 70 6]" 130 60] by simp
qed

section \<open>Bounds of the feature vector\<close>

lemma session_refs_loop_eq:
  assumes "session_refs_loop latest ss h l = Inr (h', l')"
  defines "prior \<equiv> filter (\<lambda>s. mt s < mt latest \<and> is_same_session (mt s) (mt latest) = Inr True) ss"
  shows "h' = fold (\<lambda>s a. Some (case a of None \<Rightarrow> session_extreme_high s | Some x \<Rightarrow> max x (session_extreme_high s))) prior h"
    and "l' = fold (\<lambda>s a. Some (case a of None \<Rightarrow> session_extreme_low s | Some x \<Rightarrow> min x (session_extreme_low s))) prior l"
  using assms(1) unfolding prior_def
  by (induction ss arbitrary: h l) (auto simp: res_simps Let_def split: if_splits)

lemma fold_opt_max:
  "fold (\<lambda>s a. Some (case a of None \<Rightarrow> f s | Some x \<Rightarrow> max x (f s))) ss None =
     (if ss = [] then None else Some (Max (f ` set ss) :: flt))"
proof -
  have "fold (\<lambda>s a. Some (case a of None \<Rightarrow> f s | Some x \<Rightarrow> max x (f s))) xs (Some m) =
      Some (Max (insert m (f ` set xs)))" for xs m
  proof (induction xs arbitrary: m)
    case (Cons x xs)
    then show ?case by (cases "xs = []") (simp_all add: max.assoc)
  qed simp
  then show ?thesis by (cases ss) auto
qed

lemma fold_opt_min:
  "fold (\<lambda>s a. Some (case a of None \<Rightarrow> f s | Some x \<Rightarrow> min x (f s))) ss None =
     (if ss = [] then None else Some (Min (f ` set ss) :: flt))"
proof -
  have "fold (\<lambda>s a. Some (case a of None \<Rightarrow> f s | Some x \<Rightarrow> min x (f s))) xs (Some m) =
      Some (Min (insert m (f ` set xs)))" for xs m
  proof (induction xs arbitrary: m)
    case (Cons x xs)
    then show ?case by (cases "xs = []") (simp_all add: min.assoc)
  qed simp
  then show ?thesis by (cases ss) auto
qed

lemma volume_delta_nonneg: "volume_delta b latest w policy = Inr (Some v) \<Longrightarrow> 0 \<le> v"
  by (auto simp: volume_delta_def res_simps split: option.splits)

lemma volume_ratio_nonneg:
  assumes "volume_ratio b latest w policy = Inr (Some v)"
  shows "0 \<le> v"
proof -
  obtain c samples where "volume_delta b latest w policy = Inr (Some c)"
    "v = c / (sum_list samples / of_nat (length samples))" "0 < sum_list samples / of_nat (length samples)"
    using assms unfolding volume_ratio_def Let_def
    by (auto simp del: times_divide_eq_right divide_divide_eq_right simp: res_simps not_le split: option.splits if_splits)
  then show ?thesis using volume_delta_nonneg by (metis divide_nonneg_pos)
qed

lemma extremes_order: "session_extreme_low s \<le> ms_price s" "ms_price s \<le> session_extreme_high s"
  by (simp_all add: session_extreme_low_def session_extreme_high_def)

lemma range_position_bounds:
  "low \<le> p \<Longrightarrow> p \<le> high \<Longrightarrow> low < high \<Longrightarrow> 0 \<le> (p - low) / (high - low) \<and> (p - low) / (high - low) \<le> (1 :: flt)"
  by auto

text \<open>
  The features computed from a history are determined by its latest snapshot and the
  results of the window functions.
\<close>

lemma compute_features_fields:
  assumes "compute_features policy b = Inr (Some f)"
  obtains latest high_ref low_ref closes where
    "rb_latest b = Some latest" "session_refs b latest = Inr (high_ref, low_ref)"
    "mf_session_high_ref f = high_ref" "mf_session_low_ref f = low_ref"
    "mf_session_high_obs f = session_extreme_high latest" "mf_session_low_obs f = session_extreme_low latest"
    "mf_day_range_position f =
      (let high_now = (case high_ref of None \<Rightarrow> session_extreme_high latest | Some h \<Rightarrow> max h (session_extreme_high latest));
           low_now = (case low_ref of None \<Rightarrow> session_extreme_low latest | Some l \<Rightarrow> min l (session_extreme_low latest))
       in if high_now > low_now then Some ((ms_price latest - low_now) / (high_now - low_now)) else None)"
    "mf_rsi14 f = rsi_wilder closes 14"
    "volume_delta b latest 60 policy = Inr (mf_volume_1m f)" "volume_delta b latest 300 policy = Inr (mf_volume_5m f)"
    "volume_ratio b latest 60 policy = Inr (mf_volume_ratio_1m f)"
    "volume_ratio b latest 300 policy = Inr (mf_volume_ratio_5m f)"
    "session_vwap latest = (mf_vwap f, mf_above_vwap f)"
proof (cases "rb_latest b")
  case None
  then show thesis using assms by (simp add: compute_features_def)
next
  case (Some latest)
  note unfolded = assms [unfolded compute_features_def Let_def Some option.case]
  obtain high_ref low_ref where refs: "session_refs b latest = Inr (high_ref, low_ref)"
    using unfolded by (cases "session_refs b latest") auto
  obtain vwap above where vwap: "session_vwap latest = (vwap, above)" by (rule prod.exhaust)
  show thesis
    using unfolded unfolding refs vwap res_bind.simps prod.case
    by (elim res_bind_InrE; intro that [OF Some refs]) (simp_all add: vwap Let_def, auto)
qed

text \<open>Whatever history the features come from, the day range position lies in [0, 1], RSI in
  [0, 100], volumes and volume ratios are not negative, the observed session low does not exceed
  the observed high, and the session references are the extremes over the session's earlier
  snapshots, absent exactly when there is none.\<close>

theorem compute_features_bounds:
  assumes "compute_features policy b = Inr (Some f)" "rb_latest b = Some latest"
  defines "prior \<equiv> filter (\<lambda>s. mt s < mt latest \<and> is_same_session (mt s) (mt latest) = Inr True) (rb_since b 0)"
  shows "(\<forall>x. mf_day_range_position f = Some x \<longrightarrow> 0 \<le> x \<and> x \<le> 1)
    \<and> (\<forall>x. mf_rsi14 f = Some x \<longrightarrow> 0 \<le> x \<and> x \<le> 100)
    \<and> (\<forall>x \<in> {mf_volume_1m f, mf_volume_5m f, mf_volume_ratio_1m f, mf_volume_ratio_5m f}.
         \<forall>v. x = Some v \<longrightarrow> 0 \<le> v)
    \<and> mf_session_low_obs f \<le> mf_session_high_obs f
    \<and> mf_session_high_ref f = (if prior = [] then None else Some (Max (session_extreme_high ` set prior)))
    \<and> mf_session_low_ref f = (if prior = [] then None else Some (Min (session_extreme_low ` set prior)))"
  using assms(1)
proof (cases rule: compute_features_fields)
  case (1 latest' high_ref low_ref closes)
  then have l: "latest' = latest" using assms(2) by simp
  note refs = session_refs_loop_eq [of latest "rb_since b 0" None None high_ref low_ref]
  have "high_ref = (if prior = [] then None else Some (Max (session_extreme_high ` set prior)))"
    "low_ref = (if prior = [] then None else Some (Min (session_extreme_low ` set prior)))"
    using refs 1(2) unfolding l session_refs_def prior_def by (simp_all add: fold_opt_max fold_opt_min)
  moreover have "0 \<le> x \<and> x \<le> 1" if "mf_day_range_position f = Some x" for x
    using that 1(7) extremes_order [of latest'] range_position_bounds
    by (auto simp: Let_def split: option.splits if_splits) 
  moreover have "mf_session_low_obs f \<le> mf_session_high_obs f"
    using 1(5,6) extremes_order [of latest'] by simp
  moreover have "\<forall>x. mf_rsi14 f = Some x \<longrightarrow> 0 \<le> x \<and> x \<le> 100" using 1(8) rsi_bounds by metis
  moreover have "\<forall>x \<in> {mf_volume_1m f, mf_volume_5m f, mf_volume_ratio_1m f, mf_volume_ratio_5m f}.
      \<forall>v. x = Some v \<longrightarrow> 0 \<le> v"
    using 1(9-12) volume_delta_nonneg volume_ratio_nonneg by auto
  ultimately show ?thesis using 1(3,4) by simp
qed

definition minute_features :: market_features where
  "minute_features =
     \<lparr>mf_symbol = ''AAPL.US'', mf_market_timestamp = 1095, mf_received_timestamp = 1095,
      mf_change_1m = Some (1 / 4), mf_change_5m = None, mf_change_15m = None, mf_change_day = Some 0,
      mf_day_range_position = Some 1, mf_volume_1m = Some 0, mf_volume_5m = None,
      mf_volume_ratio_1m = None, mf_volume_ratio_5m = None, mf_vwap = None, mf_above_vwap = None,
      mf_ema5 = None, mf_ema20 = None, mf_rsi14 = None,
      mf_session_high_ref = Some 20, mf_session_low_ref = Some 10,
      mf_session_high_obs = 25, mf_session_low_obs = 25\<rparr>"

theorem compute_features_bounds_witness:
  "compute_features default_feature_policy minute_buffer = Inr (Some minute_features)
   \<and> mf_session_high_ref minute_features = Some 20 \<and> mf_session_low_obs minute_features \<le> 25
   \<and> 0 \<le> the (mf_day_range_position minute_features) \<and> the (mf_day_range_position minute_features) \<le> 1"
proof -
  have c: "compute_features default_feature_policy minute_buffer = Inr (Some minute_features)"
    "rb_latest minute_buffer = Some (tick_at 1095 25)" by code_simp+
  show ?thesis
    using c(1) compute_features_bounds [OF c] by (simp add: minute_features_def)
qed

end
