(* ===== verification/Event_Rules.thy ===== *)
theory Event_Rules
  imports Domain "HOL-Library.Sublist"
begin

text \<open>
  \<open>events/thresholds.py\<close>, \<open>events/rules/\<close> and \<open>events/detector.py\<close>: six stateless rules
  that turn a pair of feature vectors into market events. The protocol \<open>EventRule\<close> is the
  locale \<open>event_rule\<close>, interpreted on each of the six rules; the detector runs them in order.
  A rule draws one identifier for each event it builds, so it threads the number of draws.
\<close>

section \<open>Thresholds\<close>

definition RAPID_1M_SEV2 :: flt where "RAPID_1M_SEV2 = 6 / 1000"
definition RAPID_1M_SEV3 :: flt where "RAPID_1M_SEV3 = 10 / 1000"
definition RAPID_5M_SEV3 :: flt where "RAPID_5M_SEV3 = 12 / 1000"
definition RAPID_1M_SEV4 :: flt where "RAPID_1M_SEV4 = 15 / 1000"
definition RAPID_5M_SEV4 :: flt where "RAPID_5M_SEV4 = 20 / 1000"
definition RAPID_5M_SEV5 :: flt where "RAPID_5M_SEV5 = 35 / 1000"
definition VOL_5M_SEV2 :: flt where "VOL_5M_SEV2 = 18 / 10"
definition VOL_5M_SEV3 :: flt where "VOL_5M_SEV3 = 25 / 10"
definition VOL_1M_SEV3 :: flt where "VOL_1M_SEV3 = 3"
definition VOL_5M_SEV4 :: flt where "VOL_5M_SEV4 = 4"
definition VOL_5M_SEV5 :: flt where "VOL_5M_SEV5 = 6"
definition BREAKOUT_SEV4 :: flt where "BREAKOUT_SEV4 = 3 / 1000"
definition BREAKOUT_SEV5 :: flt where "BREAKOUT_SEV5 = 8 / 1000"
definition VWAP_CROSS_SEV3_5M :: flt where "VWAP_CROSS_SEV3_5M = 8 / 1000"
definition TTL_SHORT_S :: flt where "TTL_SHORT_S = 60"
definition TTL_LONG_S :: flt where "TTL_LONG_S = 120"

lemmas threshold_defs = RAPID_1M_SEV2_def RAPID_1M_SEV3_def RAPID_5M_SEV3_def RAPID_1M_SEV4_def
  RAPID_5M_SEV4_def RAPID_5M_SEV5_def VOL_5M_SEV2_def VOL_5M_SEV3_def VOL_1M_SEV3_def VOL_5M_SEV4_def
  VOL_5M_SEV5_def BREAKOUT_SEV4_def BREAKOUT_SEV5_def VWAP_CROSS_SEV3_5M_def TTL_SHORT_S_def TTL_LONG_S_def

section \<open>Severity and direction\<close>

definition rapid_move_severity :: "flt option \<Rightarrow> flt option \<Rightarrow> int option" where
  "rapid_move_severity change_1m change_5m =
     (let severity = 0;
          severity = (case change_1m of
              None \<Rightarrow> severity
            | Some c \<Rightarrow>
                if \<bar>c\<bar> \<ge> RAPID_1M_SEV4 then max severity 4
                else if \<bar>c\<bar> \<ge> RAPID_1M_SEV3 then max severity 3
                else if \<bar>c\<bar> \<ge> RAPID_1M_SEV2 then max severity 2
                else severity);
          severity = (case change_5m of
              None \<Rightarrow> severity
            | Some c \<Rightarrow>
                if \<bar>c\<bar> \<ge> RAPID_5M_SEV5 then max severity 5
                else if \<bar>c\<bar> \<ge> RAPID_5M_SEV4 then max severity 4
                else if \<bar>c\<bar> \<ge> RAPID_5M_SEV3 then max severity 3
                else severity)
      in if severity = 0 then None else Some severity)"

definition volume_spike_severity :: "flt option \<Rightarrow> flt option \<Rightarrow> int option" where
  "volume_spike_severity ratio_1m ratio_5m =
     (let severity = 0;
          severity = (case ratio_5m of
              None \<Rightarrow> severity
            | Some r \<Rightarrow>
                if r \<ge> VOL_5M_SEV5 then max severity 5
                else if r \<ge> VOL_5M_SEV4 then max severity 4
                else if r \<ge> VOL_5M_SEV3 then max severity 3
                else if r \<ge> VOL_5M_SEV2 then max severity 2
                else severity);
          severity = (case ratio_1m of
              None \<Rightarrow> severity
            | Some r \<Rightarrow> if r \<ge> VOL_1M_SEV3 then max severity 3 else severity)
      in if severity = 0 then None else Some severity)"

definition one_minute_severity :: "flt \<Rightarrow> int" where
  "one_minute_severity magnitude =
     (if magnitude \<ge> RAPID_1M_SEV4 then 4
      else if magnitude \<ge> RAPID_1M_SEV3 then 3
      else if magnitude \<ge> RAPID_1M_SEV2 then 2
      else 0)"

definition five_minute_severity :: "flt \<Rightarrow> int" where
  "five_minute_severity magnitude =
     (if magnitude \<ge> RAPID_5M_SEV5 then 5
      else if magnitude \<ge> RAPID_5M_SEV4 then 4
      else if magnitude \<ge> RAPID_5M_SEV3 then 3
      else 0)"

definition move_direction :: "flt option \<Rightarrow> flt option \<Rightarrow> int \<Rightarrow> event_direction" where
  "move_direction change_1m change_5m severity =
     (let chosen = None;
          chosen = (case change_5m of
              None \<Rightarrow> chosen
            | Some c \<Rightarrow> if five_minute_severity \<bar>c\<bar> = severity then Some c else chosen);
          chosen = (case change_1m of
              None \<Rightarrow> chosen
            | Some c \<Rightarrow> if one_minute_severity \<bar>c\<bar> = severity then Some c else chosen);
          chosen = (case chosen of
              None \<Rightarrow> (case change_1m of None \<Rightarrow> change_5m | Some c \<Rightarrow> Some c)
            | Some c \<Rightarrow> Some c)
      in case chosen of
           None \<Rightarrow> NONE
         | Some c \<Rightarrow> if c = 0 then NONE else if c > 0 then UP else DOWN)"

definition breakout_severity :: "flt \<Rightarrow> int" where
  "breakout_severity excess =
     (if excess \<ge> BREAKOUT_SEV5 then 5 else if excess \<ge> BREAKOUT_SEV4 then 4 else 3)"

section \<open>Events\<close>

definition dedupe_key :: "string \<Rightarrow> event_type \<Rightarrow> event_direction \<Rightarrow> string" where
  "dedupe_key symbol t d = symbol @ ''|'' @ event_type_value t @ ''|'' @ event_direction_value d"

definition opt_metric :: "flt option \<Rightarrow> metric" where
  "opt_metric x = (case x of None \<Rightarrow> MNone | Some v \<Rightarrow> MFloat v)"

definition build_event ::
  "uuid_source \<Rightarrow> nat \<Rightarrow> market_features \<Rightarrow> event_type \<Rightarrow> event_direction \<Rightarrow> int \<Rightarrow> flt
    \<Rightarrow> (string \<times> metric) list \<Rightarrow> flt \<Rightarrow> string \<Rightarrow> market_event" where
  "build_event uuid n current event_type direction severity detected_at metrics ttl_s rule_name =
     \<lparr>ev_id = uuid n,
      ev_symbol = mf_symbol current,
      ev_type = event_type,
      ev_direction = direction,
      ev_severity = severity,
      ev_market_timestamp = mf_market_timestamp current,
      ev_received_timestamp = mf_received_timestamp current,
      ev_detected_timestamp = detected_at,
      ev_metrics = metrics,
      ev_dedupe_key = dedupe_key (mf_symbol current) event_type direction,
      ev_ttl_s = ttl_s,
      ev_rule_name = rule_name\<rparr>"

type_synonym rule =
  "uuid_source \<Rightarrow> market_features option \<Rightarrow> market_features \<Rightarrow> flt \<Rightarrow> nat \<Rightarrow> market_event list \<times> nat"

definition rapid_move_rule :: rule where
  "rapid_move_rule uuid previous current detected_at n =
     (case rapid_move_severity (mf_change_1m current) (mf_change_5m current) of
        None \<Rightarrow> ([], n)
      | Some severity \<Rightarrow>
          let direction = move_direction (mf_change_1m current) (mf_change_5m current) severity
          in ([build_event uuid n current RAPID_MOVE direction severity detected_at
                 [(''change_1m'', opt_metric (mf_change_1m current)),
                  (''change_5m'', opt_metric (mf_change_5m current))]
                 TTL_SHORT_S (event_type_value RAPID_MOVE)], Suc n))"

definition volume_spike_rule :: rule where
  "volume_spike_rule uuid previous current detected_at n =
     (case volume_spike_severity (mf_volume_ratio_1m current) (mf_volume_ratio_5m current) of
        None \<Rightarrow> ([], n)
      | Some severity \<Rightarrow>
          ([build_event uuid n current VOLUME_SPIKE NONE severity detected_at
              [(''volume_ratio_1m'', opt_metric (mf_volume_ratio_1m current)),
               (''volume_ratio_5m'', opt_metric (mf_volume_ratio_5m current))]
              TTL_LONG_S (event_type_value VOLUME_SPIKE)], Suc n))"

definition price_volume_expansion_rule :: rule where
  "price_volume_expansion_rule uuid previous current detected_at n =
     (case (rapid_move_severity (mf_change_1m current) (mf_change_5m current),
            volume_spike_severity (mf_volume_ratio_1m current) (mf_volume_ratio_5m current)) of
        (Some move, Some volume) \<Rightarrow>
          if move < 2 \<or> volume < 2 then ([], n)
          else
            let severity = min 5 (max move volume + 1);
                direction = move_direction (mf_change_1m current) (mf_change_5m current) move
            in ([build_event uuid n current PRICE_VOLUME_EXPANSION direction severity detected_at
                   [(''change_1m'', opt_metric (mf_change_1m current)),
                    (''change_5m'', opt_metric (mf_change_5m current)),
                    (''volume_ratio_1m'', opt_metric (mf_volume_ratio_1m current)),
                    (''volume_ratio_5m'', opt_metric (mf_volume_ratio_5m current)),
                    (''move_severity'', MFloat (of_int move)),
                    (''volume_severity'', MFloat (of_int volume))]
                   TTL_LONG_S (event_type_value PRICE_VOLUME_EXPANSION)], Suc n)
      | _ \<Rightarrow> ([], n))"

definition day_high_breakout_rule :: rule where
  "day_high_breakout_rule uuid previous current detected_at n =
     (case mf_session_high_ref current of
        None \<Rightarrow> ([], n)
      | Some ref \<Rightarrow>
          if ref \<le> 0 then ([], n)
          else let obs = mf_session_high_obs current
               in if obs \<le> ref then ([], n)
                  else let excess = (obs - ref) / ref
                       in ([build_event uuid n current DAY_HIGH_BREAKOUT UP (breakout_severity excess) detected_at
                              [(''session_high_ref'', MFloat ref),
                               (''session_high_obs'', MFloat obs),
                               (''excess'', MFloat excess)]
                              TTL_SHORT_S (event_type_value DAY_HIGH_BREAKOUT)], Suc n))"

definition day_low_breakdown_rule :: rule where
  "day_low_breakdown_rule uuid previous current detected_at n =
     (case mf_session_low_ref current of
        None \<Rightarrow> ([], n)
      | Some ref \<Rightarrow>
          if ref \<le> 0 then ([], n)
          else let obs = mf_session_low_obs current
               in if obs \<ge> ref then ([], n)
                  else let excess = (ref - obs) / ref
                       in ([build_event uuid n current DAY_LOW_BREAKDOWN DOWN (breakout_severity excess) detected_at
                              [(''session_low_ref'', MFloat ref),
                               (''session_low_obs'', MFloat obs),
                               (''excess'', MFloat excess)]
                              TTL_SHORT_S (event_type_value DAY_LOW_BREAKDOWN)], Suc n))"

definition vwap_cross_rule :: rule where
  "vwap_cross_rule uuid previous current detected_at n =
     (case previous of
        None \<Rightarrow> ([], n)
      | Some prev \<Rightarrow>
          (case (mf_above_vwap prev, mf_above_vwap current, mf_vwap current) of
             (Some was_above, Some is_above, Some vwap) \<Rightarrow>
               if was_above = is_above then ([], n)
               else
                 let direction = (if is_above then UP else DOWN);
                     severity = (case mf_change_5m current of
                                   Some c \<Rightarrow> if \<bar>c\<bar> \<ge> VWAP_CROSS_SEV3_5M then 3 else 2
                                 | None \<Rightarrow> 2)
                 in ([build_event uuid n current VWAP_CROSS direction severity detected_at
                        [(''vwap'', MFloat vwap),
                         (''above_vwap'', MBool is_above),
                         (''change_5m'', opt_metric (mf_change_5m current))]
                        TTL_SHORT_S (event_type_value VWAP_CROSS)], Suc n)
           | _ \<Rightarrow> ([], n)))"

definition default_rules :: "rule list" where
  "default_rules =
     [rapid_move_rule, volume_spike_rule, price_volume_expansion_rule, day_high_breakout_rule,
      day_low_breakdown_rule, vwap_cross_rule]"

fun run_rules ::
  "uuid_source \<Rightarrow> rule list \<Rightarrow> market_features option \<Rightarrow> market_features \<Rightarrow> flt \<Rightarrow> nat
    \<Rightarrow> market_event list \<Rightarrow> market_event list \<times> nat" where
  "run_rules uuid [] previous current detected_at n events = (events, n)"
| "run_rules uuid (rule # rules) previous current detected_at n events =
     (let (new, n') = rule uuid previous current detected_at n
      in run_rules uuid rules previous current detected_at n' (events @ new))"

definition detector_evaluate ::
  "uuid_source \<Rightarrow> rule list \<Rightarrow> fake_clock \<Rightarrow> market_features option \<Rightarrow> market_features \<Rightarrow> nat
    \<Rightarrow> market_event list \<times> nat" where
  "detector_evaluate uuid rules clock previous current n =
     run_rules uuid rules previous current (fc_wall clock) n []"

section \<open>The contract of a rule\<close>

text \<open>
  A well-formed event: its severity is on the scale 2 to 5, its identifier is the draw it was
  built with, it is about the features it was computed from and its key is determined by
  symbol, type and direction.
\<close>

definition event_of :: "market_features \<Rightarrow> flt \<Rightarrow> market_event \<Rightarrow> bool" where
  "event_of current detected_at e \<longleftrightarrow>
     2 \<le> ev_severity e \<and> ev_severity e \<le> 5
     \<and> ev_symbol e = mf_symbol current
     \<and> ev_market_timestamp e = mf_market_timestamp current
     \<and> ev_received_timestamp e = mf_received_timestamp current
     \<and> ev_detected_timestamp e = detected_at
     \<and> ev_dedupe_key e = dedupe_key (mf_symbol current) (ev_type e) (ev_direction e)
     \<and> ev_rule_name e = event_type_value (ev_type e)
     \<and> ev_ttl_s e \<in> {TTL_SHORT_S, TTL_LONG_S}"

locale event_rule =
  fixes rule :: rule and type_of :: event_type
  assumes fires: "rule uuid previous current detected_at n = (events, n') \<Longrightarrow>
      events = [] \<and> n' = n
      \<or> (\<exists>e. events = [e] \<and> n' = Suc n \<and> ev_id e = uuid n \<and> ev_type e = type_of
            \<and> event_of current detected_at e)"
begin

lemma draws: "rule uuid previous current detected_at n = (events, n') \<Longrightarrow> n' = n + length events"
  using fires by fastforce

lemma ids: "rule uuid previous current detected_at n = (events, n') \<Longrightarrow> map ev_id events = map uuid [n..<n']"
  using fires by fastforce

lemma well_formed:
  "rule uuid previous current detected_at n = (events, n') \<Longrightarrow> e \<in> set events \<Longrightarrow>
    ev_type e = type_of \<and> event_of current detected_at e"
  using fires by fastforce

lemma types: "rule uuid previous current detected_at n = (events, n') \<Longrightarrow> map ev_type events \<in> {[], [type_of]}"
  using fires by fastforce

end

lemma rapid_move_severity_range: "rapid_move_severity a b = Some s \<Longrightarrow> 2 \<le> s \<and> s \<le> 5"
  by (auto simp: rapid_move_severity_def Let_def split: option.splits if_splits)

lemma volume_spike_severity_range: "volume_spike_severity a b = Some s \<Longrightarrow> 2 \<le> s \<and> s \<le> 5"
  by (auto simp: volume_spike_severity_def Let_def split: option.splits if_splits)

lemma build_event_of [simp]:
  "event_of current detected_at
      (build_event uuid n current t d severity detected_at metrics ttl rn) \<longleftrightarrow>
    2 \<le> severity \<and> severity \<le> 5 \<and> ttl \<in> {TTL_SHORT_S, TTL_LONG_S} \<and> rn = event_type_value t"
  by (auto simp: event_of_def build_event_def)

lemma build_event_simps [simp]:
  "ev_id (build_event uuid n current t d severity detected_at metrics ttl rn) = uuid n"
  "ev_type (build_event uuid n current t d severity detected_at metrics ttl rn) = t"
  "ev_direction (build_event uuid n current t d severity detected_at metrics ttl rn) = d"
  "ev_severity (build_event uuid n current t d severity detected_at metrics ttl rn) = severity"
  by (simp_all add: build_event_def)

interpretation rapid_move: event_rule rapid_move_rule RAPID_MOVE
  by unfold_locales
    (auto simp: rapid_move_rule_def Let_def dest: rapid_move_severity_range
      split: option.splits)

interpretation volume_spike: event_rule volume_spike_rule VOLUME_SPIKE
  by unfold_locales
    (auto simp: volume_spike_rule_def dest: volume_spike_severity_range
      split: option.splits)

interpretation price_volume: event_rule price_volume_expansion_rule PRICE_VOLUME_EXPANSION
  by unfold_locales
    (auto simp: price_volume_expansion_rule_def Let_def split: option.splits if_splits)

interpretation day_high: event_rule day_high_breakout_rule DAY_HIGH_BREAKOUT
  by unfold_locales
    (auto simp: day_high_breakout_rule_def Let_def breakout_severity_def
      split: option.splits if_splits)

interpretation day_low: event_rule day_low_breakdown_rule DAY_LOW_BREAKDOWN
  by unfold_locales
    (auto simp: day_low_breakdown_rule_def Let_def breakout_severity_def
      split: option.splits if_splits)

interpretation vwap_cross: event_rule vwap_cross_rule VWAP_CROSS
proof
  fix uuid previous current detected_at n events n'
  assume r: "vwap_cross_rule uuid previous current detected_at n = (events, n')"
  show "events = [] \<and> n' = n
      \<or> (\<exists>e. events = [e] \<and> n' = Suc n \<and> ev_id e = uuid n \<and> ev_type e = VWAP_CROSS
            \<and> event_of current detected_at e)"
  proof (cases previous)
    case None
    then show ?thesis using r by (simp add: vwap_cross_rule_def)
  next
    case (Some prev)
    then show ?thesis
      using r by (cases "mf_above_vwap prev"; cases "mf_above_vwap current"; cases "mf_vwap current")
        (auto simp: vwap_cross_rule_def Let_def split: if_splits option.split)
  qed
qed

section \<open>The detector\<close>

lemma append_last_field:
  assumes "xs @ c # ys = xs' @ c # ys'" "c \<notin> set ys" "c \<notin> set ys'"
  shows "xs = xs' \<and> ys = ys'"
  using assms
proof (induction xs arbitrary: xs')
  case Nil
  then show ?case by (cases xs') auto
next
  case (Cons x xs)
  then show ?case by (cases xs') auto
qed

lemma type_value_plain: "CHR ''|'' \<notin> set (event_type_value t)"
  by (cases t) auto

lemma direction_value_plain: "CHR ''|'' \<notin> set (event_direction_value d)"
  by (cases d) auto

lemma event_type_value_inject [simp]: "event_type_value t = event_type_value t' \<longleftrightarrow> t = t'"
  by (cases t; cases t') auto

lemma event_direction_value_inject [simp]: "event_direction_value d = event_direction_value d' \<longleftrightarrow> d = d'"
  by (cases d; cases d') auto

text \<open>The key determines its three fields, whatever characters the symbol has.\<close>

lemma dedupe_key_inject [simp]:
  "dedupe_key s t d = dedupe_key s' t' d' \<longleftrightarrow> s = s' \<and> t = t' \<and> d = d'"
proof
  assume "dedupe_key s t d = dedupe_key s' t' d'"
  then have "(s @ ''|'' @ event_type_value t) @ CHR ''|'' # event_direction_value d =
      (s' @ ''|'' @ event_type_value t') @ CHR ''|'' # event_direction_value d'"
    by (simp add: dedupe_key_def)
  from append_last_field [OF this direction_value_plain direction_value_plain]
  have d: "d = d'" and "s @ CHR ''|'' # event_type_value t = s' @ CHR ''|'' # event_type_value t'"
    by simp_all
  from append_last_field [OF this(2) type_value_plain type_value_plain]
  show "s = s' \<and> t = t' \<and> d = d'" using d by simp
qed simp

lemma run_rules_ok:
  assumes "list_all2 event_rule rules types"
    and "run_rules uuid rules previous current detected_at n acc = (events, n')"
  shows "\<exists>new. events = acc @ new \<and> n' = n + length new \<and> map ev_id new = map uuid [n..<n']
    \<and> (\<forall>e \<in> set new. event_of current detected_at e) \<and> subseq (map ev_type new) types"
  using assms
proof (induction arbitrary: n acc rule: list_all2_induct)
  case (Cons rule rules t types)
  obtain out n1 where out: "rule uuid previous current detected_at n = (out, n1)" by (rule prod.exhaust)
  with Cons.prems have "run_rules uuid rules previous current detected_at n1 (acc @ out) = (events, n')" by simp
  from Cons.IH [OF this] obtain new where new: "events = (acc @ out) @ new" "n' = n1 + length new"
    "map ev_id new = map uuid [n1..<n']" "\<forall>e \<in> set new. event_of current detected_at e"
    "subseq (map ev_type new) types" by blast
  consider "out = []" "n1 = n" | e where "out = [e]" "n1 = Suc n" "ev_id e = uuid n" "ev_type e = t"
    "event_of current detected_at e"
    using event_rule.fires [OF Cons.hyps(1) out] by blast
  then show ?case
  proof cases
    case 1
    then show ?thesis using new by (intro exI [of _ new]) (auto intro: list_emb_Cons)
  next
    case (2 e)
    then show ?thesis using new by (intro exI [of _ "e # new"]) (auto simp: upt_conv_Cons simp del: upt_Suc)
  qed
qed simp

definition default_types :: "event_type list" where
  "default_types =
     [RAPID_MOVE, VOLUME_SPIKE, PRICE_VOLUME_EXPANSION, DAY_HIGH_BREAKOUT, DAY_LOW_BREAKDOWN, VWAP_CROSS]"

lemma default_rules_obey: "list_all2 event_rule default_rules default_types"
  by (simp add: default_rules_def default_types_def rapid_move.event_rule_axioms
      volume_spike.event_rule_axioms price_volume.event_rule_axioms day_high.event_rule_axioms
      day_low.event_rule_axioms vwap_cross.event_rule_axioms)

lemma detector_ok:
  assumes "detector_evaluate uuid default_rules clock previous current n = (events, n')"
  shows "n' = n + length events" "map ev_id events = map uuid [n..<n']"
    "\<forall>e \<in> set events. event_of current (fc_wall clock) e" "subseq (map ev_type events) default_types"
  using run_rules_ok [OF default_rules_obey, of uuid previous current "fc_wall clock" n "[]" events n'] assms
  by (auto simp: detector_evaluate_def)

lemma subseq_distinct: "subseq xs ys \<Longrightarrow> distinct ys \<Longrightarrow> distinct xs"
  by (induction rule: list_emb.induct) (auto dest: list_emb_set)

lemma detector_types_distinct:
  assumes "detector_evaluate uuid default_rules clock previous current n = (events, n')"
  shows "distinct (map ev_type events)"
  using detector_ok(4) [OF assms] by (rule subseq_distinct) (simp add: default_types_def)

lemma detector_keys_distinct:
  assumes "detector_evaluate uuid default_rules clock previous current n = (events, n')"
  shows "distinct (map ev_dedupe_key events)"
proof -
  have "\<And>e e'. e \<in> set events \<Longrightarrow> e' \<in> set events \<Longrightarrow> ev_dedupe_key e = ev_dedupe_key e' \<Longrightarrow> ev_type e = ev_type e'"
    using detector_ok(3) [OF assms] by (auto simp: event_of_def)
  then show ?thesis
    using detector_types_distinct [OF assms] unfolding distinct_map inj_on_def by blast
qed

text \<open>C19: Whatever the features, one evaluation of the detector yields at most six events, each
  with severity 2 to 5, about the current symbol and its market time, detected at the clock's wall
  time and keyed by symbol, type and direction; types appear in rule order at most once each, so
  all deduplication keys of the batch differ, and each event took the next unused identifier.\<close>

theorem detector_events_well_formed:
  assumes "detector_evaluate uuid default_rules clock previous current n = (events, n')"
  shows "length events \<le> 6 \<and> (\<forall>e \<in> set events. event_of current (fc_wall clock) e)
    \<and> subseq (map ev_type events) default_types \<and> distinct (map ev_dedupe_key events)
    \<and> map ev_id events = map uuid [n..<n'] \<and> n' = n + length events"
proof -
  have "length (map ev_type events) \<le> length default_types"
    using detector_ok(4) [OF assms] by (rule list_emb_length)
  then show ?thesis
    using detector_ok [OF assms] detector_keys_distinct [OF assms] by (simp add: default_types_def)
qed

section \<open>What the rules report\<close>

lemma severity_steps:
  "0 \<le> s \<Longrightarrow> (if m \<ge> RAPID_1M_SEV4 then max s 4 else if m \<ge> RAPID_1M_SEV3 then max s 3
      else if m \<ge> RAPID_1M_SEV2 then max s 2 else s) = max s (one_minute_severity m)"
  "0 \<le> s \<Longrightarrow> (if m \<ge> RAPID_5M_SEV5 then max s 5 else if m \<ge> RAPID_5M_SEV4 then max s 4
      else if m \<ge> RAPID_5M_SEV3 then max s 3 else s) = max s (five_minute_severity m)"
  by (simp_all add: one_minute_severity_def five_minute_severity_def)

lemma severity_nonneg: "0 \<le> one_minute_severity m" "0 \<le> five_minute_severity m"
  by (simp_all add: one_minute_severity_def five_minute_severity_def)

lemma severity_zero [simp]: "one_minute_severity 0 = 0" "five_minute_severity 0 = 0"
  by (simp_all add: one_minute_severity_def five_minute_severity_def threshold_defs)

lemma rapid_severity_as_max:
  "rapid_move_severity c1 c5 =
    (let s = max (case c1 of None \<Rightarrow> 0 | Some c \<Rightarrow> one_minute_severity \<bar>c\<bar>)
                 (case c5 of None \<Rightarrow> 0 | Some c \<Rightarrow> five_minute_severity \<bar>c\<bar>)
     in if s = 0 then None else Some s)"
  unfolding rapid_move_severity_def Let_def
  by (cases c1; cases c5; simp only: option.case severity_steps severity_nonneg max.cobounded1 order_refl;
      simp only: severity_nonneg max_absorb1 max_absorb2 order_refl)

lemma move_direction_one:
  "one_minute_severity \<bar>c\<bar> = severity \<Longrightarrow> c \<noteq> 0 \<Longrightarrow>
    move_direction (Some c) c5 severity = (if c > 0 then UP else DOWN)"
  by (simp add: move_direction_def Let_def)

lemma move_direction_five:
  "five_minute_severity \<bar>c\<bar> = severity \<Longrightarrow> c \<noteq> 0 \<Longrightarrow>
    (\<And>x. c1 = Some x \<Longrightarrow> one_minute_severity \<bar>x\<bar> \<noteq> severity) \<Longrightarrow>
    move_direction c1 (Some c) severity = (if c > 0 then UP else DOWN)"
  by (cases c1) (simp_all add: move_direction_def Let_def)

text \<open>A move's direction is the sign of a change that attains the reported severity, the
  one-minute change if it does and otherwise the five-minute one; a rapid move therefore always
  points up or down.\<close>

theorem move_direction_attains_severity:
  assumes "rapid_move_severity c1 c5 = Some severity"
  shows "\<exists>c. (c1 = Some c \<and> one_minute_severity \<bar>c\<bar> = severity
           \<or> c5 = Some c \<and> five_minute_severity \<bar>c\<bar> = severity
             \<and> (\<forall>x. c1 = Some x \<longrightarrow> one_minute_severity \<bar>x\<bar> < severity))
         \<and> c \<noteq> 0 \<and> move_direction c1 c5 severity = (if c > 0 then UP else DOWN)"
proof -
  have pos: "2 \<le> severity" using rapid_move_severity_range [OF assms] by simp
  then have nonzero: "one_minute_severity \<bar>c\<bar> = severity \<Longrightarrow> c \<noteq> 0"
    "five_minute_severity \<bar>c\<bar> = severity \<Longrightarrow> c \<noteq> 0" for c
    by force+
  have dir: "move_direction c1 c5 severity = (if c > 0 then UP else DOWN)"
    if "c1 = Some c \<and> one_minute_severity \<bar>c\<bar> = severity
      \<or> c5 = Some c \<and> five_minute_severity \<bar>c\<bar> = severity
        \<and> (\<forall>x. c1 = Some x \<longrightarrow> one_minute_severity \<bar>x\<bar> \<noteq> severity)" for c
  proof (cases "c1 = Some c \<and> one_minute_severity \<bar>c\<bar> = severity")
    case True
    then show ?thesis using nonzero(1) move_direction_one by simp
  next
    case False
    then show ?thesis using that nonzero(2) move_direction_five by (metis not_Some_eq)
  qed
  show ?thesis
  proof (cases "\<exists>c. c1 = Some c \<and> one_minute_severity \<bar>c\<bar> = severity")
    case True
    then obtain c where "c1 = Some c" "one_minute_severity \<bar>c\<bar> = severity" by blast
    then show ?thesis using nonzero(1) dir [of c] by blast
  next
    case False
    have "\<exists>c. c5 = Some c \<and> five_minute_severity \<bar>c\<bar> = severity"
      "\<forall>x. c1 = Some x \<longrightarrow> one_minute_severity \<bar>x\<bar> < severity"
      using assms pos False unfolding rapid_severity_as_max Let_def
      by (cases c1; cases c5; force simp: max_def split: if_splits)+
    then obtain c where "c5 = Some c" "five_minute_severity \<bar>c\<bar> = severity"
      "\<forall>x. c1 = Some x \<longrightarrow> one_minute_severity \<bar>x\<bar> < severity" by blast
    then show ?thesis using nonzero(2) dir [of c] by (metis less_irrefl)
  qed
qed

theorem move_direction_attains_severity_witness:
  "rapid_move_severity (Some 1) (Some (- 2)) = Some 5 \<and> move_direction (Some 1) (Some (- 2)) 5 = DOWN"
proof -
  have s: "rapid_move_severity (Some 1) (Some (- 2)) = Some 5" "one_minute_severity \<bar>1\<bar> = 4" by code_simp+
  then show ?thesis using move_direction_attains_severity [OF s(1)] by (auto simp: s(2))
qed

text \<open>A combined price-volume event is raised exactly when both the rapid-move and the
  volume-spike rule raise one on the same features, with the rapid move's direction and a severity
  one above the greater of the two, at most 5.\<close>

theorem price_volume_iff_both:
  "(\<exists>e. fst (price_volume_expansion_rule uuid previous current detected_at n) = [e]
        \<and> ev_direction e = d \<and> ev_severity e = s) \<longleftrightarrow>
   (\<exists>m v. fst (rapid_move_rule uuid previous current detected_at n) = [m]
        \<and> fst (volume_spike_rule uuid previous current detected_at n) = [v]
        \<and> ev_direction m = d \<and> s = min 5 (max (ev_severity m) (ev_severity v) + 1))"
proof (cases "rapid_move_severity (mf_change_1m current) (mf_change_5m current)")
  case None
  then show ?thesis by (simp add: price_volume_expansion_rule_def rapid_move_rule_def)
next
  case (Some m)
  note rapid = Some rapid_move_severity_range [OF Some]
  show ?thesis
  proof (cases "volume_spike_severity (mf_volume_ratio_1m current) (mf_volume_ratio_5m current)")
    case None
    then show ?thesis
      by (simp add: price_volume_expansion_rule_def volume_spike_rule_def rapid)
  next
    case (Some v)
    then show ?thesis
      using rapid volume_spike_severity_range [OF Some]
      by (auto simp: price_volume_expansion_rule_def rapid_move_rule_def volume_spike_rule_def Let_def)
  qed
qed

definition quiet_features :: market_features where
  "quiet_features =
     \<lparr>mf_symbol = ''600000.SH'', mf_market_timestamp = 1000, mf_received_timestamp = 1001,
      mf_change_1m = Some (7 / 1000), mf_change_5m = Some (1 / 1000), mf_change_15m = None, mf_change_day = None,
      mf_day_range_position = None, mf_volume_1m = None, mf_volume_5m = None,
      mf_volume_ratio_1m = Some 1, mf_volume_ratio_5m = Some 2, mf_vwap = None, mf_above_vwap = None,
      mf_ema5 = None, mf_ema20 = None, mf_rsi14 = None,
      mf_session_high_ref = Some 10, mf_session_low_ref = Some 9,
      mf_session_high_obs = 10, mf_session_low_obs = 9\<rparr>"

theorem detector_events_well_formed_witness:
  "\<exists>events n'. detector_evaluate show_nat default_rules \<lparr>fc_wall = 1002, fc_mono = 5\<rparr> None quiet_features 7 = (events, n')
     \<and> length events = 3 \<and> n' = 10 \<and> distinct (map ev_dedupe_key events)"
proof -
  obtain events n' where e: "detector_evaluate show_nat default_rules \<lparr>fc_wall = 1002, fc_mono = 5\<rparr> None quiet_features 7 = (events, n')"
    by (rule prod.exhaust)
  moreover have "snd (detector_evaluate show_nat default_rules \<lparr>fc_wall = 1002, fc_mono = 5\<rparr> None quiet_features 7) = 10"
    by code_simp
  ultimately show ?thesis using detector_events_well_formed [OF e] by auto
qed

end
