(* ===== verification/Gates.thy ===== *)
theory Gates
  imports Event_Rules
begin

text \<open>
  \<open>signals/dedupe.py\<close> and \<open>signals/cooldown.py\<close>: the two gates of the pipeline. Both let a
  key through once per window unless its rank rises; the locale \<open>escalation_gate\<close> states
  that contract and proves its consequences for sequences of offers, and is interpreted on the
  deduper (market time, severity, per-event window) and on the cooldown gate (monotonic time,
  priority, one window).
\<close>

section \<open>Event deduplication\<close>

record dedupe_record =
  dr_market_timestamp :: flt
  dr_severity :: int
  dr_ttl_s :: flt

type_synonym deduper = "string \<rightharpoonup> dedupe_record"

definition dedupe_store :: "deduper \<Rightarrow> market_event \<Rightarrow> deduper" where
  "dedupe_store d event =
     d(ev_dedupe_key event \<mapsto>
         \<lparr>dr_market_timestamp = ev_market_timestamp event,
          dr_severity = ev_severity event,
          dr_ttl_s = ev_ttl_s event\<rparr>)"

definition dedupe_accept :: "deduper \<Rightarrow> market_event \<Rightarrow> market_event option \<times> deduper" where
  "dedupe_accept d event =
     (case d (ev_dedupe_key event) of
        None \<Rightarrow> (Some event, dedupe_store d event)
      | Some previous \<Rightarrow>
          let elapsed = ev_market_timestamp event - dr_market_timestamp previous
          in if elapsed < 0 then (None, d)
             else if elapsed < dr_ttl_s previous then
               if ev_severity event > dr_severity previous then (Some event, dedupe_store d event)
               else (None, d)
             else (Some event, dedupe_store d event))"

section \<open>Alert cooldown\<close>

definition DEFAULT_COOLDOWN_S :: flt where "DEFAULT_COOLDOWN_S = 300"

record cooldown_gate =
  cg_cooldown_s :: flt
  cg_last :: "string \<rightharpoonup> flt \<times> signal_priority"

definition new_cooldown_gate :: "flt \<Rightarrow> cooldown_gate" where
  "new_cooldown_gate cooldown_s = \<lparr>cg_cooldown_s = cooldown_s, cg_last = Map.empty\<rparr>"

definition cooldown_allow ::
  "cooldown_gate \<Rightarrow> fake_clock \<Rightarrow> string \<Rightarrow> signal_priority \<Rightarrow> bool \<times> cooldown_gate" where
  "cooldown_allow g clock signal_id priority =
     (let now = fc_mono clock;
          stored = g\<lparr>cg_last := (cg_last g)(signal_id \<mapsto> (now, priority))\<rparr>
      in case cg_last g signal_id of
           None \<Rightarrow> (True, stored)
         | Some (last_mono, last_priority) \<Rightarrow>
             if now - last_mono \<ge> cg_cooldown_s g then (True, stored)
             else if priority_rank priority > priority_rank last_priority then (True, stored)
             else (False, g))"

section \<open>The common contract\<close>

text \<open>A gate run on a sequence of offers, and the offers it let through.\<close>

fun gate_run :: "('s \<Rightarrow> 'o \<Rightarrow> bool \<times> 's) \<Rightarrow> 's \<Rightarrow> 'o list \<Rightarrow> 'o list \<times> 's" where
  "gate_run offer s [] = ([], s)"
| "gate_run offer s (x # xs) =
     (let (ok, s') = offer s x; (ys, s'') = gate_run offer s' xs
      in (if ok then x # ys else ys, s''))"

abbreviation admitted :: "('s \<Rightarrow> 'o \<Rightarrow> bool \<times> 's) \<Rightarrow> 's \<Rightarrow> 'o list \<Rightarrow> 'o list" where
  "admitted offer s xs \<equiv> fst (gate_run offer s xs)"

lemma admitted_Cons:
  "admitted offer s (x # xs) =
     (if fst (offer s x) then x # admitted offer (snd (offer s x)) xs
      else admitted offer (snd (offer s x)) xs)"
  by (simp add: split_beta Let_def)

lemma admitted_subset: "set (admitted offer s xs) \<subseteq> set xs"
  by (induction xs arbitrary: s) (auto simp: admitted_Cons simp del: gate_run.simps(2))

locale escalation_gate =
  fixes offer :: "'s \<Rightarrow> 'o \<Rightarrow> bool \<times> 's"
    and recorded :: "'s \<Rightarrow> 'k \<Rightarrow> (flt \<times> int \<times> flt) option"
    and key :: "'o \<Rightarrow> 'k" and time :: "'o \<Rightarrow> flt" and rank :: "'o \<Rightarrow> int"
    and window :: "'s \<Rightarrow> 'o \<Rightarrow> flt"
  assumes fresh: "recorded s (key x) = None \<Longrightarrow> fst (offer s x)"
    and decide: "recorded s (key x) = Some (t, r, w) \<Longrightarrow> t \<le> time x \<Longrightarrow>
      fst (offer s x) \<longleftrightarrow> w \<le> time x - t \<or> r < rank x"
    and stored: "fst (offer s x) \<Longrightarrow>
      recorded (snd (offer s x)) (key x) = Some (time x, rank x, window s x)"
    and kept: "\<not> fst (offer s x) \<Longrightarrow> recorded (snd (offer s x)) = recorded s"
    and others: "k \<noteq> key x \<Longrightarrow> recorded (snd (offer s x)) k = recorded s k"
    and window_stable: "window (snd (offer s x)) y = window s y"
begin

text \<open>Among ordered offers of one key, two that pass in a row are a window apart or rise in rank.\<close>

lemma admitted_spaced:
  assumes "\<forall>x \<in> set xs. key x = k" "sorted (map time xs)"
    and "recorded s k = Some (t, r, w)" "\<forall>x \<in> set xs. t \<le> time x"
  shows "case admitted offer s xs of [] \<Rightarrow> True | y # ys \<Rightarrow> w \<le> time y - t \<or> r < rank y"
  using assms
proof (induction xs arbitrary: s)
  case (Cons x xs)
  show ?case
  proof (cases "fst (offer s x)")
    case True
    then show ?thesis using Cons.prems decide [of s x t r w] by (simp add: admitted_Cons del: gate_run.simps)
  next
    case False
    then show ?thesis
      using Cons.prems kept [OF False] Cons.IH [of "snd (offer s x)"] by (simp add: admitted_Cons del: gate_run.simps)
  qed
qed simp

lemma admitted_successive:
  assumes "\<forall>x \<in> set xs. key x = k" "sorted (map time xs)"
  shows "successively (\<lambda>x y. window s x \<le> time y - time x \<or> rank x < rank y) (admitted offer s xs)"
  using assms
proof (induction xs arbitrary: s)
  case (Cons x xs)
  let ?s' = "snd (offer s x)"
  have ih: "successively (\<lambda>x y. window s x \<le> time y - time x \<or> rank x < rank y) (admitted offer ?s' xs)"
    using Cons.IH [of ?s'] Cons.prems by (simp add: window_stable)
  show ?case
  proof (cases "fst (offer s x)")
    case True
    have "case admitted offer ?s' xs of [] \<Rightarrow> True
      | y # ys \<Rightarrow> window s x \<le> time y - time x \<or> rank x < rank y"
      by (rule admitted_spaced [of xs k]) (use Cons.prems stored [OF True] in auto)
    with True ih show ?thesis
      by (simp add: admitted_Cons successively_Cons del: gate_run.simps split: list.splits)
  qed (use ih in \<open>simp add: admitted_Cons del: gate_run.simps\<close>)
qed simp

text \<open>Within less than a window ranks strictly rise, so at most one offer of each rank passes.\<close>

lemma admitted_in_window:
  assumes "\<forall>x \<in> set xs. key x = k" "sorted (map time xs)"
    and "\<forall>x \<in> set xs. \<forall>y \<in> set xs. time y - time x < window s x"
  shows "sorted_wrt (<) (map rank (admitted offer s xs))"
proof -
  let ?ys = "admitted offer s xs"
  have "successively (\<lambda>x y. rank x < rank y) ?ys"
    using admitted_successive [OF assms(1,2), of s]
    by (rule successively_mono) (use assms(3) admitted_subset in \<open>force simp: not_le\<close>)
  then show ?thesis
    by (simp add: sorted_wrt_map flip: successively_conv_sorted_wrt [where P = "\<lambda>x y. rank x < rank y", OF transpI])
qed

lemma admitted_count:
  assumes "\<forall>x \<in> set xs. key x = k" "sorted (map time xs)"
    and "\<forall>x \<in> set xs. \<forall>y \<in> set xs. time y - time x < window s x"
    and "\<forall>x \<in> set xs. lo \<le> rank x \<and> rank x \<le> hi"
  shows "int (length (admitted offer s xs)) \<le> max 0 (hi - lo + 1)"
proof -
  let ?ranks = "map rank (admitted offer s xs)"
  have "distinct ?ranks"
    using admitted_in_window [OF assms(1-3)] by (simp add: strict_sorted_iff)
  moreover have "set ?ranks \<subseteq> {lo..hi}" using assms(4) admitted_subset by fastforce
  ultimately have "length (admitted offer s xs) \<le> card {lo..hi}"
    by (metis card_mono distinct_card finite_atLeastAtMost_int length_map)
  then show ?thesis by simp
qed

text \<open>Keys do not influence one another.\<close>

lemma offer_local:
  assumes "recorded s (key x) = recorded s' (key x)" "\<forall>t r w. recorded s (key x) = Some (t, r, w) \<longrightarrow> t \<le> time x"
  shows "fst (offer s x) = fst (offer s' x)"
proof (cases "recorded s (key x)")
  case None
  then show ?thesis using fresh assms(1) by metis
next
  case (Some rec)
  then show ?thesis using decide assms by (metis prod_cases3)
qed

lemma admitted_filter:
  assumes "sorted (map time xs)" "recorded s k = recorded s' k" "window s = window s'"
    and "\<forall>t r w. recorded s k = Some (t, r, w) \<longrightarrow> (\<forall>x \<in> set xs. t \<le> time x)"
  shows "filter (\<lambda>x. key x = k) (admitted offer s xs) = admitted offer s' (filter (\<lambda>x. key x = k) xs)"
  using assms
proof (induction xs arbitrary: s s')
  case (Cons x xs)
  note [simp del] = gate_run.simps(2)
  have win: "window (snd (offer s x)) = window (snd (offer s' x))" "window (snd (offer s x)) = window s'"
    using Cons.prems(3) by (auto simp: window_stable fun_eq_iff)
  show ?case
  proof (cases "key x = k")
    case False
    then show ?thesis
      using Cons.prems Cons.IH [of "snd (offer s x)" s'] others [of k x s] win by (simp add: admitted_Cons)
  next
    case True
    have same: "fst (offer s x) = fst (offer s' x)"
      using Cons.prems True by (intro offer_local) auto
    have rec: "recorded (snd (offer s x)) k = recorded (snd (offer s' x)) k"
      using stored [of s x] stored [of s' x] kept [of s x] kept [of s' x] same True Cons.prems(2,3)
      by (cases "fst (offer s x)") (simp_all add: fun_eq_iff)
    have later: "\<forall>t r w. recorded (snd (offer s x)) k = Some (t, r, w) \<longrightarrow> (\<forall>y \<in> set xs. t \<le> time y)"
      using stored [of s x] kept [of s x] True Cons.prems(1,4) by (cases "fst (offer s x)") auto
    show ?thesis
      using Cons.IH [OF _ rec win(1) later] Cons.prems(1) same True by (simp add: admitted_Cons)
  qed
qed simp

end

section \<open>The gates meet the contract\<close>

definition dedupe_offer :: "deduper \<Rightarrow> market_event \<Rightarrow> bool \<times> deduper" where
  "dedupe_offer d event = (case dedupe_accept d event of (kept, d') \<Rightarrow> (kept \<noteq> None, d'))"

abbreviation dedupe_recorded :: "deduper \<Rightarrow> string \<Rightarrow> (flt \<times> int \<times> flt) option" where
  "dedupe_recorded d k \<equiv>
     map_option (\<lambda>r. (dr_market_timestamp r, dr_severity r, dr_ttl_s r)) (d k)"

interpretation dedupe: escalation_gate dedupe_offer dedupe_recorded
  ev_dedupe_key ev_market_timestamp ev_severity "\<lambda>_. ev_ttl_s"
  by unfold_locales
    (auto simp: dedupe_offer_def dedupe_accept_def dedupe_store_def Let_def not_less fun_eq_iff split: option.splits if_splits)

type_synonym alert_offer = "flt \<times> string \<times> signal_priority"

definition cooldown_offer :: "cooldown_gate \<Rightarrow> alert_offer \<Rightarrow> bool \<times> cooldown_gate" where
  "cooldown_offer g = (\<lambda>(now, signal_id, priority).
     cooldown_allow g \<lparr>fc_wall = 0, fc_mono = now\<rparr> signal_id priority)"

abbreviation cooldown_recorded :: "cooldown_gate \<Rightarrow> string \<Rightarrow> (flt \<times> int \<times> flt) option" where
  "cooldown_recorded g k \<equiv>
     map_option (\<lambda>(t, p). (t, int (priority_rank p), cg_cooldown_s g)) (cg_last g k)"

interpretation cooldown: escalation_gate cooldown_offer cooldown_recorded
  "\<lambda>x. fst (snd x)" fst "\<lambda>x. int (priority_rank (snd (snd x)))" "\<lambda>g _. cg_cooldown_s g"
  by unfold_locales
    (auto simp: cooldown_offer_def cooldown_allow_def Let_def fun_eq_iff split: option.splits if_splits prod.splits)

section \<open>Properties\<close>

lemma dedupe_accepted:
  assumes "fst (dedupe_offer d x)"
  shows "snd (dedupe_offer d x) = dedupe_store d x"
    and "d (ev_dedupe_key x) = Some r \<Longrightarrow> dr_market_timestamp r \<le> ev_market_timestamp x"
  using assms by (auto simp: dedupe_offer_def dedupe_accept_def Let_def not_less split: option.splits if_splits)

lemma dedupe_rejected: "\<not> fst (dedupe_offer d x) \<Longrightarrow> snd (dedupe_offer d x) = d"
  by (auto simp: dedupe_offer_def dedupe_accept_def Let_def split: option.splits if_splits)

text \<open>An event the deduper lets through is stored unchanged under its key, and one that is
  older in market time than the last accepted event of its key is always suppressed; so for every
  key the market times of accepted events never decrease, in whatever order events arrive.\<close>

theorem dedupe_accepts_in_order:
  "sorted (map ev_market_timestamp
     (filter (\<lambda>e. ev_dedupe_key e = k) (admitted dedupe_offer d events)))
   \<and> (\<forall>r. d k = Some r \<longrightarrow> (\<forall>e \<in> set (admitted dedupe_offer d events).
        ev_dedupe_key e = k \<longrightarrow> dr_market_timestamp r \<le> ev_market_timestamp e))"
proof (induction events arbitrary: d)
  case (Cons x xs)
  let ?d' = "snd (dedupe_offer d x)"
  let ?later = "admitted dedupe_offer ?d' xs"
  note ih = Cons.IH [of ?d']
  show ?case
  proof (cases "fst (dedupe_offer d x)")
    case True
    note acc = dedupe_accepted [OF True]
    have eq: "admitted dedupe_offer d (x # xs) = x # ?later"
      using True by (simp only: admitted_Cons if_True)
    show ?thesis
    proof (cases "ev_dedupe_key x = k")
      case same: True
      have k: "?d' k = Some \<lparr>dr_market_timestamp = ev_market_timestamp x,
          dr_severity = ev_severity x, dr_ttl_s = ev_ttl_s x\<rparr>"
        using same by (simp add: acc(1) dedupe_store_def)
      have "\<forall>e \<in> set ?later. ev_dedupe_key e = k \<longrightarrow> ev_market_timestamp x \<le> ev_market_timestamp e"
        using conjunct2 [OF ih, rule_format, OF k] by auto
      then show ?thesis unfolding eq using ih acc(2) same by fastforce
    next
      case False
      then have "?d' k = d k" by (simp add: acc(1) dedupe_store_def)
      then show ?thesis unfolding eq using ih False by simp
    qed
  next
    case False
    then have "admitted dedupe_offer d (x # xs) = ?later" by (simp only: admitted_Cons if_False)
    then show ?thesis using ih dedupe_rejected [OF False] by simp
  qed
qed simp

text \<open>C20: Of the events with one deduplication key that arrive in market-time order within less
  than their windows, those accepted have strictly rising severity; with severities on the scale 2
  to 5 at most four of any number of events pass.\<close>

theorem dedupe_window_bound:
  assumes "\<forall>e \<in> set events. ev_dedupe_key e = k" "sorted (map ev_market_timestamp events)"
    and "\<forall>e \<in> set events. \<forall>e' \<in> set events. ev_market_timestamp e' - ev_market_timestamp e < ev_ttl_s e"
    and "\<forall>e \<in> set events. 2 \<le> ev_severity e \<and> ev_severity e \<le> 5"
  shows "sorted_wrt (<) (map ev_severity (admitted dedupe_offer d events))
    \<and> length (admitted dedupe_offer d events) \<le> 4"
  using dedupe.admitted_in_window [OF assms(1-3), of d] dedupe.admitted_count [OF assms, of d] by simp

lemma cooldown_window:
  assumes "sorted (map fst offers)"
    and "\<forall>x \<in> set offers. \<forall>y \<in> set offers. fst y - fst x < cg_cooldown_s g"
    and "\<forall>t p. cg_last g signal_id = Some (t, p) \<longrightarrow> (\<forall>x \<in> set offers. t \<le> fst x)"
  shows "(let alerts = filter (\<lambda>x. fst (snd x) = signal_id) (admitted cooldown_offer g offers)
    in sorted_wrt (<) (map (\<lambda>x. snd (snd x)) alerts) \<and> length alerts \<le> 4)"
proof -
  let ?mine = "filter (\<lambda>x. fst (snd x) = signal_id) offers"
  have rec: "\<forall>t r w. cooldown_recorded g signal_id = Some (t, r, w) \<longrightarrow> (\<forall>x \<in> set offers. t \<le> fst x)"
    using assms(3) by auto
  have eq: "filter (\<lambda>x. fst (snd x) = signal_id) (admitted cooldown_offer g offers) =
      admitted cooldown_offer g ?mine"
    by (rule cooldown.admitted_filter [OF assms(1) refl refl rec])
  have mine: "\<forall>x \<in> set ?mine. fst (snd x) = signal_id" "sorted (map fst ?mine)"
    "\<forall>x \<in> set ?mine. \<forall>y \<in> set ?mine. fst y - fst x < cg_cooldown_s g"
    "\<forall>x \<in> set ?mine. 1 \<le> int (priority_rank (snd (snd x))) \<and> int (priority_rank (snd (snd x))) \<le> 4"
    using assms(1,2) priority_rank_pos priority_rank_le by (auto simp: sorted_filter Suc_le_eq)
  have "sorted_wrt (<) (map (\<lambda>x. snd (snd x)) (admitted cooldown_offer g ?mine))"
    using cooldown.admitted_in_window [OF mine(1-3)]
    by (simp add: sorted_wrt_map less_signal_priority_def)
  moreover have "length (admitted cooldown_offer g ?mine) \<le> 4"
    using cooldown.admitted_count [OF mine] by simp
  ultimately show ?thesis by (simp add: eq)
qed

text \<open>A signal id raises at most four alerts within less than a cooldown period, one for
  each strictly higher priority, whatever the other ids do meanwhile.\<close>

theorem cooldown_window_bound:
  assumes "sorted (map fst offers)"
    and "\<forall>x \<in> set offers. \<forall>y \<in> set offers. fst y - fst x < cg_cooldown_s g"
    and "\<forall>t p. cg_last g signal_id = Some (t, p) \<longrightarrow> (\<forall>x \<in> set offers. t \<le> fst x)"
  shows "(let alerts = filter (\<lambda>x. fst (snd x) = signal_id) (admitted cooldown_offer g offers)
    in sorted_wrt (<) (map (\<lambda>x. snd (snd x)) alerts) \<and> length alerts \<le> 4)"
  using assms by (rule cooldown_window)

definition spike_at :: "flt \<Rightarrow> int \<Rightarrow> market_event" where
  "spike_at t severity =
     (build_event show_nat 0 quiet_features VOLUME_SPIKE NONE severity t [] TTL_LONG_S ''volume_spike'')
       \<lparr>ev_market_timestamp := t\<rparr>"

theorem dedupe_window_bound_witness:
  "admitted dedupe_offer Map.empty [spike_at 10 2, spike_at 20 2, spike_at 30 4] = [spike_at 10 2, spike_at 30 4]
   \<and> length (admitted dedupe_offer Map.empty [spike_at 10 2, spike_at 20 2, spike_at 30 4]) \<le> 4"
proof -
  have "\<forall>e \<in> set [spike_at 10 2, spike_at 20 2, spike_at 30 4].
      ev_dedupe_key e = dedupe_key ''600000.SH'' VOLUME_SPIKE NONE"
    "sorted (map ev_market_timestamp [spike_at 10 2, spike_at 20 2, spike_at 30 4])"
    "\<forall>e \<in> set [spike_at 10 2, spike_at 20 2, spike_at 30 4].
      \<forall>e' \<in> set [spike_at 10 2, spike_at 20 2, spike_at 30 4]. ev_market_timestamp e' - ev_market_timestamp e < ev_ttl_s e"
    "\<forall>e \<in> set [spike_at 10 2, spike_at 20 2, spike_at 30 4]. 2 \<le> ev_severity e \<and> ev_severity e \<le> 5"
    by code_simp+
  moreover have "admitted dedupe_offer Map.empty [spike_at 10 2, spike_at 20 2, spike_at 30 4] = [spike_at 10 2, spike_at 30 4]"
    by code_simp
  ultimately show ?thesis using dedupe_window_bound by blast
qed

theorem cooldown_window_bound_witness:
  "admitted cooldown_offer (new_cooldown_gate 300) [(1, ''s'', NOTICE), (2, ''t'', INFO), (3, ''s'', NOTICE), (9, ''s'', CRITICAL)]
     = [(1, ''s'', NOTICE), (2, ''t'', INFO), (9, ''s'', CRITICAL)]
   \<and> sorted_wrt (<) [NOTICE, CRITICAL]"
proof -
  let ?offers = "[(1 :: flt, ''s'', NOTICE), (2, ''t'', INFO), (3, ''s'', NOTICE), (9, ''s'', CRITICAL)]"
  have out: "admitted cooldown_offer (new_cooldown_gate 300) ?offers
     = [(1, ''s'', NOTICE), (2, ''t'', INFO), (9, ''s'', CRITICAL)]" by code_simp
  have "sorted (map fst ?offers)" "\<forall>x \<in> set ?offers. \<forall>y \<in> set ?offers. fst y - fst x < cg_cooldown_s (new_cooldown_gate 300)"
    by code_simp+
  from cooldown_window_bound [OF this, of "''s''"]
  have "sorted_wrt (<) [NOTICE, CRITICAL]" unfolding out by (simp add: new_cooldown_gate_def)
  with out show ?thesis by simp
qed

theorem dedupe_accepts_in_order_witness:
  "admitted dedupe_offer Map.empty [spike_at 10 2, spike_at 5 5, spike_at 200 2] = [spike_at 10 2, spike_at 200 2]
   \<and> sorted (map ev_market_timestamp [spike_at 10 2, spike_at 200 2])"
proof -
  have out: "admitted dedupe_offer Map.empty [spike_at 10 2, spike_at 5 5, spike_at 200 2] = [spike_at 10 2, spike_at 200 2]"
    by code_simp
  have "filter (\<lambda>e. ev_dedupe_key e = dedupe_key ''600000.SH'' VOLUME_SPIKE NONE) [spike_at 10 2, spike_at 200 2]
      = [spike_at 10 2, spike_at 200 2]" by code_simp
  then show ?thesis
    using dedupe_accepts_in_order [of "dedupe_key ''600000.SH'' VOLUME_SPIKE NONE" Map.empty
        "[spike_at 10 2, spike_at 5 5, spike_at 200 2]"] out by simp
qed

end
