(* ===== verification/Cluster.thy ===== *)
theory Cluster
  imports Event_Rules
begin

text \<open>
  \<open>signals/cluster.py\<close> and \<open>signals/copy.py\<close>: how accepted events are grouped into directional
  episodes of a lineage, how an episode is classified, prioritised and described.
\<close>

section \<open>Clustering\<close>

definition CLUSTER_LOOKBACK_S :: flt where "CLUSTER_LOOKBACK_S = 90"

definition tape_types :: "event_type list" where
  "tape_types = [RAPID_MOVE, VOLUME_SPIKE, PRICE_VOLUME_EXPANSION, DAY_HIGH_BREAKOUT, DAY_LOW_BREAKDOWN]"

definition lineage_of :: "event_type \<Rightarrow> string" where
  "lineage_of t = (if t = VWAP_CROSS then ''vwap'' else ''tape'')"

definition events_in_lookback :: "market_event list \<Rightarrow> flt \<Rightarrow> flt \<Rightarrow> market_event list" where
  "events_in_lookback accepted now_market_ts lookback_s =
     (let start = now_market_ts - lookback_s
      in filter (\<lambda>e. start \<le> ev_market_timestamp e \<and> ev_market_timestamp e \<le> now_market_ts) accepted)"

definition event_order :: "market_event \<Rightarrow> flt \<times> string" where
  "event_order e = (ev_market_timestamp e, ev_id e)"

definition compatible_members :: "market_event \<Rightarrow> market_event list \<Rightarrow> market_event list" where
  "compatible_members event members =
     (let selected =
        (if ev_direction event = NONE then members
         else filter (\<lambda>e. ev_direction e \<in> {ev_direction event, NONE}) members)
      in sort_key event_order selected)"

definition cluster_members :: "market_event \<Rightarrow> market_event list \<Rightarrow> market_event list" where
  "cluster_members event recent =
     (let members =
        (if lineage_of (ev_type event) = ''vwap''
         then filter (\<lambda>e. ev_type e = VWAP_CROSS) recent
         else filter (\<lambda>e. ev_type e \<in> set tape_types) recent)
      in compatible_members event members)"

definition partition_lineage_episodes ::
  "market_event list \<Rightarrow> event_direction \<Rightarrow> (event_direction \<times> market_event list) list" where
  "partition_lineage_episodes recent none_target =
     (let ups = filter (\<lambda>e. ev_direction e = UP) recent;
          downs = filter (\<lambda>e. ev_direction e = DOWN) recent;
          nones = filter (\<lambda>e. ev_direction e = NONE) recent;
          none_up = (if none_target = UP then nones else []);
          none_down = (if none_target = DOWN then nones else []);
          none_alone = (if none_target = NONE then nones else [])
      in (if ups \<noteq> [] \<or> none_up \<noteq> [] then [(UP, sort_key event_order (none_up @ ups))] else [])
         @ (if downs \<noteq> [] \<or> none_down \<noteq> [] then [(DOWN, sort_key event_order (none_down @ downs))] else [])
         @ (if none_alone \<noteq> [] then [(NONE, sort_key event_order none_alone)] else []))"

definition directed :: "market_event list \<Rightarrow> event_direction set" where
  "directed events = {d \<in> set (map ev_direction events). d \<in> {UP, DOWN}}"

definition resolve_none_target ::
  "market_event list \<Rightarrow> market_event list \<Rightarrow> event_direction set \<Rightarrow> event_direction" where
  "resolve_none_target batch recent live_directions =
     (let batch_dirs = directed batch
      in if batch_dirs = {UP} then UP
         else if batch_dirs = {DOWN} then DOWN
         else if card batch_dirs > 1 then NONE
         else
           let candidates = directed recent \<union> (live_directions \<inter> {UP, DOWN})
           in if candidates = {UP} then UP
              else if candidates = {DOWN} then DOWN
              else NONE)"

definition has_type :: "event_type list \<Rightarrow> market_event list \<Rightarrow> bool" where
  "has_type types events \<longleftrightarrow> list_ex (\<lambda>e. ev_type e \<in> set types) events"

abbreviation has_vol :: "market_event list \<Rightarrow> bool" where
  "has_vol \<equiv> has_type [VOLUME_SPIKE, PRICE_VOLUME_EXPANSION]"

abbreviation has_move :: "market_event list \<Rightarrow> bool" where
  "has_move \<equiv> has_type [RAPID_MOVE, PRICE_VOLUME_EXPANSION]"

definition classify_family :: "market_event list \<Rightarrow> string" where
  "classify_family events =
     (if has_vol events \<and> has_move events then ''price_volume''
      else if has_type [DAY_HIGH_BREAKOUT] events then ''breakout''
      else if has_type [DAY_LOW_BREAKDOWN] events then ''breakdown''
      else if has_vol events then ''volume''
      else if has_move events then ''move''
      else if has_type [VWAP_CROSS] events then ''vwap''
      else ''other'')"

section \<open>Priority and copy\<close>

text \<open>\<open>max_priority\<close> is variadic; called with no argument Python's \<open>max\<close> would raise, so the
  model takes the first argument apart.\<close>

definition max_priority :: "signal_priority \<Rightarrow> signal_priority list \<Rightarrow> signal_priority" where
  "max_priority p ps = max_by priority_rank p ps"

definition priority_from_severity :: "int \<Rightarrow> signal_priority" where
  "priority_from_severity severity =
     (if severity \<ge> 5 then CRITICAL
      else if severity \<ge> 4 then IMPORTANT
      else if severity \<ge> 3 then NOTICE
      else INFO)"

definition compose_priority :: "market_event list \<Rightarrow> string \<Rightarrow> (signal_priority \<times> string) res" where
  "compose_priority events family =
     (case map ev_severity events of
        [] \<Rightarrow> Inl (ValueError ''max() arg is an empty sequence'')
      | s # ss \<Rightarrow>
          let max_severity = fold max ss s;
              base = priority_from_severity max_severity
          in if family = ''price_volume'' \<or> (has_vol events \<and> has_move events)
             then Inr (max_priority base [IMPORTANT],
               ''family='' @ family @ ''; max_severity='' @ show_int max_severity @ ''; cluster=price_volume'')
             else if family = ''volume''
             then Inr (max_priority base [NOTICE],
               ''family=volume; max_severity='' @ show_int max_severity @ ''; standalone_volume_notice'')
             else Inr (base, ''family='' @ family @ ''; max_severity='' @ show_int max_severity))"

definition title_keys :: "string list" where
  "title_keys = [''volume'', ''move'', ''price_volume'', ''breakout'', ''breakdown'', ''vwap'', ''other'']"

definition opt_fact :: "('a \<Rightarrow> copy_fact) \<Rightarrow> 'a option \<Rightarrow> copy_fact list" where
  "opt_fact f x = (case x of None \<Rightarrow> [] | Some v \<Rightarrow> [f v])"

definition render_copy ::
  "market_event list \<Rightarrow> string \<Rightarrow> market_features \<Rightarrow> (copy_title \<times> copy_fact list) res" where
  "render_copy events family features =
     (if events = [] then Inl IndexError
      else
        let symbol = ev_symbol (last events);
            facts =
              opt_fact FactChange1m (mf_change_1m features)
              @ opt_fact FactChange5m (mf_change_5m features)
              @ opt_fact FactVolumeRatio1m (mf_volume_ratio_1m features)
              @ opt_fact FactVolumeRatio5m (mf_volume_ratio_5m features)
              @ opt_fact (\<lambda>ref. FactHigh (mf_session_high_obs features) ref) (mf_session_high_ref features)
              @ opt_fact (\<lambda>ref. FactLow (mf_session_low_obs features) ref) (mf_session_low_ref features)
              @ (case (mf_vwap features, mf_above_vwap features) of
                   (Some vwap, Some is_above) \<Rightarrow> [FactVwap is_above vwap]
                 | _ \<Rightarrow> []);
            types = sort (remdups (map (event_type_value \<circ> ev_type) events))
        in Inr (Title (if family \<in> set title_keys then family else ''other'') symbol,
                facts @ [FactRules types]))"

section \<open>Properties of clustering\<close>

lemma partition_directions: "distinct (map fst (partition_lineage_episodes recent target))"
  by (simp add: partition_lineage_episodes_def Let_def)

lemma partition_nonempty: "(d, members) \<in> set (partition_lineage_episodes recent target) \<Longrightarrow> members \<noteq> []"
  by (auto simp: partition_lineage_episodes_def Let_def split: if_splits)

lemma partition_members:
  assumes "(d, members) \<in> set (partition_lineage_episodes recent target)"
  shows "set members = {e \<in> set recent. ev_direction e = d} \<union>
    (if d = target then {e \<in> set recent. ev_direction e = NONE} else {})"
  using assms by (auto simp: partition_lineage_episodes_def Let_def split: if_splits)

lemma filter_partition3:
  "mset xs = mset (filter (\<lambda>e. ev_direction e = UP) xs) + mset (filter (\<lambda>e. ev_direction e = DOWN) xs)
    + mset (filter (\<lambda>e. ev_direction e = NONE) xs)"
proof (induction xs)
  case (Cons x xs)
  then show ?case by (cases "ev_direction x") auto
qed simp

lemma partition_covers:
  "mset (concat (map snd (partition_lineage_episodes recent target))) = mset recent"
proof -
  have if_list: "mset (concat (map snd (if xs \<noteq> [] \<or> ys \<noteq> [] then [(d, sort_key event_order (ys @ xs))] else [])))
      = mset ys + mset xs" for d :: event_direction and xs ys
    by auto
  have alone: "mset (concat (map snd (if xs \<noteq> [] then [(d, sort_key event_order xs)] else []))) = mset xs"
    for d :: event_direction and xs by auto
  show ?thesis
    unfolding partition_lineage_episodes_def Let_def map_append concat_append mset_append if_list alone
      filter_partition3 [of recent]
    by (cases target) simp_all
qed

text \<open>Partitioning a lineage's recent events yields episodes of distinct directions, each non-empty
  and sorted by market time and identifier, that together contain every recent event exactly once;
  an episode holds the events of its own direction, and the undirected events all go to the one
  episode named by the target.\<close>

theorem partition_lineage_episodes_exact:
  "mset (concat (map snd (partition_lineage_episodes recent target))) = mset recent
   \<and> distinct (map fst (partition_lineage_episodes recent target))
   \<and> (\<forall>(d, members) \<in> set (partition_lineage_episodes recent target).
        members \<noteq> [] \<and> sorted (map event_order members)
        \<and> set members = {e \<in> set recent. ev_direction e = d \<or> ev_direction e = NONE \<and> d = target})"
proof -
  have "sorted (map event_order members)" if "(d, members) \<in> set (partition_lineage_episodes recent target)" for d members
    using that by (auto simp: partition_lineage_episodes_def Let_def split: if_splits)
  moreover have "set members = {e \<in> set recent. ev_direction e = d \<or> ev_direction e = NONE \<and> d = target}"
    if "(d, members) \<in> set (partition_lineage_episodes recent target)" for d members
    unfolding partition_members [OF that] by auto
  ultimately show ?thesis
    using partition_covers partition_directions partition_nonempty by blast
qed

section \<open>Properties of priorities\<close>

lemma max_priority_max: "max_priority p [q] = max p q"
  by (auto simp: max_priority_def max_def less_eq_signal_priority_def not_less intro: priority.rank_inj)

lemma priority_from_severity_mono: "s \<le> t \<Longrightarrow> priority_from_severity s \<le> priority_from_severity t"
  by (auto simp: priority_from_severity_def less_eq_signal_priority_def)

lemma fold_max_set: "fold max ss (s :: int) = Max (insert s (set ss))"
  by (metis Max.set_eq_fold list.simps(15))

text \<open>The priority of a non-empty episode, by the set of its events.\<close>

definition episode_priority :: "market_event list \<Rightarrow> signal_priority" where
  "episode_priority events =
     (let base = priority_from_severity (Max (ev_severity ` set events))
      in if has_vol events \<and> has_move events then max base IMPORTANT
         else if has_vol events \<and> \<not> has_type [DAY_HIGH_BREAKOUT, DAY_LOW_BREAKDOWN] events
         then max base NOTICE
         else base)"

lemma compose_priority_episode:
  assumes "events \<noteq> []"
  shows "\<exists>reason. compose_priority events (classify_family events) = Inr (episode_priority events, reason)"
proof -
  obtain e es where events: "events = e # es" using assms by (cases events) auto
  have "fold max (map ev_severity es) (ev_severity e) = Max (ev_severity ` set events)"
    by (simp add: events fold_max_set)
  moreover have "has_type [DAY_HIGH_BREAKOUT, DAY_LOW_BREAKDOWN] events \<longleftrightarrow>
      has_type [DAY_HIGH_BREAKOUT] events \<or> has_type [DAY_LOW_BREAKDOWN] events"
    by (auto simp: has_type_def list_ex_iff)
  ultimately show ?thesis
    by (cases "has_vol events"; cases "has_move events"; cases "has_type [DAY_HIGH_BREAKOUT] events";
        cases "has_type [DAY_LOW_BREAKDOWN] events"; cases "has_type [VWAP_CROSS] events")
      (simp_all add: compose_priority_def classify_family_def episode_priority_def Let_def max_priority_max
        events [symmetric, THEN arg_cong [where f = "map ev_severity"]] events list.map)
qed

lemma has_type_mono: "set events \<subseteq> set events' \<Longrightarrow> has_type ts events \<Longrightarrow> has_type ts events'"
  by (auto simp: has_type_def list_ex_iff)

lemma breakout_floor:
  assumes "has_type [DAY_HIGH_BREAKOUT, DAY_LOW_BREAKDOWN] events"
    and "\<forall>e \<in> set events. ev_type e \<in> {DAY_HIGH_BREAKOUT, DAY_LOW_BREAKDOWN} \<longrightarrow> 3 \<le> ev_severity e"
  shows "NOTICE \<le> priority_from_severity (Max (ev_severity ` set events))"
proof -
  obtain e where "e \<in> set events" "3 \<le> ev_severity e"
    using assms by (auto simp: has_type_def list_ex_iff)
  then have "3 \<le> Max (ev_severity ` set events)"
    by (meson Max_ge List.finite_set finite_imageI image_eqI order_trans)
  then show ?thesis using priority_from_severity_mono [of 3] by (simp add: priority_from_severity_def)
qed

lemma episode_priority_mono:
  assumes "set events \<subseteq> set events'" "events \<noteq> []"
    and "\<forall>e \<in> set events'. ev_type e \<in> {DAY_HIGH_BREAKOUT, DAY_LOW_BREAKDOWN} \<longrightarrow> 3 \<le> ev_severity e"
  shows "episode_priority events \<le> episode_priority events'"
proof -
  let ?base = "\<lambda>es. priority_from_severity (Max (ev_severity ` set es))"
  have base: "?base events \<le> ?base events'"
    using assms(1,2) by (intro priority_from_severity_mono Max_mono) auto
  have "NOTICE \<le> IMPORTANT" by (simp add: less_eq_signal_priority_def)
  then show ?thesis
    using base has_type_mono [OF assms(1)] breakout_floor [OF _ assms(3)]
    by (auto simp: episode_priority_def Let_def le_max_iff_disj intro: order_trans)
qed

text \<open>An episode never loses priority by gaining events: if every event of one event list is in
  another and breakouts have severity 3 or more, as their rules guarantee, the priority composed for
  the larger list, family reclassified, is at least that of the smaller, and both are computed
  without an exception.\<close>

theorem compose_priority_monotone:
  assumes "set events \<subseteq> set events'" "events \<noteq> []"
    and "\<forall>e \<in> set events'. ev_type e \<in> {DAY_HIGH_BREAKOUT, DAY_LOW_BREAKDOWN} \<longrightarrow> 3 \<le> ev_severity e"
  shows "\<exists>p r p' r'. compose_priority events (classify_family events) = Inr (p, r)
    \<and> compose_priority events' (classify_family events') = Inr (p', r') \<and> p \<le> p'"
proof -
  have "events' \<noteq> []" using assms(1,2) by auto
  then show ?thesis
    using compose_priority_episode [OF assms(2)] compose_priority_episode [of events']
      episode_priority_mono [OF assms] by blast
qed

section \<open>The home of undirected events\<close>

definition flip :: "event_direction \<Rightarrow> event_direction" where
  "flip d = (case d of UP \<Rightarrow> DOWN | DOWN \<Rightarrow> UP | NONE \<Rightarrow> NONE)"

definition flip_event :: "market_event \<Rightarrow> market_event" where
  "flip_event e = e\<lparr>ev_direction := flip (ev_direction e)\<rparr>"

lemma flip_flip [simp]: "flip (flip d) = d"
  by (simp add: flip_def split: event_direction.split)

lemma flip_simps [simp]: "flip UP = DOWN" "flip DOWN = UP" "flip NONE = NONE"
  by (simp_all add: flip_def)

lemma flip_image_iff: "flip ` S = {d} \<longleftrightarrow> S = {flip d}"
proof
  assume "flip ` S = {d}"
  then have "flip ` flip ` S = {flip d}" by simp
  then show "S = {flip d}" by (simp add: image_image)
qed simp

lemma directed_sub: "directed events \<subseteq> {UP, DOWN}"
  by (auto simp: directed_def)

lemma directed_flip: "directed (map flip_event events) = flip ` directed events"
proof -
  have "flip d \<in> {UP, DOWN} \<longleftrightarrow> d \<in> {UP, DOWN}" for d by (cases d) simp_all
  then show ?thesis by (auto simp: directed_def flip_event_def)
qed

lemma directed_cases:
  obtains "directed events = {}" | "directed events = {UP}" | "directed events = {DOWN}"
    | "directed events = {UP, DOWN}"
  using directed_sub [of events] by (cases "UP \<in> directed events"; cases "DOWN \<in> directed events") blast+

lemma resolve_none_target_iff:
  assumes "d \<noteq> NONE"
  shows "resolve_none_target batch recent live = d \<longleftrightarrow>
    directed batch = {d} \<or> directed batch = {} \<and> directed recent \<union> (live \<inter> {UP, DOWN}) = {d}"
proof -
  have d: "d = UP \<or> d = DOWN" using assms by (cases d) auto
  show ?thesis
    by (rule directed_cases [of batch]) (use d in \<open>auto simp: resolve_none_target_def Let_def\<close>)
qed

text \<open>Undirected events go to a direction exactly when the batch itself points that way only, or
  the batch points no way and the look-back events and live episodes together point that way only;
  exchanging up and down in every input exchanges them in the result, so neither is preferred.\<close>

theorem resolve_none_target_symmetric:
  "(resolve_none_target batch recent live = UP \<longleftrightarrow>
     directed batch = {UP} \<or> directed batch = {} \<and> directed recent \<union> (live \<inter> {UP, DOWN}) = {UP})
   \<and> resolve_none_target (map flip_event batch) (map flip_event recent) (flip ` live)
     = flip (resolve_none_target batch recent live)"
proof -
  have candidates: "flip ` directed recent \<union> (flip ` live \<inter> {UP, DOWN}) =
      flip ` (directed recent \<union> (live \<inter> {UP, DOWN}))"
  proof -
    have "flip x \<in> {UP, DOWN} \<longleftrightarrow> x \<in> {UP, DOWN}" for x by (cases x) simp_all
    then show ?thesis by auto
  qed
  have empty: "flip ` S = {} \<longleftrightarrow> S = {}" for S by simp
  have dir: "resolve_none_target (map flip_event batch) (map flip_event recent) (flip ` live) = d
      \<longleftrightarrow> resolve_none_target batch recent live = flip d" if "d \<noteq> NONE" for d
  proof -
    have "flip d \<noteq> NONE" using that by (cases d) simp_all
    then show ?thesis
      unfolding resolve_none_target_iff [OF that] directed_flip candidates flip_image_iff empty
      by (simp add: resolve_none_target_iff)
  qed
  have "resolve_none_target (map flip_event batch) (map flip_event recent) (flip ` live)
      = flip (resolve_none_target batch recent live)"
    using dir [of UP] dir [of DOWN]
    by (cases "resolve_none_target batch recent live";
        cases "resolve_none_target (map flip_event batch) (map flip_event recent) (flip ` live)") simp_all
  then show ?thesis using resolve_none_target_iff [of UP] by simp
qed

definition breakout_at :: "flt \<Rightarrow> int \<Rightarrow> market_event" where
  "breakout_at t severity =
     build_event show_nat 1 quiet_features DAY_HIGH_BREAKOUT UP severity t [] TTL_SHORT_S ''day_high_breakout''"

definition volume_at :: "flt \<Rightarrow> int \<Rightarrow> market_event" where
  "volume_at t severity =
     build_event show_nat 0 quiet_features VOLUME_SPIKE NONE severity t [] TTL_LONG_S ''volume_spike''"

theorem compose_priority_monotone_witness:
  "compose_priority [volume_at 1 2] (classify_family [volume_at 1 2])
     = Inr (NOTICE, ''family=volume; max_severity=2; standalone_volume_notice'')
   \<and> NOTICE \<le> fst (projr (compose_priority [volume_at 1 2, breakout_at 2 3]
        (classify_family [volume_at 1 2, breakout_at 2 3])))"
proof -
  have c: "compose_priority [volume_at 1 2] (classify_family [volume_at 1 2])
     = Inr (NOTICE, ''family=volume; max_severity=2; standalone_volume_notice'')" by code_simp
  have h: "set [volume_at 1 2] \<subseteq> set [volume_at 1 2, breakout_at 2 3]" "[volume_at 1 2] \<noteq> []"
    "\<forall>e \<in> set [volume_at 1 2, breakout_at 2 3].
      ev_type e \<in> {DAY_HIGH_BREAKOUT, DAY_LOW_BREAKDOWN} \<longrightarrow> 3 \<le> ev_severity e"
    by code_simp+
  show ?thesis using compose_priority_monotone [OF h] c by auto
qed

theorem partition_lineage_episodes_exact_witness:
  "map fst (partition_lineage_episodes [volume_at 1 2, breakout_at 2 3] NONE) = [UP, NONE]
   \<and> mset (concat (map snd (partition_lineage_episodes [volume_at 1 2, breakout_at 2 3] NONE)))
     = {#volume_at 1 2, breakout_at 2 3#}"
  using partition_lineage_episodes_exact [of "[volume_at 1 2, breakout_at 2 3]" NONE]
  by (simp add: partition_lineage_episodes_def volume_at_def breakout_at_def)

end
