(* ===== verification/Composer.thy ===== *)
theory Composer
  imports Cluster
begin

text \<open>
  \<open>signals/composer.py\<close>: signals are directional episodes composed from the events accepted in
  a look-back window. The composer's four tables are threaded explicitly; identifiers come from
  the draw counter, and \<open>stolen_none\<close> is the set of undirected episodes whose identity a
  direction took over in the current batch.
\<close>

section \<open>State\<close>

type_synonym episode_key = "string \<times> string \<times> event_direction"

record composer =
  co_lookback_s :: flt
  co_accepted :: "string \<Rightarrow> market_event list"
  co_active :: "(episode_key, signal) dict"
  co_traces :: "string \<rightharpoonup> signal_trace"
  co_home :: "string \<rightharpoonup> episode_key"

definition new_composer :: "flt \<Rightarrow> composer" where
  "new_composer lookback_s =
     \<lparr>co_lookback_s = lookback_s, co_accepted = (\<lambda>_. []), co_active = [],
      co_traces = Map.empty, co_home = Map.empty\<rparr>"

definition lineage_order :: "string \<Rightarrow> nat" where
  "lineage_order lineage = (if lineage = ''tape'' then 0 else if lineage = ''vwap'' then 1 else 9)"

fun direction_order :: "event_direction \<Rightarrow> nat" where
  "direction_order NONE = 0"
| "direction_order UP = 1"
| "direction_order DOWN = 2"

definition active_signals :: "composer \<Rightarrow> string \<Rightarrow> signal list" where
  "active_signals c symbol =
     map snd
       (sort_key (\<lambda>((sym, lineage, direction), s). (lineage_order lineage, direction_order direction, sg_id s))
         (filter (\<lambda>((sym, lineage, direction), s). sym = symbol) (co_active c)))"

definition trace_for :: "composer \<Rightarrow> string \<Rightarrow> signal_trace res" where
  "trace_for c signal_id =
     (case co_traces c signal_id of None \<Rightarrow> Inl (KeyError signal_id) | Some t \<Rightarrow> Inr t)"

section \<open>Pruning\<close>

fun release_homes :: "episode_key \<Rightarrow> string list \<Rightarrow> (string \<rightharpoonup> episode_key) \<Rightarrow> (string \<rightharpoonup> episode_key)" where
  "release_homes key [] home = home"
| "release_homes key (event_id # ids) home =
     release_homes key ids (if home event_id = Some key then home(event_id := None) else home)"

definition expire_one :: "episode_key \<times> signal \<Rightarrow> composer \<Rightarrow> composer" where
  "expire_one = (\<lambda>(key, s) c.
     c\<lparr>co_active := dict_pop key (co_active c),
       co_traces := (co_traces c)(sg_id s := None),
       co_home := release_homes key (sg_event_ids s) (co_home c)\<rparr>)"

definition prune_active :: "composer \<Rightarrow> flt \<Rightarrow> composer" where
  "prune_active c now_ts =
     (let cutoff = now_ts - co_lookback_s c;
          expired = filter (\<lambda>(key, s). sg_market_timestamp s < cutoff) (co_active c)
      in fold expire_one expired c)"

definition keep_recent :: "flt \<Rightarrow> market_event list \<Rightarrow> market_event list" where
  "keep_recent cutoff events = filter (\<lambda>e. ev_market_timestamp e \<ge> cutoff) events"

definition composer_prune :: "composer \<Rightarrow> string \<Rightarrow> flt \<Rightarrow> composer" where
  "composer_prune c symbol now_ts =
     (let cutoff = now_ts - co_lookback_s c
      in prune_active
           (c\<lparr>co_accepted := (co_accepted c)(symbol := keep_recent cutoff (co_accepted c symbol))\<rparr>) now_ts)"

section \<open>Composing episodes\<close>

fun events_for_partition ::
  "(string \<rightharpoonup> episode_key) \<Rightarrow> string \<Rightarrow> string \<Rightarrow> string list \<Rightarrow> event_direction
    \<Rightarrow> market_event list \<Rightarrow> market_event list" where
  "events_for_partition home symbol lineage batch_ids none_target [] = []"
| "events_for_partition home symbol lineage batch_ids none_target (event # rest) =
     (let others = events_for_partition home symbol lineage batch_ids none_target rest
      in if ev_direction event \<noteq> NONE then event # others
         else case home (ev_id event) of
                None \<Rightarrow> if ev_id event \<in> set batch_ids then event # others else others
              | Some (home_symbol, home_lineage, home_dir) \<Rightarrow>
                  if home_symbol \<noteq> symbol \<or> home_lineage \<noteq> lineage then others
                  else if home_dir = none_target then event # others
                  else if home_dir = NONE \<and> none_target \<in> {UP, DOWN} then event # others
                  else others)"

type_synonym stolen = "(string \<times> string) list"

definition resolve_identity ::
  "uuid_source \<Rightarrow> fake_clock \<Rightarrow> composer \<Rightarrow> stolen \<Rightarrow> nat \<Rightarrow> string \<Rightarrow> string \<Rightarrow> event_direction \<Rightarrow> flt
    \<Rightarrow> (string \<times> flt) \<times> composer \<times> stolen \<times> nat" where
  "resolve_identity uuid clock c stolen n symbol lineage direction now_ts =
     (let cutoff = now_ts - co_lookback_s c;
          fresh = ((uuid n, fc_wall clock), c, stolen, Suc n);
          steal =
            (let none_key = (symbol, lineage)
             in if direction \<noteq> NONE \<and> none_key \<notin> set stolen then
                  case dict_get (co_active c) (symbol, lineage, NONE) of
                    None \<Rightarrow> fresh
                  | Some none_signal \<Rightarrow>
                      if sg_market_timestamp none_signal \<ge> cutoff then
                        ((sg_id none_signal, sg_created_timestamp none_signal),
                         c\<lparr>co_active := dict_pop (symbol, lineage, NONE) (co_active c),
                           co_home := fold (\<lambda>event_id home. home(event_id \<mapsto> (symbol, lineage, direction)))
                             (sg_event_ids none_signal) (co_home c)\<rparr>,
                         none_key # stolen, n)
                      else fresh
                else fresh)
      in case dict_get (co_active c) (symbol, lineage, direction) of
           None \<Rightarrow> steal
         | Some existing \<Rightarrow>
             if sg_market_timestamp existing \<ge> cutoff
             then ((sg_id existing, sg_created_timestamp existing), c, stolen, n)
             else steal)"

definition compose_episode ::
  "uuid_source \<Rightarrow> fake_clock \<Rightarrow> string \<Rightarrow> string \<Rightarrow> market_features \<Rightarrow> flt
    \<Rightarrow> event_direction \<Rightarrow> market_event list \<Rightarrow> composer \<Rightarrow> stolen \<Rightarrow> nat
    \<Rightarrow> ((signal \<times> signal_trace) \<times> composer \<times> stolen \<times> nat) res" where
  "compose_episode uuid clock symbol lineage features now_ts direction members c stolen n =
     (let ((signal_id, created_at), c, stolen, n) =
            resolve_identity uuid clock c stolen n symbol lineage direction now_ts;
          family = classify_family members
      in
      res_bind (compose_priority members family) (\<lambda>(priority, reason).
      res_bind (render_copy members family features) (\<lambda>(title, summary).
        let latest = last members;
            s = \<lparr>sg_id = signal_id,
                 sg_event_ids = map ev_id members,
                 sg_symbol = symbol,
                 sg_family = family,
                 sg_direction = direction,
                 sg_priority = priority,
                 sg_title = title,
                 sg_summary = summary,
                 sg_generated_by = RULE,
                 sg_market_timestamp = ev_market_timestamp latest,
                 sg_received_timestamp = ev_received_timestamp latest,
                 sg_detected_timestamp = ev_detected_timestamp latest,
                 sg_created_timestamp = created_at,
                 sg_expires_at = None\<rparr>;
            trace = \<lparr>tr_signal_id = sg_id s,
                     tr_event_ids = sg_event_ids s,
                     tr_rule_names = map ev_rule_name members,
                     tr_features = features,
                     tr_family = family,
                     tr_direction = direction,
                     tr_priority = priority,
                     tr_priority_reason = reason,
                     tr_detected_timestamp = sg_detected_timestamp s,
                     tr_created_timestamp = created_at\<rparr>
        in Inr ((s, trace),
             c\<lparr>co_active := dict_set (symbol, lineage, direction) s (co_active c),
               co_home := fold (\<lambda>e home. home(ev_id e \<mapsto> (symbol, lineage, direction))) members (co_home c),
               co_traces := (co_traces c)(sg_id s \<mapsto> trace)\<rparr>,
             stolen, n))))"

fun compose_episodes ::
  "uuid_source \<Rightarrow> fake_clock \<Rightarrow> string \<Rightarrow> string \<Rightarrow> market_features \<Rightarrow> flt \<Rightarrow> string list
    \<Rightarrow> (event_direction \<times> market_event list) list \<Rightarrow> composer \<Rightarrow> stolen \<Rightarrow> nat
    \<Rightarrow> ((signal \<times> signal_trace) list \<times> composer \<times> stolen \<times> nat) res" where
  "compose_episodes uuid clock symbol lineage features now_ts new_ids [] c stolen n = Inr ([], c, stolen, n)"
| "compose_episodes uuid clock symbol lineage features now_ts new_ids ((direction, members) # episodes) c stolen n =
     (if \<not> list_ex (\<lambda>e. ev_id e \<in> set new_ids) members
      then compose_episodes uuid clock symbol lineage features now_ts new_ids episodes c stolen n
      else res_bind (compose_episode uuid clock symbol lineage features now_ts direction members c stolen n)
        (\<lambda>(p, c, stolen, n).
          res_bind (compose_episodes uuid clock symbol lineage features now_ts new_ids episodes c stolen n)
            (\<lambda>(ps, rest). Inr (p # ps, rest))))"

definition live_directions :: "composer \<Rightarrow> string \<Rightarrow> string \<Rightarrow> event_direction set" where
  "live_directions c symbol lineage =
     set (map (\<lambda>((sym, lin, direction), s). direction)
       (filter (\<lambda>((sym, lin, direction), s). sym = symbol \<and> lin = lineage) (co_active c)))"

fun consume_lineages ::
  "uuid_source \<Rightarrow> fake_clock \<Rightarrow> string \<Rightarrow> market_event list \<Rightarrow> market_event list \<Rightarrow> market_features \<Rightarrow> flt
    \<Rightarrow> string list \<Rightarrow> composer \<Rightarrow> stolen \<Rightarrow> nat
    \<Rightarrow> ((signal \<times> signal_trace) list \<times> composer \<times> stolen \<times> nat) res" where
  "consume_lineages uuid clock symbol batch recent features now_ts [] c stolen n = Inr ([], c, stolen, n)"
| "consume_lineages uuid clock symbol batch recent features now_ts (lineage # lineages) c stolen n =
     (if \<not> list_ex (\<lambda>e. lineage_of (ev_type e) = lineage) batch
      then consume_lineages uuid clock symbol batch recent features now_ts lineages c stolen n
      else
        let lineage_recent = filter (\<lambda>e. lineage_of (ev_type e) = lineage) recent;
            lineage_batch = filter (\<lambda>e. lineage_of (ev_type e) = lineage) batch;
            none_target = resolve_none_target lineage_batch lineage_recent (live_directions c symbol lineage);
            compose_recent = events_for_partition (co_home c) symbol lineage (map ev_id lineage_batch)
              none_target lineage_recent
        in res_bind
             (compose_episodes uuid clock symbol lineage features now_ts (map ev_id batch)
               (partition_lineage_episodes compose_recent none_target) c stolen n)
             (\<lambda>(ps, c, stolen, n).
               res_bind (consume_lineages uuid clock symbol batch recent features now_ts lineages c stolen n)
                 (\<lambda>(qs, rest). Inr (ps @ qs, rest))))"

definition latest_time :: "market_event list \<Rightarrow> flt res" where
  "latest_time batch =
     (case map ev_market_timestamp batch of
        [] \<Rightarrow> Inl (ValueError ''max() arg is an empty sequence'')
      | t # ts \<Rightarrow> Inr (fold max ts t))"

definition consume_symbol ::
  "uuid_source \<Rightarrow> fake_clock \<Rightarrow> market_features \<Rightarrow> string \<Rightarrow> market_event list \<Rightarrow> composer \<Rightarrow> nat
    \<Rightarrow> ((signal \<times> signal_trace) list \<times> composer \<times> nat) res" where
  "consume_symbol uuid clock features symbol batch c n =
     res_bind (latest_time batch) (\<lambda>now_ts.
       let history = co_accepted c symbol @ batch;
           cutoff = now_ts - co_lookback_s c;
           recent = keep_recent cutoff history;
           c = prune_active (c\<lparr>co_accepted := (co_accepted c)(symbol := recent)\<rparr>) now_ts
       in res_bind (consume_lineages uuid clock symbol batch recent features now_ts
              [''tape'', ''vwap''] c [] n)
            (\<lambda>(ps, c, stolen, n). Inr (ps, c, n)))"

definition group_add :: "market_event \<Rightarrow> (string, market_event list) dict \<Rightarrow> (string, market_event list) dict" where
  "group_add e d =
     dict_set (ev_symbol e) ((case dict_get d (ev_symbol e) of None \<Rightarrow> [] | Some es \<Rightarrow> es) @ [e]) d"

fun consume_groups ::
  "uuid_source \<Rightarrow> fake_clock \<Rightarrow> market_features \<Rightarrow> (string \<times> market_event list) list \<Rightarrow> composer \<Rightarrow> nat
    \<Rightarrow> ((signal \<times> signal_trace) list \<times> composer \<times> nat) res" where
  "consume_groups uuid clock features [] c n = Inr ([], c, n)"
| "consume_groups uuid clock features ((symbol, batch) # groups) c n =
     res_bind (consume_symbol uuid clock features symbol batch c n) (\<lambda>(ps, c, n).
       res_bind (consume_groups uuid clock features groups c n) (\<lambda>(qs, rest). Inr (ps @ qs, rest)))"

definition consume_batch ::
  "uuid_source \<Rightarrow> fake_clock \<Rightarrow> market_event list \<Rightarrow> market_features \<Rightarrow> composer \<Rightarrow> nat
    \<Rightarrow> ((signal \<times> signal_trace) list \<times> composer \<times> nat) res" where
  "consume_batch uuid clock events features c n =
     (if events = [] then Inr ([], c, n)
      else consume_groups uuid clock features (fold group_add events []) c n)"

definition consume ::
  "uuid_source \<Rightarrow> fake_clock \<Rightarrow> market_event \<Rightarrow> market_features \<Rightarrow> composer \<Rightarrow> nat
    \<Rightarrow> ((signal \<times> signal_trace) \<times> composer \<times> nat) res" where
  "consume uuid clock event features c n =
     res_bind (consume_batch uuid clock [event] features c n) (\<lambda>(produced, c, n).
       case filter (\<lambda>(s, t). ev_id event \<in> set (sg_event_ids s)) produced of
         [] \<Rightarrow> Inl (RuntimeError ''accepted event was not composed into a signal'')
       | p # ps \<Rightarrow> Inr (p, c, n))"

section \<open>The invariant\<close>

text \<open>
  Every active signal sits under its own symbol and direction, carries an identifier already
  drawn, has a trace under that identifier that agrees with it, and no two share one.
\<close>

definition trace_of :: "signal \<Rightarrow> signal_trace \<Rightarrow> bool" where
  "trace_of s t \<longleftrightarrow>
     tr_signal_id t = sg_id s \<and> tr_event_ids t = sg_event_ids s \<and> tr_family t = sg_family s
     \<and> tr_direction t = sg_direction s \<and> tr_priority t = sg_priority s
     \<and> tr_detected_timestamp t = sg_detected_timestamp s \<and> tr_created_timestamp t = sg_created_timestamp s"

definition signal_ok :: "uuid_source \<Rightarrow> nat \<Rightarrow> composer \<Rightarrow> episode_key \<Rightarrow> signal \<Rightarrow> bool" where
  "signal_ok uuid n c = (\<lambda>(symbol, lineage, direction) s.
     sg_symbol s = symbol \<and> sg_direction s = direction \<and> sg_id s \<in> uuid ` {..<n}
     \<and> (\<exists>t. co_traces c (sg_id s) = Some t \<and> trace_of s t))"

definition co_inv :: "uuid_source \<Rightarrow> nat \<Rightarrow> composer \<Rightarrow> bool" where
  "co_inv uuid n c \<longleftrightarrow>
     dict_wf (co_active c)
     \<and> (\<forall>key s. dict_get (co_active c) key = Some s \<longrightarrow> signal_ok uuid n c key s)
     \<and> (\<forall>key key' s s'. dict_get (co_active c) key = Some s \<longrightarrow> dict_get (co_active c) key' = Some s' \<longrightarrow>
          sg_id s = sg_id s' \<longrightarrow> key = key')"

lemma co_inv_new: "co_inv uuid n (new_composer lookback_s)"
  by (simp add: co_inv_def new_composer_def)

lemma co_invD:
  assumes "co_inv uuid n c" "dict_get (co_active c) key = Some s"
  shows "signal_ok uuid n c key s"
    and "dict_get (co_active c) key' = Some s' \<Longrightarrow> sg_id s = sg_id s' \<Longrightarrow> key' = key"
  using assms unfolding co_inv_def by blast+

lemma co_inv_mono: "co_inv uuid n c \<Longrightarrow> n \<le> m \<Longrightarrow> co_inv uuid m c"
  unfolding co_inv_def signal_ok_def by (fastforce simp: split_beta)

lemma co_inv_frame:
  "co_inv uuid n c \<Longrightarrow> co_active c' = co_active c \<Longrightarrow> co_traces c' = co_traces c \<Longrightarrow> co_inv uuid n c'"
  by (simp add: co_inv_def signal_ok_def)

lemma expire_one_inv:
  assumes "co_inv uuid n c" "dict_get (co_active c) key = Some s"
  shows "co_inv uuid n (expire_one (key, s) c)"
proof -
  have "sg_id s' \<noteq> sg_id s" if "dict_get (co_active c) key' = Some s'" "key' \<noteq> key" for key' s'
    using co_invD(2) [OF assms that(1)] that(2) by metis
  then show ?thesis
    using assms(1)
    by (auto simp: co_inv_def expire_one_def signal_ok_def dict_lookup dict_wf_pop split_beta)
qed

text \<open>Expiring a list of entries removes exactly their keys.\<close>

lemma fold_expire:
  assumes "co_inv uuid n c" "dict_wf expired"
    and "\<And>key s. (key, s) \<in> set expired \<Longrightarrow> dict_get (co_active c) key = Some s"
  shows "co_inv uuid n (fold expire_one expired c)"
    and "dict_get (co_active (fold expire_one expired c)) key =
      (if key \<in> fst ` set expired then None else dict_get (co_active c) key)"
proof -
  have "co_inv uuid n (fold expire_one expired c) \<and>
      (\<forall>key. dict_get (co_active (fold expire_one expired c)) key =
        (if key \<in> fst ` set expired then None else dict_get (co_active c) key))"
    using assms
  proof (induction expired arbitrary: c)
    case (Cons p expired)
    obtain k s where p: "p = (k, s)" by (rule prod.exhaust)
    have inv: "co_inv uuid n (expire_one (k, s) c)"
      using Cons.prems(1,3) by (intro expire_one_inv) (auto simp: p)
    have active: "co_active (expire_one (k, s) c) = dict_pop k (co_active c)" by (simp add: expire_one_def)
    have wf: "dict_wf expired" "k \<notin> fst ` set expired"
      using Cons.prems(2) by (auto simp: dict_wf_def p)
    have "dict_get (co_active (expire_one (k, s) c)) key = Some s'" if "(key, s') \<in> set expired" for key s'
      using that wf(2) Cons.prems(3) by (auto simp: active dict_lookup image_iff p)
    from Cons.IH [OF inv wf(1) this]
    show ?case by (simp add: active dict_lookup p)
  qed simp
  then show "co_inv uuid n (fold expire_one expired c)"
    "dict_get (co_active (fold expire_one expired c)) key =
      (if key \<in> fst ` set expired then None else dict_get (co_active c) key)" by blast+
qed

lemma dict_wf_filter: "dict_wf d \<Longrightarrow> dict_wf (filter P d)"
  by (auto simp: dict_wf_def distinct_map intro: inj_on_subset)

lemma prune_active_ok:
  assumes "co_inv uuid n c"
  shows "co_inv uuid n (prune_active c now_ts)"
    and "dict_get (co_active (prune_active c now_ts)) key =
      (case dict_get (co_active c) key of
         None \<Rightarrow> None
       | Some s \<Rightarrow> if sg_market_timestamp s < now_ts - co_lookback_s c then None else Some s)"
proof -
  let ?expired = "filter (\<lambda>(key, s). sg_market_timestamp s < now_ts - co_lookback_s c) (co_active c)"
  have wf: "dict_wf (co_active c)" using assms by (simp add: co_inv_def)
  have mem: "dict_get (co_active c) key = Some s" if "(key, s) \<in> set ?expired" for key s
    using that wf by (simp add: dict_wf_in_set)
  have wf': "dict_wf ?expired" using wf by (rule dict_wf_filter)
  note fold = fold_expire [OF assms wf' mem]
  show "co_inv uuid n (prune_active c now_ts)"
    using fold(1) by (simp add: prune_active_def Let_def)
  have "key \<in> fst ` set ?expired \<longleftrightarrow> (\<exists>s. (key, s) \<in> set ?expired)" by force
  also have "\<dots> \<longleftrightarrow>
      (\<exists>s. dict_get (co_active c) key = Some s \<and> sg_market_timestamp s < now_ts - co_lookback_s c)"
    by (simp add: dict_wf_in_set [OF wf])
  finally have "key \<in> fst ` set ?expired \<longleftrightarrow>
      (\<exists>s. dict_get (co_active c) key = Some s \<and> sg_market_timestamp s < now_ts - co_lookback_s c)" .
  then show "dict_get (co_active (prune_active c now_ts)) key =
      (case dict_get (co_active c) key of
         None \<Rightarrow> None
       | Some s \<Rightarrow> if sg_market_timestamp s < now_ts - co_lookback_s c then None else Some s)"
    using fold(2) [of key] by (auto simp: prune_active_def Let_def split: option.split)
qed

lemma expire_one_frame [simp]:
  "co_lookback_s (expire_one p c) = co_lookback_s c" "co_accepted (expire_one p c) = co_accepted c"
  by (simp_all add: expire_one_def split_beta)

lemma prune_active_frame [simp]:
  "co_lookback_s (prune_active c now_ts) = co_lookback_s c"
  "co_accepted (prune_active c now_ts) = co_accepted c"
proof -
  have "co_lookback_s (fold expire_one xs c) = co_lookback_s c
      \<and> co_accepted (fold expire_one xs c) = co_accepted c" for xs
    by (induction xs arbitrary: c) auto
  then show "co_lookback_s (prune_active c now_ts) = co_lookback_s c"
    "co_accepted (prune_active c now_ts) = co_accepted c"
    by (simp_all add: prune_active_def Let_def)
qed

lemma composer_prune_inv: "co_inv uuid n c \<Longrightarrow> co_inv uuid n (composer_prune c symbol now_ts)"
  unfolding composer_prune_def Let_def
  by (rule prune_active_ok(1)) (auto elim: co_inv_frame)

section \<open>Composition keeps the invariant\<close>

lemma co_inv_pop: "co_inv uuid n c \<Longrightarrow> co_inv uuid n (c\<lparr>co_active := dict_pop key (co_active c), co_home := h\<rparr>)"
  by (auto simp: co_inv_def signal_ok_def dict_lookup dict_wf_pop split: if_splits)

lemma co_inv_set:
  assumes "co_inv uuid n c" "sg_symbol s = symbol" "sg_direction s = direction" "sg_id s \<in> uuid ` {..<n}" "trace_of s t"
    and own: "\<And>key s'. dict_get (co_active c) key = Some s' \<Longrightarrow> sg_id s' = sg_id s \<Longrightarrow> key = (symbol, lineage, direction)"
  shows "co_inv uuid n (c\<lparr>co_active := dict_set (symbol, lineage, direction) s (co_active c), co_home := h,
    co_traces := (co_traces c)(sg_id s \<mapsto> t)\<rparr>)" (is "co_inv uuid n ?c")
  unfolding co_inv_def
proof (intro conjI allI impI)
  let ?key = "(symbol, lineage, direction)"
  have get: "dict_get (co_active ?c) key = (if key = ?key then Some s else dict_get (co_active c) key)" for key
    by (simp add: dict_lookup)
  show "dict_wf (co_active ?c)" using assms(1) by (simp add: co_inv_def dict_wf_set)
  show "signal_ok uuid n ?c key s'" if "dict_get (co_active ?c) key = Some s'" for key s'
  proof (cases "key = ?key")
    case True
    then have "s' = s" using that unfolding get by simp
    then show ?thesis using True assms(2-5) by (auto simp: signal_ok_def)
  next
    case False
    then have old: "dict_get (co_active c) key = Some s'" using that unfolding get by simp
    then have "sg_id s' \<noteq> sg_id s" using own False by blast
    then show ?thesis using co_invD(1) [OF assms(1) old] by (auto simp: signal_ok_def)
  qed
  fix key key' s1 s2
  assume "dict_get (co_active ?c) key = Some s1" "dict_get (co_active ?c) key' = Some s2" "sg_id s1 = sg_id s2"
  then show "key = key'"
    using own co_invD(2) [OF assms(1)] unfolding get by (metis option.inject)
qed

lemma fresh_id:
  assumes "co_inv uuid n c" "inj uuid" "dict_get (co_active c) key = Some s"
  shows "sg_id s \<noteq> uuid n"
  using co_invD(1) [OF assms(1,3)] assms(2) by (cases key) (auto simp: signal_ok_def inj_eq)

text \<open>
  The identity of an episode is that of its unexpired active signal, else that of the
  unexpired undirected episode it takes over, else a new draw.
\<close>

lemma resolve_identity_cases:
  assumes "resolve_identity uuid clock c stolen n symbol lineage direction now_ts = ((sid, created), c', stolen', n')"
  obtains
    (kept) s where "dict_get (co_active c) (symbol, lineage, direction) = Some s"
      "now_ts - co_lookback_s c \<le> sg_market_timestamp s" "sid = sg_id s" "created = sg_created_timestamp s"
      "c' = c" "n' = n"
  | (taken) s h where "direction \<noteq> NONE" "dict_get (co_active c) (symbol, lineage, NONE) = Some s"
      "sid = sg_id s" "created = sg_created_timestamp s"
      "c' = c\<lparr>co_active := dict_pop (symbol, lineage, NONE) (co_active c), co_home := h\<rparr>" "n' = n"
      "\<forall>s. dict_get (co_active c) (symbol, lineage, direction) = Some s \<longrightarrow>
        sg_market_timestamp s < now_ts - co_lookback_s c"
  | (drawn) "sid = uuid n" "created = fc_wall clock" "c' = c" "n' = Suc n"
      "\<forall>s. dict_get (co_active c) (symbol, lineage, direction) = Some s \<longrightarrow>
        sg_market_timestamp s < now_ts - co_lookback_s c"
proof -
  let ?cutoff = "now_ts - co_lookback_s c"
  note r = assms [unfolded resolve_identity_def Let_def]
  show thesis
  proof (cases "\<exists>s. dict_get (co_active c) (symbol, lineage, direction) = Some s \<and> ?cutoff \<le> sg_market_timestamp s")
    case True
    then obtain s where s: "dict_get (co_active c) (symbol, lineage, direction) = Some s"
      "?cutoff \<le> sg_market_timestamp s" by blast
    show thesis by (rule kept [OF s]) (use r s in simp_all)
  next
    case False
    then have old: "\<forall>s. dict_get (co_active c) (symbol, lineage, direction) = Some s \<longrightarrow> sg_market_timestamp s < ?cutoff"
      by (simp add: not_le)
    show thesis
    proof (cases "direction \<noteq> NONE \<and> (symbol, lineage) \<notin> set stolen \<and>
        (\<exists>s. dict_get (co_active c) (symbol, lineage, NONE) = Some s \<and> ?cutoff \<le> sg_market_timestamp s)")
      case True
      then obtain s where s: "direction \<noteq> NONE" "dict_get (co_active c) (symbol, lineage, NONE) = Some s"
        "?cutoff \<le> sg_market_timestamp s" "(symbol, lineage) \<notin> set stolen" by blast
      have "(sid, created) = (sg_id s, sg_created_timestamp s) \<and> n' = n \<and>
          (\<exists>h. c' = c\<lparr>co_active := dict_pop (symbol, lineage, NONE) (co_active c), co_home := h\<rparr>)"
        using r s False by (simp split: option.splits if_splits) auto
      then show thesis using taken [OF s(1,2)] s(3) old by blast
    next
      case False: False
      then have "(sid, created) = (uuid n, fc_wall clock) \<and> c' = c \<and> n' = Suc n"
        using r old by (simp add: not_le split: option.splits if_splits)
      then show thesis using drawn old by blast
    qed
  qed
qed

lemma resolve_identity_ok:
  assumes "co_inv uuid n c" "inj uuid"
    and "resolve_identity uuid clock c stolen n symbol lineage direction now_ts = ((sid, created), c', stolen', n')"
  shows "co_inv uuid n' c' \<and> n \<le> n' \<and> sid \<in> uuid ` {..<n'} \<and> co_lookback_s c' = co_lookback_s c
    \<and> (\<forall>key s. dict_get (co_active c') key = Some s \<longrightarrow> sg_id s = sid \<longrightarrow> key = (symbol, lineage, direction))"
  using assms(3)
proof (cases rule: resolve_identity_cases)
  case (kept s')
  have "sid \<in> uuid ` {..<n'}" using co_invD(1) [OF assms(1) kept(1)] kept by (simp add: signal_ok_def)
  moreover have "key = (symbol, lineage, direction)"
    if "dict_get (co_active c') key = Some s" "sg_id s = sid" for key s
    using co_invD(2) [OF assms(1) kept(1)] kept that by metis
  ultimately show ?thesis using assms(1) kept by blast
next
  case (taken s' h)
  have "sid \<in> uuid ` {..<n'}" using co_invD(1) [OF assms(1) taken(2)] taken by (simp add: signal_ok_def)
  moreover have False if "dict_get (co_active c') key = Some s" "sg_id s = sid" for key s
    using co_invD(2) [OF assms(1) taken(2), of key s] taken that by (simp add: dict_lookup split: if_splits)
  ultimately show ?thesis using co_inv_pop [OF assms(1)] taken(5,6) by auto
next
  case drawn
  have False if "dict_get (co_active c') key = Some s" "sg_id s = sid" for key s
    using fresh_id [OF assms(1,2), of key s] drawn that by simp
  then show ?thesis using co_inv_mono [OF assms(1), of n'] drawn by auto
qed

text \<open>An undirected episode may turn into a directed one of its symbol and lineage.\<close>

definition continues :: "episode_key \<Rightarrow> episode_key \<Rightarrow> bool" where
  "continues = (\<lambda>(symbol, lineage, direction) (symbol', lineage', direction').
     symbol = symbol' \<and> lineage = lineage' \<and> (direction = direction' \<or> direction = NONE))"

definition carried :: "flt \<Rightarrow> composer \<Rightarrow> composer \<Rightarrow> bool" where
  "carried cutoff c c' \<longleftrightarrow>
     (\<forall>key s. dict_get (co_active c) key = Some s \<longrightarrow> cutoff \<le> sg_market_timestamp s \<longrightarrow>
       (\<exists>key' s'. dict_get (co_active c') key' = Some s' \<and> cutoff \<le> sg_market_timestamp s'
          \<and> sg_id s' = sg_id s \<and> sg_created_timestamp s' = sg_created_timestamp s \<and> continues key key'))"

lemma continues_refl [simp]: "continues key key"
  by (cases key) (simp add: continues_def)

lemma continues_trans: "continues a b \<Longrightarrow> continues b c \<Longrightarrow> continues a c"
  by (cases a; cases b; cases c) (auto simp: continues_def)

lemma carriedI:
  assumes "\<And>key s. dict_get (co_active c) key = Some s \<Longrightarrow> cutoff \<le> sg_market_timestamp s \<Longrightarrow>
      (\<exists>key' s'. dict_get (co_active c') key' = Some s' \<and> cutoff \<le> sg_market_timestamp s'
          \<and> sg_id s' = sg_id s \<and> sg_created_timestamp s' = sg_created_timestamp s \<and> continues key key')"
  shows "carried cutoff c c'"
  using assms by (simp add: carried_def)

lemma carried_refl [simp]: "carried cutoff c c"
  using continues_refl by (intro carriedI) blast

lemma carried_trans:
  assumes "carried cutoff a b" "carried cutoff b c"
  shows "carried cutoff a c"
proof (rule carriedI)
  fix key s assume "dict_get (co_active a) key = Some s" "cutoff \<le> sg_market_timestamp s"
  then obtain key' s' where s': "dict_get (co_active b) key' = Some s'" "cutoff \<le> sg_market_timestamp s'"
    "sg_id s' = sg_id s" "sg_created_timestamp s' = sg_created_timestamp s" "continues key key'"
    using assms(1) unfolding carried_def by blast
  obtain key'' s'' where "dict_get (co_active c) key'' = Some s''" "cutoff \<le> sg_market_timestamp s''"
    "sg_id s'' = sg_id s'" "sg_created_timestamp s'' = sg_created_timestamp s'" "continues key' key''"
    using assms(2) s'(1,2) unfolding carried_def by blast
  then show "\<exists>key' s'. dict_get (co_active c) key' = Some s' \<and> cutoff \<le> sg_market_timestamp s'
      \<and> sg_id s' = sg_id s \<and> sg_created_timestamp s' = sg_created_timestamp s \<and> continues key key'"
    using s'(3,4) continues_trans [OF s'(5)] by metis
qed

text \<open>Storing an episode under the identity resolved for it carries every unexpired identity on.\<close>

lemma resolve_identity_carried:
  assumes "resolve_identity uuid clock c stolen n symbol lineage direction now_ts = ((sid, created), c', stolen', n')"
    and "cutoff = now_ts - co_lookback_s c" "cutoff \<le> sg_market_timestamp s" "sg_id s = sid" "sg_created_timestamp s = created"
    and "co_active c'' = dict_set (symbol, lineage, direction) s (co_active c')"
  shows "carried cutoff c c''"
proof (rule carriedI)
  let ?key = "(symbol, lineage, direction)"
  fix key old
  assume old: "dict_get (co_active c) key = Some old" "cutoff \<le> sg_market_timestamp old"
  have new: "dict_get (co_active c'') ?key = Some s" by (simp add: assms(6) dict_lookup)
  show "\<exists>key' s'. dict_get (co_active c'') key' = Some s' \<and> cutoff \<le> sg_market_timestamp s'
      \<and> sg_id s' = sg_id old \<and> sg_created_timestamp s' = sg_created_timestamp old \<and> continues key key'"
    (is ?goal)
  proof -
    have via: ?goal if "sid = sg_id old" "created = sg_created_timestamp old" "continues key ?key"
      using new assms(3-5) that by blast
    have other: ?goal if "key \<noteq> ?key" "dict_get (co_active c') key = Some old"
      using that old(2) by (intro exI [of _ key] exI [of _ old]) (simp add: assms(6) dict_lookup)
    show ?goal
      using assms(1)
    proof (cases rule: resolve_identity_cases)
      case (kept s')
      then show ?goal using old(1) via other by (cases "key = ?key") auto
    next
      case (taken s' h)
      have "key \<noteq> ?key" using taken(7) old assms(2) by fastforce
      then show ?goal
      proof (cases "key = (symbol, lineage, NONE)")
        case True
        then show ?goal using taken(2-4) old(1) by (intro via) (simp_all add: continues_def)
      next
        case False
        then show ?goal using \<open>key \<noteq> ?key\<close> old(1) taken(5) by (intro other) (simp_all add: dict_lookup)
      qed
    next
      case drawn
      have "key \<noteq> ?key" using drawn(5) old assms(2) by fastforce
      then show ?goal using other old(1) drawn(3) by simp
    qed
  qed
qed

lemma resolve_identity_frame:
  assumes "resolve_identity uuid clock c stolen n symbol lineage direction now_ts = ((sid, created), c', stolen', n')"
  shows "co_accepted c' = co_accepted c" "co_traces c' = co_traces c"
  using assms by (cases rule: resolve_identity_cases; simp)+

lemma fold_home: "fold (\<lambda>e home. home(ev_id e \<mapsto> key)) members home i =
    (if i \<in> ev_id ` set members then Some key else home i)"
  by (induction members arbitrary: home) auto

text \<open>What composing one episode guarantees.\<close>

definition composed ::
  "string \<Rightarrow> string \<Rightarrow> event_direction \<Rightarrow> market_event list \<Rightarrow> composer \<Rightarrow> signal \<times> signal_trace \<Rightarrow> bool" where
  "composed symbol lineage direction members c p \<longleftrightarrow>
     trace_of (fst p) (snd p) \<and> sg_event_ids (fst p) = map ev_id members \<and> sg_symbol (fst p) = symbol
     \<and> sg_direction (fst p) = direction \<and> sg_market_timestamp (fst p) = ev_market_timestamp (last members)
     \<and> dict_get (co_active c) (symbol, lineage, direction) = Some (fst p)
     \<and> (\<forall>e \<in> set members. co_home c (ev_id e) = Some (symbol, lineage, direction))"

lemma compose_episode_ok:
  assumes "co_inv uuid n c" "inj uuid" "members \<noteq> []"
    and "now_ts - co_lookback_s c \<le> ev_market_timestamp (last members)"
  obtains p c' stolen' n' where
    "compose_episode uuid clock symbol lineage features now_ts direction members c stolen n = Inr (p, c', stolen', n')"
    "co_inv uuid n' c'" "n \<le> n'" "co_lookback_s c' = co_lookback_s c" "co_accepted c' = co_accepted c"
    "carried (now_ts - co_lookback_s c) c c'" "composed symbol lineage direction members c' p"
proof -
  obtain sid created c1 stolen' n' where
    r: "resolve_identity uuid clock c stolen n symbol lineage direction now_ts = ((sid, created), c1, stolen', n')"
    by (metis surj_pair)
  note ok = resolve_identity_ok [OF assms(1,2) r]
  obtain prio reason where prio: "compose_priority members (classify_family members) = Inr (prio, reason)"
    using compose_priority_episode [OF assms(3)] by blast
  obtain title summary where copy: "render_copy members (classify_family members) features = Inr (title, summary)"
    using assms(3) by (simp add: render_copy_def Let_def)
  let ?s = "\<lparr>sg_id = sid, sg_event_ids = map ev_id members, sg_symbol = symbol,
      sg_family = classify_family members, sg_direction = direction, sg_priority = prio, sg_title = title,
      sg_summary = summary, sg_generated_by = RULE, sg_market_timestamp = ev_market_timestamp (last members),
      sg_received_timestamp = ev_received_timestamp (last members),
      sg_detected_timestamp = ev_detected_timestamp (last members),
      sg_created_timestamp = created, sg_expires_at = None\<rparr>"
  let ?t = "\<lparr>tr_signal_id = sid, tr_event_ids = map ev_id members, tr_rule_names = map ev_rule_name members,
      tr_features = features, tr_family = classify_family members, tr_direction = direction,
      tr_priority = prio, tr_priority_reason = reason,
      tr_detected_timestamp = ev_detected_timestamp (last members), tr_created_timestamp = created\<rparr>"
  let ?home = "fold (\<lambda>e home. home(ev_id e \<mapsto> (symbol, lineage, direction))) members (co_home c1)"
  let ?c = "c1\<lparr>co_active := dict_set (symbol, lineage, direction) ?s (co_active c1), co_home := ?home,
      co_traces := (co_traces c1)(sg_id ?s \<mapsto> ?t)\<rparr>"
  have "compose_episode uuid clock symbol lineage features now_ts direction members c stolen n
      = Inr ((?s, ?t), ?c, stolen', n')"
    by (simp add: compose_episode_def r prio copy Let_def)
  moreover have "co_inv uuid n' ?c"
    using ok by (intro co_inv_set) (auto simp: trace_of_def)
  moreover have "carried (now_ts - co_lookback_s c) c ?c"
    by (rule resolve_identity_carried [OF r refl]) (use assms(4) in auto)
  moreover have "composed symbol lineage direction members ?c (?s, ?t)"
    by (simp add: composed_def trace_of_def dict_lookup fold_home)
  ultimately show thesis
    using that ok resolve_identity_frame [OF r] by simp
qed

lemma compose_episodes_ok:
  assumes "co_inv uuid n c" "inj uuid" "cutoff = now_ts - co_lookback_s c"
    and "\<forall>(d, members) \<in> set episodes. members \<noteq> [] \<and> (\<forall>e \<in> set members. cutoff \<le> ev_market_timestamp e)"
  obtains ps c' stolen' n' where
    "compose_episodes uuid clock symbol lineage features now_ts new_ids episodes c stolen n = Inr (ps, c', stolen', n')"
    "co_inv uuid n' c'" "n \<le> n'" "co_lookback_s c' = co_lookback_s c" "co_accepted c' = co_accepted c"
    "carried cutoff c c'"
    "\<forall>(d, members) \<in> set episodes. (\<exists>e \<in> set members. ev_id e \<in> set new_ids) \<longrightarrow>
      (\<exists>p \<in> set ps. sg_event_ids (fst p) = map ev_id members \<and> sg_direction (fst p) = d \<and> sg_symbol (fst p) = symbol)"
    "\<forall>p \<in> set ps. trace_of (fst p) (snd p) \<and> sg_symbol (fst p) = symbol"
proof -
  have "\<exists>ps c' stolen' n'.
    compose_episodes uuid clock symbol lineage features now_ts new_ids episodes c stolen n = Inr (ps, c', stolen', n')
    \<and> co_inv uuid n' c' \<and> n \<le> n' \<and> co_lookback_s c' = co_lookback_s c \<and> co_accepted c' = co_accepted c
    \<and> carried cutoff c c'
    \<and> (\<forall>(d, members) \<in> set episodes. (\<exists>e \<in> set members. ev_id e \<in> set new_ids) \<longrightarrow>
      (\<exists>p \<in> set ps. sg_event_ids (fst p) = map ev_id members \<and> sg_direction (fst p) = d \<and> sg_symbol (fst p) = symbol))
    \<and> (\<forall>p \<in> set ps. trace_of (fst p) (snd p) \<and> sg_symbol (fst p) = symbol)"
    using assms
  proof (induction episodes arbitrary: c stolen n)
    case (Cons ep episodes)
    obtain d members where ep: "ep = (d, members)" by (rule prod.exhaust)
    show ?case
    proof (cases "list_ex (\<lambda>e. ev_id e \<in> set new_ids) members")
      case False
      then show ?thesis
        using Cons.IH [OF Cons.prems(1-3)] Cons.prems(4) by (auto simp: ep list_ex_iff)
    next
      case True
      have m: "members \<noteq> []" "now_ts - co_lookback_s c \<le> ev_market_timestamp (last members)"
        using Cons.prems(3,4) by (auto simp: ep)
      obtain p c1 stolen1 n1 where first:
        "compose_episode uuid clock symbol lineage features now_ts d members c stolen n = Inr (p, c1, stolen1, n1)"
        "co_inv uuid n1 c1" "n \<le> n1" "co_lookback_s c1 = co_lookback_s c" "co_accepted c1 = co_accepted c"
        "carried (now_ts - co_lookback_s c) c c1" "composed symbol lineage d members c1 p"
        by (rule compose_episode_ok [OF Cons.prems(1,2) m])
      have cut: "cutoff = now_ts - co_lookback_s c1" using Cons.prems(3) first(4) by simp
      have eps: "\<forall>(d, members) \<in> set episodes. members \<noteq> [] \<and> (\<forall>e \<in> set members. cutoff \<le> ev_market_timestamp e)"
        using Cons.prems(4) by simp
      obtain ps c2 stolen2 n2 where rest:
        "compose_episodes uuid clock symbol lineage features now_ts new_ids episodes c1 stolen1 n1 = Inr (ps, c2, stolen2, n2)"
        "co_inv uuid n2 c2" "n1 \<le> n2" "co_lookback_s c2 = co_lookback_s c1" "co_accepted c2 = co_accepted c1"
        "carried cutoff c1 c2"
        "\<forall>(d, members) \<in> set episodes. (\<exists>e \<in> set members. ev_id e \<in> set new_ids) \<longrightarrow>
          (\<exists>p \<in> set ps. sg_event_ids (fst p) = map ev_id members \<and> sg_direction (fst p) = d \<and> sg_symbol (fst p) = symbol)"
        "\<forall>p \<in> set ps. trace_of (fst p) (snd p) \<and> sg_symbol (fst p) = symbol"
        using Cons.IH [OF first(2) Cons.prems(2) cut eps] by blast
      have "compose_episodes uuid clock symbol lineage features now_ts new_ids (ep # episodes) c stolen n
          = Inr (p # ps, c2, stolen2, n2)"
        using True by (simp add: ep first(1) rest(1))
      moreover have "carried cutoff c c2"
        using first(6) rest(6) carried_trans Cons.prems(3) by blast
      ultimately show ?thesis
        using first rest by (auto simp: ep composed_def)
    qed
  qed simp
  then show thesis using that by blast
qed

lemma events_for_partition_sub:
  "set (events_for_partition home symbol lineage ids target recent) \<subseteq> set recent"
  by (induction recent) (auto simp: Let_def split: option.splits if_splits)

lemma events_for_partition_mem:
  assumes "e \<in> set recent" "ev_direction e \<noteq> NONE \<or> home (ev_id e) = None \<and> ev_id e \<in> set ids"
  shows "e \<in> set (events_for_partition home symbol lineage ids target recent)"
  using assms by (induction recent) (auto simp: Let_def split: option.split)

lemma in_partition:
  assumes "e \<in> set recent"
  obtains d members where "(d, members) \<in> set (partition_lineage_episodes recent target)" "e \<in> set members"
proof -
  have "e \<in># mset (concat (map snd (partition_lineage_episodes recent target)))"
    using assms by (simp only: partition_covers set_mset_mset)
  then show thesis using that by auto
qed

text \<open>
  What a run of the composer over some lineages guarantees: the invariant, the frame, the
  unexpired identities, and that the produced signals pair with their traces and hold the
  identifiers in \<open>ids\<close>.
\<close>

definition consumed ::
  "uuid_source \<Rightarrow> flt \<Rightarrow> string \<Rightarrow> string set \<Rightarrow> composer \<Rightarrow> nat
    \<Rightarrow> (signal \<times> signal_trace) list \<Rightarrow> composer \<Rightarrow> nat \<Rightarrow> bool" where
  "consumed uuid cutoff symbol ids c n ps c' n' \<longleftrightarrow>
     co_inv uuid n' c' \<and> n \<le> n' \<and> co_lookback_s c' = co_lookback_s c \<and> co_accepted c' = co_accepted c
     \<and> carried cutoff c c'
     \<and> (\<forall>i \<in> ids. \<exists>p \<in> set ps. i \<in> set (sg_event_ids (fst p)))
     \<and> (\<forall>p \<in> set ps. trace_of (fst p) (snd p) \<and> sg_symbol (fst p) = symbol)"

lemma consumed_append:
  assumes "consumed uuid cutoff symbol ids c n ps c1 n1" "consumed uuid cutoff symbol ids' c1 n1 qs c2 n2"
  shows "consumed uuid cutoff symbol (ids \<union> ids') c n (ps @ qs) c2 n2"
proof -
  have "carried cutoff c c2" using assms carried_trans by (auto simp: consumed_def)
  then show ?thesis using assms by (auto simp: consumed_def)
qed

text \<open>The identifiers a lineage composes for certain: directed events and undirected ones without a home.\<close>

definition certain_ids :: "composer \<Rightarrow> string \<Rightarrow> market_event list \<Rightarrow> market_event list \<Rightarrow> string set" where
  "certain_ids c lineage batch recent =
     {ev_id e | e. e \<in> set batch \<and> e \<in> set recent \<and> lineage_of (ev_type e) = lineage
        \<and> (ev_direction e \<noteq> NONE \<or> co_home c (ev_id e) = None)}"

lemma consume_lineage_ok:
  assumes "co_inv uuid n c" "inj uuid" "cutoff = now_ts - co_lookback_s c"
    and "\<forall>e \<in> set recent. cutoff \<le> ev_market_timestamp e"
  obtains ps c' stolen' n' where
    "consume_lineages uuid clock symbol batch recent features now_ts (lineage # lineages) c stolen n
      = res_bind (consume_lineages uuid clock symbol batch recent features now_ts lineages c' stolen' n') (\<lambda>(qs, rest). Inr (ps @ qs, rest))"
    "consumed uuid cutoff symbol (certain_ids c lineage batch recent) c n ps c' n'"
proof (cases "list_ex (\<lambda>e. lineage_of (ev_type e) = lineage) batch")
  case False
  then have "certain_ids c lineage batch recent = {}" by (auto simp: certain_ids_def list_ex_iff)
  then have "consumed uuid cutoff symbol (certain_ids c lineage batch recent) c n [] c n"
    using assms(1) by (simp add: consumed_def)
  moreover have "consume_lineages uuid clock symbol batch recent features now_ts (lineage # lineages) c stolen n
      = res_bind (consume_lineages uuid clock symbol batch recent features now_ts lineages c stolen n) (\<lambda>(qs, rest). Inr ([] @ qs, rest))"
    using False by (cases "consume_lineages uuid clock symbol batch recent features now_ts lineages c stolen n")
      (simp_all add: split_beta)
  ultimately show thesis using that by blast
next
  case True
  define lr where "lr = filter (\<lambda>e. lineage_of (ev_type e) = lineage) recent"
  define lb where "lb = filter (\<lambda>e. lineage_of (ev_type e) = lineage) batch"
  define target where "target = resolve_none_target lb lr (live_directions c symbol lineage)"
  define cr where "cr = events_for_partition (co_home c) symbol lineage (map ev_id lb) target lr"
  have cr_sub: "set cr \<subseteq> set recent"
    using events_for_partition_sub unfolding cr_def lr_def by fastforce
  have eps: "\<forall>(d, members) \<in> set (partition_lineage_episodes cr target). members \<noteq> []
      \<and> (\<forall>e \<in> set members. cutoff \<le> ev_market_timestamp e)"
  proof (clarify, intro conjI ballI)
    fix d members
    assume m: "(d, members) \<in> set (partition_lineage_episodes cr target)"
    show "members \<noteq> []" using partition_nonempty [OF m] .
    fix e assume "e \<in> set members"
    then have "e \<in> set cr" using partition_members [OF m] by (auto split: if_splits)
    then show "cutoff \<le> ev_market_timestamp e" using cr_sub assms(4) by blast
  qed
  obtain ps c' stolen' n' where run:
    "compose_episodes uuid clock symbol lineage features now_ts (map ev_id batch)
      (partition_lineage_episodes cr target) c stolen n = Inr (ps, c', stolen', n')"
    "co_inv uuid n' c'" "n \<le> n'" "co_lookback_s c' = co_lookback_s c" "co_accepted c' = co_accepted c"
    "carried cutoff c c'"
    "\<forall>(d, members) \<in> set (partition_lineage_episodes cr target).
      (\<exists>e \<in> set members. ev_id e \<in> set (map ev_id batch)) \<longrightarrow>
      (\<exists>p \<in> set ps. sg_event_ids (fst p) = map ev_id members \<and> sg_direction (fst p) = d \<and> sg_symbol (fst p) = symbol)"
    "\<forall>p \<in> set ps. trace_of (fst p) (snd p) \<and> sg_symbol (fst p) = symbol"
    by (rule compose_episodes_ok [OF assms(1-3) eps])
  have "\<exists>p \<in> set ps. i \<in> set (sg_event_ids (fst p))" if i: "i \<in> certain_ids c lineage batch recent" for i
  proof -
    obtain e where e: "i = ev_id e" "e \<in> set batch" "e \<in> set recent" "lineage_of (ev_type e) = lineage"
      "ev_direction e \<noteq> NONE \<or> co_home c (ev_id e) = None"
      using i unfolding certain_ids_def by blast
    then have "e \<in> set lr" "e \<in> set lb" by (simp_all add: lr_def lb_def)
    with e have "e \<in> set cr" unfolding cr_def by (intro events_for_partition_mem) auto
    then obtain d members where m: "(d, members) \<in> set (partition_lineage_episodes cr target)" "e \<in> set members"
      by (rule in_partition)
    then have "\<exists>p \<in> set ps. sg_event_ids (fst p) = map ev_id members" using run(7) e(2) by fastforce
    then show ?thesis using m(2) e(1) by force
  qed
  then have "consumed uuid cutoff symbol (certain_ids c lineage batch recent) c n ps c' n'"
    using run by (simp add: consumed_def)
  moreover have "consume_lineages uuid clock symbol batch recent features now_ts (lineage # lineages) c stolen n
      = res_bind (consume_lineages uuid clock symbol batch recent features now_ts lineages c' stolen' n') (\<lambda>(qs, rest). Inr (ps @ qs, rest))"
    using True run(1) by (simp add: Let_def lr_def [symmetric] lb_def [symmetric]
        target_def [symmetric] cr_def [symmetric])
  ultimately show thesis using that by blast
qed

lemma release_homes_None: "home i = None \<Longrightarrow> release_homes key ids home i = None"
  by (induction ids arbitrary: home) auto

lemma prune_home_None: "co_home c i = None \<Longrightarrow> co_home (prune_active c now_ts) i = None"
proof -
  have "co_home c i = None \<Longrightarrow> co_home (fold expire_one xs c) i = None" for xs
    by (induction xs arbitrary: c) (auto simp: expire_one_def split_beta release_homes_None)
  then show "co_home c i = None \<Longrightarrow> co_home (prune_active c now_ts) i = None"
    by (simp add: prune_active_def Let_def)
qed

lemma latest_time_Inr:
  assumes "batch \<noteq> []"
  shows "latest_time batch = Inr (Max (ev_market_timestamp ` set batch))"
proof -
  have "fold max xs (x :: flt) = Max (insert x (set xs))" for x xs
    by (metis Max.set_eq_fold list.simps(15))
  then show ?thesis using assms by (cases batch) (simp_all add: latest_time_def)
qed

lemma carried_prune:
  assumes "co_inv uuid n c"
  shows "carried (now_ts - co_lookback_s c) c (prune_active c now_ts)"
proof (rule carriedI)
  fix key s assume "dict_get (co_active c) key = Some s" "now_ts - co_lookback_s c \<le> sg_market_timestamp s"
  then have "dict_get (co_active (prune_active c now_ts)) key = Some s"
    by (simp add: prune_active_ok(2) [OF assms])
  then show "\<exists>key' s'. dict_get (co_active (prune_active c now_ts)) key' = Some s'
      \<and> now_ts - co_lookback_s c \<le> sg_market_timestamp s' \<and> sg_id s' = sg_id s
      \<and> sg_created_timestamp s' = sg_created_timestamp s \<and> continues key key'"
    using \<open>now_ts - co_lookback_s c \<le> sg_market_timestamp s\<close> continues_refl by blast
qed

lemma lineage_cases: "lineage_of t = ''tape'' \<or> lineage_of t = ''vwap''"
  by (simp add: lineage_of_def)

text \<open>The batch identifiers certain to be composed: recent enough, and directed or new.\<close>

definition composable :: "composer \<Rightarrow> flt \<Rightarrow> market_event list \<Rightarrow> string set" where
  "composable c cutoff batch =
     {ev_id e | e. e \<in> set batch \<and> cutoff \<le> ev_market_timestamp e
        \<and> (ev_direction e \<noteq> NONE \<or> ev_type e \<noteq> VWAP_CROSS \<and> co_home c (ev_id e) = None)}"

lemma consume_symbol_ok:
  assumes "co_inv uuid n c" "inj uuid" "batch \<noteq> []"
  defines "cutoff \<equiv> Max (ev_market_timestamp ` set batch) - co_lookback_s c"
  obtains ps c' n' where
    "consume_symbol uuid clock features symbol batch c n = Inr (ps, c', n')"
    "co_inv uuid n' c'" "n \<le> n'" "co_lookback_s c' = co_lookback_s c"
    "co_accepted c' = (co_accepted c)(symbol := keep_recent cutoff (co_accepted c symbol @ batch))"
    "carried cutoff c c'"
    "\<forall>i \<in> composable c cutoff batch. \<exists>p \<in> set ps. i \<in> set (sg_event_ids (fst p))"
    "\<forall>p \<in> set ps. trace_of (fst p) (snd p) \<and> sg_symbol (fst p) = symbol"
proof -
  define now_ts where "now_ts = Max (ev_market_timestamp ` set batch)"
  define recent where "recent = keep_recent cutoff (co_accepted c symbol @ batch)"
  define c0 where "c0 = c\<lparr>co_accepted := (co_accepted c)(symbol := recent)\<rparr>"
  define c1 where "c1 = prune_active c0 now_ts"
  have cutoff: "cutoff = now_ts - co_lookback_s c" by (simp add: cutoff_def now_ts_def)
  have c0: "co_inv uuid n c0" "co_lookback_s c0 = co_lookback_s c" "co_active c0 = co_active c"
    using co_inv_frame [OF assms(1), of c0] by (simp_all add: c0_def)
  have c1: "co_inv uuid n c1" "co_lookback_s c1 = co_lookback_s c" "co_accepted c1 = co_accepted c0"
    unfolding c1_def using prune_active_ok(1) [OF c0(1)] c0(2) by simp_all
  have recent: "\<forall>e \<in> set recent. cutoff \<le> ev_market_timestamp e" by (auto simp: recent_def keep_recent_def)
  have cut1: "cutoff = now_ts - co_lookback_s c1" by (simp add: cutoff c1(2))
  obtain ps c2 stolen2 n2 where tape:
    "consume_lineages uuid clock symbol batch recent features now_ts [''tape'', ''vwap''] c1 [] n
      = res_bind (consume_lineages uuid clock symbol batch recent features now_ts [''vwap''] c2 stolen2 n2)
          (\<lambda>(qs, rest). Inr (ps @ qs, rest))"
    "consumed uuid cutoff symbol (certain_ids c1 ''tape'' batch recent) c1 n ps c2 n2"
    by (rule consume_lineage_ok [OF c1(1) assms(2) cut1 recent])
  have c2: "co_inv uuid n2 c2" "cutoff = now_ts - co_lookback_s c2"
    using tape(2) cut1 by (simp_all add: consumed_def)
  obtain qs c3 stolen3 n3 where vwap:
    "consume_lineages uuid clock symbol batch recent features now_ts [''vwap''] c2 stolen2 n2
      = res_bind (consume_lineages uuid clock symbol batch recent features now_ts [] c3 stolen3 n3)
          (\<lambda>(rs, rest). Inr (qs @ rs, rest))"
    "consumed uuid cutoff symbol (certain_ids c2 ''vwap'' batch recent) c2 n2 qs c3 n3"
    by (rule consume_lineage_ok [OF c2(1) assms(2) c2(2) recent])
  note all = consumed_append [OF tape(2) vwap(2)]
  have run: "consume_lineages uuid clock symbol batch recent features now_ts [''tape'', ''vwap''] c1 [] n
      = Inr (ps @ qs, c3, stolen3, n3)"
    by (simp only: tape(1) vwap(1) consume_lineages.simps(1) res_bind.simps prod.case append_Nil2)
  have sub: "composable c cutoff batch \<subseteq> certain_ids c1 ''tape'' batch recent \<union> certain_ids c2 ''vwap'' batch recent"
  proof
    fix i assume "i \<in> composable c cutoff batch"
    then obtain e where e: "i = ev_id e" "e \<in> set batch" "cutoff \<le> ev_market_timestamp e"
      "ev_direction e \<noteq> NONE \<or> ev_type e \<noteq> VWAP_CROSS \<and> co_home c (ev_id e) = None"
      by (auto simp: composable_def)
    then have "e \<in> set recent" by (simp add: recent_def keep_recent_def)
    moreover have "co_home c1 (ev_id e) = None" if "co_home c (ev_id e) = None"
      unfolding c1_def by (rule prune_home_None) (simp add: c0_def that)
    ultimately show "i \<in> certain_ids c1 ''tape'' batch recent \<union> certain_ids c2 ''vwap'' batch recent"
      using e by (cases "ev_type e = VWAP_CROSS") (auto simp: certain_ids_def lineage_of_def)
  qed
  have "carried cutoff c c1"
    using carried_prune [OF c0(1), of now_ts] c0(2,3) by (simp add: c1_def cutoff carried_def)
  then have carried: "carried cutoff c c3" using all carried_trans by (auto simp: consumed_def)
  have result: "consume_symbol uuid clock features symbol batch c n = Inr (ps @ qs, c3, n3)"
    using run
    by (simp del: consume_lineages.simps add: consume_symbol_def latest_time_Inr [OF assms(3)] Let_def now_ts_def [symmetric]
        cutoff [symmetric] recent_def [symmetric] c0_def [symmetric] c1_def [symmetric])
  show thesis
  proof (rule that [OF result])
    show "carried cutoff c c3" by (rule carried)
    show "\<forall>i \<in> composable c cutoff batch. \<exists>p \<in> set (ps @ qs). i \<in> set (sg_event_ids (fst p))"
      using all sub by (auto simp: consumed_def)
    show "co_accepted c3 = (co_accepted c)(symbol := keep_recent cutoff (co_accepted c symbol @ batch))"
      using all c1(3) by (simp add: consumed_def c0_def recent_def)
  qed (use all c1(2) in \<open>simp_all add: consumed_def\<close>)
qed

section \<open>Properties\<close>

lemma consume_groups_ok:
  assumes "co_inv uuid n c" "inj uuid" "\<forall>(symbol, batch) \<in> set groups. batch \<noteq> []"
  shows "\<exists>ps c' n'. consume_groups uuid clock features groups c n = Inr (ps, c', n')
    \<and> co_inv uuid n' c' \<and> n \<le> n' \<and> co_lookback_s c' = co_lookback_s c
    \<and> (\<forall>p \<in> set ps. trace_of (fst p) (snd p) \<and> sg_symbol (fst p) \<in> fst ` set groups)"
  using assms
proof (induction groups arbitrary: c n)
  case (Cons g groups)
  obtain symbol batch where g: "g = (symbol, batch)" by (rule prod.exhaust)
  have "batch \<noteq> []" using Cons.prems(3) by (simp add: g)
  then obtain ps c1 n1 where first: "consume_symbol uuid clock features symbol batch c n = Inr (ps, c1, n1)"
    "co_inv uuid n1 c1" "n \<le> n1" "co_lookback_s c1 = co_lookback_s c"
    "\<forall>p \<in> set ps. trace_of (fst p) (snd p) \<and> sg_symbol (fst p) = symbol"
    by (rule consume_symbol_ok [OF Cons.prems(1,2)])
  have "\<forall>(symbol, batch) \<in> set groups. batch \<noteq> []" using Cons.prems(3) by simp
  then obtain qs c2 n2 where "consume_groups uuid clock features groups c1 n1 = Inr (qs, c2, n2)"
    "co_inv uuid n2 c2" "n1 \<le> n2" "co_lookback_s c2 = co_lookback_s c1"
    "\<forall>p \<in> set qs. trace_of (fst p) (snd p) \<and> sg_symbol (fst p) \<in> fst ` set groups"
    using Cons.IH [OF first(2) Cons.prems(2)] by blast
  then show ?case using first by (auto simp: g)
qed simp

lemma group_add_nonempty:
  "\<forall>(symbol, batch) \<in> set d. batch \<noteq> [] \<Longrightarrow> \<forall>(symbol, batch) \<in> set (group_add e d). batch \<noteq> []"
proof -
  assume d: "\<forall>(symbol, batch) \<in> set d. batch \<noteq> []"
  have ne: "\<forall>(symbol, batch) \<in> set (dict_set k v d). batch \<noteq> []" if "v \<noteq> []" for k and v :: "market_event list"
    using d that by (induction d) auto
  show ?thesis unfolding group_add_def by (rule ne) simp
qed

lemma groups_nonempty: "\<forall>(symbol, batch) \<in> set (fold group_add events []). batch \<noteq> []"
  by (rule fold_inv_rule) (simp, rule group_add_nonempty)

text \<open>With identifiers that never repeat, composing any batch of events succeeds, and the
  composer keeps its invariant: no two active signals share an identifier, each is filed under its own
  symbol and direction and has a trace under its identifier that agrees with it. So \<open>trace_for\<close>
  of an active signal never raises, and every produced signal comes with its own trace.\<close>

theorem consume_batch_keeps_traces:
  assumes "co_inv uuid n c" "inj uuid"
  shows "\<exists>ps c' n'. consume_batch uuid clock events features c n = Inr (ps, c', n')
    \<and> co_inv uuid n' c' \<and> n \<le> n'
    \<and> (\<forall>p \<in> set ps. trace_of (fst p) (snd p))
    \<and> (\<forall>symbol. \<forall>s \<in> set (active_signals c' symbol). sg_symbol s = symbol
        \<and> (\<exists>t. trace_for c' (sg_id s) = Inr t \<and> trace_of s t))"
proof -
  obtain ps c' n' where run: "consume_batch uuid clock events features c n = Inr (ps, c', n')"
    "co_inv uuid n' c'" "n \<le> n'" "\<forall>p \<in> set ps. trace_of (fst p) (snd p)"
    using consume_groups_ok [OF assms groups_nonempty [of events]] assms(1)
    by (cases "events = []") (fastforce simp: consume_batch_def)+
  have wf: "dict_wf (co_active c')" using run(2) by (simp add: co_inv_def)
  have "sg_symbol s = symbol \<and> (\<exists>t. trace_for c' (sg_id s) = Inr t \<and> trace_of s t)"
    if s: "s \<in> set (active_signals c' symbol)" for symbol s
  proof -
    obtain lineage direction where "((symbol, lineage, direction), s) \<in> set (co_active c')"
      using s by (auto simp: active_signals_def)
    then have "signal_ok uuid n' c' (symbol, lineage, direction) s"
      using co_invD(1) [OF run(2)] wf by (simp add: dict_wf_in_set)
    then show ?thesis by (auto simp: signal_ok_def trace_for_def)
  qed
  with run show ?thesis by blast
qed

text \<open>No accepted event is lost: when a symbol's batch is composed, every event of it that is
  within the look-back of the newest and either directed or a new undirected tape event ends up in a
  signal produced by that call, for that symbol.\<close>

theorem consume_symbol_composes_batch:
  assumes "co_inv uuid n c" "inj uuid" "batch \<noteq> []"
    and "\<forall>e \<in> set batch. Max (ev_market_timestamp ` set batch) - co_lookback_s c \<le> ev_market_timestamp e"
    and "\<forall>e \<in> set batch. ev_direction e = NONE \<longrightarrow> ev_type e \<noteq> VWAP_CROSS \<and> co_home c (ev_id e) = None"
  shows "\<exists>ps c' n'. consume_symbol uuid clock features symbol batch c n = Inr (ps, c', n')
    \<and> (\<forall>e \<in> set batch. \<exists>p \<in> set ps. ev_id e \<in> set (sg_event_ids (fst p)) \<and> sg_symbol (fst p) = symbol)"
proof -
  let ?cutoff = "Max (ev_market_timestamp ` set batch) - co_lookback_s c"
  obtain ps c' n' where run: "consume_symbol uuid clock features symbol batch c n = Inr (ps, c', n')"
    "\<forall>i \<in> composable c ?cutoff batch. \<exists>p \<in> set ps. i \<in> set (sg_event_ids (fst p))"
    "\<forall>p \<in> set ps. trace_of (fst p) (snd p) \<and> sg_symbol (fst p) = symbol"
    by (rule consume_symbol_ok [OF assms(1-3)])
  have "ev_id e \<in> composable c ?cutoff batch" if "e \<in> set batch" for e
    using assms(4,5) that by (auto simp: composable_def)
  then show ?thesis using run by blast
qed

text \<open>C3: An episode that is still within the look-back keeps its identity: after a symbol's batch
  is composed, every signal that was active and unexpired is still active with the same identifier and
  creation time, under the same key, or, if it was undirected, under a direction of its symbol and
  lineage that took it over.\<close>

theorem consume_symbol_keeps_identity:
  assumes "co_inv uuid n c" "inj uuid" "batch \<noteq> []"
    and "dict_get (co_active c) key = Some s"
    and "Max (ev_market_timestamp ` set batch) - co_lookback_s c \<le> sg_market_timestamp s"
  shows "\<exists>ps c' n' key' s'. consume_symbol uuid clock features symbol batch c n = Inr (ps, c', n')
    \<and> dict_get (co_active c') key' = Some s' \<and> sg_id s' = sg_id s
    \<and> sg_created_timestamp s' = sg_created_timestamp s \<and> continues key key'"
proof -
  let ?cutoff = "Max (ev_market_timestamp ` set batch) - co_lookback_s c"
  obtain ps c' n' where run: "consume_symbol uuid clock features symbol batch c n = Inr (ps, c', n')"
    "carried ?cutoff c c'"
    by (rule consume_symbol_ok [OF assms(1-3)])
  then show ?thesis using assms(4,5) unfolding carried_def by blast
qed

subsection \<open>Sample runs\<close>

definition tally :: uuid_source where
  "tally n = replicate n (CHR ''x'')"

lemma inj_tally: "inj tally"
  by (rule injI) (metis length_replicate tally_def)

definition sample_clock :: fake_clock where
  "sample_clock = \<lparr>fc_wall = 1000, fc_mono = 0\<rparr>"

definition at_time :: "flt \<Rightarrow> market_event \<Rightarrow> market_event" where
  "at_time t e = e\<lparr>ev_market_timestamp := t\<rparr>"

theorem consume_batch_keeps_traces_witness:
  "\<exists>ps c' n'. consume_batch tally sample_clock [volume_at 1 2, breakout_at 2 3] quiet_features (new_composer 90) 0
      = Inr (ps, c', n') \<and> co_inv tally n' c'"
  using consume_batch_keeps_traces [OF co_inv_new [of tally 0 90] inj_tally, of sample_clock
      "[volume_at 1 2, breakout_at 2 3]" quiet_features] by blast

theorem consume_symbol_composes_batch_witness:
  "\<exists>ps c' n'. consume_symbol tally sample_clock quiet_features ''600000.SH'' [volume_at 1 2, breakout_at 2 3]
      (new_composer 90) 0 = Inr (ps, c', n')
    \<and> (\<exists>p \<in> set ps. ev_id (volume_at 1 2) \<in> set (sg_event_ids (fst p)))"
proof -
  have "\<forall>e \<in> set [volume_at 1 2, breakout_at 2 3].
      Max (ev_market_timestamp ` set [volume_at 1 2, breakout_at 2 3]) - co_lookback_s (new_composer 90)
        \<le> ev_market_timestamp e"
    "\<forall>e \<in> set [volume_at 1 2, breakout_at 2 3]. ev_direction e = NONE \<longrightarrow>
      ev_type e \<noteq> VWAP_CROSS \<and> co_home (new_composer 90) (ev_id e) = None"
    by code_simp+
  from consume_symbol_composes_batch [OF co_inv_new [of tally 0 90] inj_tally _ this, of sample_clock quiet_features "''600000.SH''"]
  show ?thesis by auto
qed

text \<open>The composer after one undirected volume event.\<close>

definition volume_state :: composer where
  "volume_state = fst (snd (projr (consume_symbol tally sample_clock quiet_features ''600000.SH''
     [at_time 10 (volume_at 1 2)] (new_composer 90) 0)))"

lemma volume_state_inv: "co_inv tally 1 volume_state"
proof -
  have ne: "[at_time 10 (volume_at 1 2)] \<noteq> []" by simp
  obtain ps c' n' where "consume_symbol tally sample_clock quiet_features ''600000.SH''
      [at_time 10 (volume_at 1 2)] (new_composer 90) 0 = Inr (ps, c', n')" "co_inv tally n' c'"
    by (rule consume_symbol_ok [OF co_inv_new inj_tally ne])
  moreover have "snd (snd (projr (consume_symbol tally sample_clock quiet_features ''600000.SH''
      [at_time 10 (volume_at 1 2)] (new_composer 90) 0))) = 1" by code_simp
  ultimately show ?thesis by (simp add: volume_state_def)
qed

theorem consume_symbol_keeps_identity_witness:
  "\<exists>s ps c' n' key' s'.
     dict_get (co_active volume_state) (''600000.SH'', ''tape'', NONE) = Some s
     \<and> consume_symbol tally sample_clock quiet_features ''600000.SH'' [at_time 50 (breakout_at 2 3)] volume_state 1
        = Inr (ps, c', n')
     \<and> dict_get (co_active c') key' = Some s' \<and> sg_id s' = sg_id s"
proof -
  obtain s where s: "dict_get (co_active volume_state) (''600000.SH'', ''tape'', NONE) = Some s"
    "Max (ev_market_timestamp ` set [at_time 50 (breakout_at 2 3)]) - co_lookback_s volume_state \<le> sg_market_timestamp s"
  proof -
    have "case dict_get (co_active volume_state) (''600000.SH'', ''tape'', NONE) of
        Some s \<Rightarrow> Max (ev_market_timestamp ` set [at_time 50 (breakout_at 2 3)]) - co_lookback_s volume_state
          \<le> sg_market_timestamp s | None \<Rightarrow> False"
      by code_simp
    then show thesis using that by (auto split: option.splits)
  qed
  show ?thesis
    using consume_symbol_keeps_identity [OF volume_state_inv inj_tally _ s, of sample_clock quiet_features "''600000.SH''"]
      s(1) by fastforce
qed

text \<open>
  A quote of one symbol expires the episodes of the others: the look-back of every active signal
  is measured from the market time of the symbol being composed.
\<close>

lemma prune_crosses_symbols:
  "dict_get (co_active volume_state) (''600000.SH'', ''tape'', NONE) \<noteq> None
   \<and> dict_get (co_active (composer_prune volume_state ''AAPL.US'' 101)) (''600000.SH'', ''tape'', NONE) = None"
  by (rule conjI; code_simp)

end
