(* ===== verification/Telemetry.thy ===== *)
theory Telemetry
  imports Domain
begin

text \<open>
  \<open>telemetry/contract.py\<close>, \<open>collector.py\<close>, \<open>runtime.py\<close>, \<open>host_interaction.py\<close> and
  \<open>user_feedback.py\<close>: the taxonomy, the validation of observations, feedback and tuning
  identities, the key lists, the cluster tracker, the parsers of host commands and the
  runtime that records without ever failing its caller.
\<close>

section \<open>Taxonomy\<close>

datatype telemetry_kind = PIPELINE | HOST | INTELLIGENCE

datatype telemetry_name =
    EVENT_GENERATED
  | EVENT_DEDUPED
  | EVENT_CLUSTERED
  | SIGNAL_EPISODE_CREATED
  | SIGNAL_ESCALATED
  | ALERT_CANDIDATE
  | ALERT_SUPPRESSED
  | ALERT_PRESENTED
  | SIGNAL_OPENED
  | ALERT_BADGE_RESET
  | ALERT_DISMISSED
  | SIGNAL_MUTED
  | INTELLIGENCE_ROUTED
  | INTELLIGENCE_SKIPPED
  | INTELLIGENCE_SUCCEEDED
  | INTELLIGENCE_FALLBACK
  | INTELLIGENCE_TOKEN_USAGE
  | INTELLIGENCE_LATENCY

datatype feedback_label = USEFUL | NOT_USEFUL | TOO_NOISY | TOO_LATE

datatype tuning_source = MANUAL | OFFLINE_EVAL

datatype suppression_reason = COOLDOWN | SAME_TICK_DUPLICATE

datatype decision_reason =
    EXPIRED_EPISODE
  | SUPPRESSED_EDGE
  | STALE_FEED
  | INSUFFICIENT_FEATURES
  | NOT_CANDIDATE
  | EPISODE_BUDGET

datatype latency_stage = ROUTER | MODEL | PARSE

fun telemetry_kind_value :: "telemetry_kind \<Rightarrow> string" where
  "telemetry_kind_value PIPELINE = ''pipeline''"
| "telemetry_kind_value HOST = ''host''"
| "telemetry_kind_value INTELLIGENCE = ''intelligence''"

fun telemetry_name_value :: "telemetry_name \<Rightarrow> string" where
  "telemetry_name_value EVENT_GENERATED = ''event_generated''"
| "telemetry_name_value EVENT_DEDUPED = ''event_deduped''"
| "telemetry_name_value EVENT_CLUSTERED = ''event_clustered''"
| "telemetry_name_value SIGNAL_EPISODE_CREATED = ''signal_episode_created''"
| "telemetry_name_value SIGNAL_ESCALATED = ''signal_escalated''"
| "telemetry_name_value ALERT_CANDIDATE = ''alert_candidate''"
| "telemetry_name_value ALERT_SUPPRESSED = ''alert_suppressed''"
| "telemetry_name_value ALERT_PRESENTED = ''alert_presented''"
| "telemetry_name_value SIGNAL_OPENED = ''signal_opened''"
| "telemetry_name_value ALERT_BADGE_RESET = ''alert_badge_reset''"
| "telemetry_name_value ALERT_DISMISSED = ''alert_dismissed''"
| "telemetry_name_value SIGNAL_MUTED = ''signal_muted''"
| "telemetry_name_value INTELLIGENCE_ROUTED = ''intelligence_routed''"
| "telemetry_name_value INTELLIGENCE_SKIPPED = ''intelligence_skipped''"
| "telemetry_name_value INTELLIGENCE_SUCCEEDED = ''intelligence_succeeded''"
| "telemetry_name_value INTELLIGENCE_FALLBACK = ''intelligence_fallback''"
| "telemetry_name_value INTELLIGENCE_TOKEN_USAGE = ''intelligence_token_usage''"
| "telemetry_name_value INTELLIGENCE_LATENCY = ''intelligence_latency''"

fun feedback_label_value :: "feedback_label \<Rightarrow> string" where
  "feedback_label_value USEFUL = ''useful''"
| "feedback_label_value NOT_USEFUL = ''not_useful''"
| "feedback_label_value TOO_NOISY = ''too_noisy''"
| "feedback_label_value TOO_LATE = ''too_late''"

fun tuning_source_value :: "tuning_source \<Rightarrow> string" where
  "tuning_source_value MANUAL = ''manual''"
| "tuning_source_value OFFLINE_EVAL = ''offline_eval''"

fun suppression_reason_value :: "suppression_reason \<Rightarrow> string" where
  "suppression_reason_value COOLDOWN = ''cooldown''"
| "suppression_reason_value SAME_TICK_DUPLICATE = ''same_tick_duplicate''"

fun decision_reason_value :: "decision_reason \<Rightarrow> string" where
  "decision_reason_value EXPIRED_EPISODE = ''expired_episode''"
| "decision_reason_value SUPPRESSED_EDGE = ''suppressed_edge''"
| "decision_reason_value STALE_FEED = ''stale_feed''"
| "decision_reason_value INSUFFICIENT_FEATURES = ''insufficient_features''"
| "decision_reason_value NOT_CANDIDATE = ''not_candidate''"
| "decision_reason_value EPISODE_BUDGET = ''episode_budget''"

fun latency_stage_value :: "latency_stage \<Rightarrow> string" where
  "latency_stage_value ROUTER = ''router''"
| "latency_stage_value MODEL = ''model''"
| "latency_stage_value PARSE = ''parse''"

section \<open>Key lists\<close>

definition TELEMETRY_ALLOWLIST :: "string list" where
  "TELEMETRY_ALLOWLIST =
     [''telemetry_id'', ''name'', ''kind'', ''created_timestamp'', ''run_id'', ''market_timestamp'',
      ''symbol'', ''event_id'', ''signal_id'', ''event_type'', ''family'', ''direction'', ''priority'',
      ''host_action'', ''intelligence_status'', ''decision_reason'', ''fallback_reason'',
      ''suppression_reason'', ''latency_s'', ''latency_stage'', ''token_in'', ''token_out'']"

definition TELEMETRY_DENYLIST :: "string list" where
  "TELEMETRY_DENYLIST =
     [''workspace'', ''source_code'', ''conversation'', ''files'', ''ticks'', ''snapshots'', ''ring_buffer'',
      ''features'', ''prompt'', ''api_key'', ''title'', ''summary'', ''reason'', ''notes'', ''session_id'',
      ''event_ids'', ''rule_names'', ''priority_reason'', ''delete_event'', ''rewrite_threshold'',
      ''mutate_signal'', ''apply_online'']"

definition FEEDBACK_ALLOWLIST :: "string list" where
  "FEEDBACK_ALLOWLIST =
     [''feedback_id'', ''created_timestamp'', ''run_id'', ''label'', ''symbol'', ''event_id'', ''signal_id'',
      ''telemetry_id'']"

definition TUNING_ALLOWLIST :: "string list" where
  "TUNING_ALLOWLIST = [''snapshot_id'', ''created_timestamp'', ''source'', ''config_version'']"

type_synonym payload = "(string \<times> pyval) list"

text \<open>\<open>d.get(key)\<close>, and the \<open>isinstance(v, str)\<close> test on it.\<close>

definition get_or_none :: "payload \<Rightarrow> string \<Rightarrow> pyval" where
  "get_or_none d key = (case dict_get d key of None \<Rightarrow> PyNone | Some v \<Rightarrow> v)"

definition text_or_none :: "pyval \<Rightarrow> string option" where
  "text_or_none v = (case v of PyStr s \<Rightarrow> Some s | _ \<Rightarrow> None)"

lemma text_or_none_Some: "text_or_none v = Some r \<longleftrightarrow> v = PyStr r"
  by (simp add: text_or_none_def split: pyval.split)

lemma get_or_none_PyStr: "get_or_none d key = PyStr r \<longleftrightarrow> dict_get d key = Some (PyStr r)"
  by (simp add: get_or_none_def split: option.split)

definition reject_denied :: "payload \<Rightarrow> unit res" where
  "reject_denied payload =
     (if list_ex (\<lambda>(key, value). key \<in> set TELEMETRY_DENYLIST) payload
      then Inl (ValueError ''telemetry/feedback payload contains denied keys'') else Inr ())"

definition project_allowlist :: "payload \<Rightarrow> string list \<Rightarrow> payload res" where
  "project_allowlist payload allowed =
     res_bind (reject_denied payload) (\<lambda>_. Inr (filter (\<lambda>(key, value). key \<in> set allowed) payload))"

section \<open>Field checks\<close>

text \<open>\<open>str.strip\<close> removes Unicode white space; these are its characters below 256.\<close>

definition py_space :: "char \<Rightarrow> bool" where
  "py_space c \<longleftrightarrow>
     (let n = of_char c :: nat in 9 \<le> n \<and> n \<le> 13 \<or> 28 \<le> n \<and> n \<le> 32 \<or> n = 133 \<or> n = 160)"

definition blank :: "string \<Rightarrow> bool" where
  "blank s \<longleftrightarrow> list_all py_space s"

fun finite_float :: "pyfloat \<Rightarrow> bool" where
  "finite_float (Fin x) = True"
| "finite_float _ = False"

fun negative_float :: "pyfloat \<Rightarrow> bool" where
  "negative_float (Fin x) = (x < 0)"
| "negative_float NegInf = True"
| "negative_float _ = False"

definition require_text :: "string \<Rightarrow> string \<Rightarrow> unit res" where
  "require_text value field =
     (if blank value then Inl (ValueError (field @ '' must be non-empty'')) else Inr ())"

definition require_finite :: "pyfloat \<Rightarrow> string \<Rightarrow> unit res" where
  "require_finite value field =
     (if finite_float value then Inr () else Inl (ValueError (field @ '' must be finite'')))"

definition require_non_negative :: "pyfloat \<Rightarrow> string \<Rightarrow> unit res" where
  "require_non_negative value field =
     (if negative_float value then Inl (ValueError (field @ '' must be >= 0'')) else Inr ())"

definition when_some :: "'a option \<Rightarrow> ('a \<Rightarrow> unit res) \<Rightarrow> unit res" where
  "when_some x check = (case x of None \<Rightarrow> Inr () | Some v \<Rightarrow> check v)"

fun all_checks :: "unit res list \<Rightarrow> unit res" where
  "all_checks [] = Inr ()"
| "all_checks (c # cs) = res_bind c (\<lambda>_. all_checks cs)"

definition fails_if :: "bool \<Rightarrow> string \<Rightarrow> unit res" where
  "fails_if condition message = (if condition then Inl (ValueError message) else Inr ())"

lemma all_checks_Inr: "all_checks cs = Inr () \<longleftrightarrow> (\<forall>c \<in> set cs. c = Inr ())"
  by (induction cs) (auto simp: res_simps)

section \<open>Cluster membership\<close>

text \<open>\<open>dict.fromkeys\<close> keeps the first occurrence of each key.\<close>

fun dedup_first :: "'a list \<Rightarrow> 'a list" where
  "dedup_first [] = []"
| "dedup_first (x # xs) = x # filter (\<lambda>y. y \<noteq> x) (dedup_first xs)"

definition newly_clustered :: "string list \<Rightarrow> string list \<Rightarrow> string list \<times> string list" where
  "newly_clustered clustered member_ids =
     (let unique = dedup_first member_ids
      in if length unique < 2 then ([], clustered)
         else let fresh = filter (\<lambda>i. i \<notin> set clustered) unique
              in (fresh, clustered @ fresh))"

lemma set_dedup_first [simp]: "set (dedup_first xs) = set xs"
  by (induction xs) auto

lemma distinct_dedup_first [simp]: "distinct (dedup_first xs)"
  by (induction xs) auto

section \<open>Observations\<close>

record telemetry_event =
  te_telemetry_id :: string
  te_name :: telemetry_name
  te_kind :: telemetry_kind
  te_created_timestamp :: pyfloat
  te_run_id :: string
  te_market_timestamp :: "pyfloat option"
  te_symbol :: "string option"
  te_event_id :: "string option"
  te_signal_id :: "string option"
  te_event_type :: "string option"
  te_family :: "string option"
  te_direction :: "string option"
  te_priority :: "string option"
  te_host_action :: "string option"
  te_intelligence_status :: "string option"
  te_decision_reason :: "decision_reason option"
  te_fallback_reason :: "string option"
  te_suppression_reason :: "suppression_reason option"
  te_latency_s :: "pyfloat option"
  te_latency_stage :: "latency_stage option"
  te_token_in :: "int option"
  te_token_out :: "int option"

definition kind_for :: "telemetry_name \<Rightarrow> telemetry_kind" where
  "kind_for name =
     (if name \<in> {EVENT_GENERATED, EVENT_DEDUPED, EVENT_CLUSTERED, SIGNAL_EPISODE_CREATED, SIGNAL_ESCALATED,
                 ALERT_CANDIDATE, ALERT_SUPPRESSED} then PIPELINE
      else if name \<in> {ALERT_PRESENTED, SIGNAL_OPENED, ALERT_BADGE_RESET, ALERT_DISMISSED, SIGNAL_MUTED} then HOST
      else INTELLIGENCE)"

definition event_id_names :: "telemetry_name list" where
  "event_id_names = [EVENT_GENERATED, EVENT_DEDUPED, EVENT_CLUSTERED]"

definition signal_symbol_names :: "telemetry_name list" where
  "signal_symbol_names = [SIGNAL_EPISODE_CREATED, SIGNAL_ESCALATED, ALERT_CANDIDATE, ALERT_SUPPRESSED]"

definition host_signal_names :: "telemetry_name list" where
  "host_signal_names = [ALERT_PRESENTED, SIGNAL_OPENED, ALERT_DISMISSED, SIGNAL_MUTED]"

definition intel_names :: "telemetry_name list" where
  "intel_names =
     [INTELLIGENCE_ROUTED, INTELLIGENCE_SKIPPED, INTELLIGENCE_SUCCEEDED, INTELLIGENCE_FALLBACK,
      INTELLIGENCE_TOKEN_USAGE, INTELLIGENCE_LATENCY]"

text \<open>Python's truth of an optional string: absent and empty are false.\<close>

definition falsy :: "string option \<Rightarrow> bool" where
  "falsy x \<longleftrightarrow> x = None \<or> x = Some []"

definition validate_correlations :: "telemetry_event \<Rightarrow> unit res" where
  "validate_correlations e =
     (let name = te_name e; value = telemetry_name_value name in
      all_checks
       [fails_if (name \<in> set event_id_names \<and> (falsy (te_event_id e) \<or> falsy (te_symbol e)))
          (value @ '' requires event_id and symbol''),
        fails_if (name \<in> set signal_symbol_names \<and> (falsy (te_signal_id e) \<or> falsy (te_symbol e)))
          (value @ '' requires signal_id and symbol''),
        fails_if (name \<in> set host_signal_names \<and> falsy (te_signal_id e)) (value @ '' requires signal_id''),
        fails_if (name \<in> set intel_names \<and> falsy (te_signal_id e)) (value @ '' requires signal_id''),
        fails_if (name = ALERT_SUPPRESSED \<and> te_suppression_reason e = None)
          ''alert_suppressed requires suppression_reason'',
        fails_if (name = INTELLIGENCE_SKIPPED \<and> te_decision_reason e = None)
          ''intelligence_skipped requires decision_reason'',
        fails_if (name = INTELLIGENCE_SKIPPED \<and> te_fallback_reason e \<noteq> None)
          ''intelligence_skipped must not set fallback_reason'',
        fails_if (name = INTELLIGENCE_FALLBACK \<and> falsy (te_fallback_reason e))
          ''intelligence_fallback requires fallback_reason'',
        fails_if (name = INTELLIGENCE_FALLBACK \<and> te_decision_reason e \<noteq> None)
          ''intelligence_fallback must not set decision_reason'',
        fails_if (name = INTELLIGENCE_LATENCY \<and> (te_latency_s e = None \<or> te_latency_stage e = None))
          ''intelligence_latency requires latency_s and latency_stage'',
        fails_if (name = INTELLIGENCE_TOKEN_USAGE \<and> te_token_in e = None \<and> te_token_out e = None)
          ''intelligence_token_usage requires provider token usage''])"

definition post_init :: "telemetry_event \<Rightarrow> telemetry_event res" where
  "post_init e =
     res_bind (all_checks
       [fails_if (te_kind e \<noteq> kind_for (te_name e))
          (telemetry_name_value (te_name e) @ '' must have kind='' @ telemetry_kind_value (kind_for (te_name e))),
        require_text (te_telemetry_id e) ''telemetry_id'',
        require_text (te_run_id e) ''run_id'',
        require_finite (te_created_timestamp e) ''created_timestamp'',
        when_some (te_market_timestamp e) (\<lambda>t. require_finite t ''market_timestamp''),
        when_some (te_latency_s e) (\<lambda>l. require_finite l ''latency_s''),
        when_some (te_latency_s e) (\<lambda>l. require_non_negative l ''latency_s''),
        when_some (te_token_in e) (\<lambda>t. require_non_negative (Fin (of_int t)) ''token_in''),
        when_some (te_token_out e) (\<lambda>t. require_non_negative (Fin (of_int t)) ''token_out''),
        when_some (te_fallback_reason e) (\<lambda>r. require_text r ''fallback_reason''),
        validate_correlations e]) (\<lambda>_. Inr e)"

definition opt_str :: "string option \<Rightarrow> pyval" where
  "opt_str x = (case x of None \<Rightarrow> PyNone | Some s \<Rightarrow> PyStr s)"

definition opt_float :: "pyfloat option \<Rightarrow> pyval" where
  "opt_float x = (case x of None \<Rightarrow> PyNone | Some v \<Rightarrow> PyFloat v)"

definition opt_int :: "int option \<Rightarrow> pyval" where
  "opt_int x = (case x of None \<Rightarrow> PyNone | Some v \<Rightarrow> PyInt v)"

definition event_to_record :: "telemetry_event \<Rightarrow> payload res" where
  "event_to_record e =
     project_allowlist
       [(''telemetry_id'', PyStr (te_telemetry_id e)),
        (''name'', PyStr (telemetry_name_value (te_name e))),
        (''kind'', PyStr (telemetry_kind_value (te_kind e))),
        (''created_timestamp'', PyFloat (te_created_timestamp e)),
        (''run_id'', PyStr (te_run_id e)),
        (''market_timestamp'', opt_float (te_market_timestamp e)),
        (''symbol'', opt_str (te_symbol e)),
        (''event_id'', opt_str (te_event_id e)),
        (''signal_id'', opt_str (te_signal_id e)),
        (''event_type'', opt_str (te_event_type e)),
        (''family'', opt_str (te_family e)),
        (''direction'', opt_str (te_direction e)),
        (''priority'', opt_str (te_priority e)),
        (''host_action'', opt_str (te_host_action e)),
        (''intelligence_status'', opt_str (te_intelligence_status e)),
        (''decision_reason'', opt_str (map_option decision_reason_value (te_decision_reason e))),
        (''fallback_reason'', opt_str (te_fallback_reason e)),
        (''suppression_reason'', opt_str (map_option suppression_reason_value (te_suppression_reason e))),
        (''latency_s'', opt_float (te_latency_s e)),
        (''latency_stage'', opt_str (map_option latency_stage_value (te_latency_stage e))),
        (''token_in'', opt_int (te_token_in e)),
        (''token_out'', opt_int (te_token_out e))]
       TELEMETRY_ALLOWLIST"

section \<open>Feedback and tuning identities\<close>

record user_feedback =
  uf_feedback_id :: string
  uf_created_timestamp :: pyfloat
  uf_run_id :: string
  uf_label :: feedback_label
  uf_symbol :: "string option"
  uf_event_id :: "string option"
  uf_signal_id :: "string option"
  uf_telemetry_id :: "string option"

definition feedback_post_init :: "user_feedback \<Rightarrow> user_feedback res" where
  "feedback_post_init f =
     res_bind (all_checks
       [require_text (uf_feedback_id f) ''feedback_id'',
        require_text (uf_run_id f) ''run_id'',
        require_finite (uf_created_timestamp f) ''created_timestamp'',
        fails_if (case uf_signal_id f of None \<Rightarrow> True | Some s \<Rightarrow> blank s) ''signal_id must be non-empty''])
       (\<lambda>_. Inr f)"

definition feedback_to_record :: "user_feedback \<Rightarrow> payload res" where
  "feedback_to_record f =
     project_allowlist
       [(''feedback_id'', PyStr (uf_feedback_id f)),
        (''created_timestamp'', PyFloat (uf_created_timestamp f)),
        (''run_id'', PyStr (uf_run_id f)),
        (''label'', PyStr (feedback_label_value (uf_label f))),
        (''symbol'', opt_str (uf_symbol f)),
        (''event_id'', opt_str (uf_event_id f)),
        (''signal_id'', opt_str (uf_signal_id f)),
        (''telemetry_id'', opt_str (uf_telemetry_id f))]
       FEEDBACK_ALLOWLIST"

record tuning_snapshot =
  ts_snapshot_id :: string
  ts_created_timestamp :: pyfloat
  ts_source :: tuning_source
  ts_config_version :: string

definition tuning_post_init :: "tuning_snapshot \<Rightarrow> tuning_snapshot res" where
  "tuning_post_init t =
     res_bind (all_checks
       [require_text (ts_snapshot_id t) ''snapshot_id'',
        require_text (ts_config_version t) ''config_version'',
        require_finite (ts_created_timestamp t) ''created_timestamp'']) (\<lambda>_. Inr t)"

definition tuning_to_record :: "tuning_snapshot \<Rightarrow> payload res" where
  "tuning_to_record t =
     project_allowlist
       [(''snapshot_id'', PyStr (ts_snapshot_id t)),
        (''created_timestamp'', PyFloat (ts_created_timestamp t)),
        (''source'', PyStr (tuning_source_value (ts_source t))),
        (''config_version'', PyStr (ts_config_version t))]
       TUNING_ALLOWLIST"

section \<open>Collectors and the runtime\<close>

text \<open>
  A collector is a state with a step that may raise after any change to it. The runtime wraps
  every collector in \<open>FailOpenTelemetryCollector\<close> and draws its identifiers from a stream of
  its own, so that its draws leave the others' untouched.
\<close>

type_synonym 'c collect = "'c \<Rightarrow> telemetry_event \<Rightarrow> 'c \<times> unit res"

definition noop_record :: "'c collect" where
  "noop_record c e = (c, Inr ())"

definition in_memory_record :: "telemetry_event list collect" where
  "in_memory_record events e = (events @ [e], Inr ())"

definition sink_record :: "('s \<Rightarrow> payload \<Rightarrow> 's \<times> unit res) \<Rightarrow> 's collect" where
  "sink_record write s e =
     (case event_to_record e of Inl x \<Rightarrow> (s, Inl x) | Inr record \<Rightarrow> write s record)"

definition fail_open_record :: "'c collect \<Rightarrow> 'c collect" where
  "fail_open_record inner c e = (case inner c e of (c', _) \<Rightarrow> (c', Inr ()))"

record 'c telemetry_runtime =
  rt_run_id :: string
  rt_collector :: 'c
  rt_clustered :: "string list"
  rt_draws :: nat

definition new_runtime :: "uuid_source \<Rightarrow> string option \<Rightarrow> 'c \<Rightarrow> 'c telemetry_runtime" where
  "new_runtime uuid run_id collector =
     (case run_id of
        Some r \<Rightarrow>
          if \<not> blank r then \<lparr>rt_run_id = r, rt_collector = collector, rt_clustered = [], rt_draws = 0\<rparr>
          else \<lparr>rt_run_id = uuid 0, rt_collector = collector, rt_clustered = [], rt_draws = 1\<rparr>
      | None \<Rightarrow> \<lparr>rt_run_id = uuid 0, rt_collector = collector, rt_clustered = [], rt_draws = 1\<rparr>)"

text \<open>The keyword arguments of \<open>emit\<close>, absent ones \<open>None\<close>.\<close>

definition no_fields :: telemetry_event where
  "no_fields =
     \<lparr>te_telemetry_id = [], te_name = EVENT_GENERATED, te_kind = PIPELINE, te_created_timestamp = Fin 0,
      te_run_id = [], te_market_timestamp = None, te_symbol = None, te_event_id = None,
      te_signal_id = None, te_event_type = None, te_family = None, te_direction = None,
      te_priority = None, te_host_action = None, te_intelligence_status = None,
      te_decision_reason = None, te_fallback_reason = None, te_suppression_reason = None,
      te_latency_s = None, te_latency_stage = None, te_token_in = None, te_token_out = None\<rparr>"

definition telemetry_emit ::
  "uuid_source \<Rightarrow> fake_clock \<Rightarrow> 'c collect \<Rightarrow> 'c telemetry_runtime \<Rightarrow> telemetry_name \<Rightarrow> pyfloat option
    \<Rightarrow> telemetry_event \<Rightarrow> 'c telemetry_runtime" where
  "telemetry_emit uuid clock collect rt name created given =
     (let rt' = rt\<lparr>rt_draws := Suc (rt_draws rt)\<rparr>;
          event = given\<lparr>te_telemetry_id := uuid (rt_draws rt),
                         te_name := name,
                         te_kind := kind_for name,
                         te_created_timestamp := (case created of None \<Rightarrow> Fin (fc_wall clock) | Some t \<Rightarrow> t),
                         te_run_id := rt_run_id rt\<rparr>
      in case post_init event of
           Inl _ \<Rightarrow> rt'
         | Inr e \<Rightarrow> rt'\<lparr>rt_collector := fst (fail_open_record collect (rt_collector rt) e)\<rparr>)"

definition record_feedback ::
  "uuid_source \<Rightarrow> ('f \<Rightarrow> user_feedback \<Rightarrow> 'f \<times> unit res) \<Rightarrow> 'c telemetry_runtime \<Rightarrow> 'f
    \<Rightarrow> string \<Rightarrow> feedback_label \<Rightarrow> pyfloat \<Rightarrow> user_feedback res \<times> 'c telemetry_runtime \<times> 'f" where
  "record_feedback uuid collect rt f signal_id label created =
     (let rt' = rt\<lparr>rt_draws := Suc (rt_draws rt)\<rparr>
      in case feedback_post_init
           \<lparr>uf_feedback_id = uuid (rt_draws rt), uf_created_timestamp = created, uf_run_id = rt_run_id rt,
            uf_label = label, uf_symbol = None, uf_event_id = None, uf_signal_id = Some signal_id,
            uf_telemetry_id = None\<rparr> of
           Inl x \<Rightarrow> (Inl x, rt', f)
         | Inr item \<Rightarrow>
             (case collect f item of
                (f', Inl x) \<Rightarrow> (Inl x, rt', f')
              | (f', Inr _) \<Rightarrow> (Inr item, rt', f')))"

section \<open>Host commands\<close>

text \<open>
  The parsers return a fact or an error message; \<open>float()\<close> of an oversized integer raises out of
  them. The sorted key lists inside two of the messages are kept as data.
\<close>

datatype command_error =
    DeniedKeys "string list"
  | UnknownKeys "string list"
  | BadCommand string

type_synonym 'a parsed = "(command_error + 'a) res"

definition check_keys :: "payload \<Rightarrow> string list \<Rightarrow> command_error option" where
  "check_keys command allowed =
     (let extra = sort (remdups (filter (\<lambda>k. k \<notin> set allowed) (map fst command)));
          denied = filter (\<lambda>k. k \<in> set TELEMETRY_DENYLIST) extra
      in if denied \<noteq> [] then Some (DeniedKeys denied)
         else if extra \<noteq> [] then Some (UnknownKeys extra)
         else None)"

text \<open>The common timestamp check: a number, no boolean, finite after \<open>float()\<close>.\<close>

fun finite_number :: "pyval \<Rightarrow> (pyfloat option) res" where
  "finite_number (PyInt i) =
     (if \<bar>i\<bar> < float_max_int then Inr (Some (Fin (of_int i))) else Inl OverflowError)"
| "finite_number (PyFloat x) = Inr (if finite_float x then Some x else None)"
| "finite_number _ = Inr None"

definition host_interaction_keys :: "string list" where
  "host_interaction_keys =
     [''protocol_version'', ''type'', ''request_id'', ''action'', ''signal_id'', ''created_timestamp'']"

definition HOST_INTERACTION_ACTIONS :: "(string \<times> telemetry_name) list" where
  "HOST_INTERACTION_ACTIONS =
     [(''alert_presented'', ALERT_PRESENTED),
      (''alert_badge_reset'', ALERT_BADGE_RESET),
      (''signal_opened'', SIGNAL_OPENED),
      (''alert_dismissed'', ALERT_DISMISSED),
      (''signal_muted'', SIGNAL_MUTED)]"

definition signal_required :: "telemetry_name list" where
  "signal_required = [ALERT_PRESENTED, SIGNAL_OPENED, ALERT_DISMISSED, SIGNAL_MUTED]"

definition host_action :: "telemetry_name \<Rightarrow> string" where
  "host_action name =
     (if name = ALERT_PRESENTED then ''presented''
      else if name = ALERT_BADGE_RESET then ''reset_unread''
      else if name = SIGNAL_OPENED then ''opened''
      else if name = ALERT_DISMISSED then ''dismissed''
      else ''muted'')"

record host_interaction_fact =
  hi_name :: telemetry_name
  hi_created_timestamp :: "pyfloat option"
  hi_signal_id :: "string option"
  hi_host_action :: string

definition parse_host_interaction :: "payload \<Rightarrow> host_interaction_fact parsed" where
  "parse_host_interaction command =
     (case check_keys command host_interaction_keys of
        Some err \<Rightarrow> Inr (Inl err)
      | None \<Rightarrow>
          (case map_of command ''action'' of
             Some (PyStr action) \<Rightarrow>
               (case map_of HOST_INTERACTION_ACTIONS action of
                  None \<Rightarrow> Inr (Inl (BadCommand ''action is invalid''))
                | Some name \<Rightarrow>
                    let raw = (case map_of command ''created_timestamp'' of None \<Rightarrow> PyNone | Some v \<Rightarrow> v)
                    in res_bind (if raw = PyNone then Inr (Some None)
                                 else res_bind (finite_number raw) (\<lambda>x. Inr (map_option Some x))) (\<lambda>created.
                      case created of
                        None \<Rightarrow> Inr (Inl (BadCommand ''created_timestamp must be a finite number''))
                      | Some created \<Rightarrow>
                          let sid = (case map_of command ''signal_id'' of None \<Rightarrow> PyNone | Some v \<Rightarrow> v);
                              text = (case sid of PyStr s \<Rightarrow> if blank s then None else Some s | _ \<Rightarrow> None)
                          in if sid \<noteq> PyNone \<and> text = None then
                               Inr (Inl (BadCommand ''signal_id must be a non-empty string when present''))
                             else if name \<in> set signal_required \<and> text = None then
                               Inr (Inl (BadCommand (action @ '' requires signal_id'')))
                             else Inr (Inr
                               \<lparr>hi_name = name,
                                hi_created_timestamp = created,
                                hi_signal_id = (if name = ALERT_BADGE_RESET then None else text),
                                hi_host_action = host_action name\<rparr>)))
           | _ \<Rightarrow> Inr (Inl (BadCommand ''action is invalid''))))"

definition user_feedback_keys :: "string list" where
  "user_feedback_keys =
     [''protocol_version'', ''type'', ''request_id'', ''signal_id'', ''feedback_type'', ''created_timestamp'']"

definition feedback_label_of :: "string \<Rightarrow> feedback_label option" where
  "feedback_label_of s =
     find (\<lambda>l. feedback_label_value l = s) [USEFUL, NOT_USEFUL, TOO_NOISY, TOO_LATE]"

record user_feedback_fact =
  ff_signal_id :: string
  ff_label :: feedback_label
  ff_created_timestamp :: pyfloat

definition parse_user_feedback :: "payload \<Rightarrow> user_feedback_fact parsed" where
  "parse_user_feedback command =
     (case check_keys command user_feedback_keys of
        Some err \<Rightarrow> Inr (Inl err)
      | None \<Rightarrow>
          (case map_of command ''feedback_type'' of
             Some (PyStr raw_type) \<Rightarrow>
               (case feedback_label_of raw_type of
                  None \<Rightarrow> Inr (Inl (BadCommand ''feedback_type is invalid''))
                | Some label \<Rightarrow>
                    (case map_of command ''signal_id'' of
                       Some (PyStr signal_id) \<Rightarrow>
                         if blank signal_id then Inr (Inl (BadCommand ''signal_id is required''))
                         else
                           (case map_of command ''created_timestamp'' of
                              None \<Rightarrow> Inr (Inl (BadCommand ''created_timestamp is required''))
                            | Some PyNone \<Rightarrow> Inr (Inl (BadCommand ''created_timestamp is required''))
                            | Some v \<Rightarrow>
                                res_bind (finite_number v) (\<lambda>x.
                                  case x of
                                    None \<Rightarrow> Inr (Inl (BadCommand ''created_timestamp must be a finite number''))
                                  | Some created \<Rightarrow> Inr (Inr
                                      \<lparr>ff_signal_id = signal_id, ff_label = label,
                                       ff_created_timestamp = created\<rparr>)))
                     | _ \<Rightarrow> Inr (Inl (BadCommand ''signal_id is required''))))
           | _ \<Rightarrow> Inr (Inl (BadCommand ''feedback_type is invalid''))))"

section \<open>Properties\<close>

lemma fails_if_Inr [simp]: "fails_if b m = Inr () \<longleftrightarrow> \<not> b"
  by (simp add: fails_if_def)

lemma require_text_Inr [simp]: "require_text v f = Inr () \<longleftrightarrow> \<not> blank v"
  by (simp add: require_text_def)

lemma require_finite_Inr [simp]: "require_finite v f = Inr () \<longleftrightarrow> finite_float v"
  by (simp add: require_finite_def)

lemma require_non_negative_Inr [simp]: "require_non_negative v f = Inr () \<longleftrightarrow> \<not> negative_float v"
  by (simp add: require_non_negative_def)

lemma when_some_Inr [simp]: "when_some x check = Inr () \<longleftrightarrow> (\<forall>v. x = Some v \<longrightarrow> check v = Inr ())"
  by (simp add: when_some_def split: option.split)

text \<open>No allowed key is denied, so records of valid objects project onto themselves.\<close>

lemma allowlists_disjoint:
  "list_all (\<lambda>k. k \<notin> set TELEMETRY_DENYLIST) (TELEMETRY_ALLOWLIST @ FEEDBACK_ALLOWLIST @ TUNING_ALLOWLIST)"
  by code_simp

lemma project_allowlist_keys:
  assumes "project_allowlist p allowed = Inr q"
  shows "set (map fst q) \<subseteq> set allowed" "\<forall>k \<in> set (map fst p). k \<notin> set TELEMETRY_DENYLIST"
    "set q \<subseteq> set p"
  using assms by (auto simp: project_allowlist_def reject_denied_def list_ex_iff split: if_splits)

lemma telemetry_name_value_inject [simp]:
  "telemetry_name_value a = telemetry_name_value b \<longleftrightarrow> a = b"
  by (cases a; cases b) simp_all

lemma telemetry_kind_value_inject [simp]:
  "telemetry_kind_value a = telemetry_kind_value b \<longleftrightarrow> a = b"
  by (cases a; cases b) simp_all

lemma reason_value_inject [simp]:
  "decision_reason_value d = decision_reason_value d' \<longleftrightarrow> d = d'"
  "suppression_reason_value r = suppression_reason_value r' \<longleftrightarrow> r = r'"
  "latency_stage_value l = latency_stage_value l' \<longleftrightarrow> l = l'"
  subgoal by (cases d; cases d') simp_all
  subgoal by (cases r; cases r') simp_all
  subgoal by (cases l; cases l') simp_all
  done

lemma opt_value_inject [simp]:
  "opt_str a = opt_str b \<longleftrightarrow> a = b" "opt_float x = opt_float y \<longleftrightarrow> x = y" "opt_int i = opt_int j \<longleftrightarrow> i = j"
  by (auto simp: opt_str_def opt_float_def opt_int_def split: option.splits)

lemma map_value_inject [simp]:
  "map_option decision_reason_value d = map_option decision_reason_value d' \<longleftrightarrow> d = d'"
  "map_option suppression_reason_value r = map_option suppression_reason_value r' \<longleftrightarrow> r = r'"
  "map_option latency_stage_value l = map_option latency_stage_value l' \<longleftrightarrow> l = l'"
  by (auto simp: map_option_case split: option.splits)

lemma event_to_record_total:
  "\<exists>r. event_to_record e = Inr r \<and> map fst r = TELEMETRY_ALLOWLIST"
  unfolding event_to_record_def project_allowlist_def reject_denied_def
  by (simp add: TELEMETRY_ALLOWLIST_def TELEMETRY_DENYLIST_def)

text \<open>The stored record of an observation is total and lossless: it has exactly the allowed keys
  in their fixed order, none of them on the deny list, and two observations with the same record are
  equal field by field.\<close>

theorem event_to_record_lossless:
  "(\<exists>r. event_to_record e = Inr r \<and> map fst r = TELEMETRY_ALLOWLIST
        \<and> set (map fst r) \<inter> set TELEMETRY_DENYLIST = {})
   \<and> (event_to_record e = event_to_record e' \<longleftrightarrow> e = e')"
proof
  obtain r where r: "event_to_record e = Inr r" "map fst r = TELEMETRY_ALLOWLIST"
    using event_to_record_total by blast
  moreover have "set TELEMETRY_ALLOWLIST \<inter> set TELEMETRY_DENYLIST = {}" by code_simp
  ultimately show "\<exists>r. event_to_record e = Inr r \<and> map fst r = TELEMETRY_ALLOWLIST
        \<and> set (map fst r) \<inter> set TELEMETRY_DENYLIST = {}" by metis
  show "event_to_record e = event_to_record e' \<longleftrightarrow> e = e'"
    unfolding event_to_record_def project_allowlist_def reject_denied_def
    by (cases e; cases e') (simp add: TELEMETRY_ALLOWLIST_def TELEMETRY_DENYLIST_def)
qed

text \<open>The tracker over a run: the reports of each call.\<close>

fun cluster_reports :: "string list \<Rightarrow> string list list \<Rightarrow> string list list" where
  "cluster_reports clustered [] = []"
| "cluster_reports clustered (ids # calls) =
     (let (fresh, clustered') = newly_clustered clustered ids in fresh # cluster_reports clustered' calls)"

lemma newly_clustered_ok:
  assumes "newly_clustered clustered ids = (fresh, clustered')"
  shows "distinct fresh" "set fresh = (if card (set ids) < 2 then {} else set ids - set clustered)"
    "set clustered' = set clustered \<union> set fresh"
proof -
  have "length (dedup_first ids) = card (set ids)"
    using distinct_card [OF distinct_dedup_first [of ids]] by simp
  then show "distinct fresh" "set fresh = (if card (set ids) < 2 then {} else set ids - set clustered)"
    "set clustered' = set clustered \<union> set fresh"
    using assms by (auto simp: newly_clustered_def Let_def split: if_splits)
qed

text \<open>Over any sequence of episodes the cluster tracker reports an event identifier at most once,
  and in the end has reported exactly those identifiers that took part in an episode with two or more
  distinct events.\<close>

theorem cluster_reports_once:
  "distinct (concat (cluster_reports [] calls))
   \<and> set (concat (cluster_reports [] calls)) = \<Union> {set ids | ids. ids \<in> set calls \<and> 2 \<le> card (set ids)}"
proof -
  have all: "distinct (concat (cluster_reports seen calls))
      \<and> set (concat (cluster_reports seen calls))
        = \<Union> {set ids | ids. ids \<in> set calls \<and> 2 \<le> card (set ids)} - set seen" for seen
  proof (induction calls arbitrary: seen)
    case (Cons ids calls)
    obtain fresh seen' where n: "newly_clustered seen ids = (fresh, seen')" by (rule prod.exhaust)
    have U: "\<Union> {set i | i. i \<in> set (ids # calls) \<and> 2 \<le> card (set i)} =
        (if 2 \<le> card (set ids) then set ids else {}) \<union> \<Union> {set i | i. i \<in> set calls \<and> 2 \<le> card (set i)}"
      by auto
    let ?A = "if 2 \<le> card (set ids) then set ids else {}"
    let ?W = "\<Union> {set i | i. i \<in> set calls \<and> 2 \<le> card (set i)}"
    let ?rest = "concat (cluster_reports seen' calls)"
    have fresh: "distinct fresh" "set fresh = ?A - set seen" "set seen' = set seen \<union> set fresh"
      using newly_clustered_ok [OF n] by auto
    have ih: "distinct ?rest" "set ?rest = ?W - set seen'" using Cons.IH [of seen'] by blast+
    have "set fresh \<inter> set ?rest = {}" "set fresh \<union> set ?rest = (?A \<union> ?W) - set seen"
      unfolding ih(2) fresh(2,3) by blast+
    then have "distinct (fresh @ ?rest)" "set (fresh @ ?rest) = (?A \<union> ?W) - set seen"
      unfolding distinct_append set_append using fresh(1) ih(1) by blast+
    moreover have "concat (cluster_reports seen (ids # calls)) = fresh @ ?rest" by (simp add: n)
    ultimately show ?case unfolding U by simp
  qed simp
  show ?thesis using all [of "[]"] by (simp only: list.set Diff_empty)
qed

section \<open>What a run records\<close>

text \<open>The requirements on an observation, by its name, as the documentation of the contract lists them: a text that is
  required is present and not empty.\<close>

definition named :: "string option \<Rightarrow> bool" where
  "named x \<longleftrightarrow> (\<exists>s. x = Some s \<and> s \<noteq> [])"

fun correlated :: "telemetry_name \<Rightarrow> telemetry_event \<Rightarrow> bool" where
  "correlated EVENT_GENERATED e = (named (te_event_id e) \<and> named (te_symbol e))"
| "correlated EVENT_DEDUPED e = (named (te_event_id e) \<and> named (te_symbol e))"
| "correlated EVENT_CLUSTERED e = (named (te_event_id e) \<and> named (te_symbol e))"
| "correlated SIGNAL_EPISODE_CREATED e = (named (te_signal_id e) \<and> named (te_symbol e))"
| "correlated SIGNAL_ESCALATED e = (named (te_signal_id e) \<and> named (te_symbol e))"
| "correlated ALERT_CANDIDATE e = (named (te_signal_id e) \<and> named (te_symbol e))"
| "correlated ALERT_SUPPRESSED e =
     (named (te_signal_id e) \<and> named (te_symbol e) \<and> te_suppression_reason e \<noteq> None)"
| "correlated ALERT_BADGE_RESET e = True"
| "correlated INTELLIGENCE_SKIPPED e =
     (named (te_signal_id e) \<and> te_decision_reason e \<noteq> None \<and> te_fallback_reason e = None)"
| "correlated INTELLIGENCE_FALLBACK e =
     (named (te_signal_id e) \<and> named (te_fallback_reason e) \<and> te_decision_reason e = None)"
| "correlated INTELLIGENCE_LATENCY e =
     (named (te_signal_id e) \<and> te_latency_s e \<noteq> None \<and> te_latency_stage e \<noteq> None)"
| "correlated INTELLIGENCE_TOKEN_USAGE e =
     (named (te_signal_id e) \<and> (te_token_in e \<noteq> None \<or> te_token_out e \<noteq> None))"
| "correlated _ e = named (te_signal_id e)"

definition well_timed :: "pyfloat option \<Rightarrow> bool" where
  "well_timed t \<longleftrightarrow> (case t of None \<Rightarrow> True | Some x \<Rightarrow> finite_float x)"

definition counted_tokens :: "int option \<Rightarrow> bool" where
  "counted_tokens t \<longleftrightarrow> (case t of None \<Rightarrow> True | Some n \<Rightarrow> 0 \<le> n)"

definition recordable :: "telemetry_event \<Rightarrow> bool" where
  "recordable e \<longleftrightarrow>
     te_kind e = kind_for (te_name e) \<and> \<not> blank (te_telemetry_id e) \<and> \<not> blank (te_run_id e)
     \<and> well_timed (Some (te_created_timestamp e)) \<and> well_timed (te_market_timestamp e)
     \<and> (case te_latency_s e of None \<Rightarrow> True | Some (Fin x) \<Rightarrow> 0 \<le> x | Some _ \<Rightarrow> False)
     \<and> counted_tokens (te_token_in e) \<and> counted_tokens (te_token_out e)
     \<and> (case te_fallback_reason e of None \<Rightarrow> True | Some r \<Rightarrow> \<not> blank r)
     \<and> correlated (te_name e) e"

lemma named_iff: "named x \<longleftrightarrow> \<not> falsy x"
  by (cases x) (auto simp: named_def falsy_def)

lemma all_checks_Cons: "all_checks (c # cs) = Inr () \<longleftrightarrow> c = Inr () \<and> all_checks cs = Inr ()"
  by (cases c) auto

lemmas name_lists = event_id_names_def signal_symbol_names_def host_signal_names_def intel_names_def

lemma validate_correlations_iff: "validate_correlations e = Inr () \<longleftrightarrow> correlated (te_name e) e"
  unfolding validate_correlations_def Let_def all_checks_Cons fails_if_Inr all_checks.simps(1)
  by (cases "te_name e"; simp add: name_lists named_iff; blast?)

lemma post_init_iff: "post_init e = Inr e' \<longleftrightarrow> e' = e \<and> recordable e"
proof -
  have latency: "(\<forall>l. te_latency_s e = Some l \<longrightarrow> finite_float l) \<and> (\<forall>l. te_latency_s e = Some l \<longrightarrow> \<not> negative_float l)
      \<longleftrightarrow> (case te_latency_s e of None \<Rightarrow> True | Some (Fin x) \<Rightarrow> 0 \<le> x | Some _ \<Rightarrow> False)"
    by (cases "te_latency_s e"; cases "the (te_latency_s e)") auto
  have "post_init e = Inr e' \<longleftrightarrow> e' = e \<and> te_kind e = kind_for (te_name e) \<and> \<not> blank (te_telemetry_id e)
      \<and> \<not> blank (te_run_id e) \<and> finite_float (te_created_timestamp e)
      \<and> (\<forall>t. te_market_timestamp e = Some t \<longrightarrow> finite_float t)
      \<and> ((\<forall>l. te_latency_s e = Some l \<longrightarrow> finite_float l) \<and> (\<forall>l. te_latency_s e = Some l \<longrightarrow> \<not> negative_float l))
      \<and> (\<forall>n. te_token_in e = Some n \<longrightarrow> 0 \<le> n) \<and> (\<forall>n. te_token_out e = Some n \<longrightarrow> 0 \<le> n)
      \<and> (\<forall>r. te_fallback_reason e = Some r \<longrightarrow> \<not> blank r) \<and> correlated (te_name e) e"
    unfolding post_init_def res_bind_Inr_iff
    by (auto simp: all_checks_Cons validate_correlations_iff simp del: all_checks.simps(2))
  then show ?thesis
    unfolding latency recordable_def well_timed_def counted_tokens_def by (auto split: option.split)
qed

text \<open>One call of \<open>emit\<close> by the code: the clock at that moment, the name, the timestamp if one is given and the fields.
  The n-th call is stamped with the n-th identifier of the run.\<close>

type_synonym emission = "fake_clock \<times> telemetry_name \<times> pyfloat option \<times> telemetry_event"

fun emit_call :: "uuid_source \<Rightarrow> 'c collect \<Rightarrow> emission \<Rightarrow> 'c telemetry_runtime \<Rightarrow> 'c telemetry_runtime" where
  "emit_call uuid collect (clock, name, created, given) rt = telemetry_emit uuid clock collect rt name created given"

fun stamped :: "uuid_source \<Rightarrow> string \<Rightarrow> nat \<Rightarrow> emission \<Rightarrow> telemetry_event" where
  "stamped uuid run_id n (clock, name, created, given) =
     given\<lparr>te_telemetry_id := uuid n, te_name := name, te_kind := kind_for name,
           te_created_timestamp := (case created of None \<Rightarrow> Fin (fc_wall clock) | Some t \<Rightarrow> t), te_run_id := run_id\<rparr>"

lemma emit_call_records:
  "rt_collector (emit_call uuid collect call rt) =
     fold (\<lambda>e c. fst (collect c e)) (filter recordable [stamped uuid (rt_run_id rt) (rt_draws rt) call]) (rt_collector rt)"
  "rt_run_id (emit_call uuid collect call rt) = rt_run_id rt"
  "rt_draws (emit_call uuid collect call rt) = Suc (rt_draws rt)"
proof -
  obtain clock name created given where call: "call = (clock, name, created, given)" by (metis surj_pair)
  define e where "e = stamped uuid (rt_run_id rt) (rt_draws rt) call"
  have emit: "emit_call uuid collect call rt = (case post_init e of
      Inl _ \<Rightarrow> rt\<lparr>rt_draws := Suc (rt_draws rt)\<rparr>
    | Inr e \<Rightarrow> (rt\<lparr>rt_draws := Suc (rt_draws rt)\<rparr>)\<lparr>rt_collector := fst (fail_open_record collect (rt_collector rt) e)\<rparr>)"
    by (simp add: call e_def telemetry_emit_def Let_def)
  have kept: "fst (fail_open_record collect c e) = fst (collect c e)" for c e
    by (simp add: fail_open_record_def split: prod.split)
  show "rt_collector (emit_call uuid collect call rt) =
      fold (\<lambda>e c. fst (collect c e)) (filter recordable [stamped uuid (rt_run_id rt) (rt_draws rt) call]) (rt_collector rt)"
    unfolding emit e_def [symmetric] using post_init_iff [of e e] post_init_iff [of e]
    by (cases "recordable e"; cases "post_init e") (auto simp: kept)
  show "rt_run_id (emit_call uuid collect call rt) = rt_run_id rt"
    "rt_draws (emit_call uuid collect call rt) = Suc (rt_draws rt)"
    unfolding emit by (cases "post_init e"; simp)+
qed

text \<open>C39: The log is exactly what was emitted and may be recorded. Over any calls of \<open>emit\<close>, at any times and with any
  fields, the collector is handed one observation for each call whose identifiers are not blank, whose times are finite, whose
  latency and token counts are not negative and which has the fields its name calls for, in the order of the calls,
  stamped with the run, the kind of the name, the time and the identifier drawn for that call; every other call is dropped
  and leaves no trace but the draw. A collector that raises changes nothing for the calls after it.\<close>

theorem emitted_log_valid:
  "rt_collector (fold (emit_call uuid collect) calls (new_runtime uuid run_id collector)) =
     (let rt = new_runtime uuid run_id collector
      in fold (\<lambda>e c. fst (collect c e))
           (filter recordable (map2 (stamped uuid (rt_run_id rt)) [rt_draws rt..<rt_draws rt + length calls] calls))
           collector)"
proof -
  have run: "rt_collector (fold (emit_call uuid collect) calls rt) = fold (\<lambda>e c. fst (collect c e))
      (filter recordable (map2 (stamped uuid (rt_run_id rt)) [rt_draws rt..<rt_draws rt + length calls] calls))
      (rt_collector rt)" for rt
  proof (induction calls arbitrary: rt)
    case (Cons call calls)
    have "[rt_draws rt..<rt_draws rt + length (call # calls)]
        = rt_draws rt # [Suc (rt_draws rt)..<Suc (rt_draws rt) + length calls]"
      by (subst upt_conv_Cons) simp_all
    then show ?case using Cons.IH [of "emit_call uuid collect call rt"] by (simp add: emit_call_records)
  qed simp
  have "rt_collector (new_runtime uuid run_id collector) = collector"
    by (simp add: new_runtime_def split: option.split)
  then show ?thesis using run [of "new_runtime uuid run_id collector"] by (simp add: Let_def)
qed

end
