(* ===== verification/Pipeline.thy ===== *)
theory Pipeline
  imports Gates Composer Telemetry
begin

text \<open>
  \<open>signals/pipeline.py\<close>: detect all, deduplicate all, compose episodes, cool down once, with the
  observations it emits on the way. The detector, deduper, composer and cooldown gate are those
  of the other theories; the telemetry runtime is optional, as in the code.
\<close>

section \<open>State and observations\<close>

record pipeline =
  pl_deduper :: deduper
  pl_composer :: composer
  pl_cooldown :: cooldown_gate
  pl_draws :: nat

definition new_pipeline :: pipeline where
  "new_pipeline =
     \<lparr>pl_deduper = Map.empty, pl_composer = new_composer CLUSTER_LOOKBACK_S,
      pl_cooldown = new_cooldown_gate DEFAULT_COOLDOWN_S, pl_draws = 0\<rparr>"

text \<open>The environment of a run: the identifier streams, the clock and the collector.\<close>

record 'c env =
  env_uuid :: uuid_source
  env_telemetry_uuid :: uuid_source
  env_collect :: "'c collect"
  env_rules :: "rule list"

type_synonym 'c telemetry = "'c telemetry_runtime option"

definition emit_opt ::
  "'c env \<Rightarrow> fake_clock \<Rightarrow> 'c telemetry \<Rightarrow> telemetry_name \<Rightarrow> telemetry_event \<Rightarrow> 'c telemetry" where
  "emit_opt env clock tel name given =
     map_option (\<lambda>rt. telemetry_emit (env_telemetry_uuid env) clock (env_collect env) rt name None given) tel"

definition emit_event ::
  "'c env \<Rightarrow> fake_clock \<Rightarrow> telemetry_name \<Rightarrow> market_event \<Rightarrow> 'c telemetry \<Rightarrow> 'c telemetry" where
  "emit_event env clock name event tel =
     emit_opt env clock tel name
       (no_fields\<lparr>te_symbol := Some (ev_symbol event),
                  te_event_id := Some (ev_id event),
                  te_event_type := Some (event_type_value (ev_type event)),
                  te_direction := Some (event_direction_value (ev_direction event)),
                  te_market_timestamp := Some (Fin (ev_market_timestamp event))\<rparr>)"

definition signal_fields :: "signal \<Rightarrow> telemetry_event" where
  "signal_fields s =
     no_fields\<lparr>te_symbol := Some (sg_symbol s),
               te_signal_id := Some (sg_id s),
               te_family := Some (sg_family s),
               te_direction := Some (event_direction_value (sg_direction s)),
               te_priority := Some (signal_priority_value (sg_priority s)),
               te_market_timestamp := Some (Fin (sg_market_timestamp s))\<rparr>"

definition emit_signal ::
  "'c env \<Rightarrow> fake_clock \<Rightarrow> telemetry_name \<Rightarrow> signal \<Rightarrow> 'c telemetry \<Rightarrow> 'c telemetry" where
  "emit_signal env clock name s tel = emit_opt env clock tel name (signal_fields s)"

definition emit_suppressed ::
  "'c env \<Rightarrow> fake_clock \<Rightarrow> signal \<Rightarrow> suppression_reason \<Rightarrow> 'c telemetry \<Rightarrow> 'c telemetry" where
  "emit_suppressed env clock s reason tel =
     emit_opt env clock tel ALERT_SUPPRESSED ((signal_fields s)\<lparr>te_suppression_reason := Some reason\<rparr>)"

definition emit_clustered ::
  "'c env \<Rightarrow> fake_clock \<Rightarrow> signal \<Rightarrow> string \<Rightarrow> 'c telemetry \<Rightarrow> 'c telemetry" where
  "emit_clustered env clock s event_id tel =
     emit_opt env clock tel EVENT_CLUSTERED
       (no_fields\<lparr>te_symbol := Some (sg_symbol s),
                  te_event_id := Some event_id,
                  te_signal_id := Some (sg_id s),
                  te_family := Some (sg_family s),
                  te_direction := Some (event_direction_value (sg_direction s)),
                  te_market_timestamp := Some (Fin (sg_market_timestamp s))\<rparr>)"

section \<open>The stages\<close>

fun dedupe_stage ::
  "'c env \<Rightarrow> fake_clock \<Rightarrow> market_event list \<Rightarrow> deduper \<Rightarrow> 'c telemetry
    \<Rightarrow> market_event list \<times> deduper \<times> 'c telemetry" where
  "dedupe_stage env clock [] d tel = ([], d, tel)"
| "dedupe_stage env clock (event # events) d tel =
     (let tel = emit_event env clock EVENT_GENERATED event tel;
          (kept, d) = dedupe_accept d event
      in case kept of
           Some k \<Rightarrow>
             (let (accepted, rest) = dedupe_stage env clock events d tel in (k # accepted, rest))
         | None \<Rightarrow> dedupe_stage env clock events d (emit_event env clock EVENT_DEDUPED event tel))"

definition prior_priorities :: "composer \<Rightarrow> string \<Rightarrow> string \<rightharpoonup> signal_priority" where
  "prior_priorities c symbol =
     map_of (rev (map (\<lambda>s. (sg_id s, sg_priority s)) (active_signals c symbol)))"

fun observe_episodes ::
  "'c env \<Rightarrow> fake_clock \<Rightarrow> (string \<rightharpoonup> signal_priority) \<Rightarrow> (signal \<times> signal_trace) list \<Rightarrow> string list
    \<Rightarrow> 'c telemetry \<Rightarrow> 'c telemetry" where
  "observe_episodes env clock prior [] seen tel = tel"
| "observe_episodes env clock prior ((s, t) # produced) seen tel =
     (if sg_id s \<in> set seen then observe_episodes env clock prior produced seen tel
      else
        let tel =
              (case prior (sg_id s) of
                 None \<Rightarrow> emit_signal env clock SIGNAL_EPISODE_CREATED s tel
               | Some previous \<Rightarrow>
                   if priority_rank (sg_priority s) > priority_rank previous
                   then emit_signal env clock SIGNAL_ESCALATED s tel else tel);
            tel =
              (case tel of
                 None \<Rightarrow> None
               | Some rt \<Rightarrow>
                   let (fresh, clustered) = newly_clustered (rt_clustered rt) (sg_event_ids s)
                   in fold (emit_clustered env clock s) fresh (Some (rt\<lparr>rt_clustered := clustered\<rparr>)))
        in observe_episodes env clock prior produced (sg_id s # seen) tel)"

fun alert_stage ::
  "'c env \<Rightarrow> fake_clock \<Rightarrow> (signal \<times> signal_trace) list \<Rightarrow> string list \<Rightarrow> cooldown_gate \<Rightarrow> 'c telemetry
    \<Rightarrow> signal list \<times> cooldown_gate \<times> 'c telemetry" where
  "alert_stage env clock [] seen g tel = ([], g, tel)"
| "alert_stage env clock ((s, t) # produced) seen g tel =
     (if sg_id s \<in> set seen
      then alert_stage env clock produced seen g (emit_suppressed env clock s SAME_TICK_DUPLICATE tel)
      else
        let (ok, g) = cooldown_allow g clock (sg_id s) (sg_priority s)
        in if ok then
             (let (alerts, rest) =
                alert_stage env clock produced (sg_id s # seen) g (emit_signal env clock ALERT_CANDIDATE s tel)
              in (s # alerts, rest))
           else alert_stage env clock produced (sg_id s # seen) g (emit_suppressed env clock s COOLDOWN tel))"

definition process ::
  "'c env \<Rightarrow> fake_clock \<Rightarrow> market_features option \<Rightarrow> market_features \<Rightarrow> pipeline \<Rightarrow> 'c telemetry
    \<Rightarrow> (signal_pipeline_result \<times> pipeline \<times> 'c telemetry) res" where
  "process env clock previous current pl tel =
     (let (events, n) = detector_evaluate (env_uuid env) (env_rules env) clock previous current (pl_draws pl);
          (accepted, d, tel) = dedupe_stage env clock events (pl_deduper pl) tel;
          prior = prior_priorities (pl_composer pl) (mf_symbol current)
      in
      res_bind
        (if accepted \<noteq> []
         then consume_batch (env_uuid env) clock accepted current (pl_composer pl) n
         else Inr ([], composer_prune (pl_composer pl) (mf_symbol current) (mf_market_timestamp current), n))
        (\<lambda>(produced, c, n).
      let tel = observe_episodes env clock prior produced [] tel;
          signal_updates = active_signals c (mf_symbol current)
      in
      res_bind (res_map (\<lambda>s. trace_for c (sg_id s)) signal_updates) (\<lambda>traces.
      let (alerts, g, tel) = alert_stage env clock produced [] (pl_cooldown pl) tel
      in Inr
        (\<lparr>pr_accepted_events = accepted,
          pr_signal_updates = signal_updates,
          pr_traces = traces,
          pr_alert_candidates = alerts\<rparr>,
         \<lparr>pl_deduper = d, pl_composer = c, pl_cooldown = g, pl_draws = n\<rparr>,
         tel))))"

section \<open>The pipeline never raises\<close>

definition pl_inv :: "uuid_source \<Rightarrow> pipeline \<Rightarrow> bool" where
  "pl_inv uuid pl \<longleftrightarrow> co_inv uuid (pl_draws pl) (pl_composer pl)"

lemma run_rules_draws: "run_rules uuid rules previous current detected_at n acc = (events, n') \<Longrightarrow>
    (\<And>r e m m'. r \<in> set rules \<Longrightarrow> r uuid previous current detected_at m = (e, m') \<Longrightarrow> m \<le> m') \<Longrightarrow> n \<le> n'"
proof (induction rules arbitrary: n acc)
  case (Cons r rules)
  obtain e m where m: "r uuid previous current detected_at n = (e, m)" by (rule prod.exhaust)
  then have "n \<le> m" using Cons.prems(2) by (meson list.set_intros(1))
  moreover have "m \<le> n'" using Cons.IH [of m "acc @ e"] Cons.prems m by (auto simp: Let_def)
  ultimately show ?case by simp
qed simp

definition counts_up :: "rule list \<Rightarrow> bool" where
  "counts_up rules \<longleftrightarrow> (\<forall>r \<in> set rules. \<forall>uuid p c t m. m \<le> snd (r uuid p c t m))"

lemma default_rules_count_up: "counts_up default_rules"
  unfolding counts_up_def default_rules_def
  using rapid_move.draws volume_spike.draws price_volume.draws day_high.draws day_low.draws vwap_cross.draws
  by (simp, metis le_add1 prod.collapse)

lemma dedupe_stage_accepted:
  "fst (dedupe_stage env clock events d tel) = map (the \<circ> Some) (admitted dedupe_offer d events)"
proof (induction events arbitrary: d tel)
  case (Cons e events)
  obtain k d' where k: "dedupe_accept d e = (k, d')" by (rule prod.exhaust)
  have "k = None \<or> k = Some e"
    using k by (auto simp: dedupe_accept_def Let_def split: option.splits if_splits)
  then show ?case
    using Cons.IH k by (auto simp: Let_def split_beta dedupe_offer_def)
qed simp

lemma alert_stage_distinct:
  "distinct (map sg_id (fst (alert_stage env clock produced seen g tel)))
   \<and> set (map sg_id (fst (alert_stage env clock produced seen g tel))) \<inter> set seen = {}
   \<and> set (fst (alert_stage env clock produced seen g tel)) \<subseteq> fst ` set produced"
proof (induction produced arbitrary: seen g tel)
  case (Cons p produced)
  obtain s t where p: "p = (s, t)" by (rule prod.exhaust)
  obtain ok g' where g': "cooldown_allow g clock (sg_id s) (sg_priority s) = (ok, g')" by (rule prod.exhaust)
  show ?case
  proof (cases "sg_id s \<in> set seen")
    case True
    then show ?thesis using Cons.IH [of seen g] by (auto simp: p)
  next
    case False
    then show ?thesis
      using Cons.IH [of "sg_id s # seen" g'] by (auto simp: p g' Let_def split_beta)
  qed
qed simp

lemma detector_draws:
  "counts_up (env_rules env) \<Longrightarrow>
   detector_evaluate (env_uuid env) (env_rules env) clock previous current n = (events, m) \<Longrightarrow> n \<le> m"
  unfolding detector_evaluate_def counts_up_def by (erule run_rules_draws) (metis snd_conv)

text \<open>Composing or pruning, whichever the tick takes.\<close>

lemma compose_or_prune:
  assumes "co_inv uuid n c" "inj uuid"
  obtains produced c' n' where
    "(if accepted \<noteq> [] then consume_batch uuid clock accepted current c n
      else Inr ([], composer_prune c symbol now_ts, n)) = Inr (produced, c', n')"
    "co_inv uuid n' c'" "n \<le> n'"
proof (cases "accepted = []")
  case True
  then show thesis using that composer_prune_inv [OF assms(1)] by simp
next
  case False
  obtain ps c' n' where "consume_groups uuid clock current (fold group_add accepted []) c n = Inr (ps, c', n')"
    "co_inv uuid n' c'" "n \<le> n'"
    using consume_groups_ok [OF assms groups_nonempty] by blast
  then show thesis using that False by (simp add: consume_batch_def)
qed

lemma active_signal_traced:
  assumes "co_inv uuid n c" "s \<in> set (active_signals c symbol)"
  shows "sg_symbol s = symbol" "\<exists>t. trace_for c (sg_id s) = Inr t \<and> trace_of s t"
proof -
  have wf: "dict_wf (co_active c)" using assms(1) by (simp add: co_inv_def)
  obtain lineage direction where "((symbol, lineage, direction), s) \<in> set (co_active c)"
    using assms(2) by (auto simp: active_signals_def)
  then have "signal_ok uuid n c (symbol, lineage, direction) s"
    using co_invD(1) [OF assms(1)] wf by (simp add: dict_wf_in_set)
  then show "sg_symbol s = symbol" "\<exists>t. trace_for c (sg_id s) = Inr t \<and> trace_of s t"
    by (auto simp: signal_ok_def trace_for_def)
qed

lemma active_signals_traced:
  assumes "co_inv uuid n c"
  shows "\<exists>traces. res_map (\<lambda>s. trace_for c (sg_id s)) (active_signals c symbol) = Inr traces
    \<and> list_all2 trace_of (active_signals c symbol) traces"
  by (rule res_map_total) (intro ballI active_signal_traced(2) [OF assms])

text \<open>One tick, taken apart: what each stage was given and what it returned.\<close>

lemma process_run:
  assumes "pl_inv (env_uuid env) pl" "inj (env_uuid env)" "counts_up (env_rules env)"
  obtains events accepted produced c n tel1 alerts g tel2 traces where
    "process env clock previous current pl tel = Inr
       (\<lparr>pr_accepted_events = accepted, pr_signal_updates = active_signals c (mf_symbol current),
         pr_traces = traces, pr_alert_candidates = alerts\<rparr>,
        \<lparr>pl_deduper = fst (snd (dedupe_stage env clock events (pl_deduper pl) tel)), pl_composer = c,
         pl_cooldown = g, pl_draws = n\<rparr>, tel2)"
    "co_inv (env_uuid env) n c" "pl_draws pl \<le> n"
    "events = fst (detector_evaluate (env_uuid env) (env_rules env) clock previous current (pl_draws pl))"
    "accepted = admitted dedupe_offer (pl_deduper pl) events"
    "list_all2 trace_of (active_signals c (mf_symbol current)) traces"
    "alert_stage env clock produced [] (pl_cooldown pl) tel1 = (alerts, g, tel2)"
proof -
  obtain events m where events:
    "detector_evaluate (env_uuid env) (env_rules env) clock previous current (pl_draws pl) = (events, m)"
    by (rule prod.exhaust)
  obtain accepted d tel0 where dedupe:
    "dedupe_stage env clock events (pl_deduper pl) tel = (accepted, d, tel0)" by (metis surj_pair)
  have "co_inv (env_uuid env) m (pl_composer pl)"
    using assms(1) detector_draws [OF assms(3) events] unfolding pl_inv_def by (rule co_inv_mono)
  then obtain produced c n where produced:
    "(if accepted \<noteq> [] then consume_batch (env_uuid env) clock accepted current (pl_composer pl) m
      else Inr ([], composer_prune (pl_composer pl) (mf_symbol current) (mf_market_timestamp current), m))
      = Inr (produced, c, n)" "co_inv (env_uuid env) n c" "m \<le> n"
    by (rule compose_or_prune [OF _ assms(2)])
  obtain traces where traces:
    "res_map (\<lambda>s. trace_for c (sg_id s)) (active_signals c (mf_symbol current)) = Inr traces"
    "list_all2 trace_of (active_signals c (mf_symbol current)) traces"
    using active_signals_traced [OF produced(2)] by blast
  let ?tel1 = "observe_episodes env clock (prior_priorities (pl_composer pl) (mf_symbol current)) produced [] tel0"
  obtain alerts g tel2 where alerts:
    "alert_stage env clock produced [] (pl_cooldown pl) ?tel1 = (alerts, g, tel2)" by (metis surj_pair)
  have acc: "accepted = admitted dedupe_offer (pl_deduper pl) events"
    using dedupe_stage_accepted [of env clock events "pl_deduper pl" tel] by (simp add: dedupe)
  show thesis
  proof (rule that [OF _ produced(2) _ _ acc traces(2) alerts])
    show "process env clock previous current pl tel = Inr
       (\<lparr>pr_accepted_events = accepted, pr_signal_updates = active_signals c (mf_symbol current),
         pr_traces = traces, pr_alert_candidates = alerts\<rparr>,
        \<lparr>pl_deduper = fst (snd (dedupe_stage env clock events (pl_deduper pl) tel)), pl_composer = c,
         pl_cooldown = g, pl_draws = n\<rparr>, tel2)"
      by (simp only: process_def events dedupe produced(1) traces(1) alerts Let_def prod.case res_bind.simps
          fst_conv snd_conv)
    show "pl_draws pl \<le> n" using detector_draws [OF assms(3) events] produced(3) by simp
    show "events = fst (detector_evaluate (env_uuid env) (env_rules env) clock previous current (pl_draws pl))"
      by (simp add: events)
  qed
qed

lemma process_keeps_inv:
  assumes "pl_inv (env_uuid env) pl" "inj (env_uuid env)" "counts_up (env_rules env)"
  shows "\<exists>r pl' tel'. process env clock previous current pl tel = Inr (r, pl', tel') \<and> pl_inv (env_uuid env) pl'"
  by (rule process_run [OF assms, of clock previous current tel]) (auto simp: pl_inv_def)

text \<open>The pipeline never raises: from any state that keeps the composer's invariant, with
  identifiers that do not repeat and rules that only draw forward, processing a feature pair returns
  a result and keeps the invariant. The accepted events are those the detector built and the
  deduper admits, in order; the traces pair one to one with the signal updates, which are all of the
  current symbol; and no signal is an alert twice in one tick.\<close>

theorem process_never_raises:
  assumes "pl_inv (env_uuid env) pl" "inj (env_uuid env)" "counts_up (env_rules env)"
  shows "\<exists>r pl' tel'. process env clock previous current pl tel = Inr (r, pl', tel')
    \<and> pl_inv (env_uuid env) pl' \<and> pl_draws pl \<le> pl_draws pl'
    \<and> pr_accepted_events r = admitted dedupe_offer (pl_deduper pl)
        (fst (detector_evaluate (env_uuid env) (env_rules env) clock previous current (pl_draws pl)))
    \<and> list_all2 trace_of (pr_signal_updates r) (pr_traces r)
    \<and> (\<forall>s \<in> set (pr_signal_updates r). sg_symbol s = mf_symbol current)
    \<and> distinct (map sg_id (pr_alert_candidates r))"
proof (rule process_run [OF assms])
  fix events accepted produced c n tel1 alerts g tel2 traces
  assume run: "process env clock previous current pl tel = Inr
       (\<lparr>pr_accepted_events = accepted, pr_signal_updates = active_signals c (mf_symbol current),
         pr_traces = traces, pr_alert_candidates = alerts\<rparr>,
        \<lparr>pl_deduper = fst (snd (dedupe_stage env clock events (pl_deduper pl) tel)), pl_composer = c,
         pl_cooldown = g, pl_draws = n\<rparr>, tel2)"
    and facts: "co_inv (env_uuid env) n c" "pl_draws pl \<le> n"
      "events = fst (detector_evaluate (env_uuid env) (env_rules env) clock previous current (pl_draws pl))"
      "accepted = admitted dedupe_offer (pl_deduper pl) events"
      "list_all2 trace_of (active_signals c (mf_symbol current)) traces"
    and stage: "alert_stage env clock produced [] (pl_cooldown pl) tel1 = (alerts, g, tel2)"
  have "distinct (map sg_id alerts)"
    using alert_stage_distinct [of env clock produced "[]" "pl_cooldown pl" tel1] by (simp add: stage)
  then show ?thesis
    using run facts active_signal_traced(1) [OF facts(1)] by (simp add: pl_inv_def)
qed

section \<open>Telemetry never changes the result\<close>

lemma dedupe_stage_tel:
  "fst (dedupe_stage env clock events d tel) = fst (dedupe_stage env' clock events d tel')
   \<and> fst (snd (dedupe_stage env clock events d tel)) = fst (snd (dedupe_stage env' clock events d tel'))"
proof (induction events arbitrary: d tel tel')
  case (Cons e events)
  obtain k d' where k: "dedupe_accept d e = (k, d')" by (rule prod.exhaust)
  show ?case
  proof (cases k)
    case None
    show ?thesis unfolding dedupe_stage.simps k Let_def prod.case None option.case by (rule Cons.IH)
  next
    case (Some e')
    show ?thesis
      unfolding dedupe_stage.simps k Let_def prod.case Some option.case split_beta fst_conv snd_conv
      using Cons.IH [of d'] by blast
  qed
qed simp

lemma alert_stage_tel:
  "fst (alert_stage env clock produced seen g tel) = fst (alert_stage env' clock produced seen g tel')
   \<and> fst (snd (alert_stage env clock produced seen g tel)) = fst (snd (alert_stage env' clock produced seen g tel'))"
proof (induction produced arbitrary: seen g tel tel')
  case (Cons p produced)
  obtain s t where p: "p = (s, t)" by (rule prod.exhaust)
  obtain ok g' where g': "cooldown_allow g clock (sg_id s) (sg_priority s) = (ok, g')" by (rule prod.exhaust)
  show ?case
    unfolding p alert_stage.simps g' Let_def prod.case split_beta fst_conv snd_conv
    using Cons.IH [of seen g] Cons.IH [of "sg_id s # seen" g'] by (simp split: if_split)
qed simp

definition drop_tel :: "(signal_pipeline_result \<times> pipeline \<times> 'c telemetry) res \<Rightarrow> (signal_pipeline_result \<times> pipeline) res" where
  "drop_tel m = res_bind m (\<lambda>(r, pl, tel). Inr (r, pl))"

text \<open>C16: Telemetry only observes: with the same identifier stream and rules, whatever the telemetry
  runtime, its state, its own identifier stream and its collector (which may fail), the pipeline's
  result and its next state are the same, with telemetry switched off as with it on.\<close>

theorem telemetry_never_changes_result:
  assumes "env_uuid env = env_uuid env'" "env_rules env = env_rules env'"
  shows "drop_tel (process env clock previous current pl tel) = drop_tel (process env' clock previous current pl tel')"
proof -
  obtain events m where events:
    "detector_evaluate (env_uuid env') (env_rules env') clock previous current (pl_draws pl) = (events, m)"
    by (rule prod.exhaust)
  obtain accepted d t1 t2 where dedupe:
    "dedupe_stage env clock events (pl_deduper pl) tel = (accepted, d, t1)"
    "dedupe_stage env' clock events (pl_deduper pl) tel' = (accepted, d, t2)"
    using dedupe_stage_tel [of env clock events "pl_deduper pl" tel env' tel'] by (metis prod.collapse)
  define e0 :: "unit env" where
    "e0 = \<lparr>env_uuid = env_uuid env', env_telemetry_uuid = env_uuid env', env_collect = noop_record, env_rules = []\<rparr>"
  have stage: "fst (alert_stage env clock produced [] g x) = fst (alert_stage e0 clock produced [] g None)"
    "fst (snd (alert_stage env clock produced [] g x)) = fst (snd (alert_stage e0 clock produced [] g None))"
    "fst (alert_stage env' clock produced [] g y) = fst (alert_stage e0 clock produced [] g None)"
    "fst (snd (alert_stage env' clock produced [] g y)) = fst (snd (alert_stage e0 clock produced [] g None))"
    for produced g x y
    using alert_stage_tel [of env clock produced "[]" g x e0 None]
      alert_stage_tel [of env' clock produced "[]" g y e0 None] by blast+
  show ?thesis
    unfolding process_def assms events Let_def prod.case dedupe drop_tel_def
    by (simp add: res_bind_assoc split_beta stage cong: res_bind_cong)
qed

section \<open>Alerts over many ticks\<close>

text \<open>The pipeline over a sequence of ticks, each with its clock and feature pair.\<close>

fun run_ticks ::
  "'c env \<Rightarrow> (fake_clock \<times> market_features option \<times> market_features) list \<Rightarrow> pipeline \<Rightarrow> 'c telemetry
    \<Rightarrow> ((fake_clock \<times> signal_pipeline_result) list \<times> pipeline \<times> 'c telemetry) res" where
  "run_ticks env [] pl tel = Inr ([], pl, tel)"
| "run_ticks env ((clock, previous, current) # ticks) pl tel =
     res_bind (process env clock previous current pl tel) (\<lambda>(r, pl, tel).
       res_bind (run_ticks env ticks pl tel) (\<lambda>(rs, rest). Inr ((clock, r) # rs, rest)))"

definition alert_offers :: "(fake_clock \<times> signal_pipeline_result) list \<Rightarrow> alert_offer list" where
  "alert_offers rs =
     concat (map (\<lambda>(clock, r). map (\<lambda>s. (fc_mono clock, sg_id s, sg_priority s)) (pr_alert_candidates r)) rs)"

lemma gate_run_append:
  "gate_run offer s (xs @ ys) =
     (let (as, s') = gate_run offer s xs; (bs, s'') = gate_run offer s' ys in (as @ bs, s''))"
  by (induction xs arbitrary: s) (auto simp: Let_def split_beta)

lemma cooldown_offer_tick: "cooldown_offer g (fc_mono clock, i, p) = cooldown_allow g clock i p"
  by (simp add: cooldown_offer_def cooldown_allow_def Let_def)

text \<open>The alert stage is the cooldown gate run on the tick's first offer of each signal.\<close>

lemma alert_stage_gate:
  "\<exists>offers. gate_run cooldown_offer g offers =
      (map (\<lambda>s. (fc_mono clock, sg_id s, sg_priority s)) (fst (alert_stage env clock produced seen g tel)),
       fst (snd (alert_stage env clock produced seen g tel)))
    \<and> (\<forall>x \<in> set offers. fst x = fc_mono clock)"
proof (induction produced arbitrary: seen g tel)
  case Nil
  show ?case by (intro exI [of _ "[]"]) simp
next
  case (Cons p produced)
  obtain s t where p: "p = (s, t)" by (rule prod.exhaust)
  obtain ok g' where g': "cooldown_allow g clock (sg_id s) (sg_priority s) = (ok, g')" by (rule prod.exhaust)
  show ?case
  proof (cases "sg_id s \<in> set seen")
    case True
    then show ?thesis using Cons.IH [of g seen] by (simp add: p)
  next
    case False
    let ?tel = "if ok then emit_signal env clock ALERT_CANDIDATE s tel else emit_suppressed env clock s COOLDOWN tel"
    obtain offers where offers: "gate_run cooldown_offer g' offers =
        (map (\<lambda>s. (fc_mono clock, sg_id s, sg_priority s)) (fst (alert_stage env clock produced (sg_id s # seen) g' ?tel)),
         fst (snd (alert_stage env clock produced (sg_id s # seen) g' ?tel)))"
      "\<forall>x \<in> set offers. fst x = fc_mono clock"
      using Cons.IH [of g' "sg_id s # seen" ?tel] by blast
    show ?thesis
      using False offers
      by (intro exI [of _ "(fc_mono clock, sg_id s, sg_priority s) # offers"])
        (auto simp: p g' cooldown_offer_tick Let_def split_beta)
  qed
qed

text \<open>Over any number of ticks the alerts are one run of the gate.\<close>

lemma run_ticks_gate:
  assumes "run_ticks env ticks pl tel = Inr (rs, pl', tel')"
  shows "\<exists>offers. gate_run cooldown_offer (pl_cooldown pl) offers = (alert_offers rs, pl_cooldown pl')
    \<and> fst ` set offers \<subseteq> (fc_mono \<circ> fst) ` set ticks
    \<and> (sorted (map (fc_mono \<circ> fst) ticks) \<longrightarrow> sorted (map fst offers))"
  using assms
proof (induction ticks arbitrary: pl tel rs)
  case Nil
  then show ?case by (intro exI [of _ "[]"]) (simp add: alert_offers_def)
next
  case (Cons tick ticks)
  obtain clock previous current where tick: "tick = (clock, previous, current)" by (metis surj_pair)
  obtain r pl1 tel1 rs1 where first: "process env clock previous current pl tel = Inr (r, pl1, tel1)"
    and rest: "run_ticks env ticks pl1 tel1 = Inr (rs1, pl', tel')" and rs: "rs = (clock, r) # rs1"
    using Cons.prems by (auto simp: tick res_simps)
  obtain produced tel0 where stage:
    "pr_alert_candidates r = fst (alert_stage env clock produced [] (pl_cooldown pl) tel0)"
    "pl_cooldown pl1 = fst (snd (alert_stage env clock produced [] (pl_cooldown pl) tel0))"
    using first by (auto simp: process_def Let_def res_simps split_beta)
  obtain xs where xs: "gate_run cooldown_offer (pl_cooldown pl) xs =
      (map (\<lambda>s. (fc_mono clock, sg_id s, sg_priority s)) (pr_alert_candidates r), pl_cooldown pl1)"
      "\<forall>x \<in> set xs. fst x = fc_mono clock"
    using alert_stage_gate [of "pl_cooldown pl" clock env produced "[]" tel0] by (auto simp: stage)
  obtain ys where ys: "gate_run cooldown_offer (pl_cooldown pl1) ys = (alert_offers rs1, pl_cooldown pl')"
      "fst ` set ys \<subseteq> (fc_mono \<circ> fst) ` set ticks"
      "sorted (map (fc_mono \<circ> fst) ticks) \<longrightarrow> sorted (map fst ys)"
    using Cons.IH [OF rest] by blast
  have same: "sorted (map fst xs)" using xs(2) by (induction xs) auto
  show ?case
  proof (intro exI [of _ "xs @ ys"] conjI impI)
    show "gate_run cooldown_offer (pl_cooldown pl) (xs @ ys) = (alert_offers rs, pl_cooldown pl')"
      by (simp add: gate_run_append xs(1) ys(1) rs alert_offers_def)
    show "fst ` set (xs @ ys) \<subseteq> (fc_mono \<circ> fst) ` set (tick # ticks)" using xs(2) ys(2) by (auto simp: tick)
    assume sorted: "sorted (map (fc_mono \<circ> fst) (tick # ticks))"
    then have "\<forall>t \<in> (fc_mono \<circ> fst) ` set ticks. fc_mono clock \<le> t" by (simp add: tick)
    then have "\<forall>y \<in> set ys. fc_mono clock \<le> fst y" using ys(2) by blast
    then show "sorted (map fst (xs @ ys))" using sorted same ys(3) xs(2) by (auto simp: sorted_append)
  qed
qed

text \<open>C4: Alert fatigue is bounded end to end: over any run of ticks that spans less than the cooldown
  on a clock that never goes back, whatever the market data, a signal raises at most four alerts, and
  each has a strictly higher priority than the one before.\<close>

theorem alerts_bounded_over_ticks:
  assumes "run_ticks env ticks pl tel = Inr (rs, pl', tel')"
    and "sorted (map (fc_mono \<circ> fst) ticks)"
    and "\<forall>x \<in> set ticks. \<forall>y \<in> set ticks. fc_mono (fst y) - fc_mono (fst x) < cg_cooldown_s (pl_cooldown pl)"
    and "\<forall>t p. cg_last (pl_cooldown pl) signal_id = Some (t, p) \<longrightarrow> (\<forall>x \<in> set ticks. t \<le> fc_mono (fst x))"
  shows "(let alerts = filter (\<lambda>x. fst (snd x) = signal_id) (alert_offers rs)
    in sorted_wrt (<) (map (\<lambda>x. snd (snd x)) alerts) \<and> length alerts \<le> 4)"
proof -
  obtain offers where offers: "gate_run cooldown_offer (pl_cooldown pl) offers = (alert_offers rs, pl_cooldown pl')"
    "fst ` set offers \<subseteq> (fc_mono \<circ> fst) ` set ticks" "sorted (map fst offers)"
    using run_ticks_gate [OF assms(1)] assms(2) by blast
  have at: "\<exists>y \<in> set ticks. fst x = fc_mono (fst y)" if "x \<in> set offers" for x
    using offers(2) that by auto
  have "\<forall>x \<in> set offers. \<forall>y \<in> set offers. fst y - fst x < cg_cooldown_s (pl_cooldown pl)"
    using at assms(3) by metis
  moreover have "\<forall>t p. cg_last (pl_cooldown pl) signal_id = Some (t, p) \<longrightarrow> (\<forall>x \<in> set offers. t \<le> fst x)"
    using at assms(4) by metis
  ultimately show ?thesis using cooldown_window [OF offers(3), of "pl_cooldown pl" signal_id] by (simp add: offers(1))
qed

subsection \<open>Sample runs\<close>

definition sample_env :: "telemetry_event list env" where
  "sample_env =
     \<lparr>env_uuid = tally, env_telemetry_uuid = tally, env_collect = in_memory_record, env_rules = default_rules\<rparr>"

definition sample_ticks :: "(fake_clock \<times> market_features option \<times> market_features) list" where
  "sample_ticks =
     [(\<lparr>fc_wall = 1000, fc_mono = 0\<rparr>, None, quiet_features),
      (\<lparr>fc_wall = 1200, fc_mono = 200\<rparr>, Some quiet_features,
       quiet_features\<lparr>mf_market_timestamp := 1200, mf_change_1m := Some (20 / 1000)\<rparr>)]"

theorem process_never_raises_witness:
  "\<exists>r pl' tel'. process sample_env sample_clock None quiet_features new_pipeline None = Inr (r, pl', tel')
    \<and> distinct (map sg_id (pr_alert_candidates r))"
proof -
  have "pl_inv (env_uuid sample_env) new_pipeline" "inj (env_uuid sample_env)" "counts_up (env_rules sample_env)"
    using default_rules_count_up inj_tally by (simp_all add: pl_inv_def new_pipeline_def co_inv_new sample_env_def)
  from process_never_raises [OF this, of sample_clock None quiet_features None] show ?thesis by blast
qed

theorem telemetry_never_changes_result_witness:
  "drop_tel (process sample_env sample_clock None quiet_features new_pipeline None) =
   drop_tel (process (sample_env\<lparr>env_collect := (\<lambda>c e. (c, Inl TypeError))\<rparr>) sample_clock None quiet_features
     new_pipeline (Some (new_runtime tally None [])))"
  by (rule telemetry_never_changes_result) (simp_all add: sample_env_def)

theorem alerts_bounded_over_ticks_witness:
  "case run_ticks sample_env sample_ticks new_pipeline None of
     Inl e \<Rightarrow> False
   | Inr (rs, pl', tel') \<Rightarrow>
       2 \<le> length (alert_offers rs) \<and> length (filter (\<lambda>x. fst (snd x) = tally 2) (alert_offers rs)) \<le> 4"
proof -
  have run: "case run_ticks sample_env sample_ticks new_pipeline None of
     Inl e \<Rightarrow> False | Inr (rs, pl', tel') \<Rightarrow> 2 \<le> length (alert_offers rs)" by code_simp
  then obtain rs pl' tel' where rs: "run_ticks sample_env sample_ticks new_pipeline None = Inr (rs, pl', tel')"
    by (auto split: sum.splits)
  have "sorted (map (fc_mono \<circ> fst) sample_ticks)"
    "\<forall>x \<in> set sample_ticks. \<forall>y \<in> set sample_ticks. fc_mono (fst y) - fc_mono (fst x) < cg_cooldown_s (pl_cooldown new_pipeline)"
    by code_simp+
  moreover have "cg_last (pl_cooldown new_pipeline) = Map.empty"
    by (simp add: new_pipeline_def new_cooldown_gate_def)
  ultimately have "length (filter (\<lambda>x. fst (snd x) = tally 2) (alert_offers rs)) \<le> 4"
    using alerts_bounded_over_ticks [OF rs, of "tally 2"] by (simp add: Let_def)
  then show ?thesis using run by (simp add: rs)
qed

end
