(* ===== verification/Health.thy ===== *)
theory Health
  imports Domain
begin

text \<open>
  \<open>health/feed_health.py\<close> and \<open>health/policy.py\<close>: the tracker that turns successes and failures of
  a symbol's feed into a status. The reference is the history of observations: the status is a
  function of the last success and of the failures since, and only a success improves it once a
  failure is recorded.
\<close>

section \<open>The tracker\<close>

record health_policy =
  hp_delayed_s :: flt
  hp_stale_s :: flt
  hp_disconnect_s :: flt
  hp_disconnect_failures :: int

definition default_health_policy :: health_policy where
  "default_health_policy =
     \<lparr>hp_delayed_s = 3, hp_stale_s = 30, hp_disconnect_s = 60, hp_disconnect_failures = 3\<rparr>"

record symbol_health =
  sh_last_success_mono :: "flt option"
  sh_consecutive_failures :: int
  sh_market_timestamp :: "flt option"
  sh_received_timestamp :: "flt option"
  sh_last_status :: "feed_status option"

definition new_symbol_health :: symbol_health where
  "new_symbol_health =
     \<lparr>sh_last_success_mono = None, sh_consecutive_failures = 0, sh_market_timestamp = None,
      sh_received_timestamp = None, sh_last_status = None\<rparr>"

record health =
  fh_policy :: health_policy
  fh_symbols :: "string \<rightharpoonup> symbol_health"

definition new_health :: "health_policy \<Rightarrow> health" where
  "new_health policy = \<lparr>fh_policy = policy, fh_symbols = Map.empty\<rparr>"

definition health_latency :: "symbol_health \<Rightarrow> flt" where
  "health_latency record =
     (case (sh_received_timestamp record, sh_market_timestamp record) of
        (Some received, Some market) \<Rightarrow> max 0 (received - market)
      | _ \<Rightarrow> 0)"

definition health_compute :: "health_policy \<Rightarrow> fake_clock \<Rightarrow> symbol_health option \<Rightarrow> feed_status" where
  "health_compute policy clock record =
     (case record of
        None \<Rightarrow> DISCONNECTED
      | Some r \<Rightarrow>
          (case sh_last_success_mono r of
             None \<Rightarrow>
               if sh_consecutive_failures r \<ge> hp_disconnect_failures policy then DISCONNECTED
               else if sh_consecutive_failures r > 0 then STALE
               else DISCONNECTED
           | Some t \<Rightarrow>
               let age = fc_mono clock - t
               in if sh_consecutive_failures r \<ge> hp_disconnect_failures policy \<or> age \<ge> hp_disconnect_s policy
                  then DISCONNECTED
                  else if age \<ge> hp_stale_s policy then STALE
                  else if health_latency r \<ge> hp_delayed_s policy then DELAYED
                  else LIVE))"

definition peek_status :: "health \<Rightarrow> fake_clock \<Rightarrow> string \<Rightarrow> feed_status" where
  "peek_status h clock symbol = health_compute (fh_policy h) clock (fh_symbols h symbol)"

definition health_status :: "fake_clock \<Rightarrow> string \<Rightarrow> health \<Rightarrow> feed_status \<times> health" where
  "health_status clock symbol h =
     (let status = health_compute (fh_policy h) clock (fh_symbols h symbol)
      in (status,
          case fh_symbols h symbol of
            None \<Rightarrow> h
          | Some r \<Rightarrow>
              if sh_last_status r \<noteq> Some status
              then h\<lparr>fh_symbols := (fh_symbols h)(symbol \<mapsto> r\<lparr>sh_last_status := Some status\<rparr>)\<rparr>
              else h))"

definition health_record :: "health \<Rightarrow> string \<Rightarrow> symbol_health" where
  "health_record h symbol = (case fh_symbols h symbol of None \<Rightarrow> new_symbol_health | Some r \<Rightarrow> r)"

text \<open>\<open>observe\<close> is called with a snapshot, with an error, or with neither.\<close>

definition health_observe ::
  "fake_clock \<Rightarrow> string \<Rightarrow> market_snapshot option \<Rightarrow> bool \<Rightarrow> health \<Rightarrow> feed_status \<times> health" where
  "health_observe clock symbol snapshot error h =
     (let r = health_record h symbol;
          r' = (case snapshot of
                  Some s \<Rightarrow>
                    r\<lparr>sh_last_success_mono := Some (fc_mono clock),
                      sh_consecutive_failures := 0,
                      sh_market_timestamp := Some (ms_market_timestamp s),
                      sh_received_timestamp := Some (ms_received_timestamp s)\<rparr>
                | None \<Rightarrow>
                    if error then r\<lparr>sh_consecutive_failures := sh_consecutive_failures r + 1\<rparr> else r)
      in health_status clock symbol (h\<lparr>fh_symbols := (fh_symbols h)(symbol \<mapsto> r')\<rparr>))"

definition keep_alive :: "fake_clock \<Rightarrow> string \<Rightarrow> health \<Rightarrow> health" where
  "keep_alive clock symbol h =
     (case fh_symbols h symbol of
        None \<Rightarrow> h
      | Some r \<Rightarrow>
          if sh_last_success_mono r = None then h
          else if sh_consecutive_failures r > 0 then h
          else h\<lparr>fh_symbols := (fh_symbols h)(symbol \<mapsto> r\<lparr>sh_last_success_mono := Some (fc_mono clock)\<rparr>)\<rparr>)"

definition consecutive_failures :: "health \<Rightarrow> string \<Rightarrow> int" where
  "consecutive_failures h symbol =
     (case fh_symbols h symbol of None \<Rightarrow> 0 | Some r \<Rightarrow> sh_consecutive_failures r)"

fun health_statuses :: "fake_clock \<Rightarrow> string list \<Rightarrow> health \<Rightarrow> feed_status list \<times> health" where
  "health_statuses clock [] h = ([], h)"
| "health_statuses clock (symbol # symbols) h =
     (let (s, h) = health_status clock symbol h; (ss, h) = health_statuses clock symbols h in (s # ss, h))"

definition aggregate_status :: "fake_clock \<Rightarrow> string list \<Rightarrow> health \<Rightarrow> feed_status \<times> health" where
  "aggregate_status clock symbols h =
     (case health_statuses clock symbols h of
        ([], h') \<Rightarrow> (DISCONNECTED, h')
      | (s # ss, h') \<Rightarrow> (max_by feed_worst s ss, h'))"

definition feed_latency :: "health \<Rightarrow> string \<Rightarrow> flt option" where
  "feed_latency h symbol =
     (case fh_symbols h symbol of
        None \<Rightarrow> None
      | Some r \<Rightarrow>
          (case (sh_received_timestamp r, sh_market_timestamp r) of
             (Some received, Some market) \<Rightarrow> Some (max 0 (received - market))
           | _ \<Rightarrow> None))"

definition last_update_age :: "health \<Rightarrow> fake_clock \<Rightarrow> string \<Rightarrow> flt option" where
  "last_update_age h clock symbol =
     (case fh_symbols h symbol of
        None \<Rightarrow> None
      | Some r \<Rightarrow> map_option (\<lambda>t. fc_mono clock - t) (sh_last_success_mono r))"

section \<open>Reading a status changes no status\<close>

text \<open>\<open>sh_last_status\<close> only decides what is logged.\<close>

lemma health_compute_last_status [simp]:
  "health_compute p c (Some (r\<lparr>sh_last_status := x\<rparr>)) = health_compute p c (Some r)"
  by (cases "sh_last_success_mono r") (simp_all add: health_compute_def health_latency_def Let_def)

lemma health_status_frame:
  assumes "health_status clock symbol h = (s, h')"
  shows "s = peek_status h clock symbol" "fh_policy h' = fh_policy h"
    "peek_status h' clock' symbol' = peek_status h clock' symbol'"
    "feed_latency h' symbol' = feed_latency h symbol'"
    "last_update_age h' clock' symbol' = last_update_age h clock' symbol'"
    "consecutive_failures h' symbol' = consecutive_failures h symbol'"
  using assms
  by (auto simp: health_status_def peek_status_def feed_latency_def last_update_age_def consecutive_failures_def
      Let_def split: option.splits if_splits)

lemma health_statuses_frame:
  "fst (health_statuses clock symbols h) = map (peek_status h clock) symbols
   \<and> peek_status (snd (health_statuses clock symbols h)) = peek_status h"
proof (induction symbols arbitrary: h)
  case (Cons symbol symbols)
  obtain s h' where h': "health_status clock symbol h = (s, h')" by (rule prod.exhaust)
  have "peek_status h' = peek_status h" using health_status_frame(3) [OF h'] by blast
  then show ?case using Cons.IH [of h'] health_status_frame(1) [OF h'] by (simp add: h' split_beta)
qed simp

text \<open>The aggregate of several feeds is the worst of them: some symbol has it, no symbol is
  worse, and without symbols it is disconnected; reading it changes no status.\<close>

theorem aggregate_status_worst:
  assumes "aggregate_status clock symbols h = (s, h')"
  shows "(if symbols = [] then s = DISCONNECTED
     else s \<in> peek_status h clock ` set symbols
       \<and> (\<forall>symbol \<in> set symbols. feed_worst (peek_status h clock symbol) \<le> feed_worst s))
   \<and> peek_status h' = peek_status h"
proof (cases symbols)
  case Nil
  then show ?thesis using assms by (simp add: aggregate_status_def)
next
  case (Cons symbol rest)
  have all: "fst (health_statuses clock symbols h) = map (peek_status h clock) symbols"
    "peek_status (snd (health_statuses clock symbols h)) = peek_status h"
    using health_statuses_frame by blast+
  then have s: "s = max_by feed_worst (peek_status h clock symbol) (map (peek_status h clock) rest)"
    "h' = snd (health_statuses clock symbols h)"
    using assms by (auto simp: aggregate_status_def Cons split: prod.splits list.splits)
  have "s \<in> peek_status h clock ` set symbols"
    using max_by_in [of feed_worst "peek_status h clock symbol" "map (peek_status h clock) rest"] by (auto simp: s(1) Cons)
  moreover have "\<forall>symbol \<in> set symbols. feed_worst (peek_status h clock symbol) \<le> feed_worst s"
    using max_by_ge [of _ "peek_status h clock symbol" "map (peek_status h clock) rest" feed_worst]
    by (simp add: s(1) Cons)
  ultimately show ?thesis using all(2) s(2) by (simp add: Cons)
qed

section \<open>Status as a function of the history\<close>

text \<open>What happened to one symbol, with the monotonic time: a quote, a failed fetch, a frozen feed.\<close>

datatype feed_event = Quote flt market_snapshot | Failure flt | Frozen flt

primrec step_time :: "feed_event \<Rightarrow> flt" where
  "step_time (Quote t s) = t"
| "step_time (Failure t) = t"
| "step_time (Frozen t) = t"

fun feed_step :: "string \<Rightarrow> feed_event \<Rightarrow> health \<Rightarrow> health" where
  "feed_step symbol (Quote t s) h = snd (health_observe \<lparr>fc_wall = 0, fc_mono = t\<rparr> symbol (Some s) False h)"
| "feed_step symbol (Failure t) h = snd (health_observe \<lparr>fc_wall = 0, fc_mono = t\<rparr> symbol None True h)"
| "feed_step symbol (Frozen t) h = keep_alive \<lparr>fc_wall = 0, fc_mono = t\<rparr> symbol h"

fun is_quote :: "feed_event \<Rightarrow> bool" where
  "is_quote (Quote t s) = True"
| "is_quote _ = False"

fun is_failure :: "feed_event \<Rightarrow> bool" where
  "is_failure (Failure t) = True"
| "is_failure _ = False"

text \<open>
  The reference, on the history read backwards: the failures since the last quote, and the time the
  quote is fresh from, which a freeze renews only while no failure has followed the quote.
\<close>

definition since_quote :: "feed_event list \<Rightarrow> feed_event list" where
  "since_quote hist = rev (takeWhile (\<lambda>s. \<not> is_quote s) (rev hist))"

definition hist_failures :: "feed_event list \<Rightarrow> nat" where
  "hist_failures hist = length (filter is_failure (since_quote hist))"

definition last_quote :: "feed_event list \<Rightarrow> feed_event option" where
  "last_quote hist = find is_quote (rev hist)"

definition fresh_from :: "feed_event list \<Rightarrow> flt option" where
  "fresh_from hist =
     map_option (\<lambda>q. step_time (last (q # takeWhile (\<lambda>s. \<not> is_failure s) (since_quote hist)))) (last_quote hist)"

definition reference_status :: "health_policy \<Rightarrow> flt \<Rightarrow> feed_event list \<Rightarrow> feed_status" where
  "reference_status p now hist =
     (case last_quote hist of
        Some (Quote t s) \<Rightarrow>
          (let age = now - the (fresh_from hist)
           in if int (hist_failures hist) \<ge> hp_disconnect_failures p \<or> age \<ge> hp_disconnect_s p then DISCONNECTED
              else if age \<ge> hp_stale_s p then STALE
              else if max 0 (ms_received_timestamp s - ms_market_timestamp s) \<ge> hp_delayed_s p then DELAYED
              else LIVE)
      | _ \<Rightarrow> if 0 < hist_failures hist \<and> int (hist_failures hist) < hp_disconnect_failures p
            then STALE else DISCONNECTED)"

lemma since_quote_snoc:
  "since_quote (hist @ [x]) = (if is_quote x then [] else since_quote hist @ [x])"
  by (simp add: since_quote_def)

lemma last_quote_snoc: "last_quote (hist @ [x]) = (if is_quote x then Some x else last_quote hist)"
  by (simp add: last_quote_def)

lemma hist_failures_snoc:
  "hist_failures (hist @ [x]) = (if is_quote x then 0 else if is_failure x then Suc (hist_failures hist) else hist_failures hist)"
  by (simp add: hist_failures_def since_quote_snoc)

lemma no_failures: "hist_failures hist = 0 \<longleftrightarrow> (\<forall>x \<in> set (since_quote hist). \<not> is_failure x)"
  by (simp add: hist_failures_def filter_empty_conv)

lemma fresh_from_snoc:
  "fresh_from (hist @ [Quote t s]) = Some t"
  "fresh_from (hist @ [Failure t]) = fresh_from hist"
  "fresh_from (hist @ [Frozen t]) =
     (if hist_failures hist = 0 then map_option (\<lambda>_. t) (last_quote hist) else fresh_from hist)"
proof -
  show "fresh_from (hist @ [Quote t s]) = Some t"
    by (simp add: fresh_from_def last_quote_snoc since_quote_snoc)
  show "fresh_from (hist @ [Failure t]) = fresh_from hist"
    by (simp add: fresh_from_def last_quote_snoc since_quote_snoc takeWhile_tail)
  show "fresh_from (hist @ [Frozen t]) =
     (if hist_failures hist = 0 then map_option (\<lambda>_. t) (last_quote hist) else fresh_from hist)"
  proof (cases "hist_failures hist = 0")
    case True
    then show ?thesis
      by (auto simp: fresh_from_def last_quote_snoc since_quote_snoc no_failures takeWhile_append2)
  next
    case False
    then obtain x where "x \<in> set (since_quote hist)" "is_failure x" by (auto simp: no_failures)
    then show ?thesis
      using False by (simp add: fresh_from_def last_quote_snoc since_quote_snoc takeWhile_append1)
  qed
qed

lemma last_quote_Some: "last_quote hist = Some q \<Longrightarrow> \<exists>t s. q = Quote t s"
proof -
  assume "last_quote hist = Some q"
  then have "is_quote q" unfolding last_quote_def find_Some_iff by auto
  then show ?thesis by (cases q) auto
qed

lemma health_compute_record: "health_compute p c (fh_symbols h symbol) = health_compute p c (Some (health_record h symbol))"
  by (simp add: health_compute_def health_record_def new_symbol_health_def split: option.split)

definition tracks :: "symbol_health \<Rightarrow> feed_event list \<Rightarrow> bool" where
  "tracks r hist \<longleftrightarrow>
     sh_last_success_mono r = fresh_from hist \<and> sh_consecutive_failures r = int (hist_failures hist)
     \<and> (\<forall>t s. last_quote hist = Some (Quote t s) \<longrightarrow>
          sh_market_timestamp r = Some (ms_market_timestamp s)
          \<and> sh_received_timestamp r = Some (ms_received_timestamp s))"

lemma health_status_record:
  "health_record (snd (health_status clock symbol h)) symbol' =
     (if symbol' = symbol \<and> fh_symbols h symbol \<noteq> None
      then (health_record h symbol)\<lparr>sh_last_status := Some (peek_status h clock symbol)\<rparr>
      else health_record h symbol')"
  by (auto simp: health_status_def health_record_def peek_status_def Let_def split: option.split)

lemma tracks_last_status [simp]: "tracks (r\<lparr>sh_last_status := x\<rparr>) hist \<longleftrightarrow> tracks r hist"
  by (simp add: tracks_def)

lemma feed_step_tracks:
  assumes "tracks (health_record h symbol) hist"
  shows "tracks (health_record (feed_step symbol x h) symbol) (hist @ [x])"
proof (cases x)
  case (Quote t s)
  then show ?thesis
    by (simp add: health_observe_def Let_def health_status_record)
      (simp add: tracks_def health_record_def fresh_from_snoc hist_failures_snoc last_quote_snoc)
next
  case (Failure t)
  then show ?thesis
    using assms
    by (simp add: health_observe_def Let_def health_status_record)
      (simp add: tracks_def health_record_def fresh_from_snoc hist_failures_snoc last_quote_snoc)
next
  case (Frozen t)
  have q: "fresh_from hist = None \<longleftrightarrow> last_quote hist = None" by (simp add: fresh_from_def)
  show ?thesis
    using assms q
    by (auto simp: Frozen keep_alive_def tracks_def health_record_def new_symbol_health_def fresh_from_snoc
        hist_failures_snoc last_quote_snoc split: option.splits)
qed

lemma feed_steps_track:
  "tracks (health_record (fold (feed_step symbol) hist (new_health p)) symbol) hist"
proof (induction hist rule: rev_induct)
  case Nil
  show ?case
    by (simp add: tracks_def new_health_def health_record_def new_symbol_health_def fresh_from_def last_quote_def
        hist_failures_def since_quote_def)
next
  case (snoc x hist)
  then show ?case using feed_step_tracks by simp
qed

lemma feed_step_policy [simp]: "fh_policy (feed_step symbol x h) = fh_policy h"
  by (cases x) (auto simp: health_observe_def health_status_def keep_alive_def Let_def split: option.splits)

lemma feed_steps_policy: "fh_policy (fold (feed_step symbol) hist (new_health p)) = p"
  by (rule fold_inv_rule) (simp_all add: new_health_def)

lemma status_reference:
  "peek_status (fold (feed_step symbol) hist (new_health p)) \<lparr>fc_wall = wall, fc_mono = now\<rparr> symbol =
     reference_status p now hist"
proof -
  let ?h = "fold (feed_step symbol) hist (new_health p)"
  have r: "sh_last_success_mono (health_record ?h symbol) = fresh_from hist"
    "sh_consecutive_failures (health_record ?h symbol) = int (hist_failures hist)"
    "\<And>t s. last_quote hist = Some (Quote t s) \<Longrightarrow>
      health_latency (health_record ?h symbol) = max 0 (ms_received_timestamp s - ms_market_timestamp s)"
    using feed_steps_track [of symbol hist p] by (auto simp: tracks_def health_latency_def)
  show ?thesis
  proof (cases "last_quote hist")
    case None
    then have "fresh_from hist = None" by (simp add: fresh_from_def)
    then show ?thesis
      by (simp add: peek_status_def feed_steps_policy health_compute_record)
        (auto simp: health_compute_def r None reference_status_def)
  next
    case (Some q)
    then obtain t s where q: "last_quote hist = Some (Quote t s)" using last_quote_Some by blast
    then obtain f where "fresh_from hist = Some f" by (simp add: fresh_from_def)
    then show ?thesis
      by (simp add: peek_status_def feed_steps_policy health_compute_record)
        (simp add: health_compute_def r(1,2) r(3) [OF q] q reference_status_def Let_def)
  qed
qed

text \<open>C21: The status of a symbol is exactly the reference function of its history: with a quote
  behind it, disconnected after the configured number of failures since that quote or the configured
  age, then stale by age, then delayed by latency, else live; without one, stale on the first
  failures and disconnected otherwise. A freeze renews the age only if no failure followed the quote.\<close>

theorem status_of_history:
  "peek_status (fold (feed_step symbol) hist (new_health p)) \<lparr>fc_wall = wall, fc_mono = now\<rparr> symbol =
     reference_status p now hist"
  by (rule status_reference)

text \<open>A recorded failure cannot be masked: once a failure follows the last quote of a symbol that
  had one, no sequence of further failures and freezes, and no passing of time, ever improves its
  status; only a new quote does.\<close>

theorem only_a_quote_improves:
  assumes "last_quote hist = Some q" "0 < hist_failures hist" "now \<le> later"
    and "\<forall>x \<in> set rest. \<not> is_quote x"
  shows "feed_worst (peek_status (fold (feed_step symbol) hist (new_health p)) \<lparr>fc_wall = wall, fc_mono = now\<rparr> symbol)
    \<le> feed_worst (peek_status (fold (feed_step symbol) (hist @ rest) (new_health p)) \<lparr>fc_wall = wall', fc_mono = later\<rparr> symbol)"
proof -
  have same: "last_quote (hist @ rest) = last_quote hist \<and> fresh_from (hist @ rest) = fresh_from hist
      \<and> hist_failures hist \<le> hist_failures (hist @ rest)"
    using assms(4)
  proof (induction rest rule: rev_induct)
    case (snoc x rest)
    then have "0 < hist_failures (hist @ rest)" using assms(2) by simp
    then show ?case
      using snoc by (cases x) (simp_all add: last_quote_snoc hist_failures_snoc fresh_from_snoc flip: append_assoc)
  qed simp
  obtain t s where q: "last_quote hist = Some (Quote t s)" using assms(1) last_quote_Some by blast
  obtain f where f: "fresh_from hist = Some f" using q by (simp add: fresh_from_def)
  have age: "now - f \<le> later - f" using assms(3) by simp
  have "feed_worst (reference_status p now hist) \<le> feed_worst (reference_status p later (hist @ rest))"
    unfolding reference_status_def using same q f age by (auto simp: Let_def)
  then show ?thesis
    by (simp only: status_reference)
qed

theorem aggregate_status_worst_witness:
  "case aggregate_status \<lparr>fc_wall = 0, fc_mono = 0\<rparr> [''A'', ''B''] (new_health default_health_policy) of
     (s, h') \<Rightarrow> peek_status h' = peek_status (new_health default_health_policy)"
proof -
  obtain s h' where a: "aggregate_status \<lparr>fc_wall = 0, fc_mono = 0\<rparr> [''A'', ''B''] (new_health default_health_policy) = (s, h')"
    by (rule prod.exhaust)
  show ?thesis using aggregate_status_worst [OF a] by (simp add: a)
qed

definition fresh_quote :: market_snapshot where
  "fresh_quote =
     \<lparr>ms_symbol = ''A'', ms_price = 10, ms_open = 10, ms_high = 11, ms_low = 9, ms_prev_close = 10, ms_volume = 100,
      ms_turnover = None, ms_market_timestamp = 100, ms_received_timestamp = 101\<rparr>"

theorem only_a_quote_improves_witness:
  "feed_worst (peek_status (fold (feed_step ''A'') [Quote 0 fresh_quote, Failure 1] (new_health default_health_policy))
      \<lparr>fc_wall = 0, fc_mono = 2\<rparr> ''A'')
    \<le> feed_worst (peek_status (fold (feed_step ''A'') ([Quote 0 fresh_quote, Failure 1] @ [Frozen 31, Failure 31])
      (new_health default_health_policy)) \<lparr>fc_wall = 0, fc_mono = 32\<rparr> ''A'')
   \<and> peek_status (fold (feed_step ''A'') [Quote 0 fresh_quote, Failure 1, Frozen 31, Failure 31]
      (new_health default_health_policy)) \<lparr>fc_wall = 0, fc_mono = 32\<rparr> ''A'' = STALE"
proof (rule conjI)
  show "feed_worst (peek_status (fold (feed_step ''A'') [Quote 0 fresh_quote, Failure 1] (new_health default_health_policy))
      \<lparr>fc_wall = 0, fc_mono = 2\<rparr> ''A'')
    \<le> feed_worst (peek_status (fold (feed_step ''A'') ([Quote 0 fresh_quote, Failure 1] @ [Frozen 31, Failure 31])
      (new_health default_health_policy)) \<lparr>fc_wall = 0, fc_mono = 32\<rparr> ''A'')"
    by (rule only_a_quote_improves [where q = "Quote 0 fresh_quote"])
      (simp_all add: last_quote_def hist_failures_def since_quote_def)
qed code_simp

end
