(* ===== verification/Scheduler.thy ===== *)
theory Scheduler
  imports Event_Rules
begin

text \<open>
  \<open>scheduler/scheduler.py\<close>, \<open>scheduler/policy.py\<close> and \<open>orchestration/warming.py\<close>: which symbols are
  due, how long to wait, how attention levels change and dwell, and how features and events ask for
  a level.
\<close>

section \<open>The scheduler\<close>

record scheduler_policy =
  sp_cold_interval_s :: flt
  sp_warm_interval_s :: flt
  sp_hot_interval_s :: flt
  sp_upgrade_dwell_s :: flt
  sp_hot_downgrade_dwell_s :: flt
  sp_warm_downgrade_dwell_s :: flt

definition default_scheduler_policy :: scheduler_policy where
  "default_scheduler_policy =
     \<lparr>sp_cold_interval_s = 10, sp_warm_interval_s = 3, sp_hot_interval_s = 1, sp_upgrade_dwell_s = 0,
      sp_hot_downgrade_dwell_s = 30, sp_warm_downgrade_dwell_s = 60\<rparr>"

record scheduler =
  as_policy :: scheduler_policy
  as_levels :: "string \<rightharpoonup> scheduler_level"
  as_last_change_mono :: "string \<rightharpoonup> flt"
  as_last_fetch_mono :: "string \<rightharpoonup> flt"

definition new_scheduler :: "scheduler_policy \<Rightarrow> scheduler" where
  "new_scheduler policy =
     \<lparr>as_policy = policy, as_levels = Map.empty, as_last_change_mono = Map.empty, as_last_fetch_mono = Map.empty\<rparr>"

definition get_level :: "scheduler \<Rightarrow> string \<Rightarrow> scheduler_level" where
  "get_level s symbol = (case as_levels s symbol of None \<Rightarrow> COLD | Some l \<Rightarrow> l)"

definition required_dwell :: "scheduler_policy \<Rightarrow> scheduler_level \<Rightarrow> scheduler_level \<Rightarrow> flt" where
  "required_dwell p current target =
     (if level_rank target > level_rank current then sp_upgrade_dwell_s p
      else if current = HOT then sp_hot_downgrade_dwell_s p
      else sp_warm_downgrade_dwell_s p)"

definition dwell_elapsed ::
  "scheduler \<Rightarrow> fake_clock \<Rightarrow> string \<Rightarrow> scheduler_level \<Rightarrow> scheduler_level \<Rightarrow> bool" where
  "dwell_elapsed s clock symbol current target =
     (let required = required_dwell (as_policy s) current target
      in case as_last_change_mono s symbol of
           None \<Rightarrow> True
         | Some t \<Rightarrow> fc_mono clock - t \<ge> required)"

definition set_level ::
  "fake_clock \<Rightarrow> string \<Rightarrow> scheduler_level \<Rightarrow> bool \<Rightarrow> scheduler \<Rightarrow> bool \<times> scheduler" where
  "set_level clock symbol level force s =
     (let current = get_level s symbol
      in if level = current then
           (True, if as_levels s symbol = None then s\<lparr>as_levels := (as_levels s)(symbol \<mapsto> current)\<rparr> else s)
         else if \<not> force \<and> \<not> dwell_elapsed s clock symbol current level then (False, s)
         else (True,
           s\<lparr>as_levels := (as_levels s)(symbol \<mapsto> level),
             as_last_change_mono := (as_last_change_mono s)(symbol \<mapsto> fc_mono clock)\<rparr>))"

definition level_interval :: "scheduler_policy \<Rightarrow> scheduler_level \<Rightarrow> flt" where
  "level_interval p level =
     (if level = HOT then sp_hot_interval_s p
      else if level = WARM then sp_warm_interval_s p
      else sp_cold_interval_s p)"

definition is_due :: "scheduler \<Rightarrow> fake_clock \<Rightarrow> string \<Rightarrow> bool" where
  "is_due s clock symbol =
     (case as_last_fetch_mono s symbol of
        None \<Rightarrow> True
      | Some t \<Rightarrow> fc_mono clock - t \<ge> level_interval (as_policy s) (get_level s symbol))"

definition due_symbols :: "scheduler \<Rightarrow> fake_clock \<Rightarrow> string list \<Rightarrow> string list" where
  "due_symbols s clock symbols = filter (is_due s clock) symbols"

definition mark_fetched :: "fake_clock \<Rightarrow> string \<Rightarrow> scheduler \<Rightarrow> scheduler" where
  "mark_fetched clock symbol s = s\<lparr>as_last_fetch_mono := (as_last_fetch_mono s)(symbol \<mapsto> fc_mono clock)\<rparr>"

definition remaining_s :: "scheduler \<Rightarrow> fake_clock \<Rightarrow> string \<Rightarrow> flt" where
  "remaining_s s clock symbol =
     (case as_last_fetch_mono s symbol of
        None \<Rightarrow> 0
      | Some t \<Rightarrow> max 0 (level_interval (as_policy s) (get_level s symbol) - (fc_mono clock - t)))"

definition next_wait_s :: "scheduler \<Rightarrow> fake_clock \<Rightarrow> string list \<Rightarrow> flt" where
  "next_wait_s s clock symbols =
     (case map (remaining_s s clock) symbols of [] \<Rightarrow> 1 | r # rs \<Rightarrow> fold min rs r)"

section \<open>Warming requests\<close>

record warming_config =
  wc_hot_event_severity :: int
  wc_hot_volume_ratio_5m :: flt
  wc_hot_change_5m :: flt
  wc_warm_change_1m :: flt
  wc_warm_change_5m :: flt
  wc_warm_volume_ratio :: flt

definition default_warming_config :: warming_config where
  "default_warming_config =
     \<lparr>wc_hot_event_severity = 3, wc_hot_volume_ratio_5m = 2, wc_hot_change_5m = 12 / 1000,
      wc_warm_change_1m = 4 / 1000, wc_warm_change_5m = 8 / 1000, wc_warm_volume_ratio = 15 / 10\<rparr>"

record level_request =
  lr_symbol :: string
  lr_level :: scheduler_level
  lr_reason :: string

definition some_and :: "'a option \<Rightarrow> ('a \<Rightarrow> bool) \<Rightarrow> bool" where
  "some_and x P = (case x of None \<Rightarrow> False | Some v \<Rightarrow> P v)"

definition is_hot :: "warming_config \<Rightarrow> market_features option \<Rightarrow> market_event list \<Rightarrow> bool" where
  "is_hot cfg features events =
     (if list_ex (\<lambda>e. ev_severity e \<ge> wc_hot_event_severity cfg) events then True
      else if list_ex (\<lambda>e. ev_type e \<in> {DAY_HIGH_BREAKOUT, DAY_LOW_BREAKDOWN}) events then True
      else case features of
        None \<Rightarrow> False
      | Some f \<Rightarrow>
          if some_and (mf_volume_ratio_5m f) (\<lambda>r. r \<ge> wc_hot_volume_ratio_5m cfg) then True
          else if some_and (mf_change_5m f) (\<lambda>c. \<bar>c\<bar> \<ge> wc_hot_change_5m cfg) then True
          else if some_and (mf_session_high_ref f) (\<lambda>r. mf_session_high_obs f > r) then True
          else if some_and (mf_session_low_ref f) (\<lambda>r. mf_session_low_obs f < r) then True
          else False)"

definition is_warm :: "warming_config \<Rightarrow> market_features option \<Rightarrow> bool" where
  "is_warm cfg features =
     (case features of
        None \<Rightarrow> False
      | Some f \<Rightarrow>
          if some_and (mf_change_1m f) (\<lambda>c. \<bar>c\<bar> \<ge> wc_warm_change_1m cfg) then True
          else if some_and (mf_change_5m f) (\<lambda>c. \<bar>c\<bar> \<ge> wc_warm_change_5m cfg) then True
          else if some_and (mf_volume_ratio_1m f) (\<lambda>r. r \<ge> wc_warm_volume_ratio cfg) then True
          else if some_and (mf_volume_ratio_5m f) (\<lambda>r. r \<ge> wc_warm_volume_ratio cfg) then True
          else False)"

definition warming_request ::
  "warming_config \<Rightarrow> string \<Rightarrow> market_features option \<Rightarrow> market_event list \<Rightarrow> level_request" where
  "warming_request cfg symbol features events =
     (if is_hot cfg features events
      then \<lparr>lr_symbol = symbol, lr_level = HOT, lr_reason = ''strong''\<rparr>
      else if is_warm cfg features
      then \<lparr>lr_symbol = symbol, lr_level = WARM, lr_reason = ''precursor''\<rparr>
      else \<lparr>lr_symbol = symbol, lr_level = COLD, lr_reason = ''quiet''\<rparr>)"

section \<open>Waiting is exact\<close>

lemma is_due_iff_remaining:
  "0 \<le> d \<Longrightarrow> is_due s (clock_advance_monotonic clock d) symbol \<longleftrightarrow> remaining_s s clock symbol \<le> d"
  by (auto simp: is_due_def remaining_s_def clock_advance_monotonic_def split: option.split)

lemma fold_min_le: "fold min rs r \<le> (d :: 'a :: linorder) \<longleftrightarrow> (\<exists>x \<in> set (r # rs). x \<le> d)"
  by (induction rs arbitrary: r) (auto simp: min_le_iff_disj)

text \<open>C23: The wait is exact: after any delay some symbol is due if and only if the delay has reached
  the wait the scheduler announced, so a loop that sleeps for it wakes up with work and never later
  than work appears.\<close>

theorem next_wait_exact:
  assumes "symbols \<noteq> []" "0 \<le> d"
  shows "due_symbols s (clock_advance_monotonic clock d) symbols \<noteq> [] \<longleftrightarrow> next_wait_s s clock symbols \<le> d"
proof -
  obtain symbol rest where symbols: "symbols = symbol # rest" using assms(1) by (cases symbols) auto
  have "next_wait_s s clock symbols \<le> d \<longleftrightarrow> (\<exists>x \<in> set symbols. remaining_s s clock x \<le> d)"
    by (simp only: next_wait_s_def symbols list.map list.case fold_min_le) simp
  then show ?thesis
    using is_due_iff_remaining [OF assms(2)] by (auto simp: due_symbols_def filter_empty_conv)
qed

lemma set_level_frame:
  assumes "set_level clock symbol level force s = (ok, s')"
  shows "as_policy s' = as_policy s" "as_last_fetch_mono s' = as_last_fetch_mono s"
    "symbol' \<noteq> symbol \<Longrightarrow> get_level s' symbol' = get_level s symbol'"
    "symbol' \<noteq> symbol \<Longrightarrow> as_last_change_mono s' symbol' = as_last_change_mono s symbol'"
    "get_level s' symbol = (if ok then level else get_level s symbol)"
  using assms by (auto simp: set_level_def get_level_def Let_def split: if_splits option.splits)

section \<open>Levels dwell\<close>

text \<open>The level changes of one symbol in a sequence of unforced requests for many.\<close>

fun level_changes ::
  "string \<Rightarrow> (fake_clock \<times> string \<times> scheduler_level) list \<Rightarrow> scheduler
    \<Rightarrow> (flt \<times> scheduler_level \<times> scheduler_level) list" where
  "level_changes symbol [] s = []"
| "level_changes symbol ((clock, other, level) # requests) s =
     (let s' = snd (set_level clock other level False s)
      in (if get_level s' symbol \<noteq> get_level s symbol
          then [(fc_mono clock, get_level s symbol, get_level s' symbol)] else [])
         @ level_changes symbol requests s')"

text \<open>How long the policy makes a symbol stay, by the move it makes.\<close>

fun policy_dwell :: "scheduler_policy \<Rightarrow> scheduler_level \<Rightarrow> scheduler_level \<Rightarrow> flt" where
  "policy_dwell p HOT to = sp_hot_downgrade_dwell_s p"
| "policy_dwell p WARM HOT = sp_upgrade_dwell_s p"
| "policy_dwell p WARM to = sp_warm_downgrade_dwell_s p"
| "policy_dwell p COLD to = sp_upgrade_dwell_s p"

lemma required_dwell_policy: "from \<noteq> to \<Longrightarrow> required_dwell p from to = policy_dwell p from to"
  by (cases "from"; cases "to") (simp_all add: required_dwell_def)

lemma set_level_change:
  assumes "set_level clock other level False s = (ok, s')" "get_level s' symbol \<noteq> get_level s symbol"
  shows "as_last_change_mono s' symbol = Some (fc_mono clock)"
    "as_last_change_mono s symbol = Some t \<Longrightarrow>
      policy_dwell (as_policy s) (get_level s symbol) (get_level s' symbol) \<le> fc_mono clock - t"
  using assms required_dwell_policy [of "get_level s symbol" "get_level s' symbol"]
  by (auto simp: set_level_def dwell_elapsed_def get_level_def Let_def split: if_splits option.splits)

lemma set_level_no_change:
  assumes "set_level clock other level False s = (ok, s')" "get_level s' symbol = get_level s symbol"
  shows "as_last_change_mono s' symbol = as_last_change_mono s symbol"
  using assms by (auto simp: set_level_def get_level_def Let_def split: if_splits option.splits)

abbreviation dwelt ::
  "scheduler_policy \<Rightarrow> flt \<times> scheduler_level \<times> scheduler_level \<Rightarrow> flt \<times> scheduler_level \<times> scheduler_level \<Rightarrow> bool" where
  "dwelt p a b \<equiv> fst (snd b) = snd (snd a) \<and> policy_dwell p (fst (snd b)) (snd (snd b)) \<le> fst b - fst a"

lemma level_changes_from:
  assumes "as_last_change_mono s symbol = Some t" "level = get_level s symbol"
  shows "successively (dwelt (as_policy s)) ((t, before, level) # level_changes symbol requests s)"
  using assms
proof (induction requests arbitrary: s t before level)
  case (Cons r requests)
  obtain clock other target where r: "r = (clock, other, target)" by (metis surj_pair)
  obtain ok s' where s': "set_level clock other target False s = (ok, s')" by (rule prod.exhaust)
  have policy: "as_policy s' = as_policy s" using set_level_frame(1) [OF s'] .
  show ?case
  proof (cases "get_level s' symbol = get_level s symbol")
    case True
    then have "as_last_change_mono s' symbol = Some t" using set_level_no_change [OF s'] Cons.prems(1) by simp
    then show ?thesis
      using Cons.IH [of s' t level before] True Cons.prems(2) by (simp add: r s' Let_def policy)
  next
    case False
    note change = set_level_change [OF s' False]
    show ?thesis
      using Cons.IH [OF change(1) refl, of "get_level s symbol"] change(2) [OF Cons.prems(1)] False Cons.prems(2)
      by (simp add: r s' Let_def policy)
  qed
qed simp

text \<open>C22: Attention does not flap: in any sequence of unforced requests, for any mix of symbols, two
  successive level changes of a symbol lie at least the dwell apart that the policy requires for the
  second one, and each starts from the level the one before set.\<close>

theorem level_changes_dwell:
  "successively (dwelt (as_policy s)) (level_changes symbol requests s)"
proof (induction requests arbitrary: s)
  case (Cons r requests)
  obtain clock other target where r: "r = (clock, other, target)" by (metis surj_pair)
  obtain ok s' where s': "set_level clock other target False s = (ok, s')" by (rule prod.exhaust)
  have policy: "as_policy s' = as_policy s" using set_level_frame(1) [OF s'] .
  show ?case
  proof (cases "get_level s' symbol = get_level s symbol")
    case True
    then show ?thesis using Cons.IH [of s'] by (simp add: r s' Let_def policy)
  next
    case False
    then show ?thesis
      using level_changes_from [OF set_level_change(1) [OF s' False] refl, of "get_level s symbol" requests]
      by (simp add: r s' Let_def policy)
  qed
qed simp

section \<open>What the detector finds is watched closely\<close>

lemma run_rules_from:
  "e \<in> set (fst (run_rules uuid rules previous current detected_at n acc)) \<Longrightarrow>
   e \<in> set acc \<or> (\<exists>r \<in> set rules. \<exists>m. e \<in> set (fst (r uuid previous current detected_at m)))"
proof (induction rules arbitrary: n acc)
  case (Cons r rules)
  obtain new m where r: "r uuid previous current detected_at n = (new, m)" by (rule prod.exhaust)
  have "e \<in> set (acc @ new) \<or> (\<exists>r \<in> set rules. \<exists>m. e \<in> set (fst (r uuid previous current detected_at m)))"
    using Cons.IH [of m "acc @ new"] Cons.prems by (simp add: r)
  then show ?case using r by (metis Un_iff fst_conv list.set_intros set_append)
qed simp

lemma rapid_move_warm:
  "rapid_move_severity (mf_change_1m f) (mf_change_5m f) = Some v \<Longrightarrow> is_warm default_warming_config (Some f)"
  by (auto simp: rapid_move_severity_def threshold_defs is_warm_def default_warming_config_def some_and_def Let_def
      split: option.splits if_splits)

lemma volume_spike_warm:
  "volume_spike_severity (mf_volume_ratio_1m f) (mf_volume_ratio_5m f) = Some v \<Longrightarrow> is_warm default_warming_config (Some f)"
  by (auto simp: volume_spike_severity_def threshold_defs is_warm_def default_warming_config_def some_and_def Let_def
      split: option.splits if_splits)

lemma rule_event_warm:
  assumes "r \<in> set default_rules" "e \<in> set (fst (r uuid previous current t m))" "ev_type e \<noteq> VWAP_CROSS"
  shows "is_warm default_warming_config (Some current) \<or> ev_type e \<in> {DAY_HIGH_BREAKOUT, DAY_LOW_BREAKDOWN}"
proof -
  have "r = rapid_move_rule \<or> r = volume_spike_rule \<or> r = price_volume_expansion_rule
      \<or> r = day_high_breakout_rule \<or> r = day_low_breakdown_rule \<or> r = vwap_cross_rule"
    using assms(1) by (simp add: default_rules_def)
  then show ?thesis
    using assms(2,3) rapid_move_warm volume_spike_warm
    by (elim disjE; simp add: rapid_move_rule_def volume_spike_rule_def price_volume_expansion_rule_def
        day_high_breakout_rule_def day_low_breakdown_rule_def vwap_cross_rule_def Let_def
        split: option.splits if_splits)
qed

text \<open>What the detector finds is watched more closely: if any accepted event of the tick is one
  the default detector built from the current features, other than a VWAP cross, the warming
  policy never asks for the cold level, and for a day-range breakout or a severity of three or more it
  asks for the hot one.\<close>

theorem detected_event_keeps_attention:
  assumes "e \<in> set (fst (detector_evaluate uuid default_rules clock previous current n))" "e \<in> set accepted"
  shows "(ev_type e \<noteq> VWAP_CROSS \<longrightarrow> lr_level (warming_request default_warming_config symbol (Some current) accepted) \<noteq> COLD)
    \<and> (ev_type e \<in> {DAY_HIGH_BREAKOUT, DAY_LOW_BREAKDOWN} \<or> 3 \<le> ev_severity e \<longrightarrow>
        lr_level (warming_request default_warming_config symbol (Some current) accepted) = HOT)"
proof (intro conjI impI)
  have breakout: "is_hot default_warming_config (Some current) accepted"
    if "ev_type e \<in> {DAY_HIGH_BREAKOUT, DAY_LOW_BREAKDOWN} \<or> 3 \<le> ev_severity e"
    using that assms(2) by (auto simp: is_hot_def list_ex_iff default_warming_config_def)
  then show "lr_level (warming_request default_warming_config symbol (Some current) accepted) = HOT"
    if "ev_type e \<in> {DAY_HIGH_BREAKOUT, DAY_LOW_BREAKDOWN} \<or> 3 \<le> ev_severity e"
    using that by (simp add: warming_request_def)
  assume "ev_type e \<noteq> VWAP_CROSS"
  moreover obtain r m where "r \<in> set default_rules" "e \<in> set (fst (r uuid previous current (fc_wall clock) m))"
    using run_rules_from [of e uuid default_rules previous current "fc_wall clock" n "[]"] assms(1)
    by (auto simp: detector_evaluate_def)
  ultimately have "is_warm default_warming_config (Some current) \<or> ev_type e \<in> {DAY_HIGH_BREAKOUT, DAY_LOW_BREAKDOWN}"
    by (intro rule_event_warm)
  then show "lr_level (warming_request default_warming_config symbol (Some current) accepted) \<noteq> COLD"
    using breakout by (cases "is_warm default_warming_config (Some current)") (simp_all add: warming_request_def)
qed

theorem next_wait_exact_witness:
  "next_wait_s (mark_fetched \<lparr>fc_wall = 0, fc_mono = 5\<rparr> ''A'' (new_scheduler default_scheduler_policy))
     \<lparr>fc_wall = 0, fc_mono = 7\<rparr> [''A''] = 8
   \<and> due_symbols (mark_fetched \<lparr>fc_wall = 0, fc_mono = 5\<rparr> ''A'' (new_scheduler default_scheduler_policy))
     (clock_advance_monotonic \<lparr>fc_wall = 0, fc_mono = 7\<rparr> 8) [''A''] \<noteq> []"
proof -
  have w: "next_wait_s (mark_fetched \<lparr>fc_wall = 0, fc_mono = 5\<rparr> ''A'' (new_scheduler default_scheduler_policy))
     \<lparr>fc_wall = 0, fc_mono = 7\<rparr> [''A''] = 8" by code_simp
  show ?thesis by (rule conjI [OF w]) (subst next_wait_exact, simp_all add: w)
qed

theorem detected_event_keeps_attention_witness:
  "lr_level (warming_request default_warming_config ''600000.SH'' (Some quiet_features)
     (fst (detector_evaluate show_nat default_rules \<lparr>fc_wall = 1, fc_mono = 1\<rparr> None quiet_features 0))) \<noteq> COLD"
proof -
  let ?events = "fst (detector_evaluate show_nat default_rules \<lparr>fc_wall = 1, fc_mono = 1\<rparr> None quiet_features 0)"
  have e: "hd ?events \<in> set ?events" "ev_type (hd ?events) \<noteq> VWAP_CROSS" by code_simp+
  show ?thesis using detected_event_keeps_attention [OF e(1) e(1)] e(2) by simp
qed

end
