(* ===== verification/Watchlist.thy ===== *)
theory Watchlist
  imports Domain
begin

text \<open>
  \<open>watchlist/watchlist.py\<close>: the bounded, ordered list of watched symbols and its JSON file. The
  file is modelled by the JSON value it holds, since \<open>json.loads\<close> inverts \<open>json.dumps\<close> on the
  payload the watchlist writes; text that is not JSON is a case of its own.
\<close>

section \<open>State and operations\<close>

datatype json_file = Missing | Garbled | Json pyval

record watchlist =
  wl_path :: bool
  wl_limit :: int
  wl_persist :: bool
  wl_items :: "(string, watch_item) dict"

text \<open>Every operation that saves returns the list and the file.\<close>

type_synonym stored = "watchlist \<times> json_file"

definition watch_payload :: "(string, watch_item) dict \<Rightarrow> pyval" where
  "watch_payload items =
     PyDict [(''items'', PyList (map (\<lambda>(k, item).
        PyDict [(''symbol'', PyStr (wi_symbol item)), (''enabled'', PyBool (wi_enabled item))]) items))]"

definition wl_save :: "stored \<Rightarrow> stored" where
  "wl_save = (\<lambda>(w, file).
     if \<not> wl_persist w \<or> \<not> wl_path w then (w, file) else (w, Json (watch_payload (wl_items w))))"

definition wl_add :: "string \<Rightarrow> stored \<Rightarrow> (watch_item \<times> stored) res" where
  "wl_add symbol = (\<lambda>(w, file).
     case dict_get (wl_items w) symbol of
       Some existing \<Rightarrow> Inr (existing, (w, file))
     | None \<Rightarrow>
         if int (length (wl_items w)) \<ge> wl_limit w then Inl WatchlistFullError
         else
           let item = \<lparr>wi_symbol = symbol, wi_enabled = True\<rparr>
           in Inr (item, wl_save (w\<lparr>wl_items := dict_set symbol item (wl_items w)\<rparr>, file)))"

definition wl_require :: "string \<Rightarrow> watchlist \<Rightarrow> watch_item res" where
  "wl_require symbol w =
     (case dict_get (wl_items w) symbol of
        None \<Rightarrow> Inl (WatchlistSymbolError (''unknown symbol: '' @ symbol))
      | Some item \<Rightarrow> Inr item)"

definition wl_remove :: "string \<Rightarrow> stored \<Rightarrow> stored res" where
  "wl_remove symbol = (\<lambda>(w, file).
     res_bind (wl_require symbol w) (\<lambda>_. Inr (wl_save (w\<lparr>wl_items := dict_pop symbol (wl_items w)\<rparr>, file))))"

fun collect_items :: "watch_item list \<Rightarrow> (string, watch_item) dict \<Rightarrow> (string, watch_item) dict res" where
  "collect_items [] seen = Inr seen"
| "collect_items (item # items) seen =
     (if dict_get seen (wi_symbol item) \<noteq> None
      then Inl (WatchlistSymbolError (''duplicate symbol: '' @ wi_symbol item))
      else collect_items items (dict_set (wi_symbol item) item seen))"

definition wl_replace :: "watch_item list \<Rightarrow> stored \<Rightarrow> stored res" where
  "wl_replace items = (\<lambda>(w, file).
     res_bind (collect_items items []) (\<lambda>seen.
       if int (length seen) > wl_limit w then Inl WatchlistFullError
       else Inr (wl_save (w\<lparr>wl_items := seen\<rparr>, file))))"

definition wl_list :: "watchlist \<Rightarrow> watch_item list" where
  "wl_list w = map snd (wl_items w)"

definition enabled_symbols :: "watchlist \<Rightarrow> string list" where
  "enabled_symbols w = map wi_symbol (filter wi_enabled (wl_list w))"

definition wl_set_enabled :: "string \<Rightarrow> bool \<Rightarrow> stored \<Rightarrow> (watch_item \<times> stored) res" where
  "wl_set_enabled symbol enabled = (\<lambda>(w, file).
     res_bind (wl_require symbol w) (\<lambda>item.
       let updated = \<lparr>wi_symbol = wi_symbol item, wi_enabled = enabled\<rparr>
       in Inr (updated, wl_save (w\<lparr>wl_items := dict_set symbol updated (wl_items w)\<rparr>, file))))"

subsection \<open>Loading\<close>

text \<open>
  Reading back: \<open>str()\<close> of a symbol that is not a string is the parameter \<open>to_str\<close>, and
  \<open>bool()\<close> is Python's truth.
\<close>

fun truthy :: "pyval \<Rightarrow> bool" where
  "truthy PyNone = False"
| "truthy (PyBool b) = b"
| "truthy (PyInt i) = (i \<noteq> 0)"
| "truthy (PyFloat x) = (x \<noteq> Fin 0)"
| "truthy (PyStr s) = (s \<noteq> [])"
| "truthy (PyList xs) = (xs \<noteq> [])"
| "truthy (PyDict d) = (d \<noteq> [])"

definition str_of :: "(pyval \<Rightarrow> string) \<Rightarrow> pyval \<Rightarrow> string" where
  "str_of to_str v = (case v of PyStr s \<Rightarrow> s | _ \<Rightarrow> to_str v)"

definition load_item :: "(pyval \<Rightarrow> string) \<Rightarrow> pyval \<Rightarrow> watch_item res" where
  "load_item to_str raw =
     (case raw of
        PyDict d \<Rightarrow>
          (case dict_get d ''symbol'' of
             None \<Rightarrow> Inl (KeyError ''symbol'')
           | Some s \<Rightarrow> Inr
               \<lparr>wi_symbol = str_of to_str s,
                wi_enabled = truthy (case dict_get d ''enabled'' of None \<Rightarrow> PyBool True | Some v \<Rightarrow> v)\<rparr>)
      | _ \<Rightarrow> Inl TypeError)"

fun load_items ::
  "(pyval \<Rightarrow> string) \<Rightarrow> pyval list \<Rightarrow> (string, watch_item) dict \<Rightarrow> (string, watch_item) dict res" where
  "load_items to_str [] items = Inr items"
| "load_items to_str (raw # rest) items =
     res_bind (load_item to_str raw) (\<lambda>item.
       load_items to_str rest (dict_set (wi_symbol item) item items))"

text \<open>Iterating a string or a dictionary yields strings, which \<open>raw["symbol"]\<close> rejects.\<close>

definition wl_load :: "(pyval \<Rightarrow> string) \<Rightarrow> stored \<Rightarrow> watchlist res" where
  "wl_load to_str = (\<lambda>(w, file).
     case file of
       Missing \<Rightarrow> Inr w
     | Garbled \<Rightarrow> Inl (ValueError ''not JSON'')
     | Json (PyDict d) \<Rightarrow>
         (case dict_get d ''items'' of
            None \<Rightarrow> Inr w
          | Some (PyList raws) \<Rightarrow>
              res_bind (load_items to_str raws (wl_items w)) (\<lambda>items. Inr (w\<lparr>wl_items := items\<rparr>))
          | Some (PyDict e) \<Rightarrow> if e = [] then Inr w else Inl TypeError
          | Some (PyStr s) \<Rightarrow> if s = [] then Inr w else Inl TypeError
          | Some _ \<Rightarrow> Inl TypeError)
     | Json _ \<Rightarrow> Inl AttributeError)"

definition new_watchlist ::
  "(pyval \<Rightarrow> string) \<Rightarrow> bool \<Rightarrow> int \<Rightarrow> bool \<Rightarrow> json_file \<Rightarrow> watchlist res" where
  "new_watchlist to_str path limit persist file =
     (if persist \<and> \<not> path then Inl (ValueError ''persistent watchlist requires a path'')
      else
        let w = \<lparr>wl_path = path, wl_limit = limit, wl_persist = persist, wl_items = []\<rparr>
        in if persist then wl_load to_str (w, file) else Inr w)"

section \<open>Invariant\<close>

text \<open>Items are filed under their own symbol, once each, within the limit.\<close>

definition wl_ok :: "watchlist \<Rightarrow> bool" where
  "wl_ok w \<longleftrightarrow>
     dict_wf (wl_items w) \<and> (\<forall>(k, item) \<in> set (wl_items w). wi_symbol item = k)
     \<and> int (length (wl_items w)) \<le> wl_limit w"

text \<open>What is on disk is what is in memory, for a list that persists.\<close>

definition wl_saved :: "stored \<Rightarrow> bool" where
  "wl_saved = (\<lambda>(w, file). wl_persist w \<longrightarrow> wl_path w \<and> file = Json (watch_payload (wl_items w)))"

definition items_ok :: "(string, watch_item) dict \<Rightarrow> bool" where
  "items_ok d \<longleftrightarrow> dict_wf d \<and> (\<forall>(k, item) \<in> set d. wi_symbol item = k)"

lemma items_ok_iff: "items_ok d \<longleftrightarrow> dict_wf d \<and> (\<forall>k item. dict_get d k = Some item \<longrightarrow> wi_symbol item = k)"
proof -
  have "dict_wf d \<Longrightarrow> (\<forall>(k, item) \<in> set d. wi_symbol item = k) \<longleftrightarrow>
      (\<forall>k item. dict_get d k = Some item \<longrightarrow> wi_symbol item = k)"
    by (auto simp flip: dict_wf_in_set)
  then show ?thesis by (auto simp: items_ok_def)
qed

lemma items_ok_set: "items_ok d \<Longrightarrow> wi_symbol item = k \<Longrightarrow> items_ok (dict_set k item d)"
  by (simp add: items_ok_iff dict_wf_set dict_lookup)

lemma items_ok_pop: "items_ok d \<Longrightarrow> items_ok (dict_pop k d)"
  by (simp add: items_ok_iff dict_wf_pop dict_lookup)

lemma wl_ok_items: "wl_ok w \<longleftrightarrow> items_ok (wl_items w) \<and> int (length (wl_items w)) \<le> wl_limit w"
  by (simp add: wl_ok_def items_ok_def)

lemma items_ok_get: "items_ok d \<Longrightarrow> dict_get d k = Some item \<Longrightarrow> wi_symbol item = k"
  by (simp add: items_ok_iff)

lemma collect_items_ok:
  "collect_items items seen = Inr d \<Longrightarrow> items_ok seen \<Longrightarrow> items_ok d \<and> map snd d = map snd seen @ items"
proof (induction items arbitrary: seen)
  case (Cons item items)
  then have new: "dict_get seen (wi_symbol item) = None"
    "collect_items items (dict_set (wi_symbol item) item seen) = Inr d" by (auto split: if_splits)
  then show ?case
    using Cons.IH [OF new(2) items_ok_set [OF Cons.prems(2) refl]] by (simp add: dict_set_new)
qed simp

lemma length_dict_pop: "length (dict_pop k d) \<le> length d"
  by (simp add: AList.delete_eq)

lemma wl_save_frame: "wl_save (w, file) = (w', file') \<Longrightarrow> w' = w"
  by (auto simp: wl_save_def split: if_splits)

text \<open>The commands of the list, and their run: a command that raises changes nothing.\<close>

datatype watch_command =
    Add string
  | Remove string
  | SetEnabled string bool
  | Replace "watch_item list"

fun watch_step :: "watch_command \<Rightarrow> stored \<Rightarrow> stored res" where
  "watch_step (Add symbol) s = res_bind (wl_add symbol s) (\<lambda>(item, s). Inr s)"
| "watch_step (Remove symbol) s = wl_remove symbol s"
| "watch_step (SetEnabled symbol b) s = res_bind (wl_set_enabled symbol b s) (\<lambda>(item, s). Inr s)"
| "watch_step (Replace items) s = wl_replace items s"

fun watch_run :: "watch_command list \<Rightarrow> stored \<Rightarrow> stored" where
  "watch_run [] s = s"
| "watch_run (c # cs) s = watch_run cs (case watch_step c s of Inl e \<Rightarrow> s | Inr s' \<Rightarrow> s')"

lemma wl_save_ok: "wl_ok w \<Longrightarrow> (wl_persist w \<longrightarrow> wl_path w) \<Longrightarrow> wl_ok (fst (wl_save (w, file))) \<and> wl_saved (wl_save (w, file))"
  by (auto simp: wl_save_def wl_saved_def)

text \<open>What a command that succeeds does: nothing, or it saves new items, which are within the limit or no more than before.\<close>

lemma watch_step_cases:
  assumes "watch_step c (w, file) = Inr s'" "items_ok (wl_items w)"
  obtains "s' = (w, file)"
  | d where "s' = wl_save (w\<lparr>wl_items := d\<rparr>, file)" "items_ok d"
      "int (length d) \<le> wl_limit w \<or> length d \<le> length (wl_items w)"
proof (cases c)
  case (Add symbol)
  show thesis
  proof (cases "dict_get (wl_items w) symbol")
    case None
    let ?d = "dict_set symbol \<lparr>wi_symbol = symbol, wi_enabled = True\<rparr> (wl_items w)"
    have "\<not> int (length (wl_items w)) \<ge> wl_limit w" "s' = wl_save (w\<lparr>wl_items := ?d\<rparr>, file)"
      using assms(1) None by (auto simp: Add wl_add_def Let_def split: if_splits)
    moreover have "items_ok ?d" using assms(2) by (intro items_ok_set) simp_all
    ultimately show thesis using None by (intro that(2) [of ?d]) (simp_all add: length_dict_set)
  next
    case (Some item)
    then show thesis using assms that(1) by (auto simp: Add wl_add_def)
  qed
next
  case (Remove symbol)
  have "s' = wl_save (w\<lparr>wl_items := dict_pop symbol (wl_items w)\<rparr>, file)"
    using assms(1) by (auto simp: Remove wl_remove_def res_simps)
  then show thesis using assms(2) items_ok_pop length_dict_pop [of symbol "wl_items w"]
    by (intro that(2) [of "dict_pop symbol (wl_items w)"]) auto
next
  case (SetEnabled symbol b)
  obtain item where item: "dict_get (wl_items w) symbol = Some item"
    "s' = wl_save (w\<lparr>wl_items := dict_set symbol \<lparr>wi_symbol = wi_symbol item, wi_enabled = b\<rparr> (wl_items w)\<rparr>, file)"
    using assms(1) by (auto simp: SetEnabled wl_set_enabled_def wl_require_def Let_def res_simps split: option.splits)
  then show thesis
    using assms(2) items_ok_get [OF _ item(1)] by (intro that(2) [OF item(2)] items_ok_set) (simp_all add: length_dict_set)
next
  case (Replace new)
  obtain d where d: "collect_items new [] = Inr d" "\<not> int (length d) > wl_limit w"
    "s' = wl_save (w\<lparr>wl_items := d\<rparr>, file)"
    using assms(1) by (auto simp: Replace wl_replace_def res_simps split: if_splits)
  then show thesis
    using collect_items_ok [OF d(1)] by (intro that(2) [OF d(3)]) (simp_all add: items_ok_def)
qed

lemma watch_step_ok:
  assumes "watch_step c (w, file) = Inr s'" "wl_ok w" "wl_saved (w, file)"
  shows "wl_ok (fst s') \<and> wl_saved s'"
proof -
  note items = assms(2) [unfolded wl_ok_items]
  show ?thesis
  proof (rule watch_step_cases [OF assms(1) conjunct1 [OF items]])
    fix d assume d: "s' = wl_save (w\<lparr>wl_items := d\<rparr>, file)" "items_ok d"
      "int (length d) \<le> wl_limit w \<or> length d \<le> length (wl_items w)"
    then show ?thesis
      using items assms(3) wl_save_ok [of "w\<lparr>wl_items := d\<rparr>" "file"] by (auto simp: wl_ok_items wl_saved_def)
  qed (use assms in simp)
qed

lemma watch_run_inv:
  "wl_ok (fst s) \<Longrightarrow> wl_saved s \<Longrightarrow> wl_ok (fst (watch_run cs s)) \<and> wl_saved (watch_run cs s)"
proof (induction cs arbitrary: s)
  case (Cons c cs)
  show ?case
  proof (cases "watch_step c s")
    case (Inl e)
    then show ?thesis using Cons by simp
  next
    case (Inr s')
    then show ?thesis
      using Cons.IH [of s'] watch_step_ok [of c "fst s" "snd s" s'] Cons.prems by simp
  qed
qed simp

section \<open>Round trip\<close>

lemma load_items_payload:
  assumes "items_ok (d @ rest)"
  shows "load_items to_str (map (\<lambda>(k, item). PyDict [(''symbol'', PyStr (wi_symbol item)), (''enabled'', PyBool (wi_enabled item))]) rest) d
    = Inr (d @ rest)"
  using assms
proof (induction rest arbitrary: d)
  case (Cons p rest)
  obtain k item where p: "p = (k, item)" by (rule prod.exhaust)
  have sym: "wi_symbol item = k" "dict_get d k = None"
    using Cons.prems by (auto simp: items_ok_def dict_wf_def p map_of_eq_None_iff)
  have "dict_set (wi_symbol item) item d = d @ [(k, item)]" using sym dict_set_new by metis
  moreover have "items_ok ((d @ [(k, item)]) @ rest)" using Cons.prems by (simp add: p)
  moreover have "load_item to_str (PyDict [(''symbol'', PyStr (wi_symbol item)), (''enabled'', PyBool (wi_enabled item))])
      = Inr item"
    by (simp add: load_item_def str_of_def)
  ultimately show ?case using Cons.IH [of "d @ [(k, item)]"] by (simp add: p)
qed simp

lemma load_saved:
  assumes "items_ok (wl_items w)" "wl_path w" "wl_persist w"
  shows "new_watchlist to_str True (wl_limit w) True (Json (watch_payload (wl_items w))) = Inr w"
proof -
  have "items_ok ([] @ wl_items w)" using assms(1) by simp
  from load_items_payload [OF this] show ?thesis
    using assms(2,3) by (simp add: new_watchlist_def wl_load_def watch_payload_def Let_def)
qed

lemma load_items_ok: "load_items to_str raws d = Inr d' \<Longrightarrow> items_ok d \<Longrightarrow> items_ok d'"
proof (induction raws arbitrary: d)
  case (Cons raw raws)
  then obtain item where item: "load_items to_str raws (dict_set (wi_symbol item) item d) = Inr d'" by (auto simp: res_simps)
  show ?case by (rule Cons.IH [OF item items_ok_set [OF Cons.prems(2) refl]])
qed simp

text \<open>A list that the program can restart from: its file, whatever wrote it, loads as the list in memory.\<close>

definition restartable :: "(pyval \<Rightarrow> string) \<Rightarrow> int \<Rightarrow> stored \<Rightarrow> bool" where
  "restartable to_str limit = (\<lambda>(w, file).
     items_ok (wl_items w) \<and> wl_path w \<and> wl_persist w \<and> wl_limit w = limit \<and> new_watchlist to_str True limit True file = Inr w)"

lemma loaded_restartable:
  assumes "new_watchlist to_str True limit True file = Inr w"
  shows "restartable to_str limit (w, file)"
proof -
  let ?new = "\<lparr>wl_path = True, wl_limit = limit, wl_persist = True, wl_items = []\<rparr>"
  have new: "items_ok (wl_items ?new)" by (simp add: items_ok_def dict_wf_def)
  have load: "wl_load to_str (?new, file) = Inr w" using assms by (simp add: new_watchlist_def)
  have "w = ?new \<or> (\<exists>raws items. load_items to_str raws (wl_items ?new) = Inr items \<and> w = ?new\<lparr>wl_items := items\<rparr>)"
  proof (cases "\<exists>d raws. file = Json (PyDict d) \<and> dict_get d ''items'' = Some (PyList raws)")
    case True
    then show ?thesis using load by (auto simp: wl_load_def res_simps) blast
  next
    case False
    then have "w = ?new"
      using load by (cases "file") (auto simp: wl_load_def split: pyval.splits option.splits if_splits)
    then show ?thesis ..
  qed
  then show ?thesis
    using load_items_ok [OF _ new] new assms by (auto simp: restartable_def)
qed

lemma watch_step_restartable:
  assumes "watch_step c s = Inr s'" "restartable to_str limit s"
  shows "restartable to_str limit s'
    \<and> int (length (wl_items (fst s'))) \<le> max limit (int (length (wl_items (fst s))))"
proof -
  obtain w f where s: "s = (w, f)" by (rule prod.exhaust)
  note ok = assms(2) [unfolded s restartable_def prod.case]
  show ?thesis
  proof (rule watch_step_cases [OF assms(1) [unfolded s] conjunct1 [OF ok]])
    fix d assume d: "s' = wl_save (w\<lparr>wl_items := d\<rparr>, f)" "items_ok d"
      "int (length d) \<le> wl_limit w \<or> length d \<le> length (wl_items w)"
    then have "s' = (w\<lparr>wl_items := d\<rparr>, Json (watch_payload d))" using ok by (simp add: wl_save_def)
    moreover have "new_watchlist to_str True limit True (Json (watch_payload d)) = Inr (w\<lparr>wl_items := d\<rparr>)"
      using load_saved [of "w\<lparr>wl_items := d\<rparr>" to_str] d(2) ok by simp
    ultimately show ?thesis using d(2,3) ok by (auto simp: s restartable_def)
  qed (use assms(2) s in simp)
qed

lemma watch_run_restartable:
  "restartable to_str limit s \<Longrightarrow> restartable to_str limit (watch_run cs s)
    \<and> int (length (wl_items (fst (watch_run cs s)))) \<le> max limit (int (length (wl_items (fst s))))"
proof (induction cs arbitrary: s)
  case (Cons c cs)
  show ?case
  proof (cases "watch_step c s")
    case (Inl e)
    then show ?thesis using Cons by simp
  next
    case (Inr s')
    note step = watch_step_restartable [OF Inr Cons.prems]
    with Cons.IH [of s'] show ?thesis by (auto simp: Inr)
  qed
qed simp

text \<open>C24: Restarting loses nothing. Whatever the file holds when the program starts, none at all included, if it loads then
  after any commands, the failed ones included, loading the file again gives back exactly the list in memory, in the same
  order and with the same switches. No symbol is listed twice, and the list is never longer than its limit or, loading
  not checking the limit, than what it found on disk. Files are taken to be written whole.\<close>

theorem watchlist_restart:
  assumes "new_watchlist to_str True limit True file = Inr w" "watch_run cs (w, file) = (w', file')"
  shows "new_watchlist to_str True limit True file' = Inr w'
    \<and> distinct (map wi_symbol (wl_list w'))
    \<and> int (length (wl_list w')) \<le> max limit (int (length (wl_list w)))"
proof -
  have run: "restartable to_str limit (w', file')" "int (length (wl_items w')) \<le> max limit (int (length (wl_items w)))"
    using watch_run_restartable [OF loaded_restartable [OF assms(1)], of cs] by (simp_all add: assms(2))
  have "map wi_symbol (wl_list w') = map fst (wl_items w')" "distinct (map fst (wl_items w'))"
    using run(1) by (auto simp: restartable_def items_ok_def dict_wf_def wl_list_def)
  then show ?thesis using run by (simp only: restartable_def prod.case wl_list_def length_map)
qed

text \<open>Adding is bounded and idempotent, and a command that fails leaves the list as it was: a symbol
  already listed is returned unchanged even when the list is full, a new one is refused exactly when
  the limit is reached, and otherwise is appended, enabled, at the end.\<close>

theorem wl_add_spec:
  shows "wl_add symbol (w, file) =
    (case dict_get (wl_items w) symbol of
       Some existing \<Rightarrow> Inr (existing, (w, file))
     | None \<Rightarrow>
         if wl_limit w \<le> int (length (wl_list w)) then Inl WatchlistFullError
         else Inr (\<lparr>wi_symbol = symbol, wi_enabled = True\<rparr>,
           wl_save (w\<lparr>wl_items := wl_items w @ [(symbol, \<lparr>wi_symbol = symbol, wi_enabled = True\<rparr>)]\<rparr>, file)))"
  by (simp add: wl_add_def wl_list_def Let_def dict_set_new split: option.split)

definition sample_watch_file :: json_file where
  "sample_watch_file =
     Json (PyDict [(''items'', PyList (map (\<lambda>c. PyDict [(''symbol'', PyStr [c])]) ''ABC''))])"

text \<open>Three symbols on disk and a limit of two: the loaded list is longer, and neither grows nor is cut.\<close>

theorem watchlist_restart_witness:
  "\<exists>w w' file'. new_watchlist (\<lambda>_. []) True 2 True sample_watch_file = Inr w
     \<and> watch_run [Add ''D'', SetEnabled ''A'' False] (w, sample_watch_file) = (w', file')
     \<and> new_watchlist (\<lambda>_. []) True 2 True file' = Inr w' \<and> length (wl_list w') = 3"
proof -
  let ?loaded = "new_watchlist (\<lambda>_. []) True 2 True sample_watch_file"
  let ?cs = "[Add ''D'', SetEnabled ''A'' False]"
  have "\<not> raises ?loaded" by code_simp
  then obtain w where w: "?loaded = Inr w" by (auto simp: not_raises_iff)
  obtain w' file' where run: "watch_run ?cs (w, sample_watch_file) = (w', file')" by (rule prod.exhaust)
  have "length (wl_list (fst (watch_run ?cs (projr ?loaded, sample_watch_file)))) = 3" by code_simp
  then have "length (wl_list w') = 3" by (simp only: w sum.sel run fst_conv)
  then show ?thesis using watchlist_restart [OF w run] w run by blast
qed

end
