(* ===== verification/Providers.thy ===== *)
theory Providers
  imports Normalizer
begin

text \<open>
  \<open>providers/base.py\<close>, \<open>fake.py\<close>, \<open>replay.py\<close> and \<open>longbridge.py\<close>: where quotes come from. The
  locale \<open>market_provider\<close> is what the engine relies on; \<open>scoped_provider\<close> adds that only requested
  symbols are returned, which the vendor's adapter cannot promise.
\<close>

section \<open>The contract\<close>

type_synonym 'p fetch = "'p \<Rightarrow> fake_clock \<Rightarrow> string list \<Rightarrow> market_snapshot list res \<times> 'p"

locale market_provider =
  fixes fetch :: "'p \<Rightarrow> fake_clock \<Rightarrow> string list \<Rightarrow> market_snapshot list res \<times> 'p"
    and invar :: "'p \<Rightarrow> bool"
  assumes fetch_invar: "invar p \<Longrightarrow> invar (snd (fetch p clock symbols))"
    and fetch_ok: "invar p \<Longrightarrow> fst (fetch p clock symbols) = Inr ss \<Longrightarrow> s \<in> set ss \<Longrightarrow>
      snapshot_ok s \<and> ms_received_timestamp s = fc_wall clock"

locale scoped_provider = market_provider +
  assumes fetch_wanted: "invar p \<Longrightarrow> fst (fetch p clock symbols) = Inr ss \<Longrightarrow> s \<in> set ss \<Longrightarrow>
    ms_symbol s \<in> set symbols"
begin

lemma fetch_nothing:
  assumes "invar p" "fst (fetch p clock []) = Inr ss"
  shows "ss = []"
  using fetch_wanted [OF assms] by (cases ss) auto

end

section \<open>The fake provider\<close>

record fake_provider =
  fp_quotes :: "string \<rightharpoonup> raw_quote"
  fp_failed :: "string list"
  fp_timeout :: bool
  fp_last_requested :: "string list"

definition new_fake_provider :: fake_provider where
  "new_fake_provider = \<lparr>fp_quotes = Map.empty, fp_failed = [], fp_timeout = False, fp_last_requested = []\<rparr>"

definition default_quote :: "string \<Rightarrow> flt \<Rightarrow> raw_quote" where
  "default_quote symbol market_timestamp =
     [(''symbol'', PyStr symbol), (''price'', PyFloat (Fin 100)), (''open'', PyFloat (Fin 100)),
      (''high'', PyFloat (Fin 100)), (''low'', PyFloat (Fin 100)), (''prev_close'', PyFloat (Fin 100)),
      (''volume'', PyFloat (Fin 0)), (''turnover'', PyNone), (''market_timestamp'', PyFloat (Fin market_timestamp))]"

definition set_quote :: "fake_clock \<Rightarrow> string \<Rightarrow> raw_quote \<Rightarrow> fake_provider \<Rightarrow> fake_provider" where
  "set_quote clock symbol overrides p =
     (let quote = fold (\<lambda>(k, v). dict_set k v) overrides (default_quote symbol (fc_wall clock));
          quote = dict_set ''symbol'' (PyStr symbol) quote
      in p\<lparr>fp_quotes := (fp_quotes p)(symbol \<mapsto> quote)\<rparr>)"

definition fail_symbol :: "string \<Rightarrow> fake_provider \<Rightarrow> fake_provider" where
  "fail_symbol symbol p = p\<lparr>fp_failed := symbol # fp_failed p\<rparr>"

definition set_timeout :: "bool \<Rightarrow> fake_provider \<Rightarrow> fake_provider" where
  "set_timeout timeout p = p\<lparr>fp_timeout := timeout\<rparr>"

fun fake_snapshots ::
  "float_parser \<Rightarrow> (pyval \<Rightarrow> string) \<Rightarrow> fake_provider \<Rightarrow> fake_clock \<Rightarrow> string list \<Rightarrow> market_snapshot list res" where
  "fake_snapshots parse str_of p clock [] = Inr []"
| "fake_snapshots parse str_of p clock (symbol # symbols) =
     (if symbol \<in> set (fp_failed p) then fake_snapshots parse str_of p clock symbols
      else
        let raw = (case fp_quotes p symbol of None \<Rightarrow> default_quote symbol (fc_wall clock) | Some q \<Rightarrow> q)
        in case normalize_snapshot parse str_of clock raw of
             Inr s \<Rightarrow> res_bind (fake_snapshots parse str_of p clock symbols) (\<lambda>rest. Inr (s # rest))
           | Inl (SnapshotValidationError m) \<Rightarrow> fake_snapshots parse str_of p clock symbols
           | Inl e \<Rightarrow> Inl e)"

definition fake_fetch :: "float_parser \<Rightarrow> (pyval \<Rightarrow> string) \<Rightarrow> fake_provider fetch" where
  "fake_fetch parse str_of p clock symbols =
     (let p = p\<lparr>fp_last_requested := symbols\<rparr>
      in if fp_timeout p then (Inl (TimeoutError ''provider timeout''), p)
         else (fake_snapshots parse str_of p clock symbols, p))"

section \<open>The replay provider\<close>

text \<open>Each non-blank line of the file is one JSON batch of raw quotes.\<close>

record replay_provider =
  rp_ticks :: "raw_quote list list"
  rp_index :: nat

definition replay_source_exhausted :: "replay_provider \<Rightarrow> bool" where
  "replay_source_exhausted p \<longleftrightarrow> rp_index p \<ge> length (rp_ticks p)"

definition replay_fetch :: "float_parser \<Rightarrow> (pyval \<Rightarrow> string) \<Rightarrow> replay_provider fetch" where
  "replay_fetch parse str_of p clock symbols =
     (if rp_index p \<ge> length (rp_ticks p) then (Inr [], p)
      else
        let batch = rp_ticks p ! rp_index p;
            p = p\<lparr>rp_index := Suc (rp_index p)\<rparr>
        in (res_bind (normalize_many parse str_of clock batch)
              (\<lambda>ss. Inr (filter (\<lambda>s. ms_symbol s \<in> set symbols) ss)), p))"

section \<open>The vendor's adapter\<close>

definition ends_with :: "string \<Rightarrow> string \<Rightarrow> bool" where
  "ends_with suffix s \<longleftrightarrow> length suffix \<le> length s \<and> drop (length s - length suffix) s = suffix"

definition is_ashare :: "string \<Rightarrow> bool" where
  "is_ashare symbol \<longleftrightarrow>
     (ends_with ''.SH'' symbol \<or> ends_with ''.SZ'' symbol)
     \<and> length (filter (\<lambda>c. c = CHR ''.'') symbol) = 1"

text \<open>A vendor timestamp is absent, a datetime with or without a zone, or a number or text.\<close>

datatype vendor_time = NoTime | Aware flt | Naive | Plain pyval

record vendor_quote =
  vq_symbol :: "string option"
  vq_last_done :: pyval
  vq_open :: pyval
  vq_high :: pyval
  vq_low :: pyval
  vq_prev_close :: pyval
  vq_volume :: pyval
  vq_timestamp :: vendor_time

text \<open>\<open>float()\<close> with the \<open>except (TypeError, ValueError)\<close> the adapter puts around it.\<close>

definition tolerant_float :: "float_parser \<Rightarrow> pyval \<Rightarrow> pyfloat option res" where
  "tolerant_float parse v =
     (case py_float parse v of
        Inl TypeError \<Rightarrow> Inr None
      | Inl (ValueError m) \<Rightarrow> Inr None
      | Inl e \<Rightarrow> Inl e
      | Inr x \<Rightarrow> Inr (Some x))"

definition vendor_timestamp_to_unix :: "float_parser \<Rightarrow> vendor_time \<Rightarrow> flt option res" where
  "vendor_timestamp_to_unix parse t =
     (case t of
        NoTime \<Rightarrow> Inr None
      | Naive \<Rightarrow> Inr None
      | Aware x \<Rightarrow> Inr (Some x)
      | Plain v \<Rightarrow>
          if v = PyNone then Inr None
          else res_bind (tolerant_float parse v) (\<lambda>number. case number of
                 Some (Fin x) \<Rightarrow> Inr (if x < 0 then None else Some x)
               | _ \<Rightarrow> Inr None))"

text \<open>Python's comparisons of floats; with NaN every one is false.\<close>

fun float_le :: "pyfloat \<Rightarrow> pyfloat \<Rightarrow> bool" where
  "float_le NaN y = False"
| "float_le x NaN = False"
| "float_le NegInf y = True"
| "float_le x PosInf = True"
| "float_le (Fin x) (Fin y) = (x \<le> y)"
| "float_le x y = False"

fun float_less :: "pyfloat \<Rightarrow> pyfloat \<Rightarrow> bool" where
  "float_less NaN y = False"
| "float_less x NaN = False"
| "float_less x NegInf = False"
| "float_less NegInf y = True"
| "float_less PosInf y = False"
| "float_less (Fin x) PosInf = True"
| "float_less (Fin x) (Fin y) = (x < y)"

definition vendor_quote_to_raw :: "float_parser \<Rightarrow> vendor_quote \<Rightarrow> raw_quote option res" where
  "vendor_quote_to_raw parse q =
     (let symbol = (case vq_symbol q of None \<Rightarrow> [] | Some s \<Rightarrow> s)
      in if \<not> is_ashare symbol then Inr None
         else res_bind (vendor_timestamp_to_unix parse (vq_timestamp q)) (\<lambda>timestamp. case timestamp of
             None \<Rightarrow> Inr None
           | Some t \<Rightarrow>
               res_bind (tolerant_float parse (vq_high q)) (\<lambda>high. case high of
                   None \<Rightarrow> Inr None
                 | Some h \<Rightarrow>
                     res_bind (tolerant_float parse (vq_low q)) (\<lambda>low. case low of
                         None \<Rightarrow> Inr None
                       | Some l \<Rightarrow>
                           if float_le h (Fin 0) \<or> float_le l (Fin 0) \<or> float_less h l then Inr None
                           else Inr (Some
                             [(''symbol'', PyStr symbol), (''price'', vq_last_done q), (''open'', vq_open q),
                              (''high'', vq_high q), (''low'', vq_low q), (''prev_close'', vq_prev_close q),
                              (''volume'', vq_volume q), (''market_timestamp'', PyFloat (Fin t)),
                              (''turnover'', PyNone)])))))"

record provider_diagnostics =
  pd_request_success :: nat
  pd_request_failure :: nat
  pd_last_request_latency_s :: "flt option"
  pd_timeout_count :: nat
  pd_rate_limit_count :: nat
  pd_last_market_timestamp :: "flt option"
  pd_last_received_timestamp :: "flt option"
  pd_dropped_symbol_count :: nat

text \<open>What the transport did, its errors already classified, as in the handlers of \<open>fetch_quotes\<close>.\<close>

datatype vendor_reply =
    Payload "vendor_quote list"
  | TimedOut
  | RateLimited string
  | OtherError string

fun vendor_snapshots ::
  "float_parser \<Rightarrow> (pyval \<Rightarrow> string) \<Rightarrow> fake_clock \<Rightarrow> vendor_quote list \<Rightarrow> provider_diagnostics
    \<Rightarrow> market_snapshot list res \<times> provider_diagnostics" where
  "vendor_snapshots parse str_of clock [] d = (Inr [], d)"
| "vendor_snapshots parse str_of clock (q # qs) d =
     (let dropped = d\<lparr>pd_dropped_symbol_count := Suc (pd_dropped_symbol_count d)\<rparr>
      in case vendor_quote_to_raw parse q of
           Inl e \<Rightarrow> (Inl e, d)
         | Inr None \<Rightarrow> vendor_snapshots parse str_of clock qs dropped
         | Inr (Some raw) \<Rightarrow>
             (case normalize_snapshot parse str_of clock raw of
                Inr s \<Rightarrow>
                  (case vendor_snapshots parse str_of clock qs
                     (d\<lparr>pd_last_market_timestamp := Some (ms_market_timestamp s),
                        pd_last_received_timestamp := Some (ms_received_timestamp s)\<rparr>) of
                     (rest, d') \<Rightarrow> (res_bind rest (\<lambda>ss. Inr (s # ss)), d'))
              | Inl (SnapshotValidationError m) \<Rightarrow> vendor_snapshots parse str_of clock qs dropped
              | Inl e \<Rightarrow> (Inl e, d)))"

definition longbridge_fetch ::
  "float_parser \<Rightarrow> (pyval \<Rightarrow> string) \<Rightarrow> ('k \<Rightarrow> string list \<Rightarrow> vendor_reply \<times> 'k) \<Rightarrow> fake_clock
    \<Rightarrow> provider_diagnostics \<times> 'k \<Rightarrow> fake_clock \<Rightarrow> string list
    \<Rightarrow> market_snapshot list res \<times> provider_diagnostics \<times> 'k" where
  "longbridge_fetch parse str_of client started = (\<lambda>(d, k) clock symbols.
     let requested = filter is_ashare symbols
     in if requested = [] then (Inr [], d, k)
        else
          let (reply, k) = client k requested;
              latency = Some (fc_mono clock - fc_mono started);
              failed = d\<lparr>pd_request_failure := Suc (pd_request_failure d), pd_last_request_latency_s := latency\<rparr>
          in case reply of
               TimedOut \<Rightarrow>
                 (Inl (TimeoutError ''longbridge quote timeout''),
                  failed\<lparr>pd_timeout_count := Suc (pd_timeout_count failed)\<rparr>, k)
             | RateLimited m \<Rightarrow>
                 (Inl (ProviderError m), failed\<lparr>pd_rate_limit_count := Suc (pd_rate_limit_count failed)\<rparr>, k)
             | OtherError m \<Rightarrow> (Inl (ProviderError m), failed, k)
             | Payload payload \<Rightarrow>
                 (case vendor_snapshots parse str_of clock payload d of
                    (Inl e, d') \<Rightarrow> (Inl e, d', k)
                  | (Inr ss, d') \<Rightarrow>
                      (Inr ss,
                       d'\<lparr>pd_request_success := Suc (pd_request_success d'), pd_last_request_latency_s := latency\<rparr>, k)))"

section \<open>The providers meet the contract\<close>

lemma normalized:
  assumes "normalize_snapshot parse str_of clock raw = Inr s"
  shows "snapshot_ok s" "ms_received_timestamp s = fc_wall clock" "ms_symbol s = py_str str_of (raw_get raw ''symbol'')"
  using normalize_snapshot_fields [OF assms] require_positive_number_Inr require_timestamp_Inr require_turnover_Inr
  unfolding snapshot_ok_def by metis+

definition fake_inv :: "fake_provider \<Rightarrow> bool" where
  "fake_inv p \<longleftrightarrow> (\<forall>symbol raw. fp_quotes p symbol = Some raw \<longrightarrow> dict_get raw ''symbol'' = Some (PyStr symbol))"

lemma set_quote_inv: "fake_inv p \<Longrightarrow> fake_inv (set_quote clock symbol overrides p)"
  by (simp add: fake_inv_def set_quote_def Let_def dict_lookup)

lemma default_quote_symbol: "dict_get (default_quote symbol t) ''symbol'' = Some (PyStr symbol)"
  by (simp add: default_quote_def)

lemma fake_snapshots_ok:
  assumes "fake_snapshots parse str_of p clock symbols = Inr ss" "fake_inv p" "s \<in> set ss"
  shows "snapshot_ok s \<and> ms_received_timestamp s = fc_wall clock \<and> ms_symbol s \<in> set symbols"
  using assms(1,3)
proof (induction symbols arbitrary: ss)
  case (Cons symbol symbols)
  define raw where "raw = (case fp_quotes p symbol of None \<Rightarrow> default_quote symbol (fc_wall clock) | Some q \<Rightarrow> q)"
  have raw: "raw_get raw ''symbol'' = PyStr symbol"
    using assms(2) by (auto simp: raw_def fake_inv_def raw_get_def default_quote_symbol split: option.split)
  consider (skip) "fake_snapshots parse str_of p clock symbols = Inr ss"
    | (one) s' rest where "normalize_snapshot parse str_of clock raw = Inr s'" "ss = s' # rest"
        "fake_snapshots parse str_of p clock symbols = Inr rest"
    using Cons.prems(1)
    by (auto simp: raw_def Let_def res_simps split: if_splits sum.splits exc.splits)
  then show ?case
  proof cases
    case skip
    then show ?thesis using Cons.IH Cons.prems(2) by auto
  next
    case (one s' rest)
    then show ?thesis using Cons.IH [OF one(3)] Cons.prems(2) normalized [OF one(1)] raw by auto
  qed
qed simp

lemma normalize_many_members:
  assumes "normalize_many parse str_of clock rows = Inr ss" "s \<in> set ss"
  shows "\<exists>raw. normalize_snapshot parse str_of clock raw = Inr s"
  using assms
  by (induction rows arbitrary: ss) (auto simp: res_simps split: sum.splits exc.splits)

lemma vendor_snapshots_members:
  assumes "vendor_snapshots parse str_of clock qs d = (Inr ss, d')" "s \<in> set ss"
  shows "\<exists>raw. normalize_snapshot parse str_of clock raw = Inr s"
  using assms
proof (induction qs arbitrary: ss d)
  case (Cons q qs)
  show ?case
  proof (cases "vendor_quote_to_raw parse q")
    case (Inr r)
    show ?thesis
    proof (cases r)
      case None
      then show ?thesis using Cons Inr by (auto simp: Let_def)
    next
      case (Some raw)
      then show ?thesis
        using Cons Inr by (auto simp: Let_def res_simps split: sum.splits exc.splits prod.splits)
    qed
  qed (use Cons.prems in simp)
qed simp

interpretation fake: scoped_provider "fake_fetch parse str_of" fake_inv for parse str_of
proof
  fix p clock symbols assume p: "fake_inv p"
  then have inv: "fake_inv (p\<lparr>fp_last_requested := symbols\<rparr>)" by (simp add: fake_inv_def)
  then show "fake_inv (snd (fake_fetch parse str_of p clock symbols))"
    by (simp add: fake_fetch_def Let_def)
  fix ss s assume "fst (fake_fetch parse str_of p clock symbols) = Inr ss" "s \<in> set ss"
  then have "fake_snapshots parse str_of (p\<lparr>fp_last_requested := symbols\<rparr>) clock symbols = Inr ss"
    by (auto simp: fake_fetch_def Let_def split: if_splits)
  from fake_snapshots_ok [OF this inv \<open>s \<in> set ss\<close>]
  show "snapshot_ok s \<and> ms_received_timestamp s = fc_wall clock" "ms_symbol s \<in> set symbols" by simp_all
qed

interpretation replay: scoped_provider "replay_fetch parse str_of" "\<lambda>_. True" for parse str_of
proof
  fix p clock symbols ss s
  assume "fst (replay_fetch parse str_of p clock symbols) = Inr ss" "s \<in> set ss"
  then show "snapshot_ok s \<and> ms_received_timestamp s = fc_wall clock" "ms_symbol s \<in> set symbols"
    using normalize_many_members normalized
    by (fastforce simp: replay_fetch_def Let_def res_simps split: if_splits)+
qed simp

interpretation longbridge: market_provider
  "\<lambda>p clock symbols. longbridge_fetch parse str_of client clock p clock symbols" "\<lambda>_. True"
  for parse str_of client
proof
  fix p clock symbols ss s
  assume a: "fst (longbridge_fetch parse str_of client clock p clock symbols) = Inr ss" "s \<in> set ss"
  then obtain payload d d' where "vendor_snapshots parse str_of clock payload d = (Inr ss, d')"
    by (cases p) (auto simp: longbridge_fetch_def Let_def split: if_splits prod.splits vendor_reply.splits sum.splits)
  then show "snapshot_ok s \<and> ms_received_timestamp s = fc_wall clock"
    using vendor_snapshots_members a(2) normalized by metis
qed simp

section \<open>Vendor quotes\<close>

lemma normalize_range:
  assumes "normalize_snapshot parse str_of clock raw = Inr s"
  shows "require_finite_number parse (raw_get raw ''high'') ''high'' = Inr (ms_high s)"
    "require_finite_number parse (raw_get raw ''low'') ''low'' = Inr (ms_low s)"
  using assms
  unfolding normalize_snapshot_def missing_field_case Let_def if_Inl_eq_Inr res_bind_Inr_iff
  by auto

lemma require_finite_number_Inr: "require_finite_number parse v f = Inr x \<longleftrightarrow> py_float parse v = Inr (Fin x)"
  by (auto simp: require_finite_number_def split: sum.splits pyfloat.splits exc.splits)

lemma tolerant_float_Some: "tolerant_float parse v = Inr (Some x) \<longleftrightarrow> py_float parse v = Inr x"
  by (auto simp: tolerant_float_def split: sum.splits exc.splits)

lemma vendor_quote_to_raw_Some:
  assumes "vendor_quote_to_raw parse q = Inr (Some raw)"
  obtains symbol h l where "is_ashare symbol" "raw_get raw ''symbol'' = PyStr symbol"
    "py_float parse (raw_get raw ''high'') = Inr h" "py_float parse (raw_get raw ''low'') = Inr l"
    "\<not> float_le h (Fin 0)" "\<not> float_le l (Fin 0)" "\<not> float_less h l"
proof -
  define symbol where "symbol = (case vq_symbol q of None \<Rightarrow> [] | Some s \<Rightarrow> s)"
  note m = assms [unfolded vendor_quote_to_raw_def Let_def symbol_def [symmetric] res_bind_Inr_iff]
  have share: "is_ashare symbol" using m by (cases "is_ashare symbol") simp_all
  then obtain timestamp where
    "(case timestamp of None \<Rightarrow> Inr None | Some t \<Rightarrow>
       res_bind (tolerant_float parse (vq_high q)) (\<lambda>high. case high of
           None \<Rightarrow> Inr None
         | Some h \<Rightarrow>
             res_bind (tolerant_float parse (vq_low q)) (\<lambda>low. case low of
                 None \<Rightarrow> Inr None
               | Some l \<Rightarrow>
                   if float_le h (Fin 0) \<or> float_le l (Fin 0) \<or> float_less h l then Inr None
                   else Inr (Some
                     [(''symbol'', PyStr symbol), (''price'', vq_last_done q), (''open'', vq_open q),
                      (''high'', vq_high q), (''low'', vq_low q), (''prev_close'', vq_prev_close q),
                      (''volume'', vq_volume q), (''market_timestamp'', PyFloat (Fin t)),
                      (''turnover'', PyNone)])))) = Inr (Some raw)"
    using assms by (auto simp: vendor_quote_to_raw_def Let_def symbol_def [symmetric] res_bind_Inr_iff)
  then obtain t h l where
    "tolerant_float parse (vq_high q) = Inr (Some h)" "tolerant_float parse (vq_low q) = Inr (Some l)"
    "\<not> (float_le h (Fin 0) \<or> float_le l (Fin 0) \<or> float_less h l)"
    "raw = [(''symbol'', PyStr symbol), (''price'', vq_last_done q), (''open'', vq_open q),
              (''high'', vq_high q), (''low'', vq_low q), (''prev_close'', vq_prev_close q),
              (''volume'', vq_volume q), (''market_timestamp'', PyFloat (Fin t)), (''turnover'', PyNone)]"
    by (auto simp: res_bind_Inr_iff split: option.splits if_splits)
  then show thesis using share by (intro that [of symbol h l]) (simp_all add: raw_get_def tolerant_float_Some)
qed

lemma vendor_snapshot_share:
  assumes "vendor_quote_to_raw parse q = Inr (Some raw)" "normalize_snapshot parse str_of clock raw = Inr s"
  shows "is_ashare (ms_symbol s) \<and> 0 < ms_low s \<and> ms_low s \<le> ms_high s"
proof (rule vendor_quote_to_raw_Some [OF assms(1)])
  fix symbol h l
  assume r: "is_ashare symbol" "raw_get raw ''symbol'' = PyStr symbol"
    "py_float parse (raw_get raw ''high'') = Inr h" "py_float parse (raw_get raw ''low'') = Inr l"
    "\<not> float_le h (Fin 0)" "\<not> float_le l (Fin 0)" "\<not> float_less h l"
  then have "h = Fin (ms_high s)" "l = Fin (ms_low s)"
    using normalize_range [OF assms(2)] by (simp_all add: require_finite_number_Inr)
  then show ?thesis using r normalized(3) [OF assms(2)] by simp
qed

lemma vendor_snapshots_account:
  assumes "vendor_snapshots parse str_of clock qs d = (Inr ss, d')"
  shows "pd_dropped_symbol_count d' + length ss = pd_dropped_symbol_count d + length qs
    \<and> pd_request_success d' = pd_request_success d
    \<and> (\<forall>s \<in> set ss. is_ashare (ms_symbol s) \<and> 0 < ms_low s \<and> ms_low s \<le> ms_high s)"
  using assms
proof (induction qs arbitrary: ss d)
  case (Cons q qs)
  let ?dropped = "d\<lparr>pd_dropped_symbol_count := Suc (pd_dropped_symbol_count d)\<rparr>"
  consider (drop) "vendor_snapshots parse str_of clock qs ?dropped = (Inr ss, d')"
    | (keep) raw s rest where "vendor_quote_to_raw parse q = Inr (Some raw)"
        "normalize_snapshot parse str_of clock raw = Inr s" "ss = s # rest"
        "vendor_snapshots parse str_of clock qs (d\<lparr>pd_last_market_timestamp := Some (ms_market_timestamp s),
           pd_last_received_timestamp := Some (ms_received_timestamp s)\<rparr>) = (Inr rest, d')"
    using Cons.prems
    by (auto simp: Let_def res_simps split: sum.splits exc.splits prod.splits option.splits)
  then show ?case
  proof cases
    case drop
    then show ?thesis using Cons.IH [OF drop] by simp
  next
    case (keep raw s rest)
    then show ?thesis using Cons.IH [OF keep(4)] vendor_snapshot_share [OF keep(1,2)] by auto
  qed
qed simp

text \<open>The vendor adapter accounts for every quote: when a request for some A-share succeeds, each
  row of the payload is either a returned snapshot or counted as dropped, and every snapshot is an
  A-share with a positive low that does not exceed its high, received at the clock's wall time.\<close>

theorem longbridge_fetch_accounts:
  assumes "client k (filter is_ashare symbols) = (Payload payload, k')" "filter is_ashare symbols \<noteq> []"
    and "longbridge_fetch parse str_of client started (d, k) clock symbols = (Inr ss, d', k'')"
  shows "pd_dropped_symbol_count d' + length ss = pd_dropped_symbol_count d + length payload
    \<and> pd_request_success d' = Suc (pd_request_success d)
    \<and> (\<forall>s \<in> set ss. is_ashare (ms_symbol s) \<and> 0 < ms_low s \<and> ms_low s \<le> ms_high s
          \<and> ms_received_timestamp s = fc_wall clock)"
proof -
  obtain d0 where d0: "vendor_snapshots parse str_of clock payload d = (Inr ss, d0)"
    "pd_dropped_symbol_count d' = pd_dropped_symbol_count d0" "pd_request_success d' = Suc (pd_request_success d0)"
    using assms by (auto simp: longbridge_fetch_def Let_def split: prod.splits sum.splits)
  have "\<forall>s \<in> set ss. ms_received_timestamp s = fc_wall clock"
    using vendor_snapshots_members [OF d0(1)] normalized(2) by blast
  then show ?thesis using vendor_snapshots_account [OF d0(1)] d0(2,3) by simp
qed

definition no_diagnostics :: provider_diagnostics where
  "no_diagnostics =
     \<lparr>pd_request_success = 0, pd_request_failure = 0, pd_last_request_latency_s = None, pd_timeout_count = 0,
      pd_rate_limit_count = 0, pd_last_market_timestamp = None, pd_last_received_timestamp = None,
      pd_dropped_symbol_count = 0\<rparr>"

definition vendor_row :: "string \<Rightarrow> flt \<Rightarrow> flt \<Rightarrow> vendor_quote" where
  "vendor_row symbol high low =
     \<lparr>vq_symbol = Some symbol, vq_last_done = PyFloat (Fin 10), vq_open = PyFloat (Fin 10),
      vq_high = PyFloat (Fin high), vq_low = PyFloat (Fin low), vq_prev_close = PyFloat (Fin 10),
      vq_volume = PyInt 5, vq_timestamp = Aware 100\<rparr>"

definition sample_client :: "unit \<Rightarrow> string list \<Rightarrow> vendor_reply \<times> unit" where
  "sample_client k symbols = (Payload [vendor_row ''600519.SH'' 11 9, vendor_row ''600519.SH'' 9 11], ())"

theorem longbridge_fetch_accounts_witness:
  "case longbridge_fetch (\<lambda>_. None) (\<lambda>_. []) sample_client \<lparr>fc_wall = 1, fc_mono = 1\<rparr> (no_diagnostics, ())
      \<lparr>fc_wall = 2, fc_mono = 2\<rparr> [''600519.SH''] of
     (Inr ss, d', k) \<Rightarrow> length ss = 1 \<and> pd_dropped_symbol_count d' + length ss = 2
   | _ \<Rightarrow> False"
proof -
  let ?run = "longbridge_fetch (\<lambda>_. None) (\<lambda>_. []) sample_client \<lparr>fc_wall = 1, fc_mono = 1\<rparr> (no_diagnostics, ())
      \<lparr>fc_wall = 2, fc_mono = 2\<rparr> [''600519.SH'']"
  have one: "case ?run of (Inr ss, d', k) \<Rightarrow> length ss = 1 | _ \<Rightarrow> False" by code_simp
  then obtain ss d' k where run: "?run = (Inr ss, d', k)" "length ss = 1"
    by (auto split: prod.splits sum.splits)
  have client: "sample_client () (filter is_ashare [''600519.SH''])
      = (Payload [vendor_row ''600519.SH'' 11 9, vendor_row ''600519.SH'' 9 11], ())" "filter is_ashare [''600519.SH''] \<noteq> []"
    by code_simp+
  show ?thesis
    using longbridge_fetch_accounts [OF client run(1)] run by (simp add: no_diagnostics_def)
qed

end
