(* ===== verification/Engine.thy ===== *)
theory Engine
  imports Pipeline Features Providers Health Scheduler Watchlist
begin

text \<open>
  \<open>runtime/engine.py\<close> with its state store \<open>market_data/state.py\<close>: one tick fetches the due symbols,
  takes in their quotes, runs features and pipeline per symbol, moves the attention level and
  projects health into the states. Every operation sees the clock frozen at one instant.
\<close>

section \<open>The state store\<close>

type_synonym states = "string \<rightharpoonup> market_state"

definition update_latest :: "market_snapshot \<Rightarrow> states \<Rightarrow> states" where
  "update_latest snapshot states =
     (let symbol = ms_symbol snapshot
      in states(symbol \<mapsto>
           (case states symbol of
              Some current \<Rightarrow> current\<lparr>st_symbol := symbol, st_latest := Some snapshot\<rparr>
            | None \<Rightarrow>
                \<lparr>st_symbol = symbol, st_latest = Some snapshot, st_level = COLD, st_feed_status = LIVE,
                 st_feed_latency = None, st_last_update_age = None, st_features = None, st_active_signals = []\<rparr>)))"

text \<open>The optional arguments of \<open>apply_runtime\<close>: \<open>None\<close> is the unset marker.\<close>

definition apply_runtime ::
  "string \<Rightarrow> scheduler_level \<Rightarrow> feed_status \<Rightarrow> flt option \<Rightarrow> flt option
    \<Rightarrow> market_features option option \<Rightarrow> signal list option \<Rightarrow> states \<Rightarrow> states" where
  "apply_runtime symbol level status latency age features signals states =
     (let current = states symbol
      in states(symbol \<mapsto>
        \<lparr>st_symbol = symbol,
         st_latest = (case current of None \<Rightarrow> None | Some c \<Rightarrow> st_latest c),
         st_level = level,
         st_feed_status = status,
         st_feed_latency = latency,
         st_last_update_age = age,
         st_features = (case features of
            None \<Rightarrow> (case current of None \<Rightarrow> None | Some c \<Rightarrow> st_features c)
          | Some f \<Rightarrow> f),
         st_active_signals = (case signals of
            None \<Rightarrow> (case current of None \<Rightarrow> [] | Some c \<Rightarrow> st_active_signals c)
          | Some s \<Rightarrow> s)\<rparr>))"

definition snapshot_for :: "states \<Rightarrow> string list \<Rightarrow> market_state list" where
  "snapshot_for states symbols = List.map_filter states symbols"

section \<open>The engine\<close>

record engine_diagnostics =
  ed_out_of_order_count :: nat
  ed_duplicate_timestamp_count :: nat
  ed_recovery_count :: nat
  ed_last_fetch_error :: "string option"

record ('p, 'c) engine =
  en_watchlist :: watchlist
  en_provider :: 'p
  en_scheduler :: scheduler
  en_buffers :: symbol_buffers
  en_states :: states
  en_health :: health
  en_pipeline :: pipeline
  en_telemetry :: "'c telemetry"
  en_fetched :: "string list"
  en_diagnostics :: engine_diagnostics

text \<open>What a run of the engine is configured with.\<close>

record ('p, 'c) engine_env =
  ee_env :: "'c env"
  ee_fetch :: "'p fetch"
  ee_exhausted :: "'p \<Rightarrow> bool"
  ee_features :: feature_policy
  ee_warming :: warming_config

fun exc_name :: "exc \<Rightarrow> string" where
  "exc_name (ValueError m) = ''ValueError''"
| "exc_name TypeError = ''TypeError''"
| "exc_name OverflowError = ''OverflowError''"
| "exc_name (KeyError m) = ''KeyError''"
| "exc_name IndexError = ''IndexError''"
| "exc_name AttributeError = ''AttributeError''"
| "exc_name ZeroDivisionError = ''ZeroDivisionError''"
| "exc_name (RuntimeError m) = ''RuntimeError''"
| "exc_name (TimeoutError m) = ''TimeoutError''"
| "exc_name (SnapshotValidationError m) = ''SnapshotValidationError''"
| "exc_name WatchlistFullError = ''WatchlistFullError''"
| "exc_name (WatchlistSymbolError m) = ''WatchlistSymbolError''"
| "exc_name (ProviderError m) = ''ProviderError''"
| "exc_name (TuningConfigError m) = ''TuningConfigError''"
| "exc_name (TuningSnapshotError m) = ''TuningSnapshotError''"

definition observe_error :: "fake_clock \<Rightarrow> string \<Rightarrow> ('p, 'c) engine \<Rightarrow> ('p, 'c) engine" where
  "observe_error clock symbol eng = eng\<lparr>en_health := snd (health_observe clock symbol None True (en_health eng))\<rparr>"

definition engine_mark :: "fake_clock \<Rightarrow> string \<Rightarrow> ('p, 'c) engine \<Rightarrow> ('p, 'c) engine" where
  "engine_mark clock symbol eng = eng\<lparr>en_scheduler := mark_fetched clock symbol (en_scheduler eng)\<rparr>"

definition ingest_snapshot ::
  "fake_clock \<Rightarrow> string \<Rightarrow> market_snapshot \<Rightarrow> ('p, 'c) engine \<Rightarrow> ('p, 'c) engine res" where
  "ingest_snapshot clock symbol snapshot eng =
     (let previous_status = peek_status (en_health eng) clock symbol;
          latest = sb_latest (en_buffers eng) symbol;
          older = (case latest of None \<Rightarrow> False | Some l \<Rightarrow> ms_market_timestamp snapshot < ms_market_timestamp l);
          same = (case latest of None \<Rightarrow> False | Some l \<Rightarrow> ms_market_timestamp snapshot = ms_market_timestamp l)
      in if older then
           Inr (observe_error clock symbol
             (eng\<lparr>en_diagnostics := (en_diagnostics eng)
                \<lparr>ed_out_of_order_count := Suc (ed_out_of_order_count (en_diagnostics eng))\<rparr>\<rparr>))
         else
           let d = (if same then (en_diagnostics eng)
                      \<lparr>ed_duplicate_timestamp_count := Suc (ed_duplicate_timestamp_count (en_diagnostics eng))\<rparr>
                    else en_diagnostics eng)
           in res_bind (sb_append (en_buffers eng) snapshot) (\<lambda>buffers.
             let h = snd (health_observe clock symbol (Some snapshot) False (en_health eng));
                 after = peek_status h clock symbol;
                 d = (if previous_status \<in> {STALE, DISCONNECTED} \<and> after \<in> {LIVE, DELAYED}
                      then d\<lparr>ed_recovery_count := Suc (ed_recovery_count d)\<rparr> else d)
             in Inr (eng\<lparr>en_buffers := buffers,
                         en_states := update_latest snapshot (en_states eng),
                         en_health := h,
                         en_diagnostics := d,
                         en_fetched := symbol # en_fetched eng\<rparr>)))"

fun ingest_due ::
  "fake_clock \<Rightarrow> (string \<rightharpoonup> market_snapshot) \<Rightarrow> string list \<Rightarrow> ('p, 'c) engine \<Rightarrow> ('p, 'c) engine res" where
  "ingest_due clock found [] eng = Inr eng"
| "ingest_due clock found (symbol # symbols) eng =
     res_bind (case found symbol of
         None \<Rightarrow> Inr (observe_error clock symbol eng)
       | Some snapshot \<Rightarrow> ingest_snapshot clock symbol snapshot eng)
       (\<lambda>eng. ingest_due clock found symbols (engine_mark clock symbol eng))"

definition fetch_due ::
  "('p, 'c) engine_env \<Rightarrow> fake_clock \<Rightarrow> string list \<Rightarrow> ('p, 'c) engine \<Rightarrow> ('p, 'c) engine res" where
  "fetch_due ee clock due eng =
     (if ee_exhausted ee (en_provider eng) then
        Inr (fold (\<lambda>symbol eng. engine_mark clock symbol
               (eng\<lparr>en_health := keep_alive clock symbol (en_health eng)\<rparr>)) due eng)
      else
        let (reply, p) = ee_fetch ee (en_provider eng) clock due; eng = eng\<lparr>en_provider := p\<rparr>
        in case reply of
             Inl e \<Rightarrow>
               Inr (fold (\<lambda>symbol eng. engine_mark clock symbol (observe_error clock symbol eng)) due
                 (eng\<lparr>en_diagnostics := (en_diagnostics eng)\<lparr>ed_last_fetch_error := Some (exc_name e)\<rparr>\<rparr>))
           | Inr snapshots \<Rightarrow>
               ingest_due clock (map_of (rev (map (\<lambda>s. (ms_symbol s, s)) snapshots))) due
                 (eng\<lparr>en_diagnostics := (en_diagnostics eng)\<lparr>ed_last_fetch_error := None\<rparr>\<rparr>))"

definition project_health :: "fake_clock \<Rightarrow> string \<Rightarrow> ('p, 'c) engine \<Rightarrow> ('p, 'c) engine" where
  "project_health clock symbol eng =
     (let (status, h) = health_status clock symbol (en_health eng)
      in eng\<lparr>en_health := h,
             en_states := apply_runtime symbol (get_level (en_scheduler eng) symbol) status
               (feed_latency h symbol) (last_update_age h clock symbol) None None (en_states eng)\<rparr>)"

definition tick_result ::
  "string \<Rightarrow> scheduler_level \<Rightarrow> market_features option \<Rightarrow> signal_pipeline_result \<Rightarrow> ('p, 'c) engine
    \<Rightarrow> symbol_tick_result" where
  "tick_result symbol level_before features r eng =
     \<lparr>sr_symbol = symbol, sr_features = features, sr_accepted_events = pr_accepted_events r,
      sr_signal_updates = pr_signal_updates r, sr_traces = pr_traces r,
      sr_alert_candidates = pr_alert_candidates r, sr_level_before = level_before,
      sr_level_after = get_level (en_scheduler eng) symbol\<rparr>"

text \<open>The quiet outcome: health is projected, nothing else changes.\<close>

definition quiet_result ::
  "fake_clock \<Rightarrow> string \<Rightarrow> scheduler_level \<Rightarrow> bool \<Rightarrow> ('p, 'c) engine \<Rightarrow> symbol_tick_result \<times> ('p, 'c) engine" where
  "quiet_result clock symbol level_before with_features eng =
     (let eng = project_health clock symbol eng;
          features = (if with_features then Option.bind (en_states eng symbol) st_features else None)
      in (tick_result symbol level_before features empty_pipeline_result eng, eng))"

text \<open>
  The \<open>try\<close> body; any exception ends in the quiet outcome. An exception out of \<open>process\<close> would leave
  the pipeline half updated; the model keeps it as it was, a case that \<open>process_run\<close> rules out.
\<close>

definition process_symbol ::
  "('p, 'c) engine_env \<Rightarrow> fake_clock \<Rightarrow> string \<Rightarrow> ('p, 'c) engine \<Rightarrow> symbol_tick_result \<times> ('p, 'c) engine" where
  "process_symbol ee clock symbol eng =
     (let level_before = get_level (en_scheduler eng) symbol
      in if symbol \<notin> set (en_fetched eng) then quiet_result clock symbol level_before True eng
         else case sb_buffer (en_buffers eng) symbol of
           None \<Rightarrow> quiet_result clock symbol level_before False eng
         | Some buffer \<Rightarrow>
             (case res_bind (compute_features (ee_features ee) buffer) (\<lambda>features.
                     let previous = Option.bind (en_states eng symbol) st_features
                     in res_bind (case features of
                           None \<Rightarrow> Inr (empty_pipeline_result, en_pipeline eng, en_telemetry eng)
                         | Some f \<Rightarrow> process (ee_env ee) clock previous f (en_pipeline eng) (en_telemetry eng))
                       (\<lambda>run. Inr (features, run))) of
                Inl e \<Rightarrow> quiet_result clock symbol level_before True eng
              | Inr (features, r, pl, tel) \<Rightarrow>
                  (let request = warming_request (ee_warming ee) symbol features (pr_accepted_events r);
                       sched = snd (set_level clock symbol (lr_level request) False (en_scheduler eng));
                       (status, h) = health_status clock symbol (en_health eng);
                       eng = eng\<lparr>en_pipeline := pl, en_telemetry := tel, en_scheduler := sched, en_health := h,
                                 en_states := apply_runtime symbol (get_level sched symbol) status
                                   (feed_latency h symbol) (last_update_age h clock symbol)
                                   (Some features) (Some (pr_signal_updates r)) (en_states eng)\<rparr>
                   in (tick_result symbol level_before features r eng, eng))))"

fun process_due ::
  "('p, 'c) engine_env \<Rightarrow> fake_clock \<Rightarrow> string list \<Rightarrow> ('p, 'c) engine \<Rightarrow> engine_tick_result \<times> ('p, 'c) engine" where
  "process_due ee clock [] eng = ([], eng)"
| "process_due ee clock (symbol # symbols) eng =
     (let (r, eng) = process_symbol ee clock symbol eng; (rs, eng) = process_due ee clock symbols eng
      in (r # rs, eng))"

definition engine_tick ::
  "('p, 'c) engine_env \<Rightarrow> fake_clock \<Rightarrow> ('p, 'c) engine \<Rightarrow> (engine_tick_result \<times> ('p, 'c) engine) res" where
  "engine_tick ee clock eng =
     (let enabled = enabled_symbols (en_watchlist eng);
          due = due_symbols (en_scheduler eng) clock enabled;
          eng = eng\<lparr>en_fetched := []\<rparr>
      in res_bind (if due \<noteq> [] then fetch_due ee clock due eng else Inr eng) (\<lambda>eng.
           let (results, eng) = process_due ee clock due eng;
               eng = fold (project_health clock) (filter (\<lambda>s. s \<notin> set due) enabled) eng
           in Inr (results, eng)))"

text \<open>
  The intelligence observer sees the result, the health statuses and the identifiers of all active
  signals. Reading a status through the observer's callback only updates what the tracker logs.
\<close>

definition active_ids :: "('p, 'c) engine \<Rightarrow> string list" where
  "active_ids eng =
     concat (map (\<lambda>item. case en_states eng (wi_symbol item) of
         None \<Rightarrow> [] | Some st \<Rightarrow> map sg_id (st_active_signals st)) (wl_list (en_watchlist eng)))"

definition engine_tick_observed ::
  "('p, 'c) engine_env \<Rightarrow> ('i \<Rightarrow> engine_tick_result \<Rightarrow> (string \<Rightarrow> feed_status) \<Rightarrow> string list \<Rightarrow> 'i)
    \<Rightarrow> fake_clock \<Rightarrow> ('p, 'c) engine \<Rightarrow> 'i option \<Rightarrow> (engine_tick_result \<times> ('p, 'c) engine \<times> 'i option) res" where
  "engine_tick_observed ee observe clock eng intelligence =
     res_bind (engine_tick ee clock eng) (\<lambda>(result, eng).
       Inr (result, eng,
            map_option (\<lambda>i. observe i result (peek_status (en_health eng) clock) (active_ids eng)) intelligence))"

section \<open>What each stage leaves alone\<close>

text \<open>The store's latest quote of a symbol is the newest of its buffer.\<close>

definition latest_agree :: "('p, 'c) engine \<Rightarrow> bool" where
  "latest_agree eng \<longleftrightarrow>
     (\<forall>symbol. Option.bind (en_states eng symbol) st_latest = sb_latest (en_buffers eng) symbol)"

definition engine_ok :: "uuid_source \<Rightarrow> ('p, 'c) engine \<Rightarrow> bool" where
  "engine_ok uuid eng \<longleftrightarrow> sb_inv (en_buffers eng) \<and> latest_agree eng \<and> pl_inv uuid (en_pipeline eng)"

definition later :: "symbol_buffers \<Rightarrow> symbol_buffers \<Rightarrow> bool" where
  "later bs bs' \<longleftrightarrow>
     (\<forall>symbol old. sb_latest bs symbol = Some old \<longrightarrow>
       (\<exists>new. sb_latest bs' symbol = Some new \<and> ms_market_timestamp old \<le> ms_market_timestamp new))"

lemma later_refl [simp]: "later bs bs"
  by (simp add: later_def)

lemma later_trans: "later a b \<Longrightarrow> later b c \<Longrightarrow> later a c"
  unfolding later_def by (meson order_trans)

text \<open>The state and the level a symbol shows are those of the trackers.\<close>

definition projected :: "fake_clock \<Rightarrow> string \<Rightarrow> ('p, 'c) engine \<Rightarrow> bool" where
  "projected clock symbol eng \<longleftrightarrow>
     (\<exists>st. en_states eng symbol = Some st \<and> st_symbol st = symbol
       \<and> st_feed_status st = peek_status (en_health eng) clock symbol
       \<and> st_feed_latency st = feed_latency (en_health eng) symbol
       \<and> st_last_update_age st = last_update_age (en_health eng) clock symbol
       \<and> st_level st = get_level (en_scheduler eng) symbol)"

text \<open>A stage that works on one symbol and only reads health.\<close>

definition local_step :: "fake_clock \<Rightarrow> string \<Rightarrow> ('p, 'c) engine \<Rightarrow> ('p, 'c) engine \<Rightarrow> bool" where
  "local_step clock symbol eng eng' \<longleftrightarrow>
     projected clock symbol eng'
     \<and> en_watchlist eng' = en_watchlist eng \<and> en_buffers eng' = en_buffers eng \<and> en_fetched eng' = en_fetched eng
     \<and> (\<forall>s. peek_status (en_health eng') clock s = peek_status (en_health eng) clock s
          \<and> feed_latency (en_health eng') s = feed_latency (en_health eng) s
          \<and> last_update_age (en_health eng') clock s = last_update_age (en_health eng) clock s)
     \<and> (\<forall>s. s \<noteq> symbol \<longrightarrow> en_states eng' s = en_states eng s)
     \<and> Option.bind (en_states eng' symbol) st_latest = Option.bind (en_states eng symbol) st_latest
     \<and> (\<forall>s. s \<noteq> symbol \<longrightarrow> get_level (en_scheduler eng') s = get_level (en_scheduler eng) s)
     \<and> as_policy (en_scheduler eng') = as_policy (en_scheduler eng)
     \<and> as_last_fetch_mono (en_scheduler eng') = as_last_fetch_mono (en_scheduler eng)"

lemma local_step_latest: "local_step clock symbol eng eng' \<Longrightarrow> latest_agree eng \<Longrightarrow> latest_agree eng'"
  unfolding local_step_def latest_agree_def by metis

lemma local_step_projected:
  "local_step clock symbol eng eng' \<Longrightarrow> projected clock s eng \<or> s = symbol \<Longrightarrow> projected clock s eng'"
  unfolding local_step_def projected_def by metis

lemma project_health_step: "local_step clock symbol eng (project_health clock symbol eng)"
proof -
  obtain status h where h: "health_status clock symbol (en_health eng) = (status, h)" by (rule prod.exhaust)
  note frame = health_status_frame [OF h]
  show ?thesis
    unfolding local_step_def projected_def project_health_def h Let_def prod.case apply_runtime_def
    by (simp add: frame split: option.split)
qed

lemma project_health_frame [simp]:
  "en_scheduler (project_health clock symbol eng) = en_scheduler eng"
  "en_pipeline (project_health clock symbol eng) = en_pipeline eng"
  "en_telemetry (project_health clock symbol eng) = en_telemetry eng"
  by (simp_all add: project_health_def split_beta Let_def)

text \<open>The features and signals a state shows, which projecting health keeps.\<close>

definition shown :: "states \<Rightarrow> string \<Rightarrow> market_features option \<times> signal list" where
  "shown states symbol =
     (case states symbol of None \<Rightarrow> (None, []) | Some st \<Rightarrow> (st_features st, st_active_signals st))"

lemma project_health_shown: "shown (en_states (project_health clock symbol eng)) = shown (en_states eng)"
  by (auto simp: fun_eq_iff shown_def project_health_def apply_runtime_def Let_def split_beta split: option.split)

lemma quiet_result_step:
  assumes "quiet_result clock symbol level_before with_features eng = (r, eng')"
  shows "sr_symbol r = symbol" "local_step clock symbol eng eng'" "en_pipeline eng' = en_pipeline eng"
    "eng' = project_health clock symbol eng" "sr_accepted_events r = []" "sr_alert_candidates r = []"
  using assms project_health_step [of clock symbol eng]
  by (auto simp: quiet_result_def Let_def tick_result_def empty_pipeline_result_def)

lemma process_symbol_step:
  assumes "process_symbol ee clock symbol eng = (r, eng')" "pl_inv (env_uuid (ee_env ee)) (en_pipeline eng)"
    and "inj (env_uuid (ee_env ee))" "counts_up (env_rules (ee_env ee))"
  shows "sr_symbol r = symbol \<and> local_step clock symbol eng eng'
    \<and> pl_inv (env_uuid (ee_env ee)) (en_pipeline eng')"
proof -
  have quiet: ?thesis if "\<exists>b f. quiet_result clock symbol b f eng = (r, eng')"
    using quiet_result_step assms(2) that by metis
  show ?thesis
  proof (cases "symbol \<in> set (en_fetched eng)")
    case False
    then show ?thesis using assms(1) by (intro quiet) (auto simp: process_symbol_def Let_def)
  next
    case True
    show ?thesis
    proof (cases "sb_buffer (en_buffers eng) symbol")
      case None
      then show ?thesis using assms(1) True by (intro quiet) (auto simp: process_symbol_def Let_def)
    next
      case (Some buffer)
      define run where "run = res_bind (compute_features (ee_features ee) buffer) (\<lambda>features.
          let previous = Option.bind (en_states eng symbol) st_features
          in res_bind (case features of
                None \<Rightarrow> Inr (empty_pipeline_result, en_pipeline eng, en_telemetry eng)
              | Some f \<Rightarrow> process (ee_env ee) clock previous f (en_pipeline eng) (en_telemetry eng))
            (\<lambda>run. Inr (features, run)))"
      note p = assms(1) [unfolded process_symbol_def Let_def Some option.case if_not_P [OF not_not [THEN iffD2, OF True]],
          folded run_def [unfolded Let_def]]
      show ?thesis
      proof (cases run)
        case (Inl e)
        then show ?thesis using p by (intro quiet) auto
      next
        case (Inr out)
        obtain features r1 pl tel where out: "out = (features, r1, pl, tel)" by (metis surj_pair)
        have pl: "pl_inv (env_uuid (ee_env ee)) pl"
        proof (cases features)
          case None
          then show ?thesis using Inr assms(2) by (auto simp: run_def out Let_def res_simps)
        next
          case (Some f)
          then have "process (ee_env ee) clock (Option.bind (en_states eng symbol) st_features) f (en_pipeline eng)
              (en_telemetry eng) = Inr (r1, pl, tel)"
            using Inr by (auto simp: run_def out Let_def res_simps)
          then show ?thesis
            using process_keeps_inv [OF assms(2-4), of clock "Option.bind (en_states eng symbol) st_features" f
                "en_telemetry eng"] by auto
        qed
        let ?level = "lr_level (warming_request (ee_warming ee) symbol features (pr_accepted_events r1))"
        obtain ok sched where sched: "set_level clock symbol ?level False (en_scheduler eng) = (ok, sched)"
          by (rule prod.exhaust)
        obtain status h where h: "health_status clock symbol (en_health eng) = (status, h)" by (rule prod.exhaust)
        let ?eng = "eng\<lparr>en_pipeline := pl, en_telemetry := tel, en_scheduler := sched, en_health := h,
            en_states := apply_runtime symbol (get_level sched symbol) status
              (feed_latency h symbol) (last_update_age h clock symbol)
              (Some features) (Some (pr_signal_updates r1)) (en_states eng)\<rparr>"
        have new: "r = tick_result symbol (get_level (en_scheduler eng) symbol) features r1 ?eng" "eng' = ?eng"
          using p by (auto simp: Inr out sched h)
        have "local_step clock symbol eng ?eng"
          unfolding local_step_def projected_def apply_runtime_def
          by (simp add: health_status_frame [OF h] set_level_frame(1-4) [OF sched] split: option.split)
        then show ?thesis using pl by (simp add: new tick_result_def)
      qed
    qed
  qed
qed

lemma process_due_steps:
  assumes "process_due ee clock due eng = (rs, eng')" "pl_inv (env_uuid (ee_env ee)) (en_pipeline eng)" "latest_agree eng"
    and "inj (env_uuid (ee_env ee))" "counts_up (env_rules (ee_env ee))"
  shows "map sr_symbol rs = due \<and> pl_inv (env_uuid (ee_env ee)) (en_pipeline eng') \<and> latest_agree eng'
    \<and> en_watchlist eng' = en_watchlist eng \<and> en_buffers eng' = en_buffers eng
    \<and> (\<forall>s. projected clock s eng \<or> s \<in> set due \<longrightarrow> projected clock s eng')
    \<and> (\<forall>s. s \<notin> set due \<longrightarrow> get_level (en_scheduler eng') s = get_level (en_scheduler eng) s)
    \<and> as_policy (en_scheduler eng') = as_policy (en_scheduler eng)
    \<and> as_last_fetch_mono (en_scheduler eng') = as_last_fetch_mono (en_scheduler eng)"
  using assms(1-3)
proof (induction due arbitrary: eng rs)
  case (Cons symbol due)
  obtain r eng1 where first: "process_symbol ee clock symbol eng = (r, eng1)" by (rule prod.exhaust)
  obtain rs1 where rest: "process_due ee clock due eng1 = (rs1, eng')" "rs = r # rs1"
    using Cons.prems(1) by (auto simp: first split: prod.splits)
  note step = process_symbol_step [OF first Cons.prems(2) assms(4,5)]
  have agree: "latest_agree eng1" using local_step_latest step Cons.prems(3) by blast
  note ih = Cons.IH [OF rest(1) _ agree]
  have "projected clock s eng1" if "projected clock s eng \<or> s = symbol" for s
    using local_step_projected step that by blast
  then show ?case using ih step rest(2) by (auto simp: local_step_def)
qed simp

lemma project_all:
  assumes "latest_agree eng"
  shows "latest_agree (fold (project_health clock) symbols eng)
    \<and> en_watchlist (fold (project_health clock) symbols eng) = en_watchlist eng
    \<and> en_buffers (fold (project_health clock) symbols eng) = en_buffers eng
    \<and> en_pipeline (fold (project_health clock) symbols eng) = en_pipeline eng
    \<and> en_scheduler (fold (project_health clock) symbols eng) = en_scheduler eng
    \<and> shown (en_states (fold (project_health clock) symbols eng)) = shown (en_states eng)
    \<and> (\<forall>s. projected clock s eng \<or> s \<in> set symbols \<longrightarrow> projected clock s (fold (project_health clock) symbols eng))"
  using assms
proof (induction symbols arbitrary: eng)
  case (Cons symbol symbols)
  note step = project_health_step [of clock symbol eng]
  have "projected clock s (project_health clock symbol eng)" if "projected clock s eng \<or> s = symbol" for s
    using local_step_projected [OF step] that by blast
  then show ?case
    using Cons.IH [OF local_step_latest [OF step Cons.prems]] step
    by (auto simp: local_step_def project_health_shown)
qed simp

section \<open>Fetching\<close>

definition taken_in :: "('p, 'c) engine \<Rightarrow> ('p, 'c) engine \<Rightarrow> bool" where
  "taken_in eng eng' \<longleftrightarrow>
     sb_inv (en_buffers eng') \<and> latest_agree eng' \<and> later (en_buffers eng) (en_buffers eng')
     \<and> en_watchlist eng' = en_watchlist eng \<and> en_pipeline eng' = en_pipeline eng
     \<and> get_level (en_scheduler eng') = get_level (en_scheduler eng)
     \<and> as_policy (en_scheduler eng') = as_policy (en_scheduler eng)"

lemma taken_in_trans: "taken_in a b \<Longrightarrow> taken_in b c \<Longrightarrow> taken_in a c"
  unfolding taken_in_def using later_trans by metis

lemma taken_in_refl: "sb_inv (en_buffers eng) \<Longrightarrow> latest_agree eng \<Longrightarrow> taken_in eng eng"
  by (simp add: taken_in_def)

definition marked :: "fake_clock \<Rightarrow> string \<Rightarrow> ('p, 'c) engine \<Rightarrow> bool" where
  "marked clock symbol eng \<longleftrightarrow> as_last_fetch_mono (en_scheduler eng) symbol = Some (fc_mono clock)"

lemma engine_mark_simps [simp]:
  "en_buffers (engine_mark clock symbol eng) = en_buffers eng"
  "en_states (engine_mark clock symbol eng) = en_states eng"
  "en_watchlist (engine_mark clock symbol eng) = en_watchlist eng"
  "en_pipeline (engine_mark clock symbol eng) = en_pipeline eng"
  "en_fetched (engine_mark clock symbol eng) = en_fetched eng"
  "get_level (en_scheduler (engine_mark clock symbol eng)) = get_level (en_scheduler eng)"
  "as_policy (en_scheduler (engine_mark clock symbol eng)) = as_policy (en_scheduler eng)"
  "marked clock s (engine_mark clock symbol eng) \<longleftrightarrow> s = symbol \<or> marked clock s eng"
  "as_last_fetch_mono (en_scheduler (engine_mark clock symbol eng)) =
     (as_last_fetch_mono (en_scheduler eng))(symbol \<mapsto> fc_mono clock)"
  by (auto simp: engine_mark_def mark_fetched_def get_level_def marked_def fun_eq_iff)

lemma observe_error_simps [simp]:
  "en_buffers (observe_error clock symbol eng) = en_buffers eng"
  "en_states (observe_error clock symbol eng) = en_states eng"
  "en_watchlist (observe_error clock symbol eng) = en_watchlist eng"
  "en_pipeline (observe_error clock symbol eng) = en_pipeline eng"
  "en_scheduler (observe_error clock symbol eng) = en_scheduler eng"
  "en_fetched (observe_error clock symbol eng) = en_fetched eng"
  by (simp_all add: observe_error_def)

lemma ingest_snapshot_ok:
  assumes "sb_inv (en_buffers eng)" "latest_agree eng" "ms_symbol snapshot = symbol"
  shows "\<exists>eng'. ingest_snapshot clock symbol snapshot eng = Inr eng' \<and> taken_in eng eng'
    \<and> en_scheduler eng' = en_scheduler eng"
proof (cases "case sb_latest (en_buffers eng) symbol of None \<Rightarrow> False
    | Some l \<Rightarrow> ms_market_timestamp snapshot < ms_market_timestamp l")
  case True
  then show ?thesis
    using assms by (simp add: ingest_snapshot_def Let_def taken_in_def latest_agree_def split: option.splits)
next
  case False
  obtain bs where bs: "sb_append (en_buffers eng) snapshot = Inr bs" "sb_inv bs"
    "\<forall>s. s \<noteq> symbol \<longrightarrow> sb_buffers bs s = sb_buffers (en_buffers eng) s"
    "sb_latest bs symbol = (case sb_latest (en_buffers eng) symbol of
        Some old \<Rightarrow> Some (if ms_market_timestamp snapshot < ms_market_timestamp old then old else snapshot)
      | None \<Rightarrow> Some snapshot)"
    using sb_append_total [OF assms(1), of snapshot] assms(3) by blast
  have new: "sb_latest bs symbol = Some snapshot"
    using False bs(4) by (auto split: option.splits if_splits)
  have other: "sb_latest bs s = sb_latest (en_buffers eng) s" if "s \<noteq> symbol" for s
    using bs(3) that by (simp add: sb_latest_def)
  have "later (en_buffers eng) bs"
    unfolding later_def
  proof (intro allI impI)
    fix s old assume old: "sb_latest (en_buffers eng) s = Some old"
    show "\<exists>n. sb_latest bs s = Some n \<and> ms_market_timestamp old \<le> ms_market_timestamp n"
      using False other [of s] old new by (cases "s = symbol") auto
  qed
  moreover have "latest_agree (eng\<lparr>en_buffers := bs, en_states := update_latest snapshot (en_states eng),
      en_health := h, en_diagnostics := d, en_fetched := f\<rparr>)" for h d f
    using assms(2,3) new other
    by (auto simp: latest_agree_def update_latest_def Let_def split: option.split)
  ultimately show ?thesis
    using False bs(1,2) by (simp add: ingest_snapshot_def Let_def taken_in_def)
qed

lemma mark_taken_in: "taken_in eng eng' \<Longrightarrow> taken_in eng (engine_mark clock symbol eng')"
  by (simp add: taken_in_def latest_agree_def)

lemma ingest_due_ok:
  assumes "sb_inv (en_buffers eng)" "latest_agree eng" "\<And>s snap. found s = Some snap \<Longrightarrow> ms_symbol snap = s"
  shows "\<exists>eng'. ingest_due clock found due eng = Inr eng' \<and> taken_in eng eng'
    \<and> (\<forall>s. marked clock s eng' \<longleftrightarrow> s \<in> set due \<or> marked clock s eng)
    \<and> (\<forall>s. s \<notin> set due \<longrightarrow> as_last_fetch_mono (en_scheduler eng') s = as_last_fetch_mono (en_scheduler eng) s)"
  using assms(1,2)
proof (induction due arbitrary: eng)
  case Nil
  then show ?case by (simp add: taken_in_refl)
next
  case (Cons symbol due)
  obtain eng1 where first: "(case found symbol of None \<Rightarrow> Inr (observe_error clock symbol eng)
      | Some snapshot \<Rightarrow> ingest_snapshot clock symbol snapshot eng) = Inr eng1"
    "taken_in eng eng1" "en_scheduler eng1 = en_scheduler eng"
  proof (cases "found symbol")
    case None
    have "taken_in eng (observe_error clock symbol eng)" using Cons.prems by (simp add: taken_in_def latest_agree_def)
    then show thesis using that None by simp
  next
    case (Some snapshot)
    then show thesis
      using that ingest_snapshot_ok [OF Cons.prems assms(3) [OF Some]] by fastforce
  qed
  have t: "taken_in eng (engine_mark clock symbol eng1)" using first(2) by (rule mark_taken_in)
  then obtain eng2 where "ingest_due clock found due (engine_mark clock symbol eng1) = Inr eng2"
    "taken_in (engine_mark clock symbol eng1) eng2"
    "\<forall>s. marked clock s eng2 \<longleftrightarrow> s \<in> set due \<or> marked clock s (engine_mark clock symbol eng1)"
    "\<forall>s. s \<notin> set due \<longrightarrow>
      as_last_fetch_mono (en_scheduler eng2) s = as_last_fetch_mono (en_scheduler (engine_mark clock symbol eng1)) s"
    using Cons.IH [of "engine_mark clock symbol eng1"] by (auto simp: taken_in_def)
  then show ?case
    using first t taken_in_trans by (auto simp: marked_def)
qed

lemma keep_alive_mark:
  "fold (\<lambda>symbol eng. engine_mark clock symbol (eng\<lparr>en_health := k symbol (en_health eng)\<rparr>)) due eng = eng' \<Longrightarrow>
   en_buffers eng' = en_buffers eng \<and> en_states eng' = en_states eng \<and> en_watchlist eng' = en_watchlist eng
   \<and> en_pipeline eng' = en_pipeline eng \<and> en_fetched eng' = en_fetched eng
   \<and> get_level (en_scheduler eng') = get_level (en_scheduler eng)
   \<and> as_policy (en_scheduler eng') = as_policy (en_scheduler eng)
   \<and> (\<forall>s. marked clock s eng' \<longleftrightarrow> s \<in> set due \<or> marked clock s eng)
   \<and> (\<forall>s. s \<notin> set due \<longrightarrow> as_last_fetch_mono (en_scheduler eng') s = as_last_fetch_mono (en_scheduler eng) s)"
proof (induction due arbitrary: eng)
  case (Cons symbol due)
  let ?eng = "engine_mark clock symbol (eng\<lparr>en_health := k symbol (en_health eng)\<rparr>)"
  have "fold (\<lambda>symbol eng. engine_mark clock symbol (eng\<lparr>en_health := k symbol (en_health eng)\<rparr>)) due ?eng = eng'"
    using Cons.prems by simp
  from Cons.IH [OF this] show ?case by (auto simp: marked_def)
qed simp

lemma quiet_stage_taken_in:
  assumes "en_buffers eng' = en_buffers eng" "en_states eng' = en_states eng" "en_watchlist eng' = en_watchlist eng"
    "en_pipeline eng' = en_pipeline eng" "get_level (en_scheduler eng') = get_level (en_scheduler eng)"
    "as_policy (en_scheduler eng') = as_policy (en_scheduler eng)" "sb_inv (en_buffers eng)" "latest_agree eng"
  shows "taken_in eng eng'"
  using assms by (simp add: taken_in_def latest_agree_def)

lemma fetch_due_ok:
  assumes "sb_inv (en_buffers eng)" "latest_agree eng"
  shows "\<exists>eng'. fetch_due ee clock due eng = Inr eng' \<and> taken_in eng eng'
    \<and> (\<forall>s. marked clock s eng' \<longleftrightarrow> s \<in> set due \<or> marked clock s eng)
    \<and> (\<forall>s. s \<notin> set due \<longrightarrow> as_last_fetch_mono (en_scheduler eng') s = as_last_fetch_mono (en_scheduler eng) s)"
proof (cases "ee_exhausted ee (en_provider eng)")
  case True
  obtain eng' where eng': "fold (\<lambda>symbol eng. engine_mark clock symbol
      (eng\<lparr>en_health := keep_alive clock symbol (en_health eng)\<rparr>)) due eng = eng'" by blast
  show ?thesis
    using True keep_alive_mark [OF eng'] assms
    by (intro exI [of _ eng'] conjI quiet_stage_taken_in) (simp_all add: fetch_due_def eng')
next
  case False
  obtain reply p where reply: "ee_fetch ee (en_provider eng) clock due = (reply, p)" by (rule prod.exhaust)
  show ?thesis
  proof (cases reply)
    case (Inl e)
    let ?eng = "eng\<lparr>en_provider := p, en_diagnostics := (en_diagnostics eng)\<lparr>ed_last_fetch_error := Some (exc_name e)\<rparr>\<rparr>"
    obtain eng' where eng': "fold (\<lambda>symbol eng. engine_mark clock symbol
        (eng\<lparr>en_health := snd (health_observe clock symbol None True (en_health eng))\<rparr>)) due ?eng = eng'" by blast
    have run: "fetch_due ee clock due eng = Inr eng'"
      using False by (simp add: fetch_due_def reply Inl observe_error_def eng')
    have m: "marked clock s ?eng \<longleftrightarrow> marked clock s eng" for s by (simp add: marked_def)
    show ?thesis
      using run keep_alive_mark [OF eng'] assms m
      by (intro exI [of _ eng'] conjI quiet_stage_taken_in) simp_all
  next
    case (Inr snapshots)
    let ?eng = "eng\<lparr>en_provider := p, en_diagnostics := (en_diagnostics eng)\<lparr>ed_last_fetch_error := None\<rparr>\<rparr>"
    let ?found = "map_of (rev (map (\<lambda>s. (ms_symbol s, s)) snapshots))"
    have found: "ms_symbol snap = s" if "?found s = Some snap" for s snap
      using map_of_SomeD [OF that] by auto
    have ok: "sb_inv (en_buffers ?eng)" "latest_agree ?eng" using assms by (simp_all add: latest_agree_def)
    obtain eng' where "ingest_due clock ?found due ?eng = Inr eng'" "taken_in ?eng eng'"
      "\<forall>s. marked clock s eng' \<longleftrightarrow> s \<in> set due \<or> marked clock s ?eng"
      "\<forall>s. s \<notin> set due \<longrightarrow> as_last_fetch_mono (en_scheduler eng') s = as_last_fetch_mono (en_scheduler ?eng) s"
      using ingest_due_ok [OF ok found, where clock = clock and due = due] by blast
    then show ?thesis using False by (simp add: fetch_due_def reply Inr taken_in_def marked_def)
  qed
qed

section \<open>The tick\<close>

definition positive_intervals :: "scheduler_policy \<Rightarrow> bool" where
  "positive_intervals p \<longleftrightarrow> 0 < sp_cold_interval_s p \<and> 0 < sp_warm_interval_s p \<and> 0 < sp_hot_interval_s p"

lemma marked_not_due:
  "marked clock s eng \<Longrightarrow> positive_intervals (as_policy (en_scheduler eng)) \<Longrightarrow> \<not> is_due (en_scheduler eng) clock s"
  by (auto simp: marked_def is_due_def level_interval_def positive_intervals_def)

lemma engine_tick_run:
  fixes clock :: fake_clock
  assumes "engine_ok (env_uuid (ee_env ee)) eng" "inj (env_uuid (ee_env ee))" "counts_up (env_rules (ee_env ee))"
  defines "due \<equiv> due_symbols (en_scheduler eng) clock (enabled_symbols (en_watchlist eng))"
  shows "\<exists>results eng'. engine_tick ee clock eng = Inr (results, eng')
    \<and> engine_ok (env_uuid (ee_env ee)) eng' \<and> en_watchlist eng' = en_watchlist eng
    \<and> map sr_symbol results = due
    \<and> later (en_buffers eng) (en_buffers eng')
    \<and> (\<forall>s \<in> set (enabled_symbols (en_watchlist eng)). projected clock s eng')
    \<and> as_policy (en_scheduler eng') = as_policy (en_scheduler eng)
    \<and> (\<forall>s \<in> set due. marked clock s eng')
    \<and> (\<forall>s. s \<notin> set due \<longrightarrow> get_level (en_scheduler eng') s = get_level (en_scheduler eng) s
          \<and> as_last_fetch_mono (en_scheduler eng') s = as_last_fetch_mono (en_scheduler eng) s)"
proof -
  let ?enabled = "enabled_symbols (en_watchlist eng)"
  let ?eng = "eng\<lparr>en_fetched := []\<rparr>"
  note inv = assms(1) [unfolded engine_ok_def]
  have ok: "sb_inv (en_buffers ?eng)" "latest_agree ?eng" using inv by (simp_all add: latest_agree_def)
  obtain eng1 where eng1: "(if due \<noteq> [] then fetch_due ee clock due ?eng else Inr ?eng) = Inr eng1"
    "taken_in ?eng eng1" "\<forall>s. marked clock s eng1 \<longleftrightarrow> s \<in> set due \<or> marked clock s ?eng"
    "\<forall>s. s \<notin> set due \<longrightarrow> as_last_fetch_mono (en_scheduler eng1) s = as_last_fetch_mono (en_scheduler ?eng) s"
  proof (cases "due = []")
    case True
    then show thesis using that [of ?eng] taken_in_refl [OF ok] by simp
  next
    case False
    then show thesis using that fetch_due_ok [OF ok, of ee clock due] by fastforce
  qed
  obtain rs eng2 where eng2: "process_due ee clock due eng1 = (rs, eng2)" by (rule prod.exhaust)
  have "pl_inv (env_uuid (ee_env ee)) (en_pipeline eng1)" "latest_agree eng1"
    using eng1(2) inv by (simp_all add: taken_in_def)
  note steps = process_due_steps [OF eng2 this assms(2,3)]
  let ?rest = "filter (\<lambda>s. s \<notin> set due) ?enabled"
  let ?eng' = "fold (project_health clock) ?rest eng2"
  have "latest_agree eng2" using steps by blast
  note all = project_all [OF this, of clock ?rest]
  have enabled: "en_watchlist eng1 = en_watchlist eng" using eng1(2) by (simp add: taken_in_def)
  have run: "engine_tick ee clock eng = Inr (rs, ?eng')"
    unfolding engine_tick_def Let_def due_def [symmetric] eng1(1) res_bind.simps eng2 prod.case ..
  have "projected clock s ?eng'" if "s \<in> set ?enabled" for s
    using all steps that by (cases "s \<in> set due") auto
  moreover have "engine_ok (env_uuid (ee_env ee)) ?eng'"
    using all steps eng1(2) by (simp add: engine_ok_def taken_in_def)
  ultimately show ?thesis
    using run all steps eng1 enabled by (auto simp: taken_in_def marked_def)
qed

text \<open>C1: A tick never raises and loses nothing: whatever the provider returns or raises and whatever
  the features compute, it gives one result per due symbol in order, keeps the engine's invariant
  (buffers, the agreement of the states with them, the composer), and never moves the latest quote
  of a symbol back in market time.\<close>

theorem engine_tick_never_raises:
  assumes "engine_ok (env_uuid (ee_env ee)) eng" "inj (env_uuid (ee_env ee))" "counts_up (env_rules (ee_env ee))"
  shows "\<exists>results eng'. engine_tick ee clock eng = Inr (results, eng')
    \<and> engine_ok (env_uuid (ee_env ee)) eng'
    \<and> map sr_symbol results = due_symbols (en_scheduler eng) clock (enabled_symbols (en_watchlist eng))
    \<and> later (en_buffers eng) (en_buffers eng')"
  using engine_tick_run [OF assms] by blast

text \<open>C14: A tick leaves every enabled symbol accounted for and paces the next one: each has a state that
  shows exactly the tracker's status, latency and age and the scheduler's level, and with positive
  intervals no symbol is due again at the same instant.\<close>

theorem engine_tick_projects_and_paces:
  assumes "engine_ok (env_uuid (ee_env ee)) eng" "inj (env_uuid (ee_env ee))" "counts_up (env_rules (ee_env ee))"
    and "positive_intervals (as_policy (en_scheduler eng))"
  shows "\<exists>results eng'. engine_tick ee clock eng = Inr (results, eng')
    \<and> (\<forall>s \<in> set (enabled_symbols (en_watchlist eng)). projected clock s eng')
    \<and> due_symbols (en_scheduler eng') clock (enabled_symbols (en_watchlist eng')) = []"
proof -
  let ?due = "due_symbols (en_scheduler eng) clock (enabled_symbols (en_watchlist eng))"
  obtain results eng' where run: "engine_tick ee clock eng = Inr (results, eng')"
    "en_watchlist eng' = en_watchlist eng"
    "\<forall>s \<in> set (enabled_symbols (en_watchlist eng)). projected clock s eng'"
    "as_policy (en_scheduler eng') = as_policy (en_scheduler eng)" "\<forall>s \<in> set ?due. marked clock s eng'"
    "\<forall>s. s \<notin> set ?due \<longrightarrow> get_level (en_scheduler eng') s = get_level (en_scheduler eng) s
      \<and> as_last_fetch_mono (en_scheduler eng') s = as_last_fetch_mono (en_scheduler eng) s"
    using engine_tick_run [OF assms(1-3), of clock] by blast
  have "\<not> is_due (en_scheduler eng') clock s" if "s \<in> set (enabled_symbols (en_watchlist eng))" for s
  proof (cases "s \<in> set ?due")
    case True
    then show ?thesis using marked_not_due run(4,5) assms(4) by metis
  next
    case False
    then have "\<not> is_due (en_scheduler eng) clock s" using that by (simp add: due_symbols_def)
    then show ?thesis using run(4,6) False by (simp add: is_due_def split: option.splits)
  qed
  then show ?thesis using run by (auto simp: due_symbols_def filter_empty_conv)
qed

section \<open>A failing provider\<close>

lemma process_due_unfetched:
  assumes "en_fetched eng = []" "process_due ee clock due eng = (rs, eng')"
  shows "en_fetched eng' = [] \<and> en_buffers eng' = en_buffers eng \<and> en_pipeline eng' = en_pipeline eng
    \<and> en_telemetry eng' = en_telemetry eng \<and> en_scheduler eng' = en_scheduler eng
    \<and> shown (en_states eng') = shown (en_states eng)
    \<and> map sr_symbol rs = due \<and> (\<forall>r \<in> set rs. sr_accepted_events r = [] \<and> sr_alert_candidates r = [])"
  using assms
proof (induction due arbitrary: eng rs)
  case (Cons symbol due)
  obtain r eng1 where first: "process_symbol ee clock symbol eng = (r, eng1)" by (rule prod.exhaust)
  obtain rs1 where rest: "process_due ee clock due eng1 = (rs1, eng')" "rs = r # rs1"
    using Cons.prems(2) by (auto simp: first split: prod.splits)
  have "quiet_result clock symbol (get_level (en_scheduler eng) symbol) True eng = (r, eng1)"
    using first Cons.prems(1) by (simp add: process_symbol_def Let_def)
  note quiet = quiet_result_step [OF this]
  have eng1: "en_fetched eng1 = []" "en_buffers eng1 = en_buffers eng"
    using quiet(2) Cons.prems(1) by (simp_all add: local_step_def)
  show ?case
    using Cons.IH [OF eng1(1) rest(1)] eng1(2) quiet(1,4-6) rest(2) by (simp add: project_health_shown)
qed simp

text \<open>C15: A failing provider costs nothing but freshness: when the fetch raises, the tick still returns,
  every due symbol gets one result, in their order and without events or alerts, and the buffers, the pipeline, the
  attention levels and the features and signals on display stay exactly as they were.\<close>

theorem provider_failure_contained:
  assumes "\<not> ee_exhausted ee (en_provider eng)" "due \<noteq> []"
    and "due = due_symbols (en_scheduler eng) clock (enabled_symbols (en_watchlist eng))"
    and "ee_fetch ee (en_provider eng) clock due = (Inl e, p)"
  shows "\<exists>results eng'. engine_tick ee clock eng = Inr (results, eng')
    \<and> map sr_symbol results = due
    \<and> (\<forall>r \<in> set results. sr_accepted_events r = [] \<and> sr_alert_candidates r = [])
    \<and> en_buffers eng' = en_buffers eng \<and> en_pipeline eng' = en_pipeline eng
    \<and> get_level (en_scheduler eng') = get_level (en_scheduler eng)
    \<and> shown (en_states eng') = shown (en_states eng)"
proof -
  let ?eng = "eng\<lparr>en_fetched := [], en_provider := p, en_diagnostics :=
      (en_diagnostics eng)\<lparr>ed_last_fetch_error := Some (exc_name e)\<rparr>\<rparr>"
  obtain eng1 where eng1: "fold (\<lambda>symbol eng. engine_mark clock symbol
      (eng\<lparr>en_health := snd (health_observe clock symbol None True (en_health eng))\<rparr>)) due ?eng = eng1" by blast
  note k = keep_alive_mark [OF eng1]
  have fetched: "fetch_due ee clock due (eng\<lparr>en_fetched := []\<rparr>) = Inr eng1"
    using assms(1,4) eng1 by (simp add: fetch_due_def observe_error_def)
  obtain rs eng2 where eng2: "process_due ee clock due eng1 = (rs, eng2)" by (rule prod.exhaust)
  have "en_fetched eng1 = []" using k by simp
  note quiet = process_due_unfetched [OF this eng2]
  let ?rest = "filter (\<lambda>s. s \<notin> set due) (enabled_symbols (en_watchlist eng))"
  let ?eng' = "fold (project_health clock) ?rest eng2"
  have rest: "en_buffers (fold (project_health clock) xs g) = en_buffers g
      \<and> en_pipeline (fold (project_health clock) xs g) = en_pipeline g
      \<and> en_scheduler (fold (project_health clock) xs g) = en_scheduler g
      \<and> shown (en_states (fold (project_health clock) xs g)) = shown (en_states g)" for xs and g :: "('a, 'b) engine"
    by (induction xs arbitrary: g)
      (use project_health_step in \<open>auto simp: project_health_shown local_step_def\<close>)
  have "engine_tick ee clock eng = Inr (rs, ?eng')"
    by (simp add: engine_tick_def Let_def assms(3) [symmetric] assms(2) fetched eng2)
  then show ?thesis using quiet rest [of ?rest eng2] k by simp
qed

subsection \<open>A sample engine\<close>

definition sample_engine :: "(fake_provider, telemetry_event list) engine" where
  "sample_engine =
     \<lparr>en_watchlist = \<lparr>wl_path = False, wl_limit = 10, wl_persist = False,
        wl_items = [(''600519.SH'', \<lparr>wi_symbol = ''600519.SH'', wi_enabled = True\<rparr>)]\<rparr>,
      en_provider = new_fake_provider, en_scheduler = new_scheduler default_scheduler_policy,
      en_buffers = sb_new 3600 4096, en_states = Map.empty, en_health = new_health default_health_policy,
      en_pipeline = new_pipeline, en_telemetry = None, en_fetched = [],
      en_diagnostics = \<lparr>ed_out_of_order_count = 0, ed_duplicate_timestamp_count = 0, ed_recovery_count = 0,
        ed_last_fetch_error = None\<rparr>\<rparr>"

definition sample_engine_env :: "(fake_provider, telemetry_event list) engine_env" where
  "sample_engine_env =
     \<lparr>ee_env = sample_env, ee_fetch = fake_fetch (\<lambda>_. None) (\<lambda>_. []), ee_exhausted = (\<lambda>_. False),
      ee_features = default_feature_policy, ee_warming = default_warming_config\<rparr>"

lemma sample_engine_ok: "engine_ok (env_uuid (ee_env sample_engine_env)) sample_engine"
  by (simp add: engine_ok_def sample_engine_def sb_inv_def sb_new_def latest_agree_def sb_latest_def pl_inv_def
      new_pipeline_def co_inv_new)

lemma sample_env_ok: "inj (env_uuid (ee_env sample_engine_env))" "counts_up (env_rules (ee_env sample_engine_env))"
  using inj_tally default_rules_count_up by (simp_all add: sample_engine_env_def sample_env_def)

theorem engine_tick_never_raises_witness:
  "\<exists>results eng'. engine_tick sample_engine_env sample_clock sample_engine = Inr (results, eng')
     \<and> map sr_symbol results = [''600519.SH'']"
proof -
  have "due_symbols (en_scheduler sample_engine) sample_clock (enabled_symbols (en_watchlist sample_engine)) = [''600519.SH'']"
    by code_simp
  then show ?thesis
    using engine_tick_never_raises [OF sample_engine_ok sample_env_ok, of sample_clock] by auto
qed

theorem engine_tick_projects_and_paces_witness:
  "\<exists>results eng'. engine_tick sample_engine_env sample_clock sample_engine = Inr (results, eng')
     \<and> projected sample_clock ''600519.SH'' eng'"
proof -
  have "positive_intervals (as_policy (en_scheduler sample_engine))"
    "''600519.SH'' \<in> set (enabled_symbols (en_watchlist sample_engine))" by code_simp+
  then show ?thesis
    using engine_tick_projects_and_paces [OF sample_engine_ok sample_env_ok, of sample_clock] by blast
qed

theorem provider_failure_contained_witness:
  "\<exists>results eng'. engine_tick sample_engine_env sample_clock
       (sample_engine\<lparr>en_provider := set_timeout True new_fake_provider\<rparr>) = Inr (results, eng')
     \<and> en_pipeline eng' = en_pipeline sample_engine"
proof -
  let ?eng = "sample_engine\<lparr>en_provider := set_timeout True new_fake_provider\<rparr>"
  have due: "[''600519.SH''] = due_symbols (en_scheduler ?eng) sample_clock (enabled_symbols (en_watchlist ?eng))"
    by code_simp
  have fetch: "ee_fetch sample_engine_env (en_provider ?eng) sample_clock [''600519.SH''] =
      (Inl (TimeoutError ''provider timeout''), (set_timeout True new_fake_provider)\<lparr>fp_last_requested := [''600519.SH'']\<rparr>)"
    by (simp add: sample_engine_env_def fake_fetch_def set_timeout_def Let_def)
  have live: "\<not> ee_exhausted sample_engine_env (en_provider ?eng)" by (simp add: sample_engine_env_def)
  obtain results eng' where "engine_tick sample_engine_env sample_clock ?eng = Inr (results, eng')"
    "en_pipeline eng' = en_pipeline ?eng"
    using provider_failure_contained [OF live list.distinct(2) due fetch] by blast
  moreover have "en_pipeline ?eng = en_pipeline sample_engine" by simp
  ultimately show ?thesis by metis
qed

end
