(* ===== verification/Intelligence.thy ===== *)
theory Intelligence
  imports Telemetry
begin

text \<open>
  \<open>intelligence/contract.py\<close>, \<open>router.py\<close>, \<open>compress.py\<close>, \<open>registry.py\<close>, \<open>view.py\<close>, \<open>parse.py\<close> and
  \<open>redaction.py\<close>: the compressed facts a signal is described with, the router that decides whether
  the model is asked, the call budget of an episode, the annotations and the checks on the model's
  answer. \<open>json.loads\<close> and the regular expressions for trading advice are parameters.
\<close>

section \<open>Contract\<close>

datatype intelligence_status = NOT_REQUESTED | QUEUED | RUNNING | ENRICHED | FALLBACK

datatype fallback_reason =
    FR_NONE
  | FR_NOT_CANDIDATE
  | FR_STALE_FEED
  | FR_INSUFFICIENT_FEATURES
  | FR_SUPPRESSED_EDGE
  | FR_EPISODE_BUDGET
  | FR_EXPIRED_EPISODE
  | FR_TIMEOUT
  | FR_TRANSPORT
  | FR_MALFORMED
  | FR_RATE_LIMITED
  | FR_UNAVAILABLE
  | FR_CANCELLED
  | FR_STALE_WORK
  | FR_POLICY

fun intelligence_status_value :: "intelligence_status \<Rightarrow> string" where
  "intelligence_status_value NOT_REQUESTED = ''not_requested''"
| "intelligence_status_value QUEUED = ''queued''"
| "intelligence_status_value RUNNING = ''running''"
| "intelligence_status_value ENRICHED = ''enriched''"
| "intelligence_status_value FALLBACK = ''fallback''"

fun fallback_reason_value :: "fallback_reason \<Rightarrow> string" where
  "fallback_reason_value FR_NONE = ''none''"
| "fallback_reason_value FR_NOT_CANDIDATE = ''not_candidate''"
| "fallback_reason_value FR_STALE_FEED = ''stale_feed''"
| "fallback_reason_value FR_INSUFFICIENT_FEATURES = ''insufficient_features''"
| "fallback_reason_value FR_SUPPRESSED_EDGE = ''suppressed_edge''"
| "fallback_reason_value FR_EPISODE_BUDGET = ''episode_budget''"
| "fallback_reason_value FR_EXPIRED_EPISODE = ''expired_episode''"
| "fallback_reason_value FR_TIMEOUT = ''timeout''"
| "fallback_reason_value FR_TRANSPORT = ''transport''"
| "fallback_reason_value FR_MALFORMED = ''malformed''"
| "fallback_reason_value FR_RATE_LIMITED = ''rate_limited''"
| "fallback_reason_value FR_UNAVAILABLE = ''unavailable''"
| "fallback_reason_value FR_CANCELLED = ''cancelled''"
| "fallback_reason_value FR_STALE_WORK = ''stale_work''"
| "fallback_reason_value FR_POLICY = ''policy''"

record intelligence_input =
  ii_signal_id :: string
  ii_symbol :: string
  ii_family :: string
  ii_direction :: event_direction
  ii_priority :: signal_priority
  ii_event_types :: "string list"
  ii_change_1m :: "flt option"
  ii_change_5m :: "flt option"
  ii_volume_ratio_5m :: "flt option"
  ii_above_vwap :: "bool option"
  ii_rsi14 :: "flt option"
  ii_day_range_position :: "flt option"
  ii_feed_status :: feed_status
  ii_alert_edge :: bool
  ii_episode_call_count :: nat
  ii_last_requested_priority :: "signal_priority option"
  ii_expired :: bool

record intelligence_annotation =
  ia_signal_id :: string
  ia_worth_highlight :: bool
  ia_reason :: string
  ia_confidence :: flt
  ia_summary :: string
  ia_created_timestamp :: flt

record intelligence_result =
  ir_signal_id :: string
  ir_status :: intelligence_status
  ir_requested :: bool
  ir_annotation :: "intelligence_annotation option"
  ir_fallback_reason :: fallback_reason
  ir_model_calls :: nat
  ir_model_latency_s :: "flt option"

record call_budget =
  cb_max_calls :: nat
  cb_allow_escalation_recall :: bool

definition default_call_budget :: call_budget where
  "default_call_budget = \<lparr>cb_max_calls = 1, cb_allow_escalation_recall = False\<rparr>"

definition budget_allows_call ::
  "call_budget \<Rightarrow> nat \<Rightarrow> signal_priority \<Rightarrow> signal_priority option \<Rightarrow> bool" where
  "budget_allows_call budget calls_made current last_priority =
     (if calls_made < cb_max_calls budget then True
      else if \<not> cb_allow_escalation_recall budget then False
      else case last_priority of
        None \<Rightarrow> False
      | Some before \<Rightarrow>
          if calls_made \<ge> cb_max_calls budget + 1 then False
          else priority_rank current > priority_rank before)"

section \<open>Registry and view\<close>

type_synonym registry = "(string, intelligence_result) dict"

definition registry_put :: "intelligence_result \<Rightarrow> registry \<Rightarrow> registry" where
  "registry_put result rows = dict_set (ir_signal_id result) result rows"

definition registry_prune :: "string list \<Rightarrow> registry \<Rightarrow> registry" where
  "registry_prune active rows =
     fold dict_pop (filter (\<lambda>key. key \<notin> set active) (map fst rows)) rows"

definition intelligence_view :: "intelligence_result option \<Rightarrow> string \<Rightarrow> intelligence_result" where
  "intelligence_view result signal_id =
     (case result of
        Some r \<Rightarrow> r
      | None \<Rightarrow>
          \<lparr>ir_signal_id = signal_id, ir_status = NOT_REQUESTED, ir_requested = False, ir_annotation = None,
           ir_fallback_reason = FR_NONE, ir_model_calls = 0, ir_model_latency_s = None\<rparr>)"

section \<open>Compression\<close>

definition MODEL_PAYLOAD_KEYS :: "string list" where
  "MODEL_PAYLOAD_KEYS =
     [''signal_id'', ''symbol'', ''family'', ''direction'', ''priority'', ''event_types'', ''change_1m'',
      ''change_5m'', ''volume_ratio_5m'', ''above_vwap'', ''rsi14'', ''day_range_position'']"

definition FORBIDDEN_PAYLOAD_KEYS :: "string list" where
  "FORBIDDEN_PAYLOAD_KEYS =
     [''event_ids'', ''rule_names'', ''features'', ''priority_reason'', ''ticks'', ''snapshots'', ''ring_buffer'',
      ''source_code'', ''workspace'', ''conversation'', ''api_key'', ''prompt'', ''files'']"

definition compress_intelligence_input ::
  "signal \<Rightarrow> signal_trace \<Rightarrow> feed_status \<Rightarrow> bool \<Rightarrow> nat \<Rightarrow> signal_priority option \<Rightarrow> bool \<Rightarrow> intelligence_input" where
  "compress_intelligence_input s trace feed alert_edge call_count last_priority expired =
     (let features = tr_features trace
      in \<lparr>ii_signal_id = sg_id s,
          ii_symbol = sg_symbol s,
          ii_family = sg_family s,
          ii_direction = sg_direction s,
          ii_priority = sg_priority s,
          ii_event_types = sort (remdups (tr_rule_names trace)),
          ii_change_1m = mf_change_1m features,
          ii_change_5m = mf_change_5m features,
          ii_volume_ratio_5m = mf_volume_ratio_5m features,
          ii_above_vwap = mf_above_vwap features,
          ii_rsi14 = mf_rsi14 features,
          ii_day_range_position = mf_day_range_position features,
          ii_feed_status = feed,
          ii_alert_edge = alert_edge,
          ii_episode_call_count = call_count,
          ii_last_requested_priority = last_priority,
          ii_expired = expired\<rparr>)"

definition opt_flt :: "flt option \<Rightarrow> pyval" where
  "opt_flt x = (case x of None \<Rightarrow> PyNone | Some v \<Rightarrow> PyFloat (Fin v))"

definition opt_bool :: "bool option \<Rightarrow> pyval" where
  "opt_bool x = (case x of None \<Rightarrow> PyNone | Some v \<Rightarrow> PyBool v)"

definition to_model_payload :: "intelligence_input \<Rightarrow> payload" where
  "to_model_payload row =
     [(''signal_id'', PyStr (ii_signal_id row)),
      (''symbol'', PyStr (ii_symbol row)),
      (''family'', PyStr (ii_family row)),
      (''direction'', PyStr (event_direction_value (ii_direction row))),
      (''priority'', PyStr (signal_priority_value (ii_priority row))),
      (''event_types'', PyList (map PyStr (ii_event_types row))),
      (''change_1m'', opt_flt (ii_change_1m row)),
      (''change_5m'', opt_flt (ii_change_5m row)),
      (''volume_ratio_5m'', opt_flt (ii_volume_ratio_5m row)),
      (''above_vwap'', opt_bool (ii_above_vwap row)),
      (''rsi14'', opt_flt (ii_rsi14 row)),
      (''day_range_position'', opt_flt (ii_day_range_position row))]"

section \<open>Router\<close>

record router_policy =
  ro_min_priority :: signal_priority
  ro_require_alert_edge :: bool
  ro_min_convergence_types :: nat

definition default_router_policy :: router_policy where
  "default_router_policy = \<lparr>ro_min_priority = IMPORTANT, ro_require_alert_edge = True, ro_min_convergence_types = 3\<rparr>"

record router_decision =
  rd_requested :: bool
  rd_reason :: fallback_reason
  rd_candidate :: bool

definition router_price :: "string list" where
  "router_price = [event_type_value RAPID_MOVE, event_type_value PRICE_VOLUME_EXPANSION]"

definition router_volume :: "string list" where
  "router_volume = [event_type_value VOLUME_SPIKE, event_type_value PRICE_VOLUME_EXPANSION]"

definition router_breakout :: "string list" where
  "router_breakout = [event_type_value DAY_HIGH_BREAKOUT, event_type_value DAY_LOW_BREAKDOWN]"

definition touches :: "string list \<Rightarrow> string list \<Rightarrow> bool" where
  "touches types members = list_ex (\<lambda>t. t \<in> set members) types"

definition is_candidate :: "intelligence_input \<Rightarrow> router_policy \<Rightarrow> bool" where
  "is_candidate row policy =
     (if priority_rank (ii_priority row) \<ge> priority_rank (ro_min_priority policy) then True
      else
        let types = remdups (ii_event_types row)
        in if touches types router_price \<and> touches types router_volume \<and> touches types router_breakout then True
           else length types \<ge> ro_min_convergence_types policy
             \<and> touches types router_price \<and> touches types router_volume)"

definition insufficient_features :: "intelligence_input \<Rightarrow> bool" where
  "insufficient_features row \<longleftrightarrow>
     ii_change_1m row = None \<and> ii_change_5m row = None \<and> ii_volume_ratio_5m row = None"

definition need_intelligence :: "router_policy \<Rightarrow> call_budget \<Rightarrow> intelligence_input \<Rightarrow> router_decision" where
  "need_intelligence policy budget row =
     (let candidate = is_candidate row policy;
          skip = (\<lambda>reason. \<lparr>rd_requested = False, rd_reason = reason, rd_candidate = candidate\<rparr>)
      in if ii_expired row then skip FR_EXPIRED_EPISODE
         else if ro_require_alert_edge policy \<and> \<not> ii_alert_edge row then skip FR_SUPPRESSED_EDGE
         else if ii_feed_status row \<in> {STALE, DISCONNECTED} then skip FR_STALE_FEED
         else if insufficient_features row then skip FR_INSUFFICIENT_FEATURES
         else if \<not> candidate then skip FR_NOT_CANDIDATE
         else if \<not> budget_allows_call budget (ii_episode_call_count row) (ii_priority row)
                    (ii_last_requested_priority row) then skip FR_EPISODE_BUDGET
         else \<lparr>rd_requested = True, rd_reason = FR_NONE, rd_candidate = True\<rparr>)"

section \<open>The model's answer\<close>

datatype intelligence_error =
    IntelligenceTimeout
  | IntelligenceTransport
  | IntelligenceUnavailable
  | IntelligenceRateLimit
  | IntelligenceMalformed string
  | IntelligenceAuth
  | OtherException exc

record model_completion =
  mc_worth_highlight :: bool
  mc_reason :: string
  mc_confidence :: flt
  mc_summary :: string
  mc_token_in :: "int option"
  mc_token_out :: "int option"

definition py_strip :: "string \<Rightarrow> string" where
  "py_strip s = rev (dropWhile py_space (rev (dropWhile py_space s)))"

definition malformed :: "string \<Rightarrow> intelligence_error + 'a" where
  "malformed m = Inl (IntelligenceMalformed m)"

text \<open>
  \<open>loads\<close> is \<open>json.loads\<close> with \<open>None\<close> for a decoding error and \<open>advice\<close> is \<open>contains_trading_advice\<close>.
  An integer confidence beyond the range of a double overflows in \<open>float()\<close>.
\<close>

definition parse_model_output ::
  "(string \<Rightarrow> pyval option) \<Rightarrow> (string \<Rightarrow> bool) \<Rightarrow> string \<Rightarrow> intelligence_error + model_completion" where
  "parse_model_output loads advice text =
     (case loads text of
        None \<Rightarrow> malformed ''model output is not JSON''
      | Some (PyDict data) \<Rightarrow>
          if list_ex (\<lambda>key. dict_get data key = None) [''worth_highlight'', ''reason'', ''confidence'', ''summary'']
          then malformed ''model output missing fields''
          else
            (case the (dict_get data ''worth_highlight'') of
               PyBool worth \<Rightarrow>
                 (case the (dict_get data ''reason'') of
                    PyStr reason \<Rightarrow>
                      if blank reason then malformed ''reason must be a non-empty string''
                      else
                        (case the (dict_get data ''summary'') of
                           PyStr summary \<Rightarrow>
                             if blank summary then malformed ''summary must be a non-empty string''
                             else
                               (case finite_number (the (dict_get data ''confidence'')) of
                                  Inl e \<Rightarrow> Inl (OtherException e)
                                | Inr c \<Rightarrow>
                                    (case (the (dict_get data ''confidence''), c) of
                                       (PyFloat x, None) \<Rightarrow> malformed ''confidence out of range''
                                     | (v, None) \<Rightarrow> malformed ''confidence must be a number''
                                     | (v, Some (Fin x)) \<Rightarrow>
                                         if \<not> (0 \<le> x \<and> x \<le> 1) then malformed ''confidence out of range''
                                         else if advice reason \<or> advice summary
                                         then malformed ''trading advice is not allowed''
                                         else Inr
                                           \<lparr>mc_worth_highlight = worth, mc_reason = py_strip reason,
                                            mc_confidence = x, mc_summary = py_strip summary,
                                            mc_token_in = None, mc_token_out = None\<rparr>
                                     | (v, Some y) \<Rightarrow> malformed ''confidence out of range''))
                         | _ \<Rightarrow> malformed ''summary must be a non-empty string'')
                  | _ \<Rightarrow> malformed ''reason must be a non-empty string'')
             | _ \<Rightarrow> malformed ''worth_highlight must be bool'')
      | Some _ \<Rightarrow> malformed ''model output is not an object'')"

section \<open>Properties\<close>

lemma budget_allows_bound:
  "budget_allows_call budget calls current before \<Longrightarrow>
   Suc calls \<le> cb_max_calls budget + (if cb_allow_escalation_recall budget then 1 else 0)"
  by (auto simp: budget_allows_call_def split: if_splits option.splits)

lemma need_intelligence_requested:
  "rd_requested (need_intelligence policy budget row) \<longleftrightarrow>
     \<not> ii_expired row
     \<and> (ro_require_alert_edge policy \<longrightarrow> ii_alert_edge row)
     \<and> ii_feed_status row \<in> {LIVE, DELAYED}
     \<and> \<not> insufficient_features row \<and> is_candidate row policy
     \<and> budget_allows_call budget (ii_episode_call_count row) (ii_priority row) (ii_last_requested_priority row)"
proof -
  have "ii_feed_status row \<in> {LIVE, DELAYED} \<longleftrightarrow> ii_feed_status row \<notin> {STALE, DISCONNECTED}"
    by (cases "ii_feed_status row") auto
  then show ?thesis by (simp add: need_intelligence_def Let_def)
qed

lemma finite_number_Some: "finite_number v = Inr (Some x) \<Longrightarrow> \<exists>y. x = Fin y"
proof -
  have fin: "finite_float x \<Longrightarrow> \<exists>y. x = Fin y" for x by (cases x) auto
  show "finite_number v = Inr (Some x) \<Longrightarrow> \<exists>y. x = Fin y"
    by (cases v) (auto split: if_splits intro: fin)
qed

lemma dropWhile_space: "\<not> blank s \<Longrightarrow> dropWhile py_space s \<noteq> []"
  by (auto simp: blank_def list_all_iff dropWhile_eq_Nil_conv)

lemma py_strip_nonempty:
  assumes "\<not> blank s"
  shows "py_strip s \<noteq> [] \<and> \<not> py_space (hd (py_strip s)) \<and> \<not> py_space (last (py_strip s))"
proof -
  let ?t = "dropWhile py_space s"
  have t: "?t \<noteq> []" "\<not> py_space (hd ?t)"
    using dropWhile_space [OF assms] hd_dropWhile by blast+
  then have "\<not> blank (rev ?t)" unfolding blank_def list_all_iff by (metis hd_in_set set_rev)
  then have u: "dropWhile py_space (rev ?t) \<noteq> []" "\<not> py_space (hd (dropWhile py_space (rev ?t)))"
    using dropWhile_space hd_dropWhile by blast+
  have "last (dropWhile py_space (rev ?t)) = last (rev ?t)"
    using u(1) by (metis last_appendR takeWhile_dropWhile_id)
  then show ?thesis using t u by (simp add: py_strip_def hd_rev last_rev)
qed

text \<open>Only a well-formed answer without advice becomes an annotation: whatever text the model returns,
  an accepted completion has a confidence in [0, 1] and a reason and a summary that are non-empty
  without surrounding white space, and neither original text contained trading advice.\<close>

theorem parse_model_output_safe:
  assumes "parse_model_output loads advice text = Inr completion"
  shows "0 \<le> mc_confidence completion \<and> mc_confidence completion \<le> 1
    \<and> (\<exists>reason summary. mc_reason completion = py_strip reason \<and> mc_summary completion = py_strip summary
        \<and> \<not> advice reason \<and> \<not> advice summary \<and> py_strip reason \<noteq> [] \<and> py_strip summary \<noteq> []
        \<and> \<not> py_space (hd (py_strip reason)) \<and> \<not> py_space (last (py_strip summary)))"
proof -
  obtain data where data: "loads text = Some (PyDict data)"
    using assms by (auto simp: parse_model_output_def malformed_def split: option.splits pyval.splits)
  obtain reason summary x where r: "\<not> blank reason" "\<not> blank summary" "0 \<le> x" "x \<le> 1"
    "\<not> advice reason" "\<not> advice summary"
    "mc_confidence completion = x" "mc_reason completion = py_strip reason" "mc_summary completion = py_strip summary"
    using assms
    by (simp add: parse_model_output_def data malformed_def split: if_splits pyval.splits sum.splits option.splits pyfloat.splits)
      auto
  then show ?thesis using py_strip_nonempty by metis
qed

end
