(* ===== verification/Coordinator.thy ===== *)
theory Coordinator
  imports Intelligence Pipeline
begin

text \<open>
  \<open>intelligence/coordinator.py\<close>: the asynchronous sidecar as a transition system. Its steps are the code
  between two suspension points: observing a tick, a worker taking work up to the model call, the
  worker going on once the call has returned, raised or was cancelled, start and shutdown. The
  interleavings are the sequences of steps; the model's answer is an argument of the step.
\<close>

section \<open>State\<close>

record intelligence_work =
  wk_signal_id :: string
  wk_payload :: intelligence_input
  wk_generation :: nat
  wk_market_timestamp :: flt
  wk_symbol :: string
  wk_family :: string
  wk_direction :: string
  wk_priority :: string

text \<open>A worker inside \<open>wait_for\<close>: its work, the task of the call and when it started.\<close>

record running_call =
  rn_work :: intelligence_work
  rn_task :: nat
  rn_started :: flt

record coordinator_diagnostics =
  cd_router_decisions :: nat
  cd_requests_submitted :: nat
  cd_requests_suppressed :: nat
  cd_model_calls :: nat
  cd_fallback_count :: nat
  cd_timeout_count :: nat
  cd_parse_failure_count :: nat
  cd_rate_limit_count :: nat
  cd_dropped_backpressure :: nat
  cd_stale_discard :: nat
  cd_queue_depth :: nat
  cd_router_decision_latency_s :: flt
  cd_model_latency_s :: flt
  cd_parse_latency_s :: flt
  cd_router_latencies :: "flt list"
  cd_model_latencies :: "flt list"

definition new_diagnostics :: coordinator_diagnostics where
  "new_diagnostics =
     \<lparr>cd_router_decisions = 0, cd_requests_submitted = 0, cd_requests_suppressed = 0, cd_model_calls = 0,
      cd_fallback_count = 0, cd_timeout_count = 0, cd_parse_failure_count = 0, cd_rate_limit_count = 0,
      cd_dropped_backpressure = 0, cd_stale_discard = 0, cd_queue_depth = 0,
      cd_router_decision_latency_s = 0, cd_model_latency_s = 0, cd_parse_latency_s = 0,
      cd_router_latencies = [], cd_model_latencies = []\<rparr>"

record coordinator =
  ic_queue_size :: nat
  ic_concurrency :: nat
  ic_budget :: call_budget
  ic_policy :: router_policy
  ic_registry :: registry
  ic_diagnostics :: coordinator_diagnostics
  ic_queue :: "intelligence_work list option"
  ic_running :: "running_call list"
  ic_calls :: "(string, nat) dict"
  ic_last_priority :: "(string, signal_priority) dict"
  ic_generation :: "(string, nat) dict"
  ic_pending :: "(string, nat) dict"
  ic_active_ids :: "string list"
  ic_tasks :: "(string, nat) dict"
  ic_cancelled :: "nat list"
  ic_next_task :: nat
  ic_in_flight :: nat
  ic_closed :: bool

definition new_coordinator :: "nat \<Rightarrow> nat \<Rightarrow> call_budget \<Rightarrow> router_policy \<Rightarrow> coordinator" where
  "new_coordinator queue_size concurrency budget policy =
     \<lparr>ic_queue_size = queue_size, ic_concurrency = max 1 concurrency, ic_budget = budget, ic_policy = policy,
      ic_registry = [], ic_diagnostics = new_diagnostics, ic_queue = None, ic_running = [], ic_calls = [],
      ic_last_priority = [], ic_generation = [], ic_pending = [], ic_active_ids = [], ic_tasks = [],
      ic_cancelled = [], ic_next_task = 0, ic_in_flight = 0, ic_closed = False\<rparr>"

definition count_of :: "(string, nat) dict \<Rightarrow> string \<Rightarrow> nat" where
  "count_of d k = (case dict_get d k of None \<Rightarrow> 0 | Some n \<Rightarrow> n)"

definition bump :: "(coordinator_diagnostics \<Rightarrow> coordinator_diagnostics) \<Rightarrow> coordinator \<Rightarrow> coordinator" where
  "bump f c = c\<lparr>ic_diagnostics := f (ic_diagnostics c)\<rparr>"

definition tracked_ids :: "coordinator \<Rightarrow> string list" where
  "tracked_ids c =
     remdups (map fst (ic_calls c) @ map fst (ic_generation c) @ map fst (ic_last_priority c) @ map fst (ic_pending c))"

definition tracked_episode_count :: "coordinator \<Rightarrow> nat" where
  "tracked_episode_count c = length (tracked_ids c)"

definition reset_after_shutdown :: "coordinator \<Rightarrow> coordinator" where
  "reset_after_shutdown c =
     c\<lparr>ic_calls := [], ic_last_priority := [], ic_generation := [], ic_pending := [], ic_active_ids := [],
       ic_tasks := [], ic_in_flight := 0, ic_registry := []\<rparr>"

definition coordinator_start :: "coordinator \<Rightarrow> coordinator" where
  "coordinator_start c =
     (if ic_queue c \<noteq> None then c else c\<lparr>ic_closed := False, ic_queue := Some [], ic_running := []\<rparr>)"

text \<open>Shutting down cancels the calls and the workers and waits for them before it resets.\<close>

definition coordinator_shutdown :: "coordinator \<Rightarrow> coordinator" where
  "coordinator_shutdown c =
     (if ic_queue c = None then reset_after_shutdown c
      else reset_after_shutdown (c\<lparr>ic_closed := True, ic_running := [], ic_queue := None\<rparr>))"

section \<open>Episode bookkeeping\<close>

definition maybe_forget :: "string \<Rightarrow> coordinator \<Rightarrow> coordinator" where
  "maybe_forget signal_id c =
     (if signal_id \<in> set (ic_active_ids c) then c
      else if count_of (ic_pending c) signal_id > 0 then c
      else c\<lparr>ic_calls := dict_pop signal_id (ic_calls c),
             ic_last_priority := dict_pop signal_id (ic_last_priority c),
             ic_generation := dict_pop signal_id (ic_generation c),
             ic_pending := dict_pop signal_id (ic_pending c)\<rparr>)"

definition cancel_in_flight :: "string \<Rightarrow> coordinator \<Rightarrow> coordinator" where
  "cancel_in_flight signal_id c =
     (case dict_get (ic_tasks c) signal_id of
        None \<Rightarrow> c
      | Some task \<Rightarrow> c\<lparr>ic_cancelled := task # ic_cancelled c\<rparr>)"

definition invalidate :: "string \<Rightarrow> coordinator \<Rightarrow> coordinator" where
  "invalidate signal_id c =
     (let c = c\<lparr>ic_generation := dict_set signal_id (count_of (ic_generation c) signal_id + 1) (ic_generation c)\<rparr>;
          c = c\<lparr>ic_registry := dict_pop signal_id (ic_registry c)\<rparr>
      in maybe_forget signal_id (cancel_in_flight signal_id c))"

definition retire_inactive :: "string list \<Rightarrow> coordinator \<Rightarrow> coordinator" where
  "retire_inactive active_ids c =
     (let c = c\<lparr>ic_active_ids := active_ids\<rparr>;
          c = c\<lparr>ic_registry := registry_prune active_ids (ic_registry c)\<rparr>;
          tracked = remdups (tracked_ids c @ map fst (ic_registry c))
      in fold invalidate (filter (\<lambda>i. i \<notin> set active_ids) tracked) c)"

definition work_is_live :: "intelligence_work \<Rightarrow> coordinator \<Rightarrow> bool" where
  "work_is_live work c \<longleftrightarrow>
     wk_signal_id work \<in> set (ic_active_ids c)
     \<and> dict_get (ic_generation c) (wk_signal_id work) = Some (wk_generation work)"

definition store_result :: "intelligence_work \<Rightarrow> intelligence_result \<Rightarrow> coordinator \<Rightarrow> coordinator" where
  "store_result work result c =
     (if \<not> work_is_live work c then c else c\<lparr>ic_registry := registry_put result (ic_registry c)\<rparr>)"

definition release_pending :: "string \<Rightarrow> coordinator \<Rightarrow> coordinator" where
  "release_pending signal_id c =
     (let remaining = int (count_of (ic_pending c) signal_id) - 1
      in maybe_forget signal_id
           (if remaining \<le> 0 then c\<lparr>ic_pending := dict_pop signal_id (ic_pending c)\<rparr>
            else c\<lparr>ic_pending := dict_set signal_id (nat remaining) (ic_pending c)\<rparr>))"

definition enqueue :: "signal \<Rightarrow> intelligence_input \<Rightarrow> coordinator \<Rightarrow> bool \<times> coordinator" where
  "enqueue s payload c =
     (case ic_queue c of
        None \<Rightarrow> (False, c)
      | Some queue \<Rightarrow>
          let i = ii_signal_id payload;
              work = \<lparr>wk_signal_id = i, wk_payload = payload,
                      wk_generation = count_of (ic_generation c) i + 1,
                      wk_market_timestamp = sg_market_timestamp s, wk_symbol = sg_symbol s,
                      wk_family = sg_family s, wk_direction = event_direction_value (sg_direction s),
                      wk_priority = signal_priority_value (sg_priority s)\<rparr>
          in if 0 < ic_queue_size c \<and> length queue \<ge> ic_queue_size c then
               (False, bump (\<lambda>d. d\<lparr>cd_dropped_backpressure := Suc (cd_dropped_backpressure d)\<rparr>) c)
             else
               let c = c\<lparr>ic_queue := Some (queue @ [work]),
                         ic_generation := dict_set i (wk_generation work) (ic_generation c),
                         ic_calls := dict_set i (count_of (ic_calls c) i + 1) (ic_calls c),
                         ic_last_priority := dict_set i (ii_priority payload) (ic_last_priority c),
                         ic_pending := dict_set i (count_of (ic_pending c) i + 1) (ic_pending c)\<rparr>;
                   c = bump (\<lambda>d. d\<lparr>cd_requests_submitted := Suc (cd_requests_submitted d)\<rparr>) c
               in (True, c\<lparr>ic_registry := registry_put
                    \<lparr>ir_signal_id = i, ir_status = QUEUED, ir_requested = True, ir_annotation = None,
                     ir_fallback_reason = FR_NONE, ir_model_calls = count_of (ic_calls c) i,
                     ir_model_latency_s = None\<rparr> (ic_registry c)\<rparr>))"

section \<open>Observing a tick\<close>

definition router_skip :: "fallback_reason \<Rightarrow> decision_reason option" where
  "router_skip reason =
     (if reason = FR_EXPIRED_EPISODE then Some EXPIRED_EPISODE
      else if reason = FR_SUPPRESSED_EDGE then Some SUPPRESSED_EDGE
      else if reason = FR_STALE_FEED then Some STALE_FEED
      else if reason = FR_INSUFFICIENT_FEATURES then Some INSUFFICIENT_FEATURES
      else if reason = FR_NOT_CANDIDATE then Some NOT_CANDIDATE
      else if reason = FR_EPISODE_BUDGET then Some EPISODE_BUDGET
      else None)"

definition emit_latency ::
  "'c env \<Rightarrow> fake_clock \<Rightarrow> signal \<Rightarrow> flt \<Rightarrow> latency_stage \<Rightarrow> 'c telemetry \<Rightarrow> 'c telemetry" where
  "emit_latency env clock s latency stage tel =
     emit_opt env clock tel INTELLIGENCE_LATENCY
       ((signal_fields s)\<lparr>te_latency_s := Some (Fin (max 0 latency)), te_latency_stage := Some stage\<rparr>)"

text \<open>One signal of one row. The clock is frozen, so the router's latency is zero.\<close>

definition observe_signal ::
  "'c env \<Rightarrow> fake_clock \<Rightarrow> feed_status \<Rightarrow> symbol_tick_result \<Rightarrow> signal \<Rightarrow> coordinator \<times> 'c telemetry
    \<Rightarrow> coordinator \<times> 'c telemetry" where
  "observe_signal env clock feed row s = (\<lambda>(c, tel).
     case map_of (rev (map (\<lambda>t. (tr_signal_id t, t)) (sr_traces row))) (sg_id s) of
       None \<Rightarrow> (c, tel)
     | Some trace \<Rightarrow>
         let payload = compress_intelligence_input s trace feed
               (sg_id s \<in> sg_id ` set (sr_alert_candidates row)) (count_of (ic_calls c) (sg_id s))
               (dict_get (ic_last_priority c) (sg_id s)) (sg_id s \<notin> set (ic_active_ids c));
             decision = need_intelligence (ic_policy c) (ic_budget c) payload;
             c = bump (\<lambda>d. d\<lparr>cd_router_decisions := Suc (cd_router_decisions d)\<rparr>) c
         in if \<not> rd_requested decision then
              (let c = bump (\<lambda>d. d\<lparr>cd_requests_suppressed := Suc (cd_requests_suppressed d)\<rparr>) c
               in case router_skip (rd_reason decision) of
                    None \<Rightarrow> (c, tel)
                  | Some skip \<Rightarrow>
                      (c, emit_latency env clock s 0 ROUTER
                            (emit_opt env clock tel INTELLIGENCE_SKIPPED
                              ((signal_fields s)\<lparr>te_decision_reason := Some skip\<rparr>))))
            else
              (case enqueue s payload c of
                 (False, c) \<Rightarrow> (c, tel)
               | (True, c) \<Rightarrow>
                   (c, emit_latency env clock s 0 ROUTER
                         (emit_opt env clock tel INTELLIGENCE_ROUTED (signal_fields s)))))"

definition observe_row ::
  "'c env \<Rightarrow> fake_clock \<Rightarrow> (string \<Rightarrow> feed_status) \<Rightarrow> symbol_tick_result \<Rightarrow> coordinator \<times> 'c telemetry
    \<Rightarrow> coordinator \<times> 'c telemetry" where
  "observe_row env clock feed_status_for row =
     fold (observe_signal env clock (feed_status_for (sr_symbol row)) row) (sr_signal_updates row)"

definition current_active :: "fake_clock \<Rightarrow> engine_tick_result \<Rightarrow> string list option \<Rightarrow> string list" where
  "current_active clock result active_ids =
     (let signals = concat (map sr_signal_updates result);
          base = (case active_ids of Some ids \<Rightarrow> ids | None \<Rightarrow> map sg_id signals);
          expired = map sg_id (filter (\<lambda>s. case sg_expires_at s of None \<Rightarrow> False | Some t \<Rightarrow> fc_wall clock \<ge> t) signals)
      in filter (\<lambda>i. i \<notin> set expired) base)"

definition observe_tick ::
  "'c env \<Rightarrow> fake_clock \<Rightarrow> engine_tick_result \<Rightarrow> (string \<Rightarrow> feed_status) \<Rightarrow> string list option
    \<Rightarrow> coordinator \<times> 'c telemetry \<Rightarrow> coordinator \<times> 'c telemetry" where
  "observe_tick env clock result feed_status_for active_ids = (\<lambda>(c, tel).
     case fold (observe_row env clock feed_status_for) result
            (retire_inactive (current_active clock result active_ids) c, tel) of
       (c, tel) \<Rightarrow>
         (let elapsed = 0;
              c = bump (\<lambda>d. d\<lparr>cd_router_decision_latency_s := cd_router_decision_latency_s d + elapsed,
                               cd_router_latencies := cd_router_latencies d @ [elapsed]\<rparr>) c
          in ((case ic_queue c of
                 None \<Rightarrow> c | Some queue \<Rightarrow> bump (\<lambda>d. d\<lparr>cd_queue_depth := length queue\<rparr>) c), tel)))"

section \<open>Workers\<close>

definition work_fields :: "intelligence_work \<Rightarrow> telemetry_event" where
  "work_fields work =
     no_fields\<lparr>te_symbol := Some (wk_symbol work),
               te_signal_id := Some (wk_signal_id work),
               te_family := Some (wk_family work),
               te_direction := Some (wk_direction work),
               te_priority := Some (wk_priority work),
               te_market_timestamp := Some (Fin (wk_market_timestamp work))\<rparr>"

text \<open>
  Up to the model call. The code checks again that the work is live right after it created the
  task; nothing runs in between, so that branch is never taken and has no counterpart.
\<close>

definition worker_take :: "fake_clock \<Rightarrow> coordinator \<Rightarrow> coordinator" where
  "worker_take clock c =
     (case ic_queue c of
        Some (work # queue) \<Rightarrow>
          if length (ic_running c) \<ge> ic_concurrency c then c
          else
            let c = c\<lparr>ic_queue := Some queue\<rparr>; i = wk_signal_id work
            in if \<not> work_is_live work c then
                 release_pending i (bump (\<lambda>d. d\<lparr>cd_stale_discard := Suc (cd_stale_discard d)\<rparr>) c)
               else
                 let c = c\<lparr>ic_tasks := dict_set i (ic_next_task c) (ic_tasks c),
                           ic_next_task := Suc (ic_next_task c),
                           ic_in_flight := Suc (ic_in_flight c),
                           ic_running := ic_running c @
                             [\<lparr>rn_work = work, rn_task = ic_next_task c, rn_started = fc_mono clock\<rparr>]\<rparr>;
                     c = bump (\<lambda>d. d\<lparr>cd_model_calls := Suc (cd_model_calls d)\<rparr>) c
                 in store_result work
                      \<lparr>ir_signal_id = i, ir_status = RUNNING, ir_requested = True, ir_annotation = None,
                       ir_fallback_reason = FR_NONE, ir_model_calls = count_of (ic_calls c) i,
                       ir_model_latency_s = None\<rparr> c
      | _ \<Rightarrow> c)"

datatype call_outcome =
    Completed model_completion flt
  | Raised intelligence_error
  | CancelledCall

fun reason_for :: "intelligence_error \<Rightarrow> fallback_reason" where
  "reason_for IntelligenceTimeout = FR_TIMEOUT"
| "reason_for (OtherException (TimeoutError m)) = FR_TIMEOUT"
| "reason_for (IntelligenceMalformed m) = FR_MALFORMED"
| "reason_for IntelligenceRateLimit = FR_RATE_LIMITED"
| "reason_for (OtherException e) = FR_TRANSPORT"
| "reason_for _ = FR_UNAVAILABLE"

definition log_latency :: "flt \<Rightarrow> coordinator \<Rightarrow> coordinator" where
  "log_latency elapsed =
     bump (\<lambda>d. d\<lparr>cd_model_latency_s := cd_model_latency_s d + elapsed,
                     cd_model_latencies := cd_model_latencies d @ [elapsed]\<rparr>)"

definition discard_stale :: "coordinator \<Rightarrow> coordinator" where
  "discard_stale = bump (\<lambda>d. d\<lparr>cd_stale_discard := Suc (cd_stale_discard d)\<rparr>)"

definition count_failure :: "fallback_reason \<Rightarrow> coordinator \<Rightarrow> coordinator" where
  "count_failure reason =
     bump (\<lambda>d. let d = d\<lparr>cd_fallback_count := Suc (cd_fallback_count d)\<rparr>
                in if reason = FR_TIMEOUT then d\<lparr>cd_timeout_count := Suc (cd_timeout_count d)\<rparr>
                   else if reason = FR_MALFORMED then d\<lparr>cd_parse_failure_count := Suc (cd_parse_failure_count d)\<rparr>
                   else if reason = FR_RATE_LIMITED then d\<lparr>cd_rate_limit_count := Suc (cd_rate_limit_count d)\<rparr>
                   else d)"

definition emit_work ::
  "'c env \<Rightarrow> fake_clock \<Rightarrow> telemetry_name \<Rightarrow> telemetry_event \<Rightarrow> 'c telemetry \<Rightarrow> 'c telemetry" where
  "emit_work env clock name given tel = emit_opt env clock tel name given"

definition complete_call ::
  "'c env \<Rightarrow> fake_clock \<Rightarrow> intelligence_work \<Rightarrow> flt \<Rightarrow> model_completion \<Rightarrow> flt \<Rightarrow> coordinator \<times> 'c telemetry
    \<Rightarrow> coordinator \<times> 'c telemetry" where
  "complete_call env clock work elapsed completion parse_s = (\<lambda>(c, tel).
     let c = log_latency elapsed c
     in if \<not> work_is_live work c then (discard_stale c, tel)
        else
          let c = bump (\<lambda>d. d\<lparr>cd_parse_latency_s := cd_parse_latency_s d + parse_s\<rparr>) c;
              annotation = \<lparr>ia_signal_id = wk_signal_id work, ia_worth_highlight = mc_worth_highlight completion,
                            ia_reason = mc_reason completion, ia_confidence = mc_confidence completion,
                            ia_summary = mc_summary completion, ia_created_timestamp = fc_wall clock\<rparr>;
              c = store_result work
                    \<lparr>ir_signal_id = wk_signal_id work, ir_status = ENRICHED, ir_requested = True,
                     ir_annotation = Some annotation, ir_fallback_reason = FR_NONE,
                     ir_model_calls = count_of (ic_calls c) (wk_signal_id work),
                     ir_model_latency_s = Some elapsed\<rparr> c;
              base = work_fields work;
              tel = emit_work env clock INTELLIGENCE_SUCCEEDED
                      (base\<lparr>te_intelligence_status := Some (intelligence_status_value ENRICHED)\<rparr>) tel;
              tel = emit_work env clock INTELLIGENCE_LATENCY
                      (base\<lparr>te_latency_s := Some (Fin (max 0 elapsed)), te_latency_stage := Some MODEL\<rparr>) tel;
              tel = emit_work env clock INTELLIGENCE_LATENCY
                      (base\<lparr>te_latency_s := Some (Fin (max 0 parse_s)), te_latency_stage := Some PARSE\<rparr>) tel
          in (c, if mc_token_in completion \<noteq> None \<or> mc_token_out completion \<noteq> None
                 then emit_work env clock INTELLIGENCE_TOKEN_USAGE
                        (base\<lparr>te_token_in := mc_token_in completion, te_token_out := mc_token_out completion\<rparr>) tel
                 else tel))"

definition fail_call ::
  "'c env \<Rightarrow> fake_clock \<Rightarrow> intelligence_work \<Rightarrow> flt \<Rightarrow> intelligence_error \<Rightarrow> coordinator \<times> 'c telemetry
    \<Rightarrow> coordinator \<times> 'c telemetry" where
  "fail_call env clock work elapsed err = (\<lambda>(c, tel).
     let reason = reason_for err; c = count_failure reason (log_latency elapsed c)
     in if work_is_live work c then
          (store_result work
             \<lparr>ir_signal_id = wk_signal_id work, ir_status = FALLBACK, ir_requested = True, ir_annotation = None,
              ir_fallback_reason = reason, ir_model_calls = count_of (ic_calls c) (wk_signal_id work),
              ir_model_latency_s = Some elapsed\<rparr> c,
           emit_work env clock INTELLIGENCE_LATENCY
             ((work_fields work)\<lparr>te_latency_s := Some (Fin (max 0 elapsed)), te_latency_stage := Some MODEL\<rparr>)
             (emit_work env clock INTELLIGENCE_FALLBACK
               ((work_fields work)\<lparr>te_intelligence_status := Some (intelligence_status_value FALLBACK),
                  te_fallback_reason := Some (fallback_reason_value reason)\<rparr>) tel))
        else (discard_stale c, tel))"

text \<open>The code after \<open>wait_for\<close>, with both \<open>finally\<close> blocks.\<close>

definition worker_finish ::
  "'c env \<Rightarrow> fake_clock \<Rightarrow> nat \<Rightarrow> call_outcome \<Rightarrow> coordinator \<times> 'c telemetry \<Rightarrow> coordinator \<times> 'c telemetry" where
  "worker_finish env clock k outcome = (\<lambda>(c, tel).
     if k \<ge> length (ic_running c) then (c, tel)
     else
       let r = ic_running c ! k; work = rn_work r; elapsed = fc_mono clock - rn_started r;
           c = c\<lparr>ic_running := take k (ic_running c) @ drop (Suc k) (ic_running c)\<rparr>;
           (c, tel) = (case outcome of
               CancelledCall \<Rightarrow> (discard_stale c, tel)
             | Completed completion parse_s \<Rightarrow> complete_call env clock work elapsed completion parse_s (c, tel)
             | Raised err \<Rightarrow> fail_call env clock work elapsed err (c, tel));
           c = c\<lparr>ic_tasks := dict_pop (wk_signal_id work) (ic_tasks c), ic_in_flight := ic_in_flight c - 1\<rparr>
       in (release_pending (wk_signal_id work) c, tel))"

section \<open>Interleavings\<close>

inductive coordinator_step ::
  "'c env \<Rightarrow> coordinator \<times> 'c telemetry \<Rightarrow> coordinator \<times> 'c telemetry \<Rightarrow> bool" for env where
  observe: "coordinator_step env s (observe_tick env clock result feed_status_for active s)"
| take: "coordinator_step env (c, tel) (worker_take clock c, tel)"
| finish: "coordinator_step env s (worker_finish env clock k outcome s)"
| start: "coordinator_step env (c, tel) (coordinator_start c, tel)"
| shutdown: "coordinator_step env (c, tel) (coordinator_shutdown c, tel)"

inductive coordinator_run ::
  "'c env \<Rightarrow> coordinator \<times> 'c telemetry \<Rightarrow> coordinator \<times> 'c telemetry \<Rightarrow> bool" for env where
  run_refl: "coordinator_run env s s"
| run_step: "coordinator_run env s t \<Longrightarrow> coordinator_step env t u \<Longrightarrow> coordinator_run env s u"

section \<open>The invariant\<close>

definition works :: "coordinator \<Rightarrow> intelligence_work list" where
  "works c = (case ic_queue c of None \<Rightarrow> [] | Some queue \<Rightarrow> queue) @ map rn_work (ic_running c)"

definition outstanding :: "coordinator \<Rightarrow> string \<Rightarrow> nat" where
  "outstanding c i = length (filter (\<lambda>w. wk_signal_id w = i) (works c))"

definition tracked :: "coordinator \<Rightarrow> string set" where
  "tracked c = dom (dict_get (ic_calls c)) \<union> dom (dict_get (ic_generation c))
     \<union> dom (dict_get (ic_last_priority c)) \<union> dom (dict_get (ic_pending c))"

definition call_bound :: "coordinator \<Rightarrow> nat" where
  "call_bound c = cb_max_calls (ic_budget c) + (if cb_allow_escalation_recall (ic_budget c) then 1 else 0)"

text \<open>
  The invariant with its two repairs in progress: the identifiers in \<open>X\<close> may be tracked without
  reason, and the pending count of \<open>j\<close> may exceed the work outstanding by \<open>e j\<close>.
\<close>

definition ok_but :: "string set \<Rightarrow> (string \<Rightarrow> nat) \<Rightarrow> coordinator \<Rightarrow> bool" where
  "ok_but X e c \<longleftrightarrow>
     (\<forall>i r. dict_get (ic_registry c) i = Some r \<longrightarrow> i \<in> set (ic_active_ids c) \<and> ir_signal_id r = i)
     \<and> (\<forall>i. count_of (ic_calls c) i \<le> call_bound c)
     \<and> (\<forall>i. count_of (ic_pending c) i = outstanding c i + e i)
     \<and> (\<forall>i \<in> tracked c. i \<in> X \<or> i \<in> set (ic_active_ids c) \<or> 0 < outstanding c i)
     \<and> (\<forall>q. ic_queue c = Some q \<longrightarrow> 0 < ic_queue_size c \<longrightarrow> length q \<le> ic_queue_size c)
     \<and> length (ic_running c) \<le> ic_concurrency c
     \<and> (ic_queue c = None \<longrightarrow> ic_running c = [])"

definition coordinator_ok :: "coordinator \<Rightarrow> bool" where
  "coordinator_ok c \<longleftrightarrow> ok_but {} (\<lambda>_. 0) c"

lemma ok_but_frame:
  assumes "ok_but X e c"
    and "ic_registry c' = ic_registry c" "ic_queue c' = ic_queue c" "ic_running c' = ic_running c"
    "ic_calls c' = ic_calls c" "ic_last_priority c' = ic_last_priority c" "ic_generation c' = ic_generation c"
    "ic_pending c' = ic_pending c" "ic_active_ids c' = ic_active_ids c" "ic_queue_size c' = ic_queue_size c"
    "ic_concurrency c' = ic_concurrency c" "ic_budget c' = ic_budget c"
  shows "ok_but X e c'"
  using assms unfolding ok_but_def tracked_def outstanding_def works_def call_bound_def by simp

lemma ok_butI:
  assumes "\<And>i r. dict_get (ic_registry c) i = Some r \<Longrightarrow> i \<in> set (ic_active_ids c) \<and> ir_signal_id r = i"
    and "\<And>i. count_of (ic_calls c) i \<le> call_bound c"
    and "\<And>i. count_of (ic_pending c) i = outstanding c i + e i"
    and "\<And>i. i \<in> tracked c \<Longrightarrow> i \<notin> X \<Longrightarrow> i \<notin> set (ic_active_ids c) \<Longrightarrow> 0 < outstanding c i"
    and "\<And>q. ic_queue c = Some q \<Longrightarrow> 0 < ic_queue_size c \<Longrightarrow> length q \<le> ic_queue_size c"
    and "length (ic_running c) \<le> ic_concurrency c"
    and "ic_queue c = None \<Longrightarrow> ic_running c = []"
  shows "ok_but X e c"
  unfolding ok_but_def by (intro conjI allI impI ballI; use assms in metis)

lemma ok_butD:
  assumes "ok_but X e c"
  shows "dict_get (ic_registry c) i = Some r \<Longrightarrow> i \<in> set (ic_active_ids c)"
    and "dict_get (ic_registry c) i = Some r \<Longrightarrow> ir_signal_id r = i"
    and "count_of (ic_calls c) i \<le> call_bound c"
    and "count_of (ic_pending c) i = outstanding c i + e i"
    and "i \<in> tracked c \<Longrightarrow> i \<notin> X \<Longrightarrow> i \<notin> set (ic_active_ids c) \<Longrightarrow> 0 < outstanding c i"
    and "ic_queue c = Some q \<Longrightarrow> 0 < ic_queue_size c \<Longrightarrow> length q \<le> ic_queue_size c"
    and "length (ic_running c) \<le> ic_concurrency c"
    and "ic_queue c = None \<Longrightarrow> ic_running c = []"
  using assms by (simp_all add: ok_but_def) blast+


lemma bump_ok [simp]: "ok_but X e (bump f c) \<longleftrightarrow> ok_but X e c"
  by (rule iffI; erule ok_but_frame) (simp_all add: bump_def)

lemma count_of_pop [simp]: "count_of (dict_pop i d) j = (if j = i then 0 else count_of d j)"
  by (simp add: count_of_def dict_lookup)

lemma count_of_set [simp]: "count_of (dict_set i n d) j = (if j = i then n else count_of d j)"
  by (simp add: count_of_def dict_lookup)

lemma dom_pop [simp]: "dom (dict_get (dict_pop i d)) = dom (dict_get d) - {i}"
  by (auto simp: dict_lookup split: if_splits)

lemma dom_set [simp]: "dom (dict_get (dict_set i v d)) = insert i (dom (dict_get d))"
  by (auto simp: dict_lookup split: if_splits)

lemma maybe_forget_ok:
  assumes "ok_but X e c" "\<forall>j. j \<in> X \<and> j \<noteq> i \<longrightarrow> j \<in> Y" "0 < e i \<longrightarrow> i \<in> Y"
  shows "ok_but Y e (maybe_forget i c)"
proof (cases "i \<in> set (ic_active_ids c) \<or> count_of (ic_pending c) i > 0")
  case True
  then have "maybe_forget i c = c" by (auto simp: maybe_forget_def)
  moreover have "ok_but Y e c"
  proof (rule ok_butI)
    fix j assume j: "j \<in> tracked c" "j \<notin> Y" "j \<notin> set (ic_active_ids c)"
    show "0 < outstanding c j"
    proof (cases "j = i")
      case True
      then show ?thesis using j \<open>i \<in> set (ic_active_ids c) \<or> count_of (ic_pending c) i > 0\<close> assms(3)
          ok_butD(4) [OF assms(1), of i] by auto
    next
      case False
      then show ?thesis using ok_butD(5) [OF assms(1) j(1) _ j(3)] j(2) assms(2) by blast
    qed
  qed (use ok_butD [OF assms(1)] in blast)+
  ultimately show ?thesis by simp
next
  case False
  let ?c = "c\<lparr>ic_calls := dict_pop i (ic_calls c), ic_last_priority := dict_pop i (ic_last_priority c),
      ic_generation := dict_pop i (ic_generation c), ic_pending := dict_pop i (ic_pending c)\<rparr>"
  have same: "outstanding ?c = outstanding c" "call_bound ?c = call_bound c" "tracked ?c = tracked c - {i}"
    by (auto simp: outstanding_def works_def call_bound_def tracked_def fun_eq_iff)
  have "ok_but Y e ?c"
  proof (rule ok_butI, unfold same)
    fix j
    show "count_of (ic_pending ?c) j = outstanding c j + e j"
      using ok_butD(4) [OF assms(1), of j] ok_butD(4) [OF assms(1), of i] False by simp
    show "j \<in> tracked c - {i} \<Longrightarrow> j \<notin> Y \<Longrightarrow> j \<notin> set (ic_active_ids ?c) \<Longrightarrow> 0 < outstanding c j"
      using ok_butD(5) [OF assms(1), of j] assms(2) by auto
    show "count_of (ic_calls ?c) j \<le> call_bound c" using ok_butD(3) [OF assms(1)] by simp
  qed (use ok_butD [OF assms(1)] in \<open>simp, blast?\<close>)+
  then show ?thesis using False by (simp add: maybe_forget_def)
qed

lemma maybe_forget_active [simp]: "ic_active_ids (maybe_forget i c) = ic_active_ids c"
  by (simp add: maybe_forget_def)

lemma invalidate_active [simp]: "ic_active_ids (invalidate i c) = ic_active_ids c"
  by (simp add: invalidate_def Let_def cancel_in_flight_def split: option.split)

lemma invalidate_ok:
  assumes "ok_but X (\<lambda>_. 0) c"
  shows "ok_but (X - {i}) (\<lambda>_. 0) (invalidate i c)"
proof -
  let ?c = "c\<lparr>ic_generation := dict_set i (count_of (ic_generation c) i + 1) (ic_generation c),
      ic_registry := dict_pop i (ic_registry c)\<rparr>"
  have same: "outstanding ?c = outstanding c" "call_bound ?c = call_bound c" "tracked ?c = insert i (tracked c)"
    by (auto simp: outstanding_def works_def call_bound_def tracked_def fun_eq_iff)
  have "ok_but (insert i X) (\<lambda>_. 0) ?c"
  proof (rule ok_butI, unfold same)
    fix j r assume "dict_get (ic_registry ?c) j = Some r"
    then show "j \<in> set (ic_active_ids ?c) \<and> ir_signal_id r = j"
      using ok_butD(1,2) [OF assms] by (simp add: dict_lookup split: if_splits)
  next
    fix j
    show "j \<in> insert i (tracked c) \<Longrightarrow> j \<notin> insert i X \<Longrightarrow> j \<notin> set (ic_active_ids ?c) \<Longrightarrow> 0 < outstanding c j"
      using ok_butD(5) [OF assms, of j] by simp
  qed (use ok_butD [OF assms] in \<open>simp, blast?\<close>)+
  then have "ok_but (insert i X) (\<lambda>_. 0) (cancel_in_flight i ?c)"
    by (rule ok_but_frame) (simp_all add: cancel_in_flight_def split: option.split)
  then show ?thesis
    unfolding invalidate_def Let_def by (intro maybe_forget_ok) auto
qed

lemma invalidate_all:
  "ok_but X (\<lambda>_. 0) c \<Longrightarrow> ok_but (X - set ids) (\<lambda>_. 0) (fold invalidate ids c)"
proof (induction ids arbitrary: X c)
  case (Cons i ids)
  have "X - set (i # ids) = X - {i} - set ids" by auto
  then show ?case using Cons.IH [OF invalidate_ok [OF Cons.prems, of i]] by (simp only: fold_simps(2))
qed simp

lemma fold_pop: "dict_get (fold dict_pop ks d) k = (if k \<in> set ks then None else dict_get d k)"
  by (induction ks arbitrary: d) (simp_all add: dict_lookup)

lemma registry_prune_get: "dict_get (registry_prune active rows) k = (if k \<in> set active then dict_get rows k else None)"
proof -
  have "k \<notin> set (map fst rows) \<Longrightarrow> dict_get rows k = None" by (simp add: map_of_eq_None_iff)
  then show ?thesis by (auto simp: registry_prune_def fold_pop)
qed

lemma set_tracked_ids: "set (tracked_ids c) = tracked c"
  by (simp add: tracked_ids_def tracked_def dom_map_of_conv_image_fst Un_assoc)

lemma retire_ok:
  assumes "coordinator_ok c"
  shows "coordinator_ok (retire_inactive active c)" "ic_active_ids (retire_inactive active c) = active"
proof -
  let ?c = "c\<lparr>ic_active_ids := active, ic_registry := registry_prune active (ic_registry c)\<rparr>"
  let ?ids = "filter (\<lambda>i. i \<notin> set active) (remdups (tracked_ids ?c @ map fst (ic_registry ?c)))"
  have same: "outstanding ?c = outstanding c" "call_bound ?c = call_bound c" "tracked ?c = tracked c"
    by (auto simp: outstanding_def works_def call_bound_def tracked_def fun_eq_iff)
  note ok = ok_butD [OF assms [unfolded coordinator_ok_def]]
  have "ok_but (tracked c - set active) (\<lambda>_. 0) ?c"
  proof (rule ok_butI, unfold same)
    fix i r assume "dict_get (ic_registry ?c) i = Some r"
    then show "i \<in> set (ic_active_ids ?c) \<and> ir_signal_id r = i"
      using ok(1,2) by (simp add: registry_prune_get split: if_splits)
  qed (use ok in \<open>simp, blast?\<close>)+
  then have "ok_but ((tracked c - set active) - set ?ids) (\<lambda>_. 0) (fold invalidate ?ids ?c)"
    by (rule invalidate_all)
  moreover have "(tracked c - set active) - set ?ids = {}"
    using set_tracked_ids [of ?c] same(3) by auto
  ultimately have retired: "ok_but {} (\<lambda>_. 0) (fold invalidate ?ids ?c)" by (simp only:)
  have eq: "retire_inactive active c = fold invalidate ?ids ?c"
    by (simp add: retire_inactive_def Let_def)
  have "ic_active_ids (fold invalidate ids d) = ic_active_ids d" for ids d
    by (induction ids arbitrary: d) simp_all
  then have "ic_active_ids (fold invalidate ?ids ?c) = active" by simp
  then show "ic_active_ids (retire_inactive active c) = active" by (simp only: eq)
  show "coordinator_ok (retire_inactive active c)" unfolding eq coordinator_ok_def by (rule retired)
qed

lemma store_ok:
  assumes "ok_but X e c" "ir_signal_id r = wk_signal_id work"
  shows "ok_but X e (store_result work r c)"
proof (cases "work_is_live work c")
  case True
  let ?c = "c\<lparr>ic_registry := registry_put r (ic_registry c)\<rparr>"
  have same: "outstanding ?c = outstanding c" "call_bound ?c = call_bound c" "tracked ?c = tracked c"
    by (auto simp: outstanding_def works_def call_bound_def tracked_def fun_eq_iff)
  have "ok_but X e ?c"
  proof (rule ok_butI, unfold same)
    fix i r' assume "dict_get (ic_registry ?c) i = Some r'"
    then show "i \<in> set (ic_active_ids ?c) \<and> ir_signal_id r' = i"
      using ok_butD(1,2) [OF assms(1)] assms(2) True
      by (simp add: registry_put_def dict_lookup work_is_live_def split: if_splits)
  qed (use ok_butD [OF assms(1)] in \<open>simp, blast?\<close>)+
  then show ?thesis using True by (simp add: store_result_def)
qed (use assms in \<open>simp add: store_result_def\<close>)

lemma release_ok:
  assumes "ok_but {i} (\<lambda>j. if j = i then 1 else 0) c"
  shows "coordinator_ok (release_pending i c)"
proof -
  let ?n = "outstanding c i"
  define d where "d = (if ?n = 0 then c\<lparr>ic_pending := dict_pop i (ic_pending c)\<rparr>
      else c\<lparr>ic_pending := dict_set i ?n (ic_pending c)\<rparr>)"
  have count: "count_of (ic_pending c) i = Suc ?n" using assms by (simp add: ok_but_def)
  have rel: "release_pending i c = maybe_forget i d" by (simp add: release_pending_def Let_def count d_def)
  have same: "outstanding d = outstanding c" "call_bound d = call_bound c"
    "tracked d \<subseteq> insert i (tracked c)" "ic_calls d = ic_calls c" "ic_registry d = ic_registry c"
    "ic_queue d = ic_queue c" "ic_running d = ic_running c" "ic_active_ids d = ic_active_ids c"
    "ic_queue_size d = ic_queue_size c" "ic_concurrency d = ic_concurrency c"
    "count_of (ic_pending d) j = (if j = i then ?n else count_of (ic_pending c) j)" for j
    by (auto simp: d_def outstanding_def works_def call_bound_def tracked_def fun_eq_iff)
  have "ok_but {i} (\<lambda>_. 0) d"
  proof (rule ok_butI, unfold same(1,2,4-10))
    fix j
    show "count_of (ic_pending d) j = outstanding c j + 0"
      using ok_butD(4) [OF assms, of j] by (simp add: same(11))
    show "j \<in> tracked d \<Longrightarrow> j \<notin> {i} \<Longrightarrow> j \<notin> set (ic_active_ids c) \<Longrightarrow> 0 < outstanding c j"
      using ok_butD(5) [OF assms, of j] same(3) by blast
  qed (use ok_butD [OF assms] in blast)+
  then show ?thesis unfolding rel coordinator_ok_def by (rule maybe_forget_ok) simp_all
qed

section \<open>Every step keeps it\<close>

lemma enqueue_ok:
  assumes "coordinator_ok c" "enqueue s payload c = (b, c')" "ii_signal_id payload \<in> set (ic_active_ids c)"
    and "Suc (count_of (ic_calls c) (ii_signal_id payload)) \<le> call_bound c"
  shows "coordinator_ok c' \<and> ic_active_ids c' = ic_active_ids c \<and> ic_policy c' = ic_policy c \<and> ic_budget c' = ic_budget c"
proof (cases "ic_queue c")
  case None
  then show ?thesis using assms by (simp add: enqueue_def)
next
  case (Some queue)
  show ?thesis
  proof (cases "0 < ic_queue_size c \<and> length queue \<ge> ic_queue_size c")
    case True
    then have "c' = bump (\<lambda>d. d\<lparr>cd_dropped_backpressure := Suc (cd_dropped_backpressure d)\<rparr>) c"
      using assms(2) Some by (simp add: enqueue_def Let_def)
    then show ?thesis using assms(1) by (simp add: coordinator_ok_def) (simp add: bump_def)
  next
    case False
    let ?i = "ii_signal_id payload"
    define work where "work = \<lparr>wk_signal_id = ?i, wk_payload = payload,
        wk_generation = count_of (ic_generation c) ?i + 1,
        wk_market_timestamp = sg_market_timestamp s, wk_symbol = sg_symbol s,
        wk_family = sg_family s, wk_direction = event_direction_value (sg_direction s),
        wk_priority = signal_priority_value (sg_priority s)\<rparr>"
    define row where "row = \<lparr>ir_signal_id = ?i, ir_status = QUEUED, ir_requested = True, ir_annotation = None,
        ir_fallback_reason = FR_NONE, ir_model_calls = count_of (ic_calls c) ?i + 1, ir_model_latency_s = None\<rparr>"
    have w: "wk_signal_id work = ?i" "ir_signal_id row = ?i" by (simp_all add: work_def row_def)
    have c': "c' = c
        \<lparr>ic_queue := Some (queue @ [work]),
         ic_generation := dict_set ?i (wk_generation work) (ic_generation c),
         ic_calls := dict_set ?i (count_of (ic_calls c) ?i + 1) (ic_calls c),
         ic_last_priority := dict_set ?i (ii_priority payload) (ic_last_priority c),
         ic_pending := dict_set ?i (count_of (ic_pending c) ?i + 1) (ic_pending c),
         ic_diagnostics := (ic_diagnostics c)\<lparr>cd_requests_submitted := Suc (cd_requests_submitted (ic_diagnostics c))\<rparr>,
         ic_registry := registry_put row (ic_registry c)\<rparr>"
      using assms(2) Some False unfolding enqueue_def Let_def bump_def work_def row_def by auto
    have same: "outstanding c' j = outstanding c j + (if j = ?i then 1 else 0)" "call_bound c' = call_bound c"
      "tracked c' = insert ?i (tracked c)" for j
      using w Some by (auto simp: c' outstanding_def works_def call_bound_def tracked_def)
    note ok = ok_butD [OF assms(1) [unfolded coordinator_ok_def]]
    have "coordinator_ok c'"
      unfolding coordinator_ok_def
    proof (rule ok_butI, unfold same)
      fix j
      show "count_of (ic_calls c') j \<le> call_bound c" using ok(3) assms(4) by (simp add: c')
      show "count_of (ic_pending c') j = outstanding c j + (if j = ?i then 1 else 0) + 0"
        using ok(4) by (simp add: c')
      show "j \<in> insert ?i (tracked c) \<Longrightarrow> j \<notin> {} \<Longrightarrow> j \<notin> set (ic_active_ids c') \<Longrightarrow>
          0 < outstanding c j + (if j = ?i then 1 else 0)"
        using ok(5) [of j] by (auto simp: c')
    next
      fix j r assume "dict_get (ic_registry c') j = Some r"
      then show "j \<in> set (ic_active_ids c') \<and> ir_signal_id r = j"
        using ok(1,2) assms(3) w by (simp add: c' registry_put_def dict_lookup split: if_splits)
    next
      fix q assume "ic_queue c' = Some q" "0 < ic_queue_size c'"
      then show "length q \<le> ic_queue_size c'" using False by (auto simp: c')
    qed (use ok(7) in \<open>simp_all add: c'\<close>)
    then show ?thesis by (simp add: c')
  qed
qed

lemma observe_signal_ok:
  assumes "observe_signal env clock feed row s (c, tel) = (c', tel')" "coordinator_ok c"
  shows "coordinator_ok c' \<and> ic_active_ids c' = ic_active_ids c"
proof (cases "map_of (rev (map (\<lambda>t. (tr_signal_id t, t)) (sr_traces row))) (sg_id s)")
  case None
  then show ?thesis using assms by (simp add: observe_signal_def)
next
  case (Some trace)
  define payload where "payload = compress_intelligence_input s trace feed
      (sg_id s \<in> sg_id ` set (sr_alert_candidates row)) (count_of (ic_calls c) (sg_id s))
      (dict_get (ic_last_priority c) (sg_id s)) (sg_id s \<notin> set (ic_active_ids c))"
  define c1 where "c1 = bump (\<lambda>d. d\<lparr>cd_router_decisions := Suc (cd_router_decisions d)\<rparr>) c"
  have c1: "coordinator_ok c1" "ic_active_ids c1 = ic_active_ids c" "ic_calls c1 = ic_calls c"
    "ic_budget c1 = ic_budget c"
    using assms(2) by (simp_all add: c1_def coordinator_ok_def) (simp_all add: bump_def)
  let ?decision = "need_intelligence (ic_policy c) (ic_budget c) payload"
  have run: "observe_signal env clock feed row s (c, tel) =
      (if \<not> rd_requested ?decision then
         (let c2 = bump (\<lambda>d. d\<lparr>cd_requests_suppressed := Suc (cd_requests_suppressed d)\<rparr>) c1
          in case router_skip (rd_reason ?decision) of
               None \<Rightarrow> (c2, tel)
             | Some skip \<Rightarrow> (c2, emit_latency env clock s 0 ROUTER (emit_opt env clock tel INTELLIGENCE_SKIPPED
                   ((signal_fields s)\<lparr>te_decision_reason := Some skip\<rparr>))))
       else (case enqueue s payload c1 of
           (False, c2) \<Rightarrow> (c2, tel)
         | (True, c2) \<Rightarrow> (c2, emit_latency env clock s 0 ROUTER
             (emit_opt env clock tel INTELLIGENCE_ROUTED (signal_fields s)))))"
    unfolding observe_signal_def prod.case Some option.case Let_def payload_def c1_def ..
  show ?thesis
  proof (cases "rd_requested ?decision")
    case False
    have "c' = bump (\<lambda>d. d\<lparr>cd_requests_suppressed := Suc (cd_requests_suppressed d)\<rparr>) c1"
      using assms(1) False unfolding run Let_def by (auto split: option.splits)
    then show ?thesis using c1 by (simp add: coordinator_ok_def) (simp add: bump_def)
  next
    case True
    obtain b c2 where e: "enqueue s payload c1 = (b, c2)" by (rule prod.exhaust)
    have "c' = c2" using assms(1) True unfolding run e by (cases b) simp_all
    have "\<not> ii_expired payload"
      "budget_allows_call (ic_budget c) (ii_episode_call_count payload) (ii_priority payload)
        (ii_last_requested_priority payload)"
      using True unfolding need_intelligence_requested by blast+
    then have "ii_signal_id payload \<in> set (ic_active_ids c1)"
      "Suc (count_of (ic_calls c1) (ii_signal_id payload)) \<le> call_bound c1"
      using budget_allows_bound c1 by (force simp: payload_def compress_intelligence_input_def Let_def call_bound_def)+
    from enqueue_ok [OF c1(1) e this] show ?thesis using c1(2) \<open>c' = c2\<close> by simp
  qed
qed

lemma fold_state_ok:
  assumes "\<And>x s t. x \<in> set xs \<Longrightarrow> f x s = t \<Longrightarrow> coordinator_ok (fst s) \<Longrightarrow> coordinator_ok (fst t)"
    and "coordinator_ok (fst s)"
  shows "coordinator_ok (fst (fold f xs s))"
  using assms by (intro fold_inv_rule [where I = "\<lambda>s. coordinator_ok (fst s)"]) blast+

lemma observe_row_ok: "coordinator_ok (fst s) \<Longrightarrow> coordinator_ok (fst (observe_row env clock feeds row s))"
  unfolding observe_row_def
  by (rule fold_state_ok) (metis observe_signal_ok prod.collapse)+

lemma observe_tick_ok: "coordinator_ok (fst s) \<Longrightarrow> coordinator_ok (fst (observe_tick env clock result feeds active s))"
proof -
  assume ok: "coordinator_ok (fst s)"
  obtain c tel where s: "s = (c, tel)" by (rule prod.exhaust)
  let ?start = "(retire_inactive (current_active clock result active) c, tel)"
  have "coordinator_ok (fst (fold (observe_row env clock feeds) result ?start))"
    by (rule fold_state_ok) (metis observe_row_ok, use retire_ok(1) ok in \<open>simp add: s\<close>)
  then show ?thesis
    by (auto simp: observe_tick_def s coordinator_ok_def Let_def split: prod.split option.split)
qed

lemma worker_take_ok:
  assumes "coordinator_ok c"
  shows "coordinator_ok (worker_take clock c)"
proof (cases "\<exists>work queue. ic_queue c = Some (work # queue) \<and> length (ic_running c) < ic_concurrency c")
  case False
  then have "worker_take clock c = c" by (auto simp: worker_take_def not_le split: option.split list.split)
  then show ?thesis using assms by simp
next
  case True
  then obtain work queue where q: "ic_queue c = Some (work # queue)" "length (ic_running c) < ic_concurrency c" by blast
  let ?i = "wk_signal_id work"
  let ?c = "c\<lparr>ic_queue := Some queue\<rparr>"
  have same: "outstanding c j = outstanding ?c j + (if j = ?i then 1 else 0)" "call_bound ?c = call_bound c"
    "tracked ?c = tracked c" for j
    using q by (auto simp: outstanding_def works_def call_bound_def tracked_def)
  note ok = ok_butD [OF assms [unfolded coordinator_ok_def]]
  have size: "length queue \<le> ic_queue_size c" if "0 < ic_queue_size c" using ok(6) [OF q(1) that] by simp
  have taken: "ok_but {?i} (\<lambda>j. if j = ?i then 1 else 0) ?c"
  proof (rule ok_butI, unfold same(2,3))
    fix j
    show "count_of (ic_pending ?c) j = outstanding ?c j + (if j = ?i then 1 else 0)"
      using ok(4) [of j] same(1) [of j] by simp
    show "j \<in> tracked c \<Longrightarrow> j \<notin> {?i} \<Longrightarrow> j \<notin> set (ic_active_ids ?c) \<Longrightarrow> 0 < outstanding ?c j"
      using ok(5) [of j] same(1) [of j] by simp
  qed (use ok(1,2,3,7) size in \<open>simp, blast?\<close>)+
  show ?thesis
  proof (cases "work_is_live work ?c")
    case False
    have "worker_take clock c = release_pending ?i (bump (\<lambda>d. d\<lparr>cd_stale_discard := Suc (cd_stale_discard d)\<rparr>) ?c)"
      using q False by (simp add: worker_take_def Let_def)
    then show ?thesis using taken by (simp add: release_ok)
  next
    case True
    let ?d = "?c\<lparr>ic_tasks := dict_set ?i (ic_next_task ?c) (ic_tasks ?c), ic_next_task := Suc (ic_next_task ?c),
        ic_in_flight := Suc (ic_in_flight ?c), ic_running := ic_running ?c @
          [\<lparr>rn_work = work, rn_task = ic_next_task ?c, rn_started = fc_mono clock\<rparr>]\<rparr>"
    have again: "outstanding ?d j = outstanding c j" "call_bound ?d = call_bound c" "tracked ?d = tracked c" for j
      using q by (auto simp: outstanding_def works_def call_bound_def tracked_def)
    have d: "ok_but {} (\<lambda>_. 0) ?d"
    proof (rule ok_butI, unfold again)
      show "length (ic_running ?d) \<le> ic_concurrency ?d" using q(2) by simp
    qed (use ok size in \<open>simp, blast?\<close>)+
    define row where "row = \<lparr>ir_signal_id = ?i, ir_status = RUNNING, ir_requested = True, ir_annotation = None,
        ir_fallback_reason = FR_NONE, ir_model_calls = count_of (ic_calls c) ?i, ir_model_latency_s = None\<rparr>"
    have "worker_take clock c = store_result work row
        (bump (\<lambda>d. d\<lparr>cd_model_calls := Suc (cd_model_calls d)\<rparr>) ?d)"
      using q True by (simp add: worker_take_def Let_def row_def bump_def)
    moreover have "ok_but {} (\<lambda>_. 0) (store_result work row
        (bump (\<lambda>d. d\<lparr>cd_model_calls := Suc (cd_model_calls d)\<rparr>) ?d))"
      by (rule store_ok) (simp_all only: bump_ok d row_def intelligence_result.simps)
    ultimately show ?thesis by (simp only: coordinator_ok_def)
  qed
qed

lemma complete_call_ok:
  assumes "ok_but X e c"
  shows "ok_but X e (fst (complete_call env clock work elapsed completion parse_s (c, tel)))"
proof -
  have l: "ok_but X e (log_latency elapsed c)" using assms by (simp add: log_latency_def)
  then show ?thesis
    unfolding complete_call_def prod.case Let_def discard_stale_def
    by (simp add: store_ok)
qed

lemma fail_call_ok:
  assumes "ok_but X e c"
  shows "ok_but X e (fst (fail_call env clock work elapsed err (c, tel)))"
proof -
  have "ok_but X e (count_failure (reason_for err) (log_latency elapsed c))"
    using assms by (simp add: log_latency_def count_failure_def)
  then show ?thesis
    unfolding fail_call_def prod.case Let_def discard_stale_def
    by (simp add: store_ok)
qed

lemma worker_finish_ok:
  assumes "coordinator_ok c"
  shows "coordinator_ok (fst (worker_finish env clock k outcome (c, tel)))"
proof (cases "k < length (ic_running c)")
  case False
  then show ?thesis using assms by (simp add: worker_finish_def)
next
  case True
  define r where "r = ic_running c ! k"
  let ?i = "wk_signal_id (rn_work r)"
  let ?c = "c\<lparr>ic_running := take k (ic_running c) @ drop (Suc k) (ic_running c)\<rparr>"
  have split: "ic_running c = take k (ic_running c) @ r # drop (Suc k) (ic_running c)"
    using id_take_nth_drop [OF True] by (simp add: r_def)
  have "outstanding c j = outstanding ?c j + (if j = ?i then 1 else 0)" for j
    unfolding outstanding_def works_def by (subst split) simp
  note same = this
  have more: "call_bound ?c = call_bound c" "tracked ?c = tracked c" "length (ic_running ?c) \<le> length (ic_running c)"
    using True by (auto simp: call_bound_def tracked_def)
  note ok = ok_butD [OF assms [unfolded coordinator_ok_def]]
  have removed: "ok_but {?i} (\<lambda>j. if j = ?i then 1 else 0) ?c"
  proof (rule ok_butI, unfold more(1,2))
    fix j
    show "count_of (ic_pending ?c) j = outstanding ?c j + (if j = ?i then 1 else 0)"
      using ok(4) [of j] same [of j] by simp
    show "j \<in> tracked c \<Longrightarrow> j \<notin> {?i} \<Longrightarrow> j \<notin> set (ic_active_ids ?c) \<Longrightarrow> 0 < outstanding ?c j"
      using ok(5) [of j] same [of j] by simp
    show "length (ic_running ?c) \<le> ic_concurrency ?c" using ok(7) more(3) by simp
    show "ic_queue ?c = None \<Longrightarrow> ic_running ?c = []" using ok(8) True by force
  qed (use ok in \<open>simp, blast?\<close>)+
  define ended where "ended = (case outcome of
      CancelledCall \<Rightarrow> (discard_stale ?c, tel)
    | Completed completion parse_s \<Rightarrow> complete_call env clock (rn_work r) (fc_mono clock - rn_started r) completion parse_s (?c, tel)
    | Raised err \<Rightarrow> fail_call env clock (rn_work r) (fc_mono clock - rn_started r) err (?c, tel))"
  have "ok_but {?i} (\<lambda>j. if j = ?i then 1 else 0) (fst ended)"
    using removed complete_call_ok [OF removed] fail_call_ok [OF removed]
    by (cases outcome) (simp_all add: ended_def discard_stale_def)
  then have "ok_but {?i} (\<lambda>j. if j = ?i then 1 else 0)
      ((fst ended)\<lparr>ic_tasks := dict_pop ?i (ic_tasks (fst ended)), ic_in_flight := ic_in_flight (fst ended) - 1\<rparr>)"
    by (rule ok_but_frame) simp_all
  then have "coordinator_ok (release_pending ?i
      ((fst ended)\<lparr>ic_tasks := dict_pop ?i (ic_tasks (fst ended)), ic_in_flight := ic_in_flight (fst ended) - 1\<rparr>))"
    by (rule release_ok)
  moreover have "fst (worker_finish env clock k outcome (c, tel)) = release_pending ?i
      ((fst ended)\<lparr>ic_tasks := dict_pop ?i (ic_tasks (fst ended)), ic_in_flight := ic_in_flight (fst ended) - 1\<rparr>)"
    using True unfolding worker_finish_def prod.case Let_def r_def [symmetric] ended_def [symmetric]
    by (simp add: split_beta)
  ultimately show ?thesis by simp
qed

lemma coordinator_step_ok:
  assumes "coordinator_step env s t" "coordinator_ok (fst s)"
  shows "coordinator_ok (fst t)"
  using assms(1)
proof (cases rule: coordinator_step.cases)
  case (observe clock result feeds active)
  then show ?thesis using observe_tick_ok assms(2) by simp
next
  case (take c tel clock)
  then show ?thesis using worker_take_ok assms(2) by simp
next
  case (finish clock k outcome)
  then show ?thesis using worker_finish_ok assms(2) by (metis prod.collapse)
next
  case (start c tel)
  then show ?thesis
    using assms(2)
    by (auto simp: coordinator_start_def coordinator_ok_def ok_but_def tracked_def outstanding_def works_def call_bound_def)
next
  case (shutdown c tel)
  then show ?thesis
    using assms(2)
    by (auto simp: coordinator_shutdown_def reset_after_shutdown_def coordinator_ok_def ok_but_def tracked_def
        outstanding_def works_def call_bound_def count_of_def)
qed

lemma coordinator_run_ok: "coordinator_run env s t \<Longrightarrow> coordinator_ok (fst s) \<Longrightarrow> coordinator_ok (fst t)"
  by (induction rule: coordinator_run.induct) (auto dest: coordinator_step_ok)

lemma new_coordinator_ok: "coordinator_ok (new_coordinator queue_size concurrency budget policy)"
  by (simp add: coordinator_ok_def new_coordinator_def ok_but_def tracked_def outstanding_def works_def
      call_bound_def count_of_def)

section \<open>What a step does to one signal\<close>

text \<open>
  The requests for a signal are followed through \<open>outstanding\<close>: observing a tick is the only step that
  accepts one, and it counts it in \<open>ic_calls\<close> and gives it a new generation.
\<close>

definition ledger where
  "ledger c = (ic_calls c, ic_generation c, ic_pending c, ic_active_ids c, ic_queue c, ic_running c, ic_next_task c,
     ic_queue_size c, ic_concurrency c, ic_budget c)"

definition setting :: "coordinator \<Rightarrow> nat \<times> nat \<times> call_budget" where
  "setting c = (ic_queue_size c, ic_concurrency c, ic_budget c)"

lemma ledgerD:
  assumes "ledger c = ledger d"
  shows "ic_calls c = ic_calls d" "ic_generation c = ic_generation d" "ic_pending c = ic_pending d"
    "ic_active_ids c = ic_active_ids d" "ic_running c = ic_running d" "ic_next_task c = ic_next_task d"
    "setting c = setting d" "outstanding c = outstanding d"
  using assms by (simp_all add: ledger_def setting_def outstanding_def works_def fun_eq_iff)

lemma ledger_bump [simp]: "ledger (bump f c) = ledger c"
  by (simp add: ledger_def bump_def)

lemma ledger_store [simp]: "ledger (store_result work result c) = ledger c"
  by (simp add: ledger_def store_result_def)

lemma ledger_frame [simp]:
  "ledger (c\<lparr>ic_tasks := ts, ic_in_flight := n\<rparr>) = ledger c"
  by (simp add: ledger_def)

definition booked :: "string \<Rightarrow> coordinator \<Rightarrow> coordinator \<Rightarrow> bool" where
  "booked i c d \<longleftrightarrow>
     ic_active_ids d = ic_active_ids c \<and> ic_running d = ic_running c \<and> ic_next_task d = ic_next_task c
     \<and> setting d = setting c \<and> outstanding c i \<le> outstanding d i
     \<and> count_of (ic_calls d) i = count_of (ic_calls c) i + (outstanding d i - outstanding c i)
     \<and> (\<forall>n. dict_get (ic_generation c) i = Some n \<longrightarrow>
          dict_get (ic_generation d) i = Some (n + (outstanding d i - outstanding c i)))"

lemma booked_ledger: "ledger d = ledger c \<Longrightarrow> booked i c d"
  using ledgerD [of d c] by (simp add: booked_def)

lemma booked_trans: "booked i c d \<Longrightarrow> booked i d e \<Longrightarrow> booked i c e"
  by (auto simp: booked_def)

lemma enqueue_booked: "enqueue s payload c = (b, d) \<Longrightarrow> booked i c d"
proof (cases "ic_queue c")
  case (Some queue)
  assume run: "enqueue s payload c = (b, d)"
  show ?thesis
  proof (cases "0 < ic_queue_size c \<and> length queue \<ge> ic_queue_size c")
    case True
    then have "d = bump (\<lambda>d. d\<lparr>cd_dropped_backpressure := Suc (cd_dropped_backpressure d)\<rparr>) c"
      using run Some by (simp add: enqueue_def Let_def)
    then show ?thesis by (simp add: booked_ledger)
  next
    case False
    then show ?thesis
      using run Some
      by (auto simp: enqueue_def Let_def bump_def booked_def setting_def outstanding_def works_def dict_lookup
          count_of_def)
  qed
qed (simp add: enqueue_def booked_ledger)

lemma observe_signal_booked: "booked i c (fst (observe_signal env clock feed row s (c, tel)))"
proof (cases "map_of (rev (map (\<lambda>t. (tr_signal_id t, t)) (sr_traces row))) (sg_id s)")
  case None
  then show ?thesis by (simp add: observe_signal_def booked_ledger)
next
  case (Some trace)
  define payload where "payload = compress_intelligence_input s trace feed
      (sg_id s \<in> sg_id ` set (sr_alert_candidates row)) (count_of (ic_calls c) (sg_id s))
      (dict_get (ic_last_priority c) (sg_id s)) (sg_id s \<notin> set (ic_active_ids c))"
  define c1 where "c1 = bump (\<lambda>d. d\<lparr>cd_router_decisions := Suc (cd_router_decisions d)\<rparr>) c"
  obtain b c2 where e: "enqueue s payload c1 = (b, c2)" by (rule prod.exhaust)
  have c1: "booked i c c1" by (simp add: c1_def booked_ledger)
  then have c2: "booked i c c2" using enqueue_booked [OF e] by (rule booked_trans)
  have "booked i c (bump (\<lambda>d. d\<lparr>cd_requests_suppressed := Suc (cd_requests_suppressed d)\<rparr>) c1)"
    using c1 by (rule booked_trans) (simp add: booked_ledger)
  then show ?thesis
    unfolding observe_signal_def prod.case Some option.case Let_def payload_def [symmetric] c1_def [symmetric] e
    using c2 by (auto split: option.split bool.split)
qed

lemma fold_booked: "(\<And>x s. booked i (fst s) (fst (f x s))) \<Longrightarrow> booked i (fst s) (fst (fold f xs s))"
proof (induction xs arbitrary: s)
  case (Cons x xs)
  show ?case using booked_trans [OF Cons.prems [of s x] Cons.IH [OF Cons.prems, of "f x s"]] by simp
qed (simp add: booked_ledger)

lemma observe_row_booked: "booked i (fst s) (fst (observe_row env clock feeds row s))"
  unfolding observe_row_def by (rule fold_booked) (metis observe_signal_booked prod.collapse)

lemma observe_tick_booked:
  "booked i (retire_inactive (current_active clock result active) (fst s))
     (fst (observe_tick env clock result feeds active s))"
proof -
  let ?c = "retire_inactive (current_active clock result active) (fst s)"
  let ?d = "fst (fold (observe_row env clock feeds) result (?c, snd s))"
  have "booked i ?c ?d" using fold_booked [OF observe_row_booked, of i "(?c, snd s)"] by simp
  moreover have "ledger (fst (observe_tick env clock result feeds active s)) = ledger ?d"
    by (auto simp: observe_tick_def Let_def split_beta split: option.split)
  ultimately show ?thesis using booked_trans booked_ledger by blast
qed

lemma ledger_cancel [simp]: "ledger (cancel_in_flight i c) = ledger c"
  by (simp add: ledger_def cancel_in_flight_def split: option.split)

lemma maybe_forget_keeps [simp]:
  "works (maybe_forget j c) = works c" "ic_running (maybe_forget j c) = ic_running c"
  "ic_next_task (maybe_forget j c) = ic_next_task c" "setting (maybe_forget j c) = setting c"
  by (simp_all add: maybe_forget_def works_def setting_def)

lemma maybe_forget_dicts:
  assumes "i \<noteq> j \<or> i \<in> set (ic_active_ids c) \<or> 0 < count_of (ic_pending c) i"
  shows "dict_get (ic_calls (maybe_forget j c)) i = dict_get (ic_calls c) i
    \<and> dict_get (ic_generation (maybe_forget j c)) i = dict_get (ic_generation c) i
    \<and> dict_get (ic_pending (maybe_forget j c)) i = dict_get (ic_pending c) i"
  using assms by (auto simp: maybe_forget_def dict_lookup)

lemma cancel_keeps [simp]:
  "works (cancel_in_flight j c) = works c" "ic_calls (cancel_in_flight j c) = ic_calls c"
  "ic_generation (cancel_in_flight j c) = ic_generation c" "ic_pending (cancel_in_flight j c) = ic_pending c"
  "ic_running (cancel_in_flight j c) = ic_running c"
  "ic_next_task (cancel_in_flight j c) = ic_next_task c" "setting (cancel_in_flight j c) = setting c"
  using ledger_cancel [of j c] by (simp_all add: ledger_def works_def setting_def)

lemma invalidate_keeps [simp]:
  "works (invalidate j c) = works c" "ic_running (invalidate j c) = ic_running c"
  "ic_next_task (invalidate j c) = ic_next_task c" "setting (invalidate j c) = setting c"
  by (simp_all add: invalidate_def) (simp_all add: works_def setting_def)

lemma invalidate_other:
  assumes "i \<noteq> j"
  shows "dict_get (ic_calls (invalidate j c)) i = dict_get (ic_calls c) i
    \<and> dict_get (ic_generation (invalidate j c)) i = dict_get (ic_generation c) i
    \<and> dict_get (ic_pending (invalidate j c)) i = dict_get (ic_pending c) i"
  using assms maybe_forget_dicts [of i j] by (simp add: invalidate_def dict_lookup Let_def)

lemma invalidate_pending:
  assumes "0 < count_of (ic_pending c) i"
  shows "dict_get (ic_generation (invalidate i c)) i = Some (count_of (ic_generation c) i + 1)"
  using assms maybe_forget_dicts [of i i] by (simp add: invalidate_def dict_lookup Let_def)

lemma invalidate_all_keeps [simp]:
  "works (fold invalidate ids c) = works c" "ic_running (fold invalidate ids c) = ic_running c"
  "ic_next_task (fold invalidate ids c) = ic_next_task c" "setting (fold invalidate ids c) = setting c"
  by (induction ids arbitrary: c) simp_all

lemma invalidate_all_other:
  assumes "i \<notin> set ids"
  shows "dict_get (ic_calls (fold invalidate ids c)) i = dict_get (ic_calls c) i
    \<and> dict_get (ic_generation (fold invalidate ids c)) i = dict_get (ic_generation c) i
    \<and> dict_get (ic_pending (fold invalidate ids c)) i = dict_get (ic_pending c) i"
  using assms
proof (induction ids arbitrary: c)
  case (Cons j ids)
  then show ?case using invalidate_other [of i j c] by simp
qed simp

lemma invalidate_all_once:
  assumes "i \<in> set ids" "distinct ids" "0 < count_of (ic_pending c) i"
  shows "dict_get (ic_generation (fold invalidate ids c)) i = Some (count_of (ic_generation c) i + 1)"
proof -
  obtain xs ys where ids: "ids = xs @ i # ys" using assms(1) by (meson split_list)
  then have fresh: "i \<notin> set xs" "i \<notin> set ys" using assms(2) by auto
  let ?c = "fold invalidate xs c"
  have before: "count_of (ic_pending ?c) i = count_of (ic_pending c) i"
    "count_of (ic_generation ?c) i = count_of (ic_generation c) i"
    using invalidate_all_other [OF fresh(1), of c] by (simp_all add: count_of_def)
  then show ?thesis
    using invalidate_all_other [OF fresh(2), of "invalidate i ?c"] invalidate_pending [of ?c i] assms(3) by (simp add: ids)
qed

lemma retire_keeps:
  "outstanding (retire_inactive active c) = outstanding c" "ic_running (retire_inactive active c) = ic_running c"
  "ic_next_task (retire_inactive active c) = ic_next_task c" "setting (retire_inactive active c) = setting c"
  by (auto simp: retire_inactive_def Let_def outstanding_def fun_eq_iff) (simp_all add: works_def setting_def)

lemma retire_active:
  assumes "i \<in> set active"
  shows "dict_get (ic_calls (retire_inactive active c)) i = dict_get (ic_calls c) i
    \<and> dict_get (ic_generation (retire_inactive active c)) i = dict_get (ic_generation c) i"
proof -
  let ?c = "c\<lparr>ic_active_ids := active, ic_registry := registry_prune active (ic_registry c)\<rparr>"
  let ?ids = "filter (\<lambda>i. i \<notin> set active) (remdups (tracked_ids ?c @ map fst (ic_registry ?c)))"
  have "i \<notin> set ?ids" using assms by simp
  from invalidate_all_other [OF this, of ?c] show ?thesis by (simp add: retire_inactive_def Let_def)
qed

lemma retire_inactive_once:
  assumes "i \<notin> set active" "0 < count_of (ic_pending c) i"
  shows "dict_get (ic_generation (retire_inactive active c)) i = Some (count_of (ic_generation c) i + 1)"
proof -
  let ?c = "c\<lparr>ic_active_ids := active, ic_registry := registry_prune active (ic_registry c)\<rparr>"
  let ?ids = "filter (\<lambda>i. i \<notin> set active) (remdups (tracked_ids ?c @ map fst (ic_registry ?c)))"
  have "i \<in> tracked ?c" using assms(2) by (auto simp: tracked_def count_of_def dom_def split: option.splits)
  then have "i \<in> set ?ids" using assms(1) by (simp add: set_tracked_ids)
  then have "dict_get (ic_generation (fold invalidate ?ids ?c)) i = Some (count_of (ic_generation ?c) i + 1)"
    by (rule invalidate_all_once) (use assms(2) in simp_all)
  then show ?thesis by (simp add: retire_inactive_def Let_def)
qed

lemma observe_tick_frame:
  assumes "d = fst (observe_tick env clock result feeds active s)"
  shows "ic_running d = ic_running (fst s) \<and> ic_next_task d = ic_next_task (fst s)
    \<and> setting d = setting (fst s) \<and> outstanding (fst s) i \<le> outstanding d i"
  using observe_tick_booked [of i clock result active s env feeds] retire_keeps [of "current_active clock result active" "fst s"]
  by (simp add: assms booked_def)

lemma observe_tick_calls:
  assumes "coordinator_ok (fst s)" "i \<in> set (ic_active_ids (fst (observe_tick env clock result feeds active s)))"
  shows "count_of (ic_calls (fst (observe_tick env clock result feeds active s))) i =
    count_of (ic_calls (fst s)) i + (outstanding (fst (observe_tick env clock result feeds active s)) i - outstanding (fst s) i)"
proof -
  let ?a = "current_active clock result active"
  have "i \<in> set ?a"
    using assms observe_tick_booked [of i clock result active s env feeds] retire_ok(2) by (simp add: booked_def)
  then have "dict_get (ic_calls (retire_inactive ?a (fst s))) i = dict_get (ic_calls (fst s)) i"
    using retire_active by blast
  then show ?thesis
    using observe_tick_booked [of i clock result active s env feeds] retire_keeps(1) [of ?a "fst s"]
    by (simp add: booked_def count_of_def)
qed

lemma observe_tick_generation:
  assumes "coordinator_ok (fst s)" "0 < outstanding (fst s) i" "dict_get (ic_generation (fst s)) i = Some n"
    and d: "d = fst (observe_tick env clock result feeds active s)"
  shows "dict_get (ic_generation d) i =
    Some (n + (outstanding d i - outstanding (fst s) i) + (if i \<in> set (ic_active_ids d) then 0 else 1))"
proof -
  let ?a = "current_active clock result active"
  let ?c = "retire_inactive ?a (fst s)"
  note booked = observe_tick_booked [of i clock result active s env feeds, folded d]
  have active: "ic_active_ids d = ?a" using booked assms(1) retire_ok(2) by (simp add: booked_def)
  have pending: "0 < count_of (ic_pending (fst s)) i"
    using assms(1,2) ok_butD(4) [of "{}" "\<lambda>_. 0" "fst s" i] by (simp add: coordinator_ok_def)
  have "dict_get (ic_generation ?c) i = Some (n + (if i \<in> set ?a then 0 else 1))"
    using retire_active [of i ?a "fst s"] retire_inactive_once [OF _ pending, of ?a] assms(3)
    by (simp add: count_of_def)
  then show ?thesis using booked retire_keeps(1) [of ?a "fst s"] by (simp add: booked_def active)
qed

text \<open>Workers only let go of work: a signal with work left, or an active one, keeps its records.\<close>

definition released :: "string \<Rightarrow> coordinator \<Rightarrow> coordinator \<Rightarrow> bool" where
  "released i c d \<longleftrightarrow>
     ic_active_ids d = ic_active_ids c \<and> setting d = setting c \<and> ic_next_task c \<le> ic_next_task d
     \<and> outstanding d i \<le> outstanding c i
     \<and> (\<forall>r \<in> set (ic_running d). r \<in> set (ic_running c) \<or> rn_task r = ic_next_task c \<and> ic_next_task c < ic_next_task d)
     \<and> (i \<in> set (ic_active_ids c) \<or> 0 < count_of (ic_pending d) i \<longrightarrow>
          dict_get (ic_calls d) i = dict_get (ic_calls c) i \<and> dict_get (ic_generation d) i = dict_get (ic_generation c) i)"

lemma released_trans: "released i c d \<Longrightarrow> ledger e = ledger d \<Longrightarrow> released i c e"
  by (simp add: released_def ledgerD [of e d])

lemma release_pending_released:
  assumes "released i c d" "dict_get (ic_calls d) i = dict_get (ic_calls c) i"
    "dict_get (ic_generation d) i = dict_get (ic_generation c) i"
  shows "released i c (release_pending j d)"
proof -
  let ?e = "if int (count_of (ic_pending d) j) - 1 \<le> 0 then d\<lparr>ic_pending := dict_pop j (ic_pending d)\<rparr>
      else d\<lparr>ic_pending := dict_set j (nat (int (count_of (ic_pending d) j) - 1)) (ic_pending d)\<rparr>"
  have rel: "release_pending j d = maybe_forget j ?e" by (simp add: release_pending_def Let_def)
  have e: "ic_active_ids ?e = ic_active_ids d" "setting ?e = setting d" "ic_next_task ?e = ic_next_task d"
    "works ?e = works d" "ic_running ?e = ic_running d" "ic_calls ?e = ic_calls d" "ic_generation ?e = ic_generation d"
    by (simp_all add: setting_def works_def)
  have kept: "i \<in> set (ic_active_ids ?e) \<or> 0 < count_of (ic_pending (maybe_forget j ?e)) i \<Longrightarrow>
      dict_get (ic_calls (maybe_forget j ?e)) i = dict_get (ic_calls ?e) i
      \<and> dict_get (ic_generation (maybe_forget j ?e)) i = dict_get (ic_generation ?e) i"
    by (auto simp: maybe_forget_def dict_lookup split: if_splits)
  show ?thesis
    using assms kept unfolding rel released_def outstanding_def maybe_forget_keeps maybe_forget_active e by metis
qed

lemma worker_take_released: "released i c (worker_take clock c)"
proof (cases "\<exists>work queue. ic_queue c = Some (work # queue) \<and> length (ic_running c) < ic_concurrency c")
  case False
  then have "worker_take clock c = c" by (auto simp: worker_take_def not_le split: option.split list.split)
  then show ?thesis by (simp add: released_def)
next
  case True
  then obtain work queue where q: "ic_queue c = Some (work # queue)" "length (ic_running c) < ic_concurrency c" by blast
  let ?c = "c\<lparr>ic_queue := Some queue\<rparr>"
  have popped: "released i c ?c" using q by (simp add: released_def setting_def outstanding_def works_def)
  show ?thesis
  proof (cases "work_is_live work ?c")
    case False
    then have "worker_take clock c =
        release_pending (wk_signal_id work) (bump (\<lambda>d. d\<lparr>cd_stale_discard := Suc (cd_stale_discard d)\<rparr>) ?c)"
      using q by (simp add: worker_take_def Let_def)
    moreover have "released i c (release_pending (wk_signal_id work)
        (bump (\<lambda>d. d\<lparr>cd_stale_discard := Suc (cd_stale_discard d)\<rparr>) ?c))"
      by (rule release_pending_released [OF released_trans [OF popped ledger_bump]]) (simp_all add: bump_def)
    ultimately show ?thesis by simp
  next
    case True
    let ?d = "?c\<lparr>ic_running := ic_running c @ [\<lparr>rn_work = work, rn_task = ic_next_task c, rn_started = fc_mono clock\<rparr>],
        ic_next_task := Suc (ic_next_task c)\<rparr>"
    have d: "released i c ?d" using q by (auto simp: released_def setting_def outstanding_def works_def)
    have "ledger (worker_take clock c) = ledger ?d"
      using q True by (simp add: worker_take_def Let_def) (simp add: ledger_def bump_def)
    then show ?thesis by (rule released_trans [OF d])
  qed
qed

lemma worker_finish_released: "released i (fst s) (fst (worker_finish env clock k outcome s))"
proof -
  obtain c tel where s: "s = (c, tel)" by (rule prod.exhaust)
  show ?thesis
  proof (cases "k < length (ic_running c)")
    case False
    then show ?thesis by (simp add: s worker_finish_def released_def)
  next
    case True
    define r where "r = ic_running c ! k"
    let ?i = "wk_signal_id (rn_work r)"
    let ?c = "c\<lparr>ic_running := take k (ic_running c) @ drop (Suc k) (ic_running c)\<rparr>"
    have split: "ic_running c = take k (ic_running c) @ r # drop (Suc k) (ic_running c)"
      using id_take_nth_drop [OF True] by (simp add: r_def)
    have "outstanding ?c i \<le> outstanding c i"
      unfolding outstanding_def works_def by (subst (3) split) simp
    moreover have "set (ic_running ?c) \<subseteq> set (ic_running c)" by (subst (2) split) auto
    ultimately have removed: "released i c ?c" by (auto simp: released_def setting_def)
    define ended where "ended = (case outcome of
        CancelledCall \<Rightarrow> (discard_stale ?c, tel)
      | Completed completion parse_s \<Rightarrow> complete_call env clock (rn_work r) (fc_mono clock - rn_started r) completion parse_s (?c, tel)
      | Raised err \<Rightarrow> fail_call env clock (rn_work r) (fc_mono clock - rn_started r) err (?c, tel))"
    let ?d = "(fst ended)\<lparr>ic_tasks := dict_pop ?i (ic_tasks (fst ended)), ic_in_flight := ic_in_flight (fst ended) - 1\<rparr>"
    have same: "ledger ?d = ledger ?c"
      by (cases outcome) (simp_all add: ended_def complete_call_def fail_call_def discard_stale_def log_latency_def
          count_failure_def Let_def)
    have "released i c (release_pending ?i ?d)"
      by (rule release_pending_released [OF released_trans [OF removed same]])
        (simp_all only: ledgerD(1,2) [OF same], simp_all)
    moreover have "fst (worker_finish env clock k outcome s) = release_pending ?i ?d"
      using True unfolding s worker_finish_def prod.case Let_def r_def [symmetric] ended_def [symmetric]
      by (simp add: split_beta)
    ultimately show ?thesis by (simp add: s)
  qed
qed

subsection \<open>One step\<close>

lemma outstanding_running:
  assumes "r \<in> set (ic_running c)" "wk_signal_id (rn_work r) = i"
  shows "0 < outstanding c i"
  using assms by (force simp: outstanding_def works_def filter_empty_conv)

lemma step_setting: "coordinator_step env s t \<Longrightarrow> setting (fst t) = setting (fst s)"
proof (induction rule: coordinator_step.induct)
  case (observe s clock result feeds active)
  then show ?case using observe_tick_frame [OF refl, of env clock result feeds active s] by simp
next
  case (take c tel clock)
  then show ?case using worker_take_released [of undefined c clock] by (simp add: released_def)
next
  case (finish s clock k outcome)
  then show ?case using worker_finish_released [of undefined s env clock k outcome] by (simp add: released_def)
qed (simp_all add: coordinator_start_def coordinator_shutdown_def reset_after_shutdown_def setting_def)

lemma run_setting: "coordinator_run env s t \<Longrightarrow> setting (fst t) = setting (fst s)"
  by (induction rule: coordinator_run.induct) (auto dest: step_setting)

lemma step_running:
  assumes "coordinator_step env s t"
  shows "ic_next_task (fst s) \<le> ic_next_task (fst t)
    \<and> (\<forall>r \<in> set (ic_running (fst t)). r \<in> set (ic_running (fst s))
         \<or> rn_task r = ic_next_task (fst s) \<and> ic_next_task (fst s) < ic_next_task (fst t))"
  using assms
proof (induction rule: coordinator_step.induct)
  case (observe s clock result feeds active)
  then show ?case using observe_tick_frame [OF refl, of env clock result feeds active s] by simp
next
  case (take c tel clock)
  then show ?case using worker_take_released [of undefined c clock] by (simp add: released_def)
next
  case (finish s clock k outcome)
  then show ?case using worker_finish_released [of undefined s env clock k outcome] by (simp add: released_def)
qed (simp_all add: coordinator_start_def coordinator_shutdown_def reset_after_shutdown_def)

lemma stop_and_start:
  assumes "coordinator_ok c"
  shows "ic_running (coordinator_shutdown c) = []" "ic_active_ids (coordinator_shutdown c) = []"
    "ic_queue c \<noteq> None \<or> ic_running c \<noteq> [] \<Longrightarrow> coordinator_start c = c"
    "ic_calls (coordinator_start c) = ic_calls c" "outstanding (coordinator_start c) i \<le> outstanding c i"
proof -
  have "ic_queue c = None \<Longrightarrow> ic_running c = []"
    using assms ok_butD(8) [of "{}" "\<lambda>_. 0" c] by (simp add: coordinator_ok_def)
  then show "ic_running (coordinator_shutdown c) = []" "ic_active_ids (coordinator_shutdown c) = []"
    "ic_queue c \<noteq> None \<or> ic_running c \<noteq> [] \<Longrightarrow> coordinator_start c = c"
    "ic_calls (coordinator_start c) = ic_calls c" "outstanding (coordinator_start c) i \<le> outstanding c i"
    by (auto simp: coordinator_shutdown_def reset_after_shutdown_def coordinator_start_def outstanding_def works_def)
qed

lemma step_calls:
  assumes "coordinator_step env s t" "coordinator_ok (fst s)" "i \<in> set (ic_active_ids (fst s))" "i \<in> set (ic_active_ids (fst t))"
  shows "count_of (ic_calls (fst t)) i = count_of (ic_calls (fst s)) i + (outstanding (fst t) i - outstanding (fst s) i)"
  using assms
proof (induction rule: coordinator_step.induct)
  case (observe s clock result feeds active)
  then show ?case by (intro observe_tick_calls)
next
  case (take c tel clock)
  then show ?case using worker_take_released [of i c clock] by (simp add: released_def count_of_def)
next
  case (finish s clock k outcome)
  then show ?case using worker_finish_released [of i s env clock k outcome] by (simp add: released_def count_of_def)
next
  case (start c tel)
  then show ?case using stop_and_start(4,5) [of c] by simp
next
  case (shutdown c tel)
  then show ?case using stop_and_start(2) [of c] by simp
qed

lemma released_generation:
  assumes "released i c d" "coordinator_ok d" "0 < outstanding d i" "dict_get (ic_generation c) i = Some n"
  shows "dict_get (ic_generation d) i = Some n \<and> outstanding d i \<le> outstanding c i \<and> ic_active_ids d = ic_active_ids c"
proof -
  have "0 < count_of (ic_pending d) i"
    using assms(2,3) ok_butD(4) [of "{}" "\<lambda>_. 0" d i] by (simp add: coordinator_ok_def)
  then show ?thesis using assms by (simp add: released_def)
qed

lemma step_generation:
  assumes "coordinator_step env s t" "coordinator_ok (fst s)" "r \<in> set (ic_running (fst s))" "r \<in> set (ic_running (fst t))"
    and i: "wk_signal_id (rn_work r) = i" and n: "dict_get (ic_generation (fst s)) i = Some n"
  shows "\<exists>m. dict_get (ic_generation (fst t)) i = Some m \<and> n \<le> m
    \<and> (outstanding (fst s) i < outstanding (fst t) i \<longrightarrow> n < m)
    \<and> (i \<in> set (ic_active_ids (fst s)) \<and> i \<notin> set (ic_active_ids (fst t)) \<longrightarrow> n < m)
    \<and> (outstanding (fst t) i \<le> outstanding (fst s) i \<and> i \<in> set (ic_active_ids (fst t)) \<longrightarrow>
         m = n \<and> i \<in> set (ic_active_ids (fst t)))"
proof -
  have ok: "coordinator_ok (fst t)" using assms(1,2) by (rule coordinator_step_ok)
  have left: "0 < outstanding (fst s) i" "0 < outstanding (fst t) i"
    using outstanding_running [OF assms(3) i] outstanding_running [OF assms(4) i] by simp_all
  show ?thesis
    using assms(1)
  proof (cases rule: coordinator_step.cases)
    case (observe clock result feeds active)
    from observe_tick_generation [OF assms(2) left(1) n arg_cong [OF observe(1), where f = fst]] show ?thesis by auto
  next
    case (take c tel clock)
    then show ?thesis using released_generation [OF worker_take_released [of i c clock]] ok left n by simp
  next
    case (finish clock k outcome)
    then show ?thesis using released_generation [OF worker_finish_released [of i s env clock k outcome]] ok left n by simp
  next
    case (start c tel)
    then have "ic_running c \<noteq> []" using assms(3) by auto
    then have "coordinator_start c = c" using stop_and_start(3) [of c] start assms(2) by simp
    then show ?thesis using start n by simp
  next
    case (shutdown c tel)
    then show ?thesis using assms(2,4) stop_and_start(1) [of c] by simp
  qed
qed

subsection \<open>Many steps\<close>

fun path :: "'c env \<Rightarrow> (coordinator \<times> 'c telemetry) list \<Rightarrow> bool" where
  "path env [] \<longleftrightarrow> False"
| "path env [s] \<longleftrightarrow> True"
| "path env (s # t # states) \<longleftrightarrow> coordinator_step env s t \<and> path env (t # states)"

text \<open>
  The requests accepted for a signal over consecutive states, and whether, after the first of them, a
  newer request for it was accepted or it was ever not active.
\<close>

fun requests_accepted :: "string \<Rightarrow> (coordinator \<times> 'c telemetry) list \<Rightarrow> nat" where
  "requests_accepted i (s # t # states) =
     (outstanding (fst t) i - outstanding (fst s) i) + requests_accepted i (t # states)"
| "requests_accepted i states = 0"

fun overtaken :: "string \<Rightarrow> (coordinator \<times> 'c telemetry) list \<Rightarrow> bool" where
  "overtaken i (s # t # states) \<longleftrightarrow>
     outstanding (fst s) i < outstanding (fst t) i \<or> i \<notin> set (ic_active_ids (fst t)) \<or> overtaken i (t # states)"
| "overtaken i states \<longleftrightarrow> False"

definition everything_started :: "coordinator \<Rightarrow> bool" where
  "everything_started c \<longleftrightarrow> (\<forall>r \<in> set (ic_running c). rn_task r < ic_next_task c)"

lemma run_everything_started:
  "coordinator_run env s t \<Longrightarrow> everything_started (fst s) \<Longrightarrow> everything_started (fst t)"
proof (induction rule: coordinator_run.induct)
  case (run_step s t u)
  then show ?case using step_running [OF run_step(2)] by (fastforce simp: everything_started_def)
qed simp

lemma path_calls:
  assumes "path env (s # states)" "coordinator_ok (fst s)" "\<And>t. t \<in> set (s # states) \<Longrightarrow> i \<in> set (ic_active_ids (fst t))"
  shows "count_of (ic_calls (fst s)) i + requests_accepted i (s # states) \<le> call_bound (fst s)"
  using assms
proof (induction states arbitrary: s)
  case Nil
  then show ?case using ok_butD(3) [of "{}" "\<lambda>_. 0" "fst s" i] by (simp add: coordinator_ok_def)
next
  case (Cons t states)
  have step: "coordinator_step env s t" using Cons.prems(1) by simp
  have "call_bound (fst t) = call_bound (fst s)" using step_setting [OF step] by (simp add: setting_def call_bound_def)
  moreover have "count_of (ic_calls (fst t)) i + requests_accepted i (t # states) \<le> call_bound (fst t)"
    using Cons.prems coordinator_step_ok [OF step] by (intro Cons.IH) simp_all
  moreover have "count_of (ic_calls (fst t)) i =
      count_of (ic_calls (fst s)) i + (outstanding (fst t) i - outstanding (fst s) i)"
    using Cons.prems(3) by (intro step_calls [OF step Cons.prems(2)]) simp_all
  ultimately show ?case by simp
qed

lemma path_running:
  assumes "path env (s # states)" "r \<in> set (ic_running (fst (last (s # states))))" "rn_task r < ic_next_task (fst s)"
  shows "\<forall>t \<in> set (s # states). r \<in> set (ic_running (fst t))"
  using assms
proof (induction states arbitrary: s)
  case (Cons t states)
  have step: "coordinator_step env s t" using Cons.prems(1) by simp
  have "\<forall>u \<in> set (t # states). r \<in> set (ic_running (fst u))"
    using Cons.prems step_running [OF step] by (intro Cons.IH) auto
  then show ?case using Cons.prems(3) step_running [OF step] by fastforce
qed simp

lemma path_generation:
  assumes "path env (s # states)" "coordinator_ok (fst s)" "\<forall>t \<in> set (s # states). r \<in> set (ic_running (fst t))"
    and "wk_signal_id (rn_work r) = i" "dict_get (ic_generation (fst s)) i = Some n"
  shows "\<exists>m. dict_get (ic_generation (fst (last (s # states)))) i = Some m \<and> n \<le> m
    \<and> (i \<in> set (ic_active_ids (fst s)) \<longrightarrow>
         (if overtaken i (s # states) then n < m else m = n \<and> i \<in> set (ic_active_ids (fst (last (s # states))))))"
  using assms
proof (induction states arbitrary: s n)
  case (Cons t states)
  have step: "coordinator_step env s t" using Cons.prems(1) by simp
  have running: "r \<in> set (ic_running (fst s))" "r \<in> set (ic_running (fst t))" using Cons.prems(3) by simp_all
  obtain m where m: "dict_get (ic_generation (fst t)) i = Some m" "n \<le> m"
      "outstanding (fst s) i < outstanding (fst t) i \<Longrightarrow> n < m"
      "i \<in> set (ic_active_ids (fst s)) \<Longrightarrow> i \<notin> set (ic_active_ids (fst t)) \<Longrightarrow> n < m"
      "outstanding (fst t) i \<le> outstanding (fst s) i \<Longrightarrow> i \<in> set (ic_active_ids (fst t)) \<Longrightarrow> m = n"
    using step_generation [OF step Cons.prems(2) running Cons.prems(4,5)] by blast
  obtain k where k: "dict_get (ic_generation (fst (last (t # states)))) i = Some k" "m \<le> k"
      "i \<in> set (ic_active_ids (fst t)) \<Longrightarrow>
         (if overtaken i (t # states) then m < k else k = m \<and> i \<in> set (ic_active_ids (fst (last (t # states)))))"
    using Cons.IH [of t m] Cons.prems(1,3,4) m(1) coordinator_step_ok [OF step Cons.prems(2)] by auto
  have "if overtaken i (s # t # states) then n < k else k = n \<and> i \<in> set (ic_active_ids (fst (last (t # states))))"
    if now: "i \<in> set (ic_active_ids (fst s))"
  proof (cases "i \<notin> set (ic_active_ids (fst t)) \<or> outstanding (fst s) i < outstanding (fst t) i")
    case True
    then show ?thesis using m(3) m(4) [OF now] k(2) by auto
  next
    case False
    then show ?thesis using m(5) k(3) by auto
  qed
  then show ?case using k(1,2) m(2) by auto
qed simp

section \<open>Properties\<close>

text \<open>C9: However ticks, workers, model answers, start and shutdown interleave, the sidecar stays bounded by
  the settings it was made with: over any stretch of steps in which a signal stays active, the requests
  accepted for it are no more than the call budget and the one extra call it may allow for an escalation; every published annotation belongs to an active signal, the queue
  and the calls in flight respect their limits, the pending counts are exactly the outstanding work,
  and nothing is remembered about a signal that is neither active nor outstanding.\<close>

theorem coordinator_bounded:
  assumes "coordinator_run env (new_coordinator queue_size concurrency budget policy, tel) (c, tel')"
  shows "(\<forall>i states. path env ((c, tel') # states)
        \<longrightarrow> (\<forall>t \<in> set ((c, tel') # states). i \<in> set (ic_active_ids (fst t)))
        \<longrightarrow> requests_accepted i ((c, tel') # states)
              \<le> cb_max_calls budget + (if cb_allow_escalation_recall budget then 1 else 0))
    \<and> fst ` set (ic_registry c) \<subseteq> set (ic_active_ids c)
    \<and> length (ic_running c) \<le> max 1 concurrency
    \<and> (\<forall>q. ic_queue c = Some q \<longrightarrow> 0 < queue_size \<longrightarrow> length q \<le> queue_size)
    \<and> (\<forall>i. count_of (ic_calls c) i \<le> cb_max_calls budget + (if cb_allow_escalation_recall budget then 1 else 0))
    \<and> (\<forall>i. count_of (ic_pending c) i = outstanding c i)
    \<and> set (tracked_ids c) \<subseteq> set (ic_active_ids c) \<union> {i. 0 < outstanding c i}"
proof -
  have all: "coordinator_ok c" using coordinator_run_ok [OF assms] new_coordinator_ok by simp
  have set: "ic_queue_size c = queue_size" "ic_concurrency c = max 1 concurrency" "ic_budget c = budget"
    using run_setting [OF assms] by (simp_all add: setting_def new_coordinator_def)
  then have bound: "call_bound c = cb_max_calls budget + (if cb_allow_escalation_recall budget then 1 else 0)"
    by (simp add: call_bound_def)
  note ok = ok_butD [OF all [unfolded coordinator_ok_def], unfolded bound set]
  have requests: "requests_accepted i ((c, tel') # states)
      \<le> cb_max_calls budget + (if cb_allow_escalation_recall budget then 1 else 0)"
    if "path env ((c, tel') # states)" "\<forall>t \<in> set ((c, tel') # states). i \<in> set (ic_active_ids (fst t))" for i states
    using path_calls [OF that(1), of i] that(2) all bound by simp
  have published: "fst ` set (ic_registry c) \<subseteq> set (ic_active_ids c)"
    using ok(1) by (auto simp flip: dom_map_of_conv_image_fst)
  have remembered: "set (tracked_ids c) \<subseteq> set (ic_active_ids c) \<union> {i. 0 < outstanding c i}"
    using ok(5) by (auto simp: set_tracked_ids)
  have pending: "count_of (ic_pending c) i = outstanding c i" for i using ok(4) [of i] by simp
  show ?thesis
    by (intro conjI allI impI; (rule requests published remembered pending ok(3) ok(7) | erule (1) ok(6)); assumption)
qed

lemma maybe_forget_registry [simp]: "ic_registry (maybe_forget i c) = ic_registry c"
  by (simp add: maybe_forget_def)

lemma release_registry [simp]: "ic_registry (release_pending i c) = ic_registry c"
  by (simp add: release_pending_def Let_def)

lemma bump_live [simp]: "work_is_live work (bump f c) \<longleftrightarrow> work_is_live work c"
  by (simp add: work_is_live_def bump_def)

lemma bump_registry [simp]: "ic_registry (bump f c) = ic_registry c"
  by (simp add: bump_def)

lemma finish_registry:
  assumes "k < length (ic_running c)" "work = rn_work (ic_running c ! k)"
  shows "ic_registry (fst (worker_finish env clock k outcome (c, tel))) =
    (if \<not> work_is_live work c then ic_registry c
     else case outcome of
       CancelledCall \<Rightarrow> ic_registry c
     | Completed completion parse_s \<Rightarrow> registry_put
         \<lparr>ir_signal_id = wk_signal_id work, ir_status = ENRICHED, ir_requested = True,
          ir_annotation = Some \<lparr>ia_signal_id = wk_signal_id work, ia_worth_highlight = mc_worth_highlight completion,
            ia_reason = mc_reason completion, ia_confidence = mc_confidence completion,
            ia_summary = mc_summary completion, ia_created_timestamp = fc_wall clock\<rparr>,
          ir_fallback_reason = FR_NONE, ir_model_calls = count_of (ic_calls c) (wk_signal_id work),
          ir_model_latency_s = Some (fc_mono clock - rn_started (ic_running c ! k))\<rparr> (ic_registry c)
     | Raised err \<Rightarrow> registry_put
         \<lparr>ir_signal_id = wk_signal_id work, ir_status = FALLBACK, ir_requested = True, ir_annotation = None,
          ir_fallback_reason = reason_for err, ir_model_calls = count_of (ic_calls c) (wk_signal_id work),
          ir_model_latency_s = Some (fc_mono clock - rn_started (ic_running c ! k))\<rparr> (ic_registry c))"
proof -
  let ?c = "c\<lparr>ic_running := take k (ic_running c) @ drop (Suc k) (ic_running c)\<rparr>"
  have live: "work_is_live work ?c \<longleftrightarrow> work_is_live work c" by (simp add: work_is_live_def)
  have calls: "ic_calls (bump f d) = ic_calls d" for f d by (simp add: bump_def)
  show ?thesis
  proof (cases outcome)
    case (Completed completion parse_s)
    then show ?thesis
      using assms live
      by (simp add: worker_finish_def Let_def complete_call_def log_latency_def discard_stale_def store_result_def calls
          split_beta)
  next
    case (Raised err)
    then show ?thesis
      using assms live
      by (simp add: worker_finish_def Let_def fail_call_def log_latency_def count_failure_def discard_stale_def
          store_result_def calls split_beta)
  next
    case CancelledCall
    then show ?thesis using assms by (simp add: worker_finish_def Let_def discard_stale_def)
  qed
qed

lemma release_running [simp]: "ic_running (release_pending j c) = ic_running c"
  by (simp add: release_pending_def Let_def)

lemma take_started:
  assumes "ic_running (worker_take clock c) = ic_running c @ [r]"
  shows "work_is_live (rn_work r) (worker_take clock c)" "rn_task r < ic_next_task (worker_take clock c)"
proof -
  have unchanged: "ic_running (worker_take clock c) \<noteq> ic_running c" using assms by simp
  then obtain work queue where q: "ic_queue c = Some (work # queue)" "length (ic_running c) < ic_concurrency c"
    by (auto simp: worker_take_def not_le split: option.splits list.splits if_splits)
  let ?c = "c\<lparr>ic_queue := Some queue\<rparr>"
  have live: "work_is_live work ?c"
  proof (rule ccontr)
    assume "\<not> work_is_live work ?c"
    then show False using unchanged q by (simp add: worker_take_def Let_def) (simp add: bump_def)
  qed
  let ?r = "\<lparr>rn_work = work, rn_task = ic_next_task c, rn_started = fc_mono clock\<rparr>"
  let ?d = "?c\<lparr>ic_running := ic_running c @ [?r], ic_next_task := Suc (ic_next_task c)\<rparr>"
  have same: "ledger (worker_take clock c) = ledger ?d"
    using q live by (simp add: worker_take_def Let_def) (simp add: ledger_def bump_def)
  then have "r = ?r" using assms ledgerD(5) [OF same] by simp
  then show "work_is_live (rn_work r) (worker_take clock c)" "rn_task r < ic_next_task (worker_take clock c)"
    using live ledgerD [OF same] by (simp_all add: work_is_live_def)
qed

text \<open>A call that is still running at the end of a path was live throughout unless it was overtaken.\<close>

lemma live_unless_overtaken:
  assumes "path env (s # states)" "coordinator_ok (fst s)" "work_is_live (rn_work r) (fst s)"
    and "rn_task r < ic_next_task (fst s)" "r \<in> set (ic_running (fst (last (s # states))))"
  shows "work_is_live (rn_work r) (fst (last (s # states))) \<longleftrightarrow> \<not> overtaken (wk_signal_id (rn_work r)) (s # states)"
  using path_generation [OF assms(1,2) path_running [OF assms(1,5,4)] refl] assms(3)
  by (fastforce simp: work_is_live_def split: if_splits)

text \<open>C8: A superseded or expired answer is never shown. Take any call a worker starts in a reachable state,
  and let it end after any further ticks, calls and answers: if since it started a newer request for its
  signal was accepted, or the signal was at any moment not active, the annotations stay as they are;
  otherwise, unless the call was cancelled, exactly that signal's row becomes the model's answer, or the
  fallback with the reason of the failure.\<close>

theorem only_live_work_publishes:
  assumes "coordinator_run env (new_coordinator queue_size concurrency budget policy, tel0) (c0, tel)"
    and "ic_running (worker_take clock0 c0) = ic_running c0 @ [r]"
    and "path env ((worker_take clock0 c0, tel) # states)" "last ((worker_take clock0 c0, tel) # states) = (c, tel')"
    and "k < length (ic_running c)" "ic_running c ! k = r" "i = wk_signal_id (rn_work r)"
  shows "ic_registry (fst (worker_finish env clock k outcome (c, tel'))) =
    (if overtaken i ((worker_take clock0 c0, tel) # states) then ic_registry c
     else case outcome of
       CancelledCall \<Rightarrow> ic_registry c
     | Completed completion parse_s \<Rightarrow> registry_put
         \<lparr>ir_signal_id = i, ir_status = ENRICHED, ir_requested = True,
          ir_annotation = Some \<lparr>ia_signal_id = i, ia_worth_highlight = mc_worth_highlight completion,
            ia_reason = mc_reason completion, ia_confidence = mc_confidence completion,
            ia_summary = mc_summary completion, ia_created_timestamp = fc_wall clock\<rparr>,
          ir_fallback_reason = FR_NONE, ir_model_calls = count_of (ic_calls c) i,
          ir_model_latency_s = Some (fc_mono clock - rn_started r)\<rparr> (ic_registry c)
     | Raised err \<Rightarrow> registry_put
         \<lparr>ir_signal_id = i, ir_status = FALLBACK, ir_requested = True, ir_annotation = None,
          ir_fallback_reason = reason_for err, ir_model_calls = count_of (ic_calls c) i,
          ir_model_latency_s = Some (fc_mono clock - rn_started r)\<rparr> (ic_registry c))"
proof -
  have "coordinator_ok c0" using coordinator_run_ok [OF assms(1)] new_coordinator_ok by simp
  then have "coordinator_ok (fst (worker_take clock0 c0, tel))" using worker_take_ok by simp
  from live_unless_overtaken [OF assms(3) this, of r]
  have "work_is_live (rn_work r) c \<longleftrightarrow> \<not> overtaken i ((worker_take clock0 c0, tel) # states)"
    using take_started [OF assms(2)] assms(4,7) nth_mem [OF assms(5)] assms(6) by simp
  then show ?thesis
    using finish_registry [OF assms(5) refl, of env clock outcome tel'] assms(6,7) by (simp only: not_not)
qed

text \<open>The router asks the model exactly for candidates that are due one: the episode has not expired, the
  signal is an alert of this tick when the policy wants one, its feed is live or delayed, some
  short-term feature is known, and the budget allows another call; otherwise it names a reason.\<close>

theorem need_intelligence_iff:
  "rd_requested (need_intelligence policy budget row) = (
     \<not> ii_expired row \<and> (ro_require_alert_edge policy \<le> ii_alert_edge row)
     \<and> ii_feed_status row \<in> {LIVE, DELAYED} \<and> \<not> insufficient_features row \<and> is_candidate row policy
     \<and> budget_allows_call budget (ii_episode_call_count row) (ii_priority row) (ii_last_requested_priority row))
   \<and> (rd_reason (need_intelligence policy budget row) = FR_NONE) = rd_requested (need_intelligence policy budget row)"
proof
  show "rd_requested (need_intelligence policy budget row) = (
     \<not> ii_expired row \<and> (ro_require_alert_edge policy \<le> ii_alert_edge row)
     \<and> ii_feed_status row \<in> {LIVE, DELAYED} \<and> \<not> insufficient_features row \<and> is_candidate row policy
     \<and> budget_allows_call budget (ii_episode_call_count row) (ii_priority row) (ii_last_requested_priority row))"
    unfolding need_intelligence_requested by auto
  show "(rd_reason (need_intelligence policy budget row) = FR_NONE) = rd_requested (need_intelligence policy budget row)"
    by (simp add: need_intelligence_def Let_def)
qed

subsection \<open>Sample runs\<close>

definition sample_signal :: signal where
  "sample_signal =
     \<lparr>sg_id = ''s1'', sg_event_ids = [''e1''], sg_symbol = ''600519.SH'', sg_family = ''momentum'', sg_direction = UP,
      sg_priority = CRITICAL, sg_title = Title ''t'' ''600519.SH'', sg_summary = [], sg_generated_by = RULE,
      sg_market_timestamp = 100, sg_received_timestamp = 100, sg_detected_timestamp = 100,
      sg_created_timestamp = 100, sg_expires_at = None\<rparr>"

definition sample_trace :: signal_trace where
  "sample_trace =
     \<lparr>tr_signal_id = ''s1'', tr_event_ids = [''e1''], tr_rule_names = [''rapid_move''], tr_features = quiet_features,
      tr_family = ''momentum'', tr_direction = UP, tr_priority = CRITICAL, tr_priority_reason = ''r'',
      tr_detected_timestamp = 100, tr_created_timestamp = 100\<rparr>"

definition sample_row :: symbol_tick_result where
  "sample_row =
     \<lparr>sr_symbol = ''600519.SH'', sr_features = Some quiet_features, sr_accepted_events = [],
      sr_signal_updates = [sample_signal], sr_traces = [sample_trace], sr_alert_candidates = [sample_signal],
      sr_level_before = COLD, sr_level_after = HOT\<rparr>"

definition seen_sample where
  "seen_sample = observe_tick sample_env sample_clock [sample_row] (\<lambda>_. LIVE) None
     (coordinator_start (new_coordinator 8 1 default_call_budget default_router_policy), None)"

definition busy_coordinator :: coordinator where
  "busy_coordinator =
     worker_take sample_clock (fst (observe_tick sample_env sample_clock [sample_row] (\<lambda>_. LIVE) None
       (coordinator_start (new_coordinator 8 1 default_call_budget default_router_policy), None)))"

lemma busy_taken: "worker_take sample_clock (fst seen_sample) = busy_coordinator"
  by (simp only: busy_coordinator_def seen_sample_def)

text \<open>The signal goes away while its call is running.\<close>

definition late_sample where
  "late_sample = observe_tick sample_env sample_clock [] (\<lambda>_. LIVE) (Some []) (busy_coordinator, snd seen_sample)"

lemma sample_run:
  "coordinator_run sample_env (new_coordinator 8 1 default_call_budget default_router_policy, None)
     (fst seen_sample, snd seen_sample)"
proof -
  let ?new = "new_coordinator 8 1 default_call_budget default_router_policy"
  have "coordinator_run sample_env (?new, None) (coordinator_start ?new, None)"
    by (rule run_step [OF run_refl coordinator_step.start])
  then have "coordinator_run sample_env (?new, None) seen_sample"
    unfolding seen_sample_def by (rule run_step [OF _ coordinator_step.observe])
  then show ?thesis by simp
qed

lemma sample_take:
  "coordinator_step sample_env (fst seen_sample, snd seen_sample) (busy_coordinator, snd seen_sample)"
  unfolding busy_taken [symmetric] by (rule coordinator_step.take)

lemma busy_running: "length (ic_running busy_coordinator) = 1" "ic_running busy_coordinator \<noteq> []"
proof -
  show "length (ic_running busy_coordinator) = 1" by code_simp
  then show "ic_running busy_coordinator \<noteq> []" by auto
qed

lemma late_path: "coordinator_step sample_env (busy_coordinator, snd seen_sample) late_sample"
  unfolding late_sample_def by (rule coordinator_step.observe)

lemma late_running: "ic_running (fst late_sample) = ic_running busy_coordinator"
  using observe_tick_frame [OF late_sample_def [THEN arg_cong, where f = fst]] by simp

lemma seen_active: "ic_active_ids (fst seen_sample) = [''s1'']" by code_simp

lemma busy_active: "ic_active_ids busy_coordinator = [''s1'']"
  using worker_take_released [of "''s1''" "fst seen_sample" sample_clock] by (simp add: released_def busy_taken seen_active)

lemma late_inactive: "ic_active_ids (fst late_sample) = []" by code_simp

lemma late_registry: "ic_registry (fst late_sample) = []" by code_simp

theorem coordinator_bounded_witness:
  "requests_accepted ''s1'' [seen_sample, (busy_coordinator, snd seen_sample)] \<le> 2
   \<and> count_of (ic_calls (fst seen_sample)) ''s1'' = 1"
proof -
  have steps: "path sample_env ((fst seen_sample, snd seen_sample) # [(busy_coordinator, snd seen_sample)])"
    using sample_take by simp
  have active: "\<forall>t \<in> set ((fst seen_sample, snd seen_sample) # [(busy_coordinator, snd seen_sample)]).
      ''s1'' \<in> set (ic_active_ids (fst t))"
    by (simp add: seen_active busy_active)
  have "requests_accepted ''s1'' [seen_sample, (busy_coordinator, snd seen_sample)] \<le>
      cb_max_calls default_call_budget + (if cb_allow_escalation_recall default_call_budget then 1 else 0)"
    using coordinator_bounded [OF sample_run, THEN conjunct1, THEN spec, THEN spec, THEN mp, OF steps, THEN mp, OF active]
    by (simp only: prod.collapse)
  moreover have "cb_max_calls default_call_budget + (if cb_allow_escalation_recall default_call_budget then 1 else 0) \<le> 2"
    by code_simp
  moreover have "count_of (ic_calls (fst seen_sample)) ''s1'' = 1" by code_simp
  ultimately show ?thesis by linarith
qed

theorem only_live_work_publishes_witness:
  "map_option ir_status (dict_get (ic_registry (fst (worker_finish sample_env sample_clock 0
     (Raised IntelligenceTimeout) (busy_coordinator, snd seen_sample)))) ''s1'') = Some FALLBACK
   \<and> length (ic_running (fst late_sample)) = 1
   \<and> ic_registry (fst (worker_finish sample_env sample_clock 0 (Raised IntelligenceTimeout) late_sample)) = []"
proof -
  let ?r = "ic_running busy_coordinator ! 0"
  have started: "ic_running (worker_take sample_clock (fst seen_sample)) = ic_running (fst seen_sample) @ [?r]"
    by code_simp
  have i: "''s1'' = wk_signal_id (rn_work ?r)" by code_simp
  note ends = only_live_work_publishes [OF sample_run started, unfolded busy_taken, OF _ _ _ _ i, of _ _ _ 0]
  have "ic_registry (fst (worker_finish sample_env sample_clock 0 (Raised IntelligenceTimeout)
      (busy_coordinator, snd seen_sample))) = registry_put
        \<lparr>ir_signal_id = ''s1'', ir_status = FALLBACK, ir_requested = True, ir_annotation = None,
         ir_fallback_reason = reason_for IntelligenceTimeout,
         ir_model_calls = count_of (ic_calls busy_coordinator) ''s1'',
         ir_model_latency_s = Some (fc_mono sample_clock - rn_started ?r)\<rparr> (ic_registry busy_coordinator)"
    by (subst ends [of "[]"]) (simp_all add: busy_running)
  moreover have "ic_registry (fst (worker_finish sample_env sample_clock 0 (Raised IntelligenceTimeout)
      (fst late_sample, snd late_sample))) = ic_registry (fst late_sample)"
    by (subst ends [of "[late_sample]"]) (simp_all add: late_path late_inactive late_running busy_running)
  ultimately show ?thesis by (simp add: late_running late_registry busy_running registry_put_def dict_lookup)
qed

end
