(* ===== verification/Wire.thy ===== *)
theory Wire
  imports Engine Coordinator
begin

text \<open>
  \<open>ipc/codec.py\<close>, \<open>protocol.py\<close>, \<open>dto.py\<close>, \<open>mapping.py\<close> and \<open>writer.py\<close>: what the daemon reads from
  and writes to its host. A message is the dictionary that \<open>json.dumps\<close> prints; the text of a display
  copy is a parameter, since the copy is a structured value in this model.
\<close>

section \<open>Protocol\<close>

definition PROTOCOL_VERSION :: int where
  "PROTOCOL_VERSION = 1"

definition HOST_COMMANDS :: "string list" where
  "HOST_COMMANDS =
     [''hello'', ''start'', ''pause'', ''resume'', ''set_watchlist'', ''get_state'', ''host_interaction'',
      ''user_feedback'', ''shutdown'']"

datatype daemon_phase =
    AWAITING_HELLO
  | READY
  | DAEMON_RUNNING
  | DAEMON_PAUSED
  | SHUTTING_DOWN

datatype error_code =
    INVALID_JSON
  | PROTOCOL_MISMATCH
  | UNKNOWN_TYPE
  | MISSING_REQUEST_ID
  | INVALID_PAYLOAD
  | NOT_READY
  | NOT_STARTED
  | PAUSED
  | EC_SHUTTING_DOWN
  | WATCHLIST_FULL
  | DUPLICATE_SYMBOL

fun error_code_value :: "error_code \<Rightarrow> string" where
  "error_code_value INVALID_JSON = ''invalid_json''"
| "error_code_value PROTOCOL_MISMATCH = ''protocol_mismatch''"
| "error_code_value UNKNOWN_TYPE = ''unknown_type''"
| "error_code_value MISSING_REQUEST_ID = ''missing_request_id''"
| "error_code_value INVALID_PAYLOAD = ''invalid_payload''"
| "error_code_value NOT_READY = ''not_ready''"
| "error_code_value NOT_STARTED = ''not_started''"
| "error_code_value PAUSED = ''paused''"
| "error_code_value EC_SHUTTING_DOWN = ''shutting_down''"
| "error_code_value WATCHLIST_FULL = ''watchlist_full''"
| "error_code_value DUPLICATE_SYMBOL = ''duplicate_symbol''"

section \<open>Codec\<close>

definition encode_message :: "string \<Rightarrow> string option \<Rightarrow> payload \<Rightarrow> payload" where
  "encode_message message_type request_id extra =
     fold (\<lambda>(k, v). dict_set k v) extra
       ([(''protocol_version'', PyInt PROTOCOL_VERSION), (''type'', PyStr message_type)]
        @ (case request_id of None \<Rightarrow> [] | Some r \<Rightarrow> [(''request_id'', PyStr r)]))"

definition encode_error :: "error_code \<Rightarrow> string \<Rightarrow> string option \<Rightarrow> payload" where
  "encode_error code message request_id =
     encode_message ''error'' request_id
       [(''code'', PyStr (error_code_value code)), (''message'', PyStr message)]"

text \<open>A JSON value equal to \<open>1\<close> in Python: the integer, the float and \<open>true\<close>.\<close>

fun is_version :: "pyval \<Rightarrow> bool" where
  "is_version (PyInt i) = (i = PROTOCOL_VERSION)"
| "is_version (PyFloat (Fin x)) = (x = of_int PROTOCOL_VERSION)"
| "is_version (PyBool b) = (of_bool b = PROTOCOL_VERSION)"
| "is_version _ = False"

text \<open>
  \<open>loads\<close> is \<open>json.loads\<close>: \<open>Inr None\<close> for a decoding error, \<open>Inl\<close> for any other exception. The result
  is a command, an error message or neither.
\<close>

datatype decoded = Blank | Refused payload | Command payload

definition decode_line ::
  "(string \<Rightarrow> pyval option res) \<Rightarrow> (pyval \<Rightarrow> string) \<Rightarrow> string \<Rightarrow> decoded res" where
  "decode_line loads repr line =
     (let stripped = py_strip line
      in if stripped = [] then Inr Blank
         else res_bind (loads stripped) (\<lambda>raw.
           Inr (case raw of
             None \<Rightarrow> Refused (encode_error INVALID_JSON ''line is not valid JSON'' None)
           | Some (PyDict d) \<Rightarrow>
               (let version = get_or_none d ''protocol_version'';
                    request_id = text_or_none (get_or_none d ''request_id'')
                in if \<not> is_version version then
                     Refused (encode_error PROTOCOL_MISMATCH
                       (''unsupported protocol_version: '' @ repr version) request_id)
                   else case get_or_none d ''type'' of
                     PyStr t \<Rightarrow>
                       if t = [] then
                         Refused (encode_error INVALID_PAYLOAD ''type must be a non-empty string'' request_id)
                       else Command d
                   | _ \<Rightarrow> Refused (encode_error INVALID_PAYLOAD ''type must be a non-empty string'' request_id))
           | Some _ \<Rightarrow> Refused (encode_error INVALID_JSON ''JSON line must be an object'' None))))"

section \<open>Wire objects\<close>

record wire_intelligence =
  wn_status :: string
  wn_summary :: "string option"
  wn_reason :: "string option"
  wn_confidence :: "flt option"
  wn_fallback_reason :: "string option"
  wn_worth_highlight :: "bool option"

record wire_signal =
  ws_id :: string
  ws_family :: string
  ws_direction :: string
  ws_priority :: string
  ws_title :: string
  ws_summary :: string
  ws_intelligence :: "wire_intelligence option"

record wire_symbol_state =
  wy_symbol :: string
  wy_price :: "flt option"
  wy_scheduler_level :: string
  wy_feed_status :: string
  wy_change_1m :: "flt option"
  wy_change_5m :: "flt option"
  wy_change_15m :: "flt option"
  wy_volume_ratio_1m :: "flt option"
  wy_volume_ratio_5m :: "flt option"
  wy_ema5 :: "flt option"
  wy_ema20 :: "flt option"
  wy_rsi14 :: "flt option"
  wy_vwap :: "flt option"
  wy_active_signals :: "wire_signal list"
  wy_change_day :: "flt option"
  wy_above_vwap :: "bool option"
  wy_session_high_obs :: "flt option"
  wy_session_low_obs :: "flt option"
  wy_session_high_ref :: "flt option"
  wy_session_low_ref :: "flt option"
  wy_market_timestamp :: "flt option"

record wire_market_state =
  wm_watchlist_count :: nat
  wm_feed_status :: string
  wm_symbols :: "wire_symbol_state list"
  wm_intelligence_enabled :: bool
  wm_replay_complete :: bool
  wm_last_market_timestamp :: "flt option"

record wire_alert_candidate =
  wa_id :: string
  wa_symbol :: string
  wa_family :: string
  wa_direction :: string
  wa_priority :: string
  wa_title :: string
  wa_summary :: string

text \<open>The fields that \<open>to_wire\<close> only adds when they are present.\<close>

definition present :: "('a \<Rightarrow> pyval) \<Rightarrow> string \<Rightarrow> 'a option \<Rightarrow> payload" where
  "present f key x = (case x of None \<Rightarrow> [] | Some v \<Rightarrow> [(key, f v)])"

abbreviation py_num :: "flt \<Rightarrow> pyval" where
  "py_num x \<equiv> PyFloat (Fin x)"

definition intelligence_to_wire :: "wire_intelligence \<Rightarrow> payload" where
  "intelligence_to_wire w =
     [(''status'', PyStr (wn_status w))]
     @ present PyStr ''summary'' (wn_summary w)
     @ present PyStr ''reason'' (wn_reason w)
     @ present py_num ''confidence'' (wn_confidence w)
     @ present PyStr ''fallback_reason'' (wn_fallback_reason w)
     @ present PyBool ''worth_highlight'' (wn_worth_highlight w)"

definition signal_to_wire :: "wire_signal \<Rightarrow> payload" where
  "signal_to_wire w =
     [(''id'', PyStr (ws_id w)), (''family'', PyStr (ws_family w)), (''direction'', PyStr (ws_direction w)),
      (''priority'', PyStr (ws_priority w)), (''title'', PyStr (ws_title w)), (''summary'', PyStr (ws_summary w))]
     @ present (\<lambda>i. PyDict (intelligence_to_wire i)) ''intelligence'' (ws_intelligence w)"

definition symbol_to_wire :: "wire_symbol_state \<Rightarrow> payload" where
  "symbol_to_wire w =
     [(''symbol'', PyStr (wy_symbol w)), (''price'', opt_flt (wy_price w)),
      (''scheduler_level'', PyStr (wy_scheduler_level w)), (''feed_status'', PyStr (wy_feed_status w)),
      (''change_1m'', opt_flt (wy_change_1m w)), (''change_5m'', opt_flt (wy_change_5m w)),
      (''change_15m'', opt_flt (wy_change_15m w)), (''volume_ratio_1m'', opt_flt (wy_volume_ratio_1m w)),
      (''volume_ratio_5m'', opt_flt (wy_volume_ratio_5m w)), (''ema5'', opt_flt (wy_ema5 w)),
      (''ema20'', opt_flt (wy_ema20 w)), (''rsi14'', opt_flt (wy_rsi14 w)), (''vwap'', opt_flt (wy_vwap w)),
      (''active_signals'', PyList (map (\<lambda>s. PyDict (signal_to_wire s)) (wy_active_signals w)))]
     @ present py_num ''change_day'' (wy_change_day w)
     @ present PyBool ''above_vwap'' (wy_above_vwap w)
     @ present py_num ''session_high_obs'' (wy_session_high_obs w)
     @ present py_num ''session_low_obs'' (wy_session_low_obs w)
     @ present py_num ''session_high_ref'' (wy_session_high_ref w)
     @ present py_num ''session_low_ref'' (wy_session_low_ref w)
     @ present py_num ''market_timestamp'' (wy_market_timestamp w)"

definition market_to_wire :: "wire_market_state \<Rightarrow> payload" where
  "market_to_wire w =
     [(''watchlist_count'', PyInt (int (wm_watchlist_count w))), (''feed_status'', PyStr (wm_feed_status w)),
      (''symbols'', PyList (map (\<lambda>s. PyDict (symbol_to_wire s)) (wm_symbols w)))]
     @ (if wm_intelligence_enabled w then [(''intelligence_enabled'', PyBool True)] else [])
     @ (if wm_replay_complete w then [(''replay_complete'', PyBool True)] else [])
     @ present py_num ''last_market_timestamp'' (wm_last_market_timestamp w)"

definition alert_to_wire :: "wire_alert_candidate \<Rightarrow> payload" where
  "alert_to_wire w =
     [(''id'', PyStr (wa_id w)), (''symbol'', PyStr (wa_symbol w)), (''family'', PyStr (wa_family w)),
      (''direction'', PyStr (wa_direction w)), (''priority'', PyStr (wa_priority w)),
      (''title'', PyStr (wa_title w)), (''summary'', PyStr (wa_summary w))]"

section \<open>Mapping\<close>

text \<open>The Chinese text of titles and summaries.\<close>

record display =
  dp_title :: "copy_title \<Rightarrow> string"
  dp_summary :: "copy_fact list \<Rightarrow> string"

definition map_intelligence :: "intelligence_result option \<Rightarrow> string \<Rightarrow> wire_intelligence option" where
  "map_intelligence result signal_id =
     (let view = intelligence_view result signal_id; annotation = ir_annotation view
      in if ir_status view = NOT_REQUESTED then None
         else Some
           \<lparr>wn_status = intelligence_status_value (ir_status view),
            wn_summary = map_option ia_summary annotation,
            wn_reason = map_option ia_reason annotation,
            wn_confidence = map_option ia_confidence annotation,
            wn_fallback_reason =
              (if ir_fallback_reason view = FR_NONE then None
               else Some (fallback_reason_value (ir_fallback_reason view))),
            wn_worth_highlight = map_option ia_worth_highlight annotation\<rparr>)"

definition map_signal :: "display \<Rightarrow> signal \<Rightarrow> intelligence_result option \<Rightarrow> wire_signal" where
  "map_signal dp s intelligence =
     \<lparr>ws_id = sg_id s, ws_family = sg_family s, ws_direction = event_direction_value (sg_direction s),
      ws_priority = signal_priority_value (sg_priority s), ws_title = dp_title dp (sg_title s),
      ws_summary = dp_summary dp (sg_summary s), ws_intelligence = map_intelligence intelligence (sg_id s)\<rparr>"

definition map_alert_candidate :: "display \<Rightarrow> signal \<Rightarrow> wire_alert_candidate" where
  "map_alert_candidate dp s =
     \<lparr>wa_id = sg_id s, wa_symbol = sg_symbol s, wa_family = sg_family s,
      wa_direction = event_direction_value (sg_direction s), wa_priority = signal_priority_value (sg_priority s),
      wa_title = dp_title dp (sg_title s), wa_summary = dp_summary dp (sg_summary s)\<rparr>"

definition map_symbol_state ::
  "display \<Rightarrow> (string \<Rightarrow> intelligence_result option) \<Rightarrow> string \<Rightarrow> market_state option \<Rightarrow> wire_symbol_state" where
  "map_symbol_state dp intelligence_of symbol state =
     (let features = Option.bind state st_features; latest = Option.bind state st_latest
      in \<lparr>wy_symbol = symbol,
          wy_price = map_option ms_price latest,
          wy_scheduler_level = scheduler_level_value (case state of None \<Rightarrow> COLD | Some s \<Rightarrow> st_level s),
          wy_feed_status = feed_status_value (case state of None \<Rightarrow> DISCONNECTED | Some s \<Rightarrow> st_feed_status s),
          wy_change_1m = Option.bind features mf_change_1m,
          wy_change_5m = Option.bind features mf_change_5m,
          wy_change_15m = Option.bind features mf_change_15m,
          wy_volume_ratio_1m = Option.bind features mf_volume_ratio_1m,
          wy_volume_ratio_5m = Option.bind features mf_volume_ratio_5m,
          wy_ema5 = Option.bind features mf_ema5,
          wy_ema20 = Option.bind features mf_ema20,
          wy_rsi14 = Option.bind features mf_rsi14,
          wy_vwap = Option.bind features mf_vwap,
          wy_active_signals =
            (case state of
               None \<Rightarrow> []
             | Some s \<Rightarrow> map (\<lambda>item. map_signal dp item (intelligence_of (sg_id item))) (st_active_signals s)),
          wy_change_day = Option.bind features mf_change_day,
          wy_above_vwap = Option.bind features mf_above_vwap,
          wy_session_high_obs = map_option mf_session_high_obs features,
          wy_session_low_obs = map_option mf_session_low_obs features,
          wy_session_high_ref = Option.bind features mf_session_high_ref,
          wy_session_low_ref = Option.bind features mf_session_low_ref,
          wy_market_timestamp = map_option ms_market_timestamp latest\<rparr>)"

text \<open>Reading the aggregate status updates what the health tracker last logged.\<close>

definition map_engine_state ::
  "display \<Rightarrow> ('p, 'c) engine_env \<Rightarrow> fake_clock \<Rightarrow> ('p, 'c) engine \<Rightarrow> coordinator option
    \<Rightarrow> wire_market_state \<times> ('p, 'c) engine" where
  "map_engine_state dp ee clock eng intelligence =
     (let items = wl_list (en_watchlist eng);
          lookup = (\<lambda>signal_id. Option.bind intelligence (\<lambda>c. dict_get (ic_registry c) signal_id));
          symbols = map (\<lambda>item. map_symbol_state dp lookup (wi_symbol item) (en_states eng (wi_symbol item))) items;
          enabled = enabled_symbols (en_watchlist eng);
          (feed, h) = (if enabled \<noteq> [] then aggregate_status clock enabled (en_health eng)
                       else (DISCONNECTED, en_health eng));
          timestamps = List.map_filter wy_market_timestamp symbols
      in (\<lparr>wm_watchlist_count = length items,
           wm_feed_status = feed_status_value feed,
           wm_symbols = symbols,
           wm_intelligence_enabled = (intelligence \<noteq> None),
           wm_replay_complete = ee_exhausted ee (en_provider eng),
           wm_last_market_timestamp =
             (case timestamps of [] \<Rightarrow> None | t # ts \<Rightarrow> Some (fold max ts t))\<rparr>,
          eng\<lparr>en_health := h\<rparr>))"

definition map_tick_alerts ::
  "display \<Rightarrow> engine_tick_result \<Rightarrow> wire_alert_candidate list \<times> flt option" where
  "map_tick_alerts dp result =
     fold (\<lambda>r acc. fold (\<lambda>s (candidates, market_timestamp).
         (candidates @ [map_alert_candidate dp s], Some (sg_market_timestamp s)))
       (sr_alert_candidates r) acc) result ([], None)"

end
