(* ===== verification/Daemon.thy ===== *)
theory Daemon
  imports Wire
begin

text \<open>
  \<open>ipc/daemon.py\<close>: the process that wraps the engine for its host. Commands and ticks share one lock,
  so each command line and each tick is one step. A command may raise, which ends the process.
\<close>

section \<open>State and configuration\<close>

record ('p, 'c, 'f) daemon =
  dm_phase :: daemon_phase
  dm_stop :: bool
  dm_engine :: "('p, 'c) engine"
  dm_intelligence :: "coordinator option"
  dm_file :: json_file
  dm_feedback :: 'f
  dm_out :: "payload list"

record ('p, 'c, 'f) daemon_env =
  de_engine :: "('p, 'c) engine_env"
  de_loads :: "string \<Rightarrow> pyval option res"
  de_repr :: "pyval \<Rightarrow> string"
  de_keys :: "string list \<Rightarrow> string"
  de_display :: display
  de_feedback :: "'f \<Rightarrow> user_feedback \<Rightarrow> 'f \<times> unit res"
  de_version :: string

definition new_daemon :: "('p, 'c) engine \<Rightarrow> coordinator option \<Rightarrow> json_file \<Rightarrow> 'f \<Rightarrow> ('p, 'c, 'f) daemon" where
  "new_daemon eng intelligence stored feedback =
     \<lparr>dm_phase = AWAITING_HELLO, dm_stop = False, dm_engine = eng, dm_intelligence = intelligence,
      dm_file = stored, dm_feedback = feedback, dm_out = []\<rparr>"

definition send :: "payload \<Rightarrow> ('p, 'c, 'f) daemon \<Rightarrow> ('p, 'c, 'f) daemon" where
  "send message d = d\<lparr>dm_out := dm_out d @ [message]\<rparr>"

definition refuse :: "error_code \<Rightarrow> string \<Rightarrow> string \<Rightarrow> ('p, 'c, 'f) daemon \<Rightarrow> ('p, 'c, 'f) daemon" where
  "refuse code message request_id d = send (encode_error code message (Some request_id)) d"

definition ack :: "string \<Rightarrow> ('p, 'c, 'f) daemon \<Rightarrow> ('p, 'c, 'f) daemon" where
  "ack request_id d = send (encode_message ''ack'' (Some request_id) []) d"

definition send_state ::
  "('p, 'c, 'f) daemon_env \<Rightarrow> fake_clock \<Rightarrow> string option \<Rightarrow> ('p, 'c, 'f) daemon \<Rightarrow> ('p, 'c, 'f) daemon" where
  "send_state de clock request_id d =
     (let (w, eng) = map_engine_state (de_display de) (de_engine de) clock (dm_engine d) (dm_intelligence d)
      in send (encode_message ''state'' request_id [(''state'', PyDict (market_to_wire w))]) (d\<lparr>dm_engine := eng\<rparr>))"

section \<open>Commands\<close>

definition require_ready ::
  "string \<Rightarrow> ('p, 'c, 'f) daemon \<Rightarrow> ('p, 'c, 'f) daemon res \<Rightarrow> ('p, 'c, 'f) daemon res" where
  "require_ready request_id d rest =
     (if dm_phase d = AWAITING_HELLO then Inr (refuse NOT_READY ''hello is required first'' request_id d) else rest)"

definition do_hello :: "('p, 'c, 'f) daemon_env \<Rightarrow> string \<Rightarrow> ('p, 'c, 'f) daemon \<Rightarrow> ('p, 'c, 'f) daemon res" where
  "do_hello de request_id d =
     (let d = (if dm_phase d = AWAITING_HELLO then d\<lparr>dm_phase := READY\<rparr> else d)
      in Inr (send (encode_message ''ready'' (Some request_id) [(''core_version'', PyStr (de_version de))]) d))"

definition do_start :: "string \<Rightarrow> ('p, 'c, 'f) daemon \<Rightarrow> ('p, 'c, 'f) daemon res" where
  "do_start request_id d =
     require_ready request_id d
       (if dm_phase d = DAEMON_PAUSED then Inr (refuse PAUSED ''daemon is paused; send resume'' request_id d)
        else Inr (ack request_id (d\<lparr>dm_phase := DAEMON_RUNNING\<rparr>)))"

definition do_pause :: "string \<Rightarrow> ('p, 'c, 'f) daemon \<Rightarrow> ('p, 'c, 'f) daemon res" where
  "do_pause request_id d =
     require_ready request_id d
       (if dm_phase d = READY then Inr (refuse NOT_STARTED ''start is required before pause'' request_id d)
        else Inr (ack request_id (d\<lparr>dm_phase := DAEMON_PAUSED\<rparr>)))"

definition do_resume :: "string \<Rightarrow> ('p, 'c, 'f) daemon \<Rightarrow> ('p, 'c, 'f) daemon res" where
  "do_resume request_id d =
     require_ready request_id d
       (if dm_phase d = READY then Inr (refuse NOT_STARTED ''start is required before resume'' request_id d)
        else Inr (ack request_id (d\<lparr>dm_phase := DAEMON_RUNNING\<rparr>)))"

text \<open>The items of a \<open>set_watchlist\<close> command, or the message that refuses them.\<close>

definition watch_item_of :: "pyval \<Rightarrow> string + watch_item" where
  "watch_item_of raw =
     (case raw of
        PyDict d \<Rightarrow>
          (case get_or_none d ''symbol'' of
             PyStr symbol \<Rightarrow>
               if symbol = [] then Inl ''each item needs a non-empty symbol''
               else (case dict_get d ''enabled'' of
                       None \<Rightarrow> Inr \<lparr>wi_symbol = symbol, wi_enabled = True\<rparr>
                     | Some (PyBool b) \<Rightarrow> Inr \<lparr>wi_symbol = symbol, wi_enabled = b\<rparr>
                     | Some _ \<Rightarrow> Inl ''enabled must be a boolean'')
           | _ \<Rightarrow> Inl ''each item needs a non-empty symbol'')
      | _ \<Rightarrow> Inl ''each item needs a non-empty symbol'')"

fun watch_items_of :: "pyval list \<Rightarrow> string + watch_item list" where
  "watch_items_of [] = Inr []"
| "watch_items_of (raw # rest) =
     res_bind (watch_item_of raw) (\<lambda>item. res_bind (watch_items_of rest) (\<lambda>items. Inr (item # items)))"

definition do_set_watchlist ::
  "payload \<Rightarrow> string \<Rightarrow> ('p, 'c, 'f) daemon \<Rightarrow> ('p, 'c, 'f) daemon res" where
  "do_set_watchlist command request_id d =
     require_ready request_id d
       (case get_or_none command ''items'' of
          PyList raws \<Rightarrow>
            (case watch_items_of raws of
               Inl message \<Rightarrow> Inr (refuse INVALID_PAYLOAD message request_id d)
             | Inr parsed \<Rightarrow>
                 (case wl_replace parsed (en_watchlist (dm_engine d), dm_file d) of
                    Inl WatchlistFullError \<Rightarrow>
                      Inr (refuse WATCHLIST_FULL
                        (''watchlist limit is '' @ show_int (wl_limit (en_watchlist (dm_engine d)))) request_id d)
                  | Inl (WatchlistSymbolError m) \<Rightarrow> Inr (refuse DUPLICATE_SYMBOL m request_id d)
                  | Inl e \<Rightarrow> Inl e
                  | Inr (w, stored) \<Rightarrow>
                      Inr (send (encode_message ''ack'' (Some request_id)
                                   [(''watchlist_count'', PyInt (int (length (wl_list w))))])
                             (d\<lparr>dm_engine := (dm_engine d)\<lparr>en_watchlist := w\<rparr>, dm_file := stored\<rparr>))))
        | _ \<Rightarrow> Inr (refuse INVALID_PAYLOAD ''items must be a list'' request_id d))"

definition do_get_state ::
  "('p, 'c, 'f) daemon_env \<Rightarrow> fake_clock \<Rightarrow> string \<Rightarrow> ('p, 'c, 'f) daemon \<Rightarrow> ('p, 'c, 'f) daemon res" where
  "do_get_state de clock request_id d = require_ready request_id d (Inr (send_state de clock (Some request_id) d))"

definition error_text :: "('p, 'c, 'f) daemon_env \<Rightarrow> command_error \<Rightarrow> string" where
  "error_text de err =
     (case err of
        DeniedKeys ks \<Rightarrow> ''denied keys: '' @ de_keys de ks
      | UnknownKeys ks \<Rightarrow> ''unknown keys: '' @ de_keys de ks
      | BadCommand m \<Rightarrow> m)"

abbreviation daemon_telemetry :: "('p, 'c, 'f) daemon \<Rightarrow> 'c telemetry" where
  "daemon_telemetry d \<equiv> en_telemetry (dm_engine d)"

definition set_telemetry :: "'c telemetry \<Rightarrow> ('p, 'c, 'f) daemon \<Rightarrow> ('p, 'c, 'f) daemon" where
  "set_telemetry tel d = d\<lparr>dm_engine := (dm_engine d)\<lparr>en_telemetry := tel\<rparr>\<rparr>"

definition do_host_interaction ::
  "('p, 'c, 'f) daemon_env \<Rightarrow> fake_clock \<Rightarrow> payload \<Rightarrow> string \<Rightarrow> ('p, 'c, 'f) daemon
    \<Rightarrow> ('p, 'c, 'f) daemon res" where
  "do_host_interaction de clock command request_id d =
     require_ready request_id d
       (res_bind (parse_host_interaction command) (\<lambda>parsed.
          Inr (case parsed of
            Inl err \<Rightarrow> refuse INVALID_PAYLOAD (error_text de err) request_id d
          | Inr parsed_fact \<Rightarrow>
              (let env = ee_env (de_engine de)
               in ack request_id (set_telemetry
                    (map_option (\<lambda>rt. telemetry_emit (env_telemetry_uuid env) clock (env_collect env) rt
                        (hi_name parsed_fact) (hi_created_timestamp parsed_fact)
                        (no_fields\<lparr>te_signal_id := hi_signal_id parsed_fact, te_host_action := Some (hi_host_action parsed_fact)\<rparr>))
                      (daemon_telemetry d)) d)))))"

text \<open>Without a runtime the engine makes one whose collectors keep nothing: its feedback succeeds.\<close>

definition do_user_feedback ::
  "('p, 'c, 'f) daemon_env \<Rightarrow> payload \<Rightarrow> string \<Rightarrow> ('p, 'c, 'f) daemon \<Rightarrow> ('p, 'c, 'f) daemon res" where
  "do_user_feedback de command request_id d =
     require_ready request_id d
       (res_bind (parse_user_feedback command) (\<lambda>parsed.
          Inr (case parsed of
            Inl err \<Rightarrow> refuse INVALID_PAYLOAD (error_text de err) request_id d
          | Inr parsed_fact \<Rightarrow>
              (case daemon_telemetry d of
                 None \<Rightarrow> ack request_id d
               | Some rt \<Rightarrow>
                   (case record_feedback (env_telemetry_uuid (ee_env (de_engine de))) (de_feedback de) rt (dm_feedback d)
                       (ff_signal_id parsed_fact) (ff_label parsed_fact) (ff_created_timestamp parsed_fact) of
                      (outcome, rt, fb) \<Rightarrow>
                        (let d = (set_telemetry (Some rt) d)\<lparr>dm_feedback := fb\<rparr>
                         in case outcome of
                              Inl _ \<Rightarrow> refuse INVALID_PAYLOAD ''feedback storage failed'' request_id d
                            | Inr _ \<Rightarrow> ack request_id d))))))"

definition do_shutdown :: "string option \<Rightarrow> ('p, 'c, 'f) daemon \<Rightarrow> ('p, 'c, 'f) daemon" where
  "do_shutdown request_id d =
     send (encode_message ''shutdown_ack'' request_id []) (d\<lparr>dm_phase := SHUTTING_DOWN, dm_stop := True\<rparr>)"

definition run_handler ::
  "('p, 'c, 'f) daemon_env \<Rightarrow> fake_clock \<Rightarrow> string \<Rightarrow> payload \<Rightarrow> string \<Rightarrow> ('p, 'c, 'f) daemon
    \<Rightarrow> ('p, 'c, 'f) daemon res" where
  "run_handler de clock message_type command request_id d =
     (if message_type = ''hello'' then do_hello de request_id d
      else if message_type = ''start'' then do_start request_id d
      else if message_type = ''pause'' then do_pause request_id d
      else if message_type = ''resume'' then do_resume request_id d
      else if message_type = ''set_watchlist'' then do_set_watchlist command request_id d
      else if message_type = ''get_state'' then do_get_state de clock request_id d
      else if message_type = ''host_interaction'' then do_host_interaction de clock command request_id d
      else do_user_feedback de command request_id d)"

definition dispatch_command ::
  "('p, 'c, 'f) daemon_env \<Rightarrow> fake_clock \<Rightarrow> payload \<Rightarrow> ('p, 'c, 'f) daemon \<Rightarrow> ('p, 'c, 'f) daemon res" where
  "dispatch_command de clock command d =
     (let message_type = (case text_or_none (get_or_none command ''type'') of None \<Rightarrow> [] | Some t \<Rightarrow> t);
          request_id = text_or_none (get_or_none command ''request_id'')
      in if message_type \<notin> set HOST_COMMANDS then
           Inr (send (encode_error UNKNOWN_TYPE (''unknown type: '' @ message_type) request_id) d)
         else if falsy request_id then
           Inr (send (encode_error MISSING_REQUEST_ID ''request_id is required'' None) d)
         else
           let request_id = the request_id
           in if message_type = ''shutdown'' then Inr (do_shutdown (Some request_id) d)
              else if dm_phase d = SHUTTING_DOWN then
                Inr (refuse EC_SHUTTING_DOWN ''daemon is shutting down'' request_id d)
              else run_handler de clock message_type command request_id d)"

definition dispatch_line ::
  "('p, 'c, 'f) daemon_env \<Rightarrow> fake_clock \<Rightarrow> string \<Rightarrow> ('p, 'c, 'f) daemon \<Rightarrow> ('p, 'c, 'f) daemon res" where
  "dispatch_line de clock line d =
     res_bind (decode_line (de_loads de) (de_repr de) line) (\<lambda>decoded.
       case decoded of
         Blank \<Rightarrow> Inr d
       | Refused err \<Rightarrow> Inr (send err d)
       | Command command \<Rightarrow> dispatch_command de clock command d)"

section \<open>Ticks\<close>

text \<open>The engine's tick together with the coordinator that observes it; both emit to one runtime.\<close>

definition observed_tick ::
  "('p, 'c) engine_env \<Rightarrow> fake_clock \<Rightarrow> ('p, 'c) engine \<Rightarrow> coordinator option
    \<Rightarrow> (engine_tick_result \<times> ('p, 'c) engine \<times> coordinator option) res" where
  "observed_tick ee clock eng intelligence =
     res_bind (engine_tick ee clock eng) (\<lambda>(result, eng).
       Inr (case intelligence of
         None \<Rightarrow> (result, eng, None)
       | Some c \<Rightarrow>
           (case observe_tick (ee_env ee) clock result (peek_status (en_health eng) clock) (Some (active_ids eng))
               (c, en_telemetry eng) of
              (c, tel) \<Rightarrow> (result, eng\<lparr>en_telemetry := tel\<rparr>, Some c))))"

definition emit_tick ::
  "('p, 'c, 'f) daemon_env \<Rightarrow> fake_clock \<Rightarrow> engine_tick_result \<Rightarrow> ('p, 'c, 'f) daemon \<Rightarrow> ('p, 'c, 'f) daemon" where
  "emit_tick de clock result d =
     (let d = send_state de clock None d; (candidates, market_timestamp) = map_tick_alerts (de_display de) result
      in if candidates \<noteq> [] then
           send (encode_message ''alert'' None
             [(''candidates'', PyList (map (\<lambda>c. PyDict (alert_to_wire c)) candidates)),
              (''market_timestamp'', opt_flt market_timestamp)]) d
         else d)"

definition IDLE_WAIT_S :: flt where
  "IDLE_WAIT_S = 5 / 100"

text \<open>One turn of the tick loop: the state after it and how long it sleeps; \<open>None\<close> ends the loop.\<close>

definition daemon_tick ::
  "('p, 'c, 'f) daemon_env \<Rightarrow> fake_clock \<Rightarrow> ('p, 'c, 'f) daemon \<Rightarrow> ((flt \<times> ('p, 'c, 'f) daemon) option) res" where
  "daemon_tick de clock d =
     (if dm_stop d \<or> dm_phase d = SHUTTING_DOWN then Inr None
      else if dm_phase d = DAEMON_RUNNING then
        res_bind (observed_tick (de_engine de) clock (dm_engine d) (dm_intelligence d)) (\<lambda>(result, eng, intelligence).
          let d = emit_tick de clock result (d\<lparr>dm_engine := eng, dm_intelligence := intelligence\<rparr>)
          in Inr (Some (next_wait_s (en_scheduler (dm_engine d)) clock (enabled_symbols (en_watchlist (dm_engine d))), d)))
      else Inr (Some (IDLE_WAIT_S, d)))"

section \<open>Interleavings\<close>

text \<open>
  What can happen next: a line of the host, the end of its input, a turn of the tick loop, or a step of
  the coordinator's workers, which do not take the lock.
\<close>

inductive daemon_step ::
  "('p, 'c, 'f) daemon_env \<Rightarrow> ('p, 'c, 'f) daemon \<Rightarrow> ('p, 'c, 'f) daemon \<Rightarrow> bool" for de where
  line: "\<not> dm_stop d \<Longrightarrow> dispatch_line de clock l d = Inr d' \<Longrightarrow> daemon_step de d d'"
| eof: "\<not> dm_stop d \<Longrightarrow> daemon_step de d (do_shutdown None d)"
| tick: "daemon_tick de clock d = Inr (Some (wait, d')) \<Longrightarrow> daemon_step de d d'"
| worker: "dm_intelligence d = Some c
    \<Longrightarrow> coordinator_step (ee_env (de_engine de)) (c, daemon_telemetry d) (c', tel')
    \<Longrightarrow> daemon_step de d (set_telemetry tel' (d\<lparr>dm_intelligence := Some c'\<rparr>))"

inductive daemon_run ::
  "('p, 'c, 'f) daemon_env \<Rightarrow> ('p, 'c, 'f) daemon \<Rightarrow> ('p, 'c, 'f) daemon \<Rightarrow> bool" for de where
  run_nil: "daemon_run de d d"
| run_next: "daemon_run de d e \<Longrightarrow> daemon_step de e f \<Longrightarrow> daemon_run de d f"

text \<open>The protocol's phases, as its documentation draws them.\<close>

inductive phase_step :: "daemon_phase \<Rightarrow> daemon_phase \<Rightarrow> bool" where
  ph_stay: "phase_step p p"
| ph_hello: "phase_step AWAITING_HELLO READY"
| ph_start: "phase_step READY DAEMON_RUNNING"
| ph_pause: "phase_step DAEMON_RUNNING DAEMON_PAUSED"
| ph_resume: "phase_step DAEMON_PAUSED DAEMON_RUNNING"
| ph_shutdown: "phase_step p SHUTTING_DOWN"

declare phase_step.intros [intro, simp]

inductive_cases phase_stepE [elim]: "phase_step p q"
inductive_simps phase_step_from [simp]: "phase_step AWAITING_HELLO q" "phase_step SHUTTING_DOWN q"

section \<open>Messages\<close>

lemma fold_dict_set_other:
  "\<forall>(k, v) \<in> set extra. k \<noteq> key \<Longrightarrow> dict_get (fold (\<lambda>(k, v). dict_set k v) extra base) key = dict_get base key"
  by (induction extra arbitrary: base) (auto simp: dict_lookup)

lemma fold_dict_set_in:
  "(key, v) \<in> set extra \<Longrightarrow> distinct (map fst extra)
    \<Longrightarrow> dict_get (fold (\<lambda>(k, v). dict_set k v) extra base) key = Some v"
proof (induction extra arbitrary: base)
  case (Cons p extra)
  obtain k w where p: "p = (k, w)" by (rule prod.exhaust)
  show ?case
  proof (cases "(key, v) \<in> set extra")
    case True
    then show ?thesis using Cons by (simp add: p)
  next
    case False
    then have "(key, v) = (k, w)" "\<forall>(k', v') \<in> set extra. k' \<noteq> key" using Cons.prems by (force simp: p)+
    then show ?thesis by (simp add: p fold_dict_set_other dict_lookup)
  qed
qed simp

lemma encode_message_get:
  assumes "list_all (\<lambda>(k, v). k \<noteq> ''request_id'' \<and> k \<noteq> ''type'' \<and> k \<noteq> ''protocol_version'') extra"
  shows "dict_get (encode_message t r extra) ''request_id'' = map_option PyStr r"
    "dict_get (encode_message t r extra) ''type'' = Some (PyStr t)"
    "dict_get (encode_message t r extra) ''protocol_version'' = Some (PyInt PROTOCOL_VERSION)"
  using assms unfolding encode_message_def
  by (subst fold_dict_set_other; auto simp: list_all_iff split: option.split)+

lemma encode_message_field:
  "(key, v) \<in> set extra \<Longrightarrow> distinct (map fst extra) \<Longrightarrow> dict_get (encode_message t r extra) key = Some v"
  by (simp add: encode_message_def fold_dict_set_in)

lemma keys_dict_set: "fst ` set (dict_set k v d) = insert k (fst ` set d)"
  by (simp flip: dom_map_of_conv_image_fst)

lemma encode_message_keys:
  "set (map fst (encode_message t r extra)) - {''request_id''}
    = (insert ''protocol_version'' (insert ''type'' (fst ` set extra))) - {''request_id''}"
proof -
  have "fst ` set (fold (\<lambda>(k, v). dict_set k v) extra base) = fst ` set base \<union> fst ` set extra" for base
    by (induction extra arbitrary: base) (simp_all add: keys_dict_set split_beta)
  then show ?thesis by (auto simp: encode_message_def split: option.split)
qed

text \<open>The messages of the protocol, each with exactly the fields of its type beside the version, the type and, where there is
  one, the request identifier; the answers to a greeting and to a command always have one.\<close>

definition fields_are :: "payload \<Rightarrow> string list \<Rightarrow> bool" where
  "fields_are m names \<longleftrightarrow>
     set (map fst m) - {''request_id''} = insert ''protocol_version'' (insert ''type'' (set names))"

definition typed_as :: "string \<Rightarrow> payload \<Rightarrow> bool" where
  "typed_as t m \<longleftrightarrow> dict_get m ''type'' = Some (PyStr t)"

definition protocol_message :: "payload \<Rightarrow> bool" where
  "protocol_message m \<longleftrightarrow>
     dict_get m ''protocol_version'' = Some (PyInt PROTOCOL_VERSION)
     \<and> (\<exists>rid. dict_get m ''request_id'' = map_option PyStr rid
          \<and> (typed_as ''ready'' m \<or> typed_as ''ack'' m \<longrightarrow> rid \<noteq> None))
     \<and> (typed_as ''ready'' m \<and> fields_are m [''core_version''] \<and> (\<exists>v. dict_get m ''core_version'' = Some (PyStr v))
        \<or> typed_as ''ack'' m
          \<and> (fields_are m []
             \<or> fields_are m [''watchlist_count''] \<and> (\<exists>n. dict_get m ''watchlist_count'' = Some (PyInt (int n))))
        \<or> typed_as ''shutdown_ack'' m \<and> fields_are m []
        \<or> typed_as ''error'' m \<and> fields_are m [''code'', ''message'']
          \<and> (\<exists>code text. dict_get m ''code'' = Some (PyStr (error_code_value code))
               \<and> dict_get m ''message'' = Some (PyStr text))
        \<or> typed_as ''state'' m \<and> fields_are m [''state'']
          \<and> (\<exists>w. dict_get m ''state'' = Some (PyDict (market_to_wire w))
               \<and> wm_watchlist_count w = length (wm_symbols w))
        \<or> typed_as ''alert'' m \<and> fields_are m [''candidates'', ''market_timestamp'']
          \<and> (\<exists>candidates t. candidates \<noteq> [] \<and> dict_get m ''market_timestamp'' = Some (py_num t)
               \<and> dict_get m ''candidates'' = Some (PyList (map (\<lambda>c. PyDict (alert_to_wire c)) candidates))))"

text \<open>What the fields of an encoded message are, for field names that are not reserved.\<close>

definition plain_fields :: "payload \<Rightarrow> bool" where
  "plain_fields extra \<longleftrightarrow>
     list_all (\<lambda>(k, v). k \<noteq> ''request_id'' \<and> k \<noteq> ''type'' \<and> k \<noteq> ''protocol_version'') extra"

lemma encode_message_shape:
  assumes "plain_fields extra"
  shows "dict_get (encode_message t r extra) ''protocol_version'' = Some (PyInt PROTOCOL_VERSION)"
    "(t = ''ready'' \<or> t = ''ack'' \<Longrightarrow> r \<noteq> None) \<Longrightarrow>
       \<exists>rid. dict_get (encode_message t r extra) ''request_id'' = map_option PyStr rid
         \<and> (typed_as ''ready'' (encode_message t r extra) \<or> typed_as ''ack'' (encode_message t r extra) \<longrightarrow> rid \<noteq> None)"
    "typed_as t (encode_message t r extra)"
    "fields_are (encode_message t r extra) (map fst extra)"
proof -
  note get = encode_message_get [OF assms [unfolded plain_fields_def], of t r]
  show "dict_get (encode_message t r extra) ''protocol_version'' = Some (PyInt PROTOCOL_VERSION)"
    "typed_as t (encode_message t r extra)"
    using get by (simp_all add: typed_as_def)
  show "\<exists>rid. dict_get (encode_message t r extra) ''request_id'' = map_option PyStr rid
       \<and> (typed_as ''ready'' (encode_message t r extra) \<or> typed_as ''ack'' (encode_message t r extra) \<longrightarrow> rid \<noteq> None)"
    if "t = ''ready'' \<or> t = ''ack'' \<Longrightarrow> r \<noteq> None"
    using that get by (intro exI [of _ r]) (auto simp: typed_as_def)
  have "''request_id'' \<notin> fst ` set extra" using assms by (auto simp: plain_fields_def list_all_iff)
  then show "fields_are (encode_message t r extra) (map fst extra)"
    unfolding fields_are_def encode_message_keys by auto
qed

lemma encode_error_get [simp]:
  "dict_get (encode_error code m r) ''request_id'' = map_option PyStr r"
  "dict_get (encode_error code m r) ''type'' = Some (PyStr ''error'')"
  "protocol_message (encode_error code m r)"
proof -
  let ?extra = "[(''code'', PyStr (error_code_value code)), (''message'', PyStr m)]"
  have plain: "plain_fields ?extra" by (simp add: plain_fields_def)
  note shape = encode_message_shape [OF plain, of "''error''" r]
  have "dict_get (encode_message ''error'' r ?extra) ''code'' = Some (PyStr (error_code_value code))"
    "dict_get (encode_message ''error'' r ?extra) ''message'' = Some (PyStr m)"
    by (rule encode_message_field; simp)+
  then show "dict_get (encode_error code m r) ''request_id'' = map_option PyStr r"
    "dict_get (encode_error code m r) ''type'' = Some (PyStr ''error'')"
    "protocol_message (encode_error code m r)"
    using shape unfolding encode_error_def protocol_message_def by (simp_all add: encode_message_get) blast
qed

lemma ready_message: "protocol_message (encode_message ''ready'' (Some r) [(''core_version'', PyStr v)])"
proof -
  have plain: "plain_fields [(''core_version'', PyStr v)]" by (simp add: plain_fields_def)
  have "dict_get (encode_message ''ready'' (Some r) [(''core_version'', PyStr v)]) ''core_version'' = Some (PyStr v)"
    by (rule encode_message_field) simp_all
  then show ?thesis
    using encode_message_shape [OF plain, of "''ready''" "Some r"] unfolding protocol_message_def by simp
qed

lemma ack_message:
  "protocol_message (encode_message ''ack'' (Some r) [])"
  "protocol_message (encode_message ''ack'' (Some r) [(''watchlist_count'', PyInt (int n))])"
proof -
  have plain: "plain_fields []" "plain_fields [(''watchlist_count'', PyInt (int n))]" by (simp_all add: plain_fields_def)
  show "protocol_message (encode_message ''ack'' (Some r) [])"
    using encode_message_shape [OF plain(1), of "''ack''" "Some r"] unfolding protocol_message_def by simp
  have "dict_get (encode_message ''ack'' (Some r) [(''watchlist_count'', PyInt (int n))]) ''watchlist_count'' = Some (PyInt (int n))"
    by (rule encode_message_field) simp_all
  then show "protocol_message (encode_message ''ack'' (Some r) [(''watchlist_count'', PyInt (int n))])"
    using encode_message_shape [OF plain(2), of "''ack''" "Some r"] unfolding protocol_message_def by simp
qed

lemma shutdown_message: "protocol_message (encode_message ''shutdown_ack'' r [])"
  using encode_message_shape [of "[]" "''shutdown_ack''" r] unfolding protocol_message_def by (simp add: plain_fields_def)

lemma state_message:
  assumes "map_engine_state dp ee clock eng intelligence = (w, eng')"
  shows "protocol_message (encode_message ''state'' r [(''state'', PyDict (market_to_wire w))])"
proof -
  let ?extra = "[(''state'', PyDict (market_to_wire w))]"
  have plain: "plain_fields ?extra" by (simp add: plain_fields_def)
  have "dict_get (encode_message ''state'' r ?extra) ''state'' = Some (PyDict (market_to_wire w))"
    by (rule encode_message_field) simp_all
  moreover have "wm_watchlist_count w = length (wm_symbols w)"
    using assms by (auto simp: map_engine_state_def Let_def split: prod.splits if_splits)
  ultimately show ?thesis
    using encode_message_shape [OF plain, of "''state''" r] unfolding protocol_message_def by simp blast
qed

text \<open>The timestamp of an alert is that of its newest candidate, and there is one.\<close>

lemma map_tick_alerts_timestamp:
  assumes "map_tick_alerts dp result = (candidates, t)" "candidates \<noteq> []"
  shows "\<exists>x. t = Some x"
proof -
  let ?ok = "\<lambda>acc :: wire_alert_candidate list \<times> flt option. fst acc \<noteq> [] \<longrightarrow> snd acc \<noteq> None"
  have inner: "?ok acc \<Longrightarrow> ?ok (fold (\<lambda>s (cs, t). (cs @ [map_alert_candidate dp s], Some (sg_market_timestamp s))) ss acc)"
    for ss acc by (induction ss arbitrary: acc) (auto split: prod.splits)
  have "?ok acc \<Longrightarrow> ?ok (fold (\<lambda>r acc. fold (\<lambda>s (cs, t).
      (cs @ [map_alert_candidate dp s], Some (sg_market_timestamp s))) (sr_alert_candidates r) acc) rs acc)" for rs acc
    by (induction rs arbitrary: acc) (use inner in auto)
  from this [of "([], None)" result] show ?thesis using assms by (simp add: map_tick_alerts_def)
qed

lemma alert_message:
  assumes "map_tick_alerts dp result = (candidates, t)" "candidates \<noteq> []"
  shows "protocol_message (encode_message ''alert'' r
    [(''candidates'', PyList (map (\<lambda>c. PyDict (alert_to_wire c)) candidates)), (''market_timestamp'', opt_flt t)])"
proof -
  obtain x where t: "t = Some x" using map_tick_alerts_timestamp [OF assms] by blast
  let ?extra = "[(''candidates'', PyList (map (\<lambda>c. PyDict (alert_to_wire c)) candidates)), (''market_timestamp'', opt_flt t)]"
  have "dict_get (encode_message ''alert'' r ?extra) ''candidates''
      = Some (PyList (map (\<lambda>c. PyDict (alert_to_wire c)) candidates))"
    "dict_get (encode_message ''alert'' r ?extra) ''market_timestamp'' = Some (opt_flt t)"
    by (rule encode_message_field; simp)+
  moreover have plain: "plain_fields ?extra" by (simp add: plain_fields_def)
  ultimately show ?thesis
    using assms(2) encode_message_shape [OF plain, of "''alert''" r] unfolding protocol_message_def
    by (simp add: t opt_flt_def) blast
qed

text \<open>One message is sent, with the given request identifier and a type that is not a broadcast.\<close>

definition answered :: "string option \<Rightarrow> ('p, 'c, 'f) daemon \<Rightarrow> ('p, 'c, 'f) daemon \<Rightarrow> bool" where
  "answered rid d d' \<longleftrightarrow>
     (\<exists>m. dm_out d' = dm_out d @ [m] \<and> dict_get m ''request_id'' = map_option PyStr rid
        \<and> dict_get m ''type'' \<noteq> Some (PyStr ''alert'') \<and> protocol_message m)"

lemma answered_send:
  assumes "protocol_message m" "dm_out e = dm_out d" "dict_get m ''request_id'' = map_option PyStr rid"
    "dict_get m ''type'' = Some (PyStr t)" "t \<noteq> ''alert''"
  shows "answered rid d (send m e)"
  using assms by (simp add: answered_def send_def)

text \<open>
  What a command leaves alone: everything of the market but the watchlist, what the health tracker
  last logged and the observations.
\<close>

definition same_market :: "('p, 'c) engine \<Rightarrow> ('p, 'c) engine \<Rightarrow> bool" where
  "same_market eng eng' \<longleftrightarrow>
     en_provider eng' = en_provider eng \<and> en_scheduler eng' = en_scheduler eng \<and> en_buffers eng' = en_buffers eng
     \<and> en_states eng' = en_states eng \<and> en_pipeline eng' = en_pipeline eng
     \<and> peek_status (en_health eng') = peek_status (en_health eng)"

lemma same_market_refl [simp]: "same_market eng eng"
  by (simp add: same_market_def)

lemma same_market_updates [simp]:
  "same_market eng (eng\<lparr>en_watchlist := w\<rparr>)" "same_market eng (eng\<lparr>en_telemetry := tel\<rparr>)"
  by (simp_all add: same_market_def)

lemma same_market_ok: "same_market eng eng' \<Longrightarrow> engine_ok uuid eng \<Longrightarrow> engine_ok uuid eng'"
  by (simp add: same_market_def engine_ok_def latest_agree_def)

lemma map_engine_state_market:
  assumes "map_engine_state dp ee clock eng intelligence = (w, eng')"
  shows "same_market eng eng'" "en_watchlist eng' = en_watchlist eng" "en_telemetry eng' = en_telemetry eng"
proof -
  let ?symbols = "enabled_symbols (en_watchlist eng)"
  obtain feed h where h: "(if ?symbols \<noteq> [] then aggregate_status clock ?symbols (en_health eng)
      else (DISCONNECTED, en_health eng)) = (feed, h)" by (rule prod.exhaust)
  have eng': "eng' = eng\<lparr>en_health := h\<rparr>"
    using assms unfolding map_engine_state_def Let_def h by simp
  have "peek_status h = peek_status (en_health eng)"
    using h health_statuses_frame [of clock ?symbols "en_health eng"]
    by (auto simp: aggregate_status_def split: prod.splits list.splits if_splits)
  then show "same_market eng eng'" "en_watchlist eng' = en_watchlist eng" "en_telemetry eng' = en_telemetry eng"
    by (simp_all add: eng' same_market_def)
qed

section \<open>What a command does\<close>

text \<open>
  The contract of every command: one answer, a move of the phase automaton, the market untouched. Only
  \<open>set_watchlist\<close> changes the list, and it keeps the list's invariant.
\<close>

definition stored_ok :: "('p, 'c, 'f) daemon \<Rightarrow> bool" where
  "stored_ok d \<longleftrightarrow>
     wl_ok (en_watchlist (dm_engine d)) \<and> wl_saved (en_watchlist (dm_engine d), dm_file d)"

definition handled :: "string option \<Rightarrow> ('p, 'c, 'f) daemon \<Rightarrow> ('p, 'c, 'f) daemon \<Rightarrow> bool" where
  "handled rid d d' \<longleftrightarrow>
     answered rid d d' \<and> phase_step (dm_phase d) (dm_phase d') \<and> same_market (dm_engine d) (dm_engine d')
     \<and> dm_intelligence d' = dm_intelligence d \<and> (stored_ok d \<longrightarrow> stored_ok d')
     \<and> ((dm_phase d = SHUTTING_DOWN \<longleftrightarrow> dm_stop d) \<longrightarrow> (dm_phase d' = SHUTTING_DOWN \<longleftrightarrow> dm_stop d'))"

lemma send_simps [simp]:
  "dm_phase (send m d) = dm_phase d" "dm_stop (send m d) = dm_stop d" "dm_engine (send m d) = dm_engine d"
  "dm_intelligence (send m d) = dm_intelligence d" "dm_file (send m d) = dm_file d"
  "dm_feedback (send m d) = dm_feedback d" "dm_out (send m d) = dm_out d @ [m]"
  by (simp_all add: send_def)

lemma stored_ok_send [simp]: "stored_ok (send m d) = stored_ok d"
  by (simp add: stored_ok_def)

lemma set_telemetry_simps [simp]:
  "dm_phase (set_telemetry tel d) = dm_phase d" "dm_stop (set_telemetry tel d) = dm_stop d"
  "dm_engine (set_telemetry tel d) = (dm_engine d)\<lparr>en_telemetry := tel\<rparr>"
  "dm_intelligence (set_telemetry tel d) = dm_intelligence d" "dm_file (set_telemetry tel d) = dm_file d"
  "dm_feedback (set_telemetry tel d) = dm_feedback d" "dm_out (set_telemetry tel d) = dm_out d"
  by (simp_all add: set_telemetry_def)

lemma refuse_handled:
  assumes "dm_phase e = dm_phase d" "dm_stop e = dm_stop d" "dm_out e = dm_out d" "dm_intelligence e = dm_intelligence d"
    "same_market (dm_engine d) (dm_engine e)" "stored_ok d \<longrightarrow> stored_ok e"
  shows "handled (Some rid) d (refuse code m rid e)"
  using assms answered_send [of "encode_error code m (Some rid)" e d "Some rid" "''error''"]
  by (simp add: handled_def refuse_def stored_ok_def)

lemma ack_handled:
  assumes "phase_step (dm_phase d) (dm_phase e)" "dm_stop e = dm_stop d" "dm_out e = dm_out d"
    "dm_phase e = SHUTTING_DOWN \<longleftrightarrow> dm_phase d = SHUTTING_DOWN"
    "dm_intelligence e = dm_intelligence d" "same_market (dm_engine d) (dm_engine e)" "stored_ok d \<longrightarrow> stored_ok e"
  shows "handled (Some rid) d (ack rid e)"
  using assms answered_send [of "encode_message ''ack'' (Some rid) []" e d "Some rid" "''ack''"]
  by (simp add: handled_def ack_def stored_ok_def encode_message_get ack_message)

lemma send_state_frame [simp]:
  "dm_phase (send_state de clock rid d) = dm_phase d" "dm_stop (send_state de clock rid d) = dm_stop d"
  "dm_intelligence (send_state de clock rid d) = dm_intelligence d"
  "same_market (dm_engine d) (dm_engine (send_state de clock rid d))"
  "stored_ok (send_state de clock rid d) = stored_ok d"
  "answered rid d (send_state de clock rid d)"
  "daemon_telemetry (send_state de clock rid d) = daemon_telemetry d"
proof -
  obtain w eng where w: "map_engine_state (de_display de) (de_engine de) clock (dm_engine d) (dm_intelligence d) = (w, eng)"
    by (rule prod.exhaust)
  note frame = map_engine_state_market [OF w]
  show "dm_phase (send_state de clock rid d) = dm_phase d" "dm_stop (send_state de clock rid d) = dm_stop d"
    "dm_intelligence (send_state de clock rid d) = dm_intelligence d"
    "same_market (dm_engine d) (dm_engine (send_state de clock rid d))"
    "stored_ok (send_state de clock rid d) = stored_ok d"
    "daemon_telemetry (send_state de clock rid d) = daemon_telemetry d"
    using frame by (simp_all add: send_state_def w stored_ok_def)
  show "answered rid d (send_state de clock rid d)"
    unfolding send_state_def w Let_def prod.case
    by (rule answered_send [where t = "''state''"]) (simp_all add: encode_message_get state_message [OF w])
qed

lemma hello_handled:
  assumes "do_hello de rid d = Inr d'"
  shows "handled (Some rid) d d'"
proof -
  let ?m = "encode_message ''ready'' (Some rid) [(''core_version'', PyStr (de_version de))]"
  obtain e where e: "d' = send ?m e" "e = d \<or> dm_phase d = AWAITING_HELLO \<and> e = d\<lparr>dm_phase := READY\<rparr>"
    using assms by (auto simp: do_hello_def Let_def)
  then have "answered (Some rid) d d'"
    by (auto intro!: answered_send [where t = "''ready''"] simp: encode_message_get ready_message)
  then show ?thesis using e(2) by (auto simp: handled_def e(1) stored_ok_def)
qed

lemma phase_ack_handled:
  assumes "phase_step (dm_phase d) p" "p \<noteq> SHUTTING_DOWN"
  shows "handled (Some rid) d (ack rid (d\<lparr>dm_phase := p\<rparr>))"
  by (rule ack_handled) (use assms in \<open>auto simp: stored_ok_def\<close>)

lemma refusal_handled: "handled (Some rid) d (refuse code m rid d)"
  by (rule refuse_handled) simp_all

lemma start_handled:
  assumes "do_start rid d = Inr d'" "dm_phase d \<noteq> SHUTTING_DOWN"
  shows "handled (Some rid) d d'"
  using assms phase_ack_handled [of d DAEMON_RUNNING rid] refusal_handled [of rid d]
  by (cases "dm_phase d") (auto simp: do_start_def require_ready_def)

lemma pause_handled:
  assumes "do_pause rid d = Inr d'" "dm_phase d \<noteq> SHUTTING_DOWN"
  shows "handled (Some rid) d d'"
  using assms phase_ack_handled [of d DAEMON_PAUSED rid] refusal_handled [of rid d]
  by (cases "dm_phase d") (auto simp: do_pause_def require_ready_def)

lemma resume_handled:
  assumes "do_resume rid d = Inr d'" "dm_phase d \<noteq> SHUTTING_DOWN"
  shows "handled (Some rid) d d'"
  using assms phase_ack_handled [of d DAEMON_RUNNING rid] refusal_handled [of rid d]
  by (cases "dm_phase d") (auto simp: do_resume_def require_ready_def)

lemma require_ready_hello:
  assumes "require_ready rid d rest = Inr d'" "dm_phase d = AWAITING_HELLO"
  shows "handled (Some rid) d d'" "dm_engine d' = dm_engine d" "dm_phase d' = AWAITING_HELLO"
  using assms refusal_handled [of rid d] by (simp_all add: require_ready_def) (auto simp: refuse_def)

lemma require_ready_later: "dm_phase d \<noteq> AWAITING_HELLO \<Longrightarrow> require_ready rid d rest = rest"
  by (simp add: require_ready_def)

lemma wl_replace_errors: "wl_replace items s = Inl e \<Longrightarrow> e = WatchlistFullError \<or> (\<exists>m. e = WatchlistSymbolError m)"
proof -
  have "collect_items items seen = Inl e \<Longrightarrow> \<exists>m. e = WatchlistSymbolError m" for seen
    by (induction items arbitrary: seen) (auto split: if_splits)
  then show "wl_replace items s = Inl e \<Longrightarrow> e = WatchlistFullError \<or> (\<exists>m. e = WatchlistSymbolError m)"
    by (auto simp: wl_replace_def res_simps split: prod.splits if_splits)
qed

text \<open>The three outcomes of a replacement that is let through.\<close>

lemma set_watchlist_cases:
  assumes "dm_phase d \<noteq> AWAITING_HELLO"
  obtains code m where "do_set_watchlist command rid d = Inr (refuse code m rid d)"
  | parsed raws w stored where "get_or_none command ''items'' = PyList raws" "watch_items_of raws = Inr parsed"
    "wl_replace parsed (en_watchlist (dm_engine d), dm_file d) = Inr (w, stored)"
    "do_set_watchlist command rid d = Inr (send (encode_message ''ack'' (Some rid)
        [(''watchlist_count'', PyInt (int (length (wl_list w))))])
      (d\<lparr>dm_engine := (dm_engine d)\<lparr>en_watchlist := w\<rparr>, dm_file := stored\<rparr>))"
proof (cases "\<exists>raws. get_or_none command ''items'' = PyList raws")
  case False
  then have "do_set_watchlist command rid d = Inr (refuse INVALID_PAYLOAD ''items must be a list'' rid d)"
    using assms unfolding do_set_watchlist_def require_ready_def by (simp split: pyval.split)
  then show thesis by (rule that(1))
next
  case True
  then obtain raws where raws: "get_or_none command ''items'' = PyList raws" by blast
  show thesis
  proof (cases "watch_items_of raws")
    case (Inl m)
    then have "do_set_watchlist command rid d = Inr (refuse INVALID_PAYLOAD m rid d)"
      using assms raws by (simp add: do_set_watchlist_def require_ready_def)
    then show thesis by (rule that(1))
  next
    case (Inr parsed)
    show thesis
    proof (cases "wl_replace parsed (en_watchlist (dm_engine d), dm_file d)")
      case (Inl e)
      let ?full = "''watchlist limit is '' @ show_int (wl_limit (en_watchlist (dm_engine d)))"
      have "do_set_watchlist command rid d = Inr (refuse WATCHLIST_FULL ?full rid d)
        \<or> (\<exists>m. do_set_watchlist command rid d = Inr (refuse DUPLICATE_SYMBOL m rid d))"
        using wl_replace_errors [OF Inl] assms raws Inr Inl by (auto simp: do_set_watchlist_def require_ready_def)
      then show thesis using that(1) by blast
    next
      case replaced: (Inr s)
      obtain w stored where s: "s = (w, stored)" by (rule prod.exhaust)
      show thesis
        by (rule that(2) [OF raws Inr]) (use assms raws Inr replaced s in \<open>simp_all add: do_set_watchlist_def require_ready_def\<close>)
    qed
  qed
qed

lemma set_watchlist_handled:
  assumes "do_set_watchlist command rid d = Inr d'"
  shows "handled (Some rid) d d'"
proof (cases "dm_phase d = AWAITING_HELLO")
  case True
  with assms show ?thesis unfolding do_set_watchlist_def by (rule require_ready_hello)
next
  case False
  from set_watchlist_cases [OF False, of command rid] show ?thesis
  proof cases
    case (1 code m)
    then show ?thesis using assms refusal_handled by simp
  next
    case (2 parsed raws w stored)
    let ?m = "encode_message ''ack'' (Some rid) [(''watchlist_count'', PyInt (int (length (wl_list w))))]"
    have d': "d' = send ?m (d\<lparr>dm_engine := (dm_engine d)\<lparr>en_watchlist := w\<rparr>, dm_file := stored\<rparr>)"
      using assms 2 by simp
    have "answered (Some rid) d d'"
      unfolding d' by (rule answered_send [where t = "''ack''"]) (simp_all add: encode_message_get ack_message)
    moreover have "stored_ok d \<longrightarrow> stored_ok d'"
      using watch_step_ok [of "Replace parsed" _ _ "(w, stored)"] 2(3) by (auto simp: stored_ok_def d')
    ultimately show ?thesis by (simp add: handled_def d')
  qed
qed

lemma get_state_handled:
  assumes "do_get_state de clock rid d = Inr d'"
  shows "handled (Some rid) d d'"
proof (cases "dm_phase d = AWAITING_HELLO")
  case True
  with assms show ?thesis unfolding do_get_state_def by (rule require_ready_hello)
next
  case False
  then have "d' = send_state de clock (Some rid) d" using assms by (simp add: do_get_state_def require_ready_later)
  then show ?thesis by (simp add: handled_def)
qed

lemma telemetry_ack_handled: "handled (Some rid) d (ack rid (set_telemetry tel d))"
  by (rule ack_handled) (simp_all add: stored_ok_def)

lemma host_interaction_handled:
  assumes "do_host_interaction de clock command rid d = Inr d'"
  shows "handled (Some rid) d d'"
proof (cases "dm_phase d = AWAITING_HELLO")
  case True
  with assms show ?thesis unfolding do_host_interaction_def by (rule require_ready_hello)
next
  case False
  then obtain parsed where parsed: "parse_host_interaction command = Inr parsed"
    using assms by (auto simp: do_host_interaction_def require_ready_later res_simps)
  show ?thesis
    using assms unfolding do_host_interaction_def require_ready_later [OF False] parsed res_bind.simps
    by (cases parsed) (auto simp: Let_def refusal_handled telemetry_ack_handled)
qed

lemma feedback_answers:
  "handled (Some rid) d (ack rid d)"
  "handled (Some rid) d (ack rid ((set_telemetry tel d)\<lparr>dm_feedback := fb\<rparr>))"
  "handled (Some rid) d (refuse code m rid ((set_telemetry tel d)\<lparr>dm_feedback := fb\<rparr>))"
  by (rule ack_handled refuse_handled; simp add: stored_ok_def)+

lemma user_feedback_handled:
  assumes "do_user_feedback de command rid d = Inr d'"
  shows "handled (Some rid) d d'"
proof (cases "dm_phase d = AWAITING_HELLO")
  case True
  with assms show ?thesis unfolding do_user_feedback_def by (rule require_ready_hello)
next
  case False
  then obtain parsed where parsed: "parse_user_feedback command = Inr parsed"
    using assms by (auto simp: do_user_feedback_def require_ready_later res_simps)
  show ?thesis
  proof (cases parsed)
    case (Inl err)
    then show ?thesis
      using assms unfolding do_user_feedback_def require_ready_later [OF False] parsed res_bind.simps
      by (auto simp: refusal_handled)
  next
    case (Inr given)
    then show ?thesis
      using assms unfolding do_user_feedback_def require_ready_later [OF False] parsed res_bind.simps
      by (auto simp: feedback_answers Let_def split: option.splits prod.splits sum.splits)
  qed
qed

text \<open>Every command, and with it every line, keeps the contract.\<close>

lemma run_handler_handled:
  assumes "run_handler de clock t command rid d = Inr d'" "dm_phase d \<noteq> SHUTTING_DOWN"
  shows "handled (Some rid) d d'"
  using assms hello_handled start_handled pause_handled resume_handled set_watchlist_handled get_state_handled
    host_interaction_handled user_feedback_handled
  unfolding run_handler_def by (simp only: split: if_splits)

text \<open>The identifier a line asks to be answered under, when it carries one.\<close>

definition asked_under :: "('p, 'c, 'f) daemon_env \<Rightarrow> string \<Rightarrow> string option" where
  "asked_under de l =
     (case de_loads de (py_strip l) of
        Inr (Some (PyDict command)) \<Rightarrow>
          (case dict_get command ''request_id'' of Some (PyStr r) \<Rightarrow> if r = [] then None else Some r | _ \<Rightarrow> None)
      | _ \<Rightarrow> None)"

lemma send_handled:
  assumes "protocol_message m" "dict_get m ''request_id'' = map_option PyStr rid" "dict_get m ''type'' = Some (PyStr t)" "t \<noteq> ''alert''"
  shows "handled rid d (send m d)"
  using answered_send [OF assms(1) refl assms(2-)] by (simp add: handled_def stored_ok_def)

lemma shutdown_handled: "handled rid d (do_shutdown rid d)"
proof -
  have "answered rid d (do_shutdown rid d)"
    unfolding do_shutdown_def by (rule answered_send [where t = "''shutdown_ack''"]) (simp_all add: encode_message_get shutdown_message)
  then show ?thesis by (simp add: handled_def do_shutdown_def stored_ok_def)
qed

lemma dispatch_command_handled:
  assumes "dispatch_command de clock command d = Inr d'"
  shows "\<exists>rid. handled rid d d'
    \<and> (\<forall>r. dict_get command ''request_id'' = Some (PyStr r) \<and> r \<noteq> [] \<longrightarrow> rid = Some r)"
proof -
  define t where "t = (case text_or_none (get_or_none command ''type'') of None \<Rightarrow> [] | Some t \<Rightarrow> t)"
  define rid where "rid = text_or_none (get_or_none command ''request_id'')"
  have asked: "rid = Some r" if "dict_get command ''request_id'' = Some (PyStr r)" for r
    using that by (simp add: rid_def text_or_none_Some get_or_none_PyStr)
  note run = assms [unfolded dispatch_command_def, folded t_def rid_def, unfolded Let_def]
  show ?thesis
  proof (cases "t \<in> set HOST_COMMANDS")
    case False
    then have "handled rid d d'" using run send_handled [OF encode_error_get(3,1,2)] by auto
    then show ?thesis using asked by blast
  next
    case known: True
    show ?thesis
    proof (cases "falsy rid")
      case True
      then have "handled None d d'" using run known send_handled [OF encode_error_get(3,1,2)] by auto
      then show ?thesis using asked True by (auto simp: falsy_def)
    next
      case False
      then obtain r where r: "rid = Some r" by (auto simp: falsy_def)
      have "handled rid d d'"
        using run known False shutdown_handled [of rid d] refusal_handled [of r d] run_handler_handled
        by (auto simp: r split: if_splits)
      then show ?thesis using asked by blast
    qed
  qed
qed

lemma dispatch_line_handled:
  assumes "dispatch_line de clock l d = Inr d'"
  shows "py_strip l = [] \<and> d' = d
    \<or> py_strip l \<noteq> [] \<and> (\<exists>rid. handled rid d d' \<and> (\<forall>r. asked_under de l = Some r \<longrightarrow> rid = Some r))"
proof -
  obtain decoded where decoded: "decode_line (de_loads de) (de_repr de) l = Inr decoded"
    using assms by (auto simp: dispatch_line_def res_simps)
  note run = assms [unfolded dispatch_line_def decoded res_bind.simps]
  show ?thesis
  proof (cases "py_strip l = []")
    case True
    then show ?thesis using decoded run by (simp add: decode_line_def)
  next
    case False
    obtain raw where raw: "de_loads de (py_strip l) = Inr raw"
      using decoded False by (auto simp: decode_line_def Let_def res_simps)
    show ?thesis
    proof (cases "\<exists>command. raw = Some (PyDict command)")
      case False
      then obtain m where "decoded = Refused (encode_error INVALID_JSON m None)"
        using decoded raw \<open>py_strip l \<noteq> []\<close> by (auto simp: decode_line_def split: option.splits pyval.splits)
      then have "handled None d d'" using run send_handled [OF encode_error_get(3,1,2)] by auto
      moreover have "asked_under de l = None" using False raw by (auto simp: asked_under_def split: option.split pyval.split)
      ultimately show ?thesis using \<open>py_strip l \<noteq> []\<close> by auto
    next
      case True
      then obtain command where command: "raw = Some (PyDict command)" by blast
      have asked: "asked_under de l = Some r \<longleftrightarrow> dict_get command ''request_id'' = Some (PyStr r) \<and> r \<noteq> []" for r
        by (cases "dict_get command ''request_id''") (auto simp: asked_under_def raw command split: pyval.split)
      have "decoded = Command command
          \<or> (\<exists>code m. decoded = Refused (encode_error code m (text_or_none (get_or_none command ''request_id''))))"
        using decoded raw command \<open>py_strip l \<noteq> []\<close>
        by (auto simp: decode_line_def Let_def split: pyval.splits if_splits)
      then show ?thesis
      proof
        assume "decoded = Command command"
        then have "dispatch_command de clock command d = Inr d'" using run by simp
        from dispatch_command_handled [OF this] asked \<open>py_strip l \<noteq> []\<close> show ?thesis by simp
      next
        let ?rid = "text_or_none (get_or_none command ''request_id'')"
        assume "\<exists>code m. decoded = Refused (encode_error code m ?rid)"
        then have "handled ?rid d d'" using run send_handled [OF encode_error_get(3,1,2)] by auto
        moreover have "\<forall>r. asked_under de l = Some r \<longrightarrow> ?rid = Some r"
          by (simp add: asked text_or_none_Some get_or_none_PyStr)
        ultimately show ?thesis using \<open>py_strip l \<noteq> []\<close> by blast
      qed
    qed
  qed
qed

section \<open>Sessions\<close>

inductive_cases daemon_stepE: "daemon_step de d d'"

definition daemon_ok :: "('p, 'c, 'f) daemon_env \<Rightarrow> ('p, 'c, 'f) daemon \<Rightarrow> bool" where
  "daemon_ok de d \<longleftrightarrow>
     engine_ok (env_uuid (ee_env (de_engine de))) (dm_engine d) \<and> stored_ok d
     \<and> (case dm_intelligence d of None \<Rightarrow> True | Some c \<Rightarrow> coordinator_ok c)
     \<and> (dm_phase d = SHUTTING_DOWN \<longleftrightarrow> dm_stop d)"

text \<open>The parts of a configuration that the engine relies on.\<close>

definition env_ok :: "('p, 'c, 'f) daemon_env \<Rightarrow> bool" where
  "env_ok de \<longleftrightarrow> inj (env_uuid (ee_env (de_engine de))) \<and> counts_up (env_rules (ee_env (de_engine de)))"

lemma handled_ok: "handled rid d d' \<Longrightarrow> daemon_ok de d \<Longrightarrow> daemon_ok de d'"
  by (auto simp: handled_def daemon_ok_def intro: same_market_ok)

lemma observed_tick_run:
  assumes "env_ok de" "engine_ok (env_uuid (ee_env (de_engine de))) eng"
    and "case intelligence of None \<Rightarrow> True | Some c \<Rightarrow> coordinator_ok c"
  shows "\<exists>results eng' intelligence'.
    observed_tick (de_engine de) clock eng intelligence = Inr (results, eng', intelligence')
    \<and> engine_ok (env_uuid (ee_env (de_engine de))) eng' \<and> en_watchlist eng' = en_watchlist eng
    \<and> (case intelligence' of None \<Rightarrow> intelligence = None | Some c \<Rightarrow> intelligence \<noteq> None \<and> coordinator_ok c)
    \<and> (\<forall>s \<in> set (enabled_symbols (en_watchlist eng)). projected clock s eng')"
proof -
  obtain results eng' where tick: "engine_tick (de_engine de) clock eng = Inr (results, eng')"
    "engine_ok (env_uuid (ee_env (de_engine de))) eng'" "en_watchlist eng' = en_watchlist eng"
    "\<forall>s \<in> set (enabled_symbols (en_watchlist eng)). projected clock s eng'"
    using engine_tick_run [OF assms(2)] assms(1) unfolding env_ok_def by blast
  show ?thesis
  proof (cases intelligence)
    case None
    then show ?thesis using tick by (simp add: observed_tick_def)
  next
    case (Some c)
    let ?observed = "observe_tick (ee_env (de_engine de)) clock results (peek_status (en_health eng') clock)
      (Some (active_ids eng')) (c, en_telemetry eng')"
    obtain c' tel where obs: "?observed = (c', tel)" by (rule prod.exhaust)
    have "coordinator_ok (fst ?observed)" using assms(3) Some by (intro observe_tick_ok) simp
    moreover have "observed_tick (de_engine de) clock eng intelligence = Inr (results, eng'\<lparr>en_telemetry := tel\<rparr>, Some c')"
      by (simp add: observed_tick_def tick(1) Some obs)
    ultimately show ?thesis
      using tick Some obs by (simp add: engine_ok_def latest_agree_def projected_def)
  qed
qed

lemma emit_tick_frame [simp]:
  "dm_phase (emit_tick de clock result d) = dm_phase d" "dm_stop (emit_tick de clock result d) = dm_stop d"
  "dm_intelligence (emit_tick de clock result d) = dm_intelligence d"
  "same_market (dm_engine d) (dm_engine (emit_tick de clock result d))"
  "stored_ok (emit_tick de clock result d) = stored_ok d"
proof -
  have eq: "emit_tick de clock result d = send_state de clock None d
      \<or> (\<exists>m. emit_tick de clock result d = send m (send_state de clock None d))"
    by (auto simp: emit_tick_def Let_def split: prod.split)
  show "dm_phase (emit_tick de clock result d) = dm_phase d" "dm_stop (emit_tick de clock result d) = dm_stop d"
    "dm_intelligence (emit_tick de clock result d) = dm_intelligence d"
    "same_market (dm_engine d) (dm_engine (emit_tick de clock result d))"
    "stored_ok (emit_tick de clock result d) = stored_ok d"
    using eq by auto
qed

lemma daemon_tick_ok:
  assumes "env_ok de" "daemon_ok de d"
  shows "\<exists>r. daemon_tick de clock d = Inr r \<and> (\<forall>wait d'. r = Some (wait, d') \<longrightarrow> daemon_ok de d' \<and> dm_phase d' = dm_phase d)"
proof (cases "dm_phase d = DAEMON_RUNNING \<and> \<not> dm_stop d")
  case False
  then show ?thesis using assms(2) by (auto simp: daemon_tick_def)
next
  case True
  obtain results eng intelligence where run:
    "observed_tick (de_engine de) clock (dm_engine d) (dm_intelligence d) = Inr (results, eng, intelligence)"
    "engine_ok (env_uuid (ee_env (de_engine de))) eng" "en_watchlist eng = en_watchlist (dm_engine d)"
    "case intelligence of None \<Rightarrow> dm_intelligence d = None | Some c \<Rightarrow> dm_intelligence d \<noteq> None \<and> coordinator_ok c"
    using observed_tick_run [OF assms(1)] assms(2) unfolding daemon_ok_def by blast
  let ?d = "d\<lparr>dm_engine := eng, dm_intelligence := intelligence\<rparr>"
  have "stored_ok ?d" using assms(2) run(3) by (simp add: daemon_ok_def stored_ok_def)
  then have "daemon_ok de (emit_tick de clock results ?d)"
    using assms(2) run(2,4) same_market_ok [OF emit_tick_frame(4) [of ?d de clock results]]
    by (auto simp: daemon_ok_def split: option.splits)
  then show ?thesis
    using True run(1) by (simp add: daemon_tick_def Let_def)
qed

text \<open>Outside the running phase a turn of the loop does nothing.\<close>

lemma daemon_tick_idle: "daemon_tick de clock d = Inr (Some (wait, d')) \<Longrightarrow> dm_phase d \<noteq> DAEMON_RUNNING \<Longrightarrow> d' = d"
  by (auto simp: daemon_tick_def split: if_splits)

lemma daemon_step_ok:
  assumes "daemon_step de d d'" "env_ok de" "daemon_ok de d"
  shows "daemon_ok de d'"
  using assms(1)
proof cases
  case (line clock l)
  then show ?thesis using dispatch_line_handled [OF line(2)] handled_ok assms(3) by blast
next
  case eof
  then show ?thesis using shutdown_handled [of None d] handled_ok assms(3) by blast
next
  case (tick clock wait)
  then show ?thesis using daemon_tick_ok [OF assms(2,3), of clock] by auto
next
  case (worker c c' tel')
  have "coordinator_ok c'"
    using coordinator_step_ok [OF worker(3)] assms(3) worker(2) by (simp add: daemon_ok_def)
  moreover have "engine_ok (env_uuid (ee_env (de_engine de))) (dm_engine d')"
    using worker(1) assms(3) same_market_ok by (simp add: daemon_ok_def engine_ok_def latest_agree_def)
  ultimately show ?thesis using assms(3) worker(1) by (simp add: daemon_ok_def stored_ok_def)
qed

lemma daemon_run_ok: "daemon_run de d d' \<Longrightarrow> env_ok de \<Longrightarrow> daemon_ok de d \<Longrightarrow> daemon_ok de d'"
  by (induction rule: daemon_run.induct) (auto dest: daemon_step_ok)

text \<open>C7: Whatever the host sends and however ticks, the end of the input and the workers of the
  coordinator interleave with it, the daemon keeps its invariant from the start on: the engine's, the
  coordinator's and the watchlist's, the list in memory being the list on disk; and at every moment a
  turn of the tick loop can be taken without an exception.\<close>

theorem daemon_session_safe:
  assumes "env_ok de" "engine_ok (env_uuid (ee_env (de_engine de))) eng"
    and "wl_ok (en_watchlist eng)" "wl_saved (en_watchlist eng, stored)"
    and "intelligence = None \<or> intelligence = Some (new_coordinator queue concurrency budget policy)"
    and "daemon_run de (new_daemon eng intelligence stored feedback) d"
  shows "daemon_ok de d \<and> (\<exists>r. daemon_tick de clock d = Inr r)"
proof -
  have "daemon_ok de (new_daemon eng intelligence stored feedback)"
    using assms(2-5) new_coordinator_ok [of queue concurrency budget policy]
    by (auto simp: daemon_ok_def new_daemon_def stored_ok_def)
  then have "daemon_ok de d" by (rule daemon_run_ok [OF assms(6,1)])
  then show ?thesis using daemon_tick_ok [OF assms(1), of d clock] by blast
qed

text \<open>C5: The daemon follows the protocol's phases: every step moves along them, the market (provider,
  schedule, history, states, pipeline and health) changes and alerts are sent only while it runs, so
  that a greeted but not started or a paused daemon stands still, and after the shutdown nothing is
  sent at all.\<close>

theorem daemon_follows_protocol:
  assumes "daemon_step de d d'" "daemon_ok de d"
  shows "phase_step (dm_phase d) (dm_phase d')
    \<and> (dm_phase d \<noteq> DAEMON_RUNNING \<longrightarrow> same_market (dm_engine d) (dm_engine d')
        \<and> (dm_out d' = dm_out d \<or> (\<exists>rid. answered rid d d')))
    \<and> (dm_phase d = SHUTTING_DOWN \<longrightarrow> dm_out d' = dm_out d)"
  using assms(1)
proof cases
  case (line clock l)
  then have "d' = d \<or> (\<exists>rid. handled rid d d')" using dispatch_line_handled by blast
  then show ?thesis using line(1) assms(2) by (auto simp: handled_def daemon_ok_def)
next
  case eof
  then show ?thesis using shutdown_handled [of None d] assms(2) by (auto simp: handled_def daemon_ok_def)
next
  case (tick clock wait)
  show ?thesis
  proof (cases "dm_phase d = DAEMON_RUNNING")
    case True
    have "dm_phase d' = dm_phase d"
      using tick True by (auto simp: daemon_tick_def Let_def res_simps split: if_splits)
    then show ?thesis using True by simp
  next
    case False
    then show ?thesis using daemon_tick_idle [OF tick] by simp
  qed
next
  case (worker c c' tel')
  then show ?thesis by simp
qed

lemma emit_tick_messages:
  "\<exists>ms. dm_out (emit_tick de clock result d) = dm_out d @ ms \<and> (\<forall>m \<in> set ms. protocol_message m)"
proof -
  have "answered None d (send_state de clock None d)" by simp
  then obtain m where m: "dm_out (send_state de clock None d) = dm_out d @ [m]" "protocol_message m"
    unfolding answered_def by blast
  obtain candidates t where ct: "map_tick_alerts (de_display de) result = (candidates, t)" by (rule prod.exhaust)
  show ?thesis
  proof (cases "candidates = []")
    case True
    then show ?thesis using m by (simp add: emit_tick_def ct)
  next
    case False
    then show ?thesis using m alert_message [OF ct False, of None] by (simp add: emit_tick_def ct)
  qed
qed

lemma daemon_step_messages:
  assumes "daemon_step de d d'"
  shows "\<exists>ms. dm_out d' = dm_out d @ ms \<and> (\<forall>m \<in> set ms. protocol_message m)"
  using assms
proof cases
  case (line clock l)
  then have "d' = d \<or> (\<exists>rid. answered rid d d')" using dispatch_line_handled unfolding handled_def by blast
  then show ?thesis by (auto simp: answered_def)
next
  case eof
  then show ?thesis using shutdown_handled [of None d] by (auto simp: handled_def answered_def)
next
  case (tick clock wait)
  then have "d' = d
      \<or> (\<exists>result eng i. d' = emit_tick de clock result (d\<lparr>dm_engine := eng, dm_intelligence := i\<rparr>))"
    by (auto simp: daemon_tick_def Let_def res_simps split: if_splits)
  then show ?thesis
  proof (elim disjE exE)
    fix result eng i assume "d' = emit_tick de clock result (d\<lparr>dm_engine := eng, dm_intelligence := i\<rparr>)"
    then show ?thesis
      using emit_tick_messages [of de clock result "d\<lparr>dm_engine := eng, dm_intelligence := i\<rparr>"] by simp
  qed simp
next
  case (worker c c' tel')
  then show ?thesis by simp
qed

text \<open>C37: Whatever happens in a session, every line the daemon writes is a well-typed message of the protocol: it has the
  version, a known type and exactly the fields of that type. A ready message has the request identifier and the version of
  the core, an acknowledgement the identifier and at most a count of the watchlist, an error one of the documented codes
  and a text, a state counts exactly the symbols it lists, and an alert has at least one candidate and a market time.\<close>

theorem session_messages_typed:
  assumes "daemon_run de (new_daemon eng intelligence stored feedback) d"
  shows "\<forall>m \<in> set (dm_out d). protocol_message m"
proof -
  have "daemon_run de d0 d \<Longrightarrow> \<forall>m \<in> set (dm_out d0). protocol_message m \<Longrightarrow> \<forall>m \<in> set (dm_out d). protocol_message m"
    for d0
  proof (induction rule: daemon_run.induct)
    case (run_next d e f)
    then show ?case using daemon_step_messages [OF run_next(2)] by auto
  qed simp
  from this [OF assms] show ?thesis by (simp add: new_daemon_def)
qed

section \<open>Exceptions\<close>

lemma finite_number_raises: "finite_number v = Inl e \<longleftrightarrow> e = OverflowError \<and> (\<exists>i. v = PyInt i \<and> float_max_int \<le> \<bar>i\<bar>)"
  by (cases v) auto

lemma parse_host_interaction_raises:
  assumes "parse_host_interaction command = Inl e"
  shows "e = OverflowError \<and> (\<exists>i. dict_get command ''created_timestamp'' = Some (PyInt i) \<and> float_max_int \<le> \<bar>i\<bar>)"
  using assms
  by (auto simp: parse_host_interaction_def Let_def res_simps finite_number_raises
      split: option.splits pyval.splits if_splits)

lemma parse_user_feedback_raises:
  assumes "parse_user_feedback command = Inl e"
  shows "e = OverflowError \<and> (\<exists>i. dict_get command ''created_timestamp'' = Some (PyInt i) \<and> float_max_int \<le> \<bar>i\<bar>)"
proof -
  have "\<exists>v. dict_get command ''created_timestamp'' = Some v \<and> finite_number v = Inl e"
    using assms unfolding parse_user_feedback_def
    by (auto simp: res_simps split: option.splits pyval.splits if_splits)
  then show ?thesis by (auto simp: finite_number_raises)
qed

lemma set_watchlist_total: "\<exists>d'. do_set_watchlist command rid d = Inr d'"
proof (cases "dm_phase d = AWAITING_HELLO")
  case False
  from set_watchlist_cases [OF False, of command rid] show ?thesis by cases blast+
qed (simp add: do_set_watchlist_def require_ready_def)

lemma last_two:
  "x \<in> set [a, b, c, f, g, h, i, j, k] \<Longrightarrow> x \<noteq> k \<Longrightarrow> x \<notin> {a, b, c, f, g, h} \<Longrightarrow> x \<in> {i, j}"
  unfolding list.set by (elim insertE) simp_all

lemma run_handler_raises:
  assumes "run_handler de clock t command rid d = Inl e" "t \<in> set HOST_COMMANDS" "t \<noteq> ''shutdown''"
  shows "e = OverflowError \<and> t \<in> {''host_interaction'', ''user_feedback''}
    \<and> (\<exists>i. dict_get command ''created_timestamp'' = Some (PyInt i) \<and> float_max_int \<le> \<bar>i\<bar>)"
proof -
  have total: "\<exists>d'. do_hello de rid d = Inr d'" "\<exists>d'. do_start rid d = Inr d'" "\<exists>d'. do_pause rid d = Inr d'"
    "\<exists>d'. do_resume rid d = Inr d'" "\<exists>d'. do_get_state de clock rid d = Inr d'"
    by (simp_all add: do_hello_def do_start_def do_pause_def do_resume_def do_get_state_def require_ready_def Let_def)
  have "t \<notin> {''hello'', ''start'', ''pause'', ''resume'', ''set_watchlist'', ''get_state''}"
  proof
    assume "t \<in> {''hello'', ''start'', ''pause'', ''resume'', ''set_watchlist'', ''get_state''}"
    then have "\<exists>d'. run_handler de clock t command rid d = Inr d'"
      using total set_watchlist_total [of command rid d]
      by (elim insertE emptyE) (simp_all add: run_handler_def)
    then show False using assms(1) by simp
  qed
  then have t: "t \<in> {''host_interaction'', ''user_feedback''}"
    by (rule last_two [OF assms(2) [unfolded HOST_COMMANDS_def] assms(3)])
  then have "do_host_interaction de clock command rid d = Inl e \<or> do_user_feedback de command rid d = Inl e"
    using assms(1) by (auto simp: run_handler_def)
  then have "parse_host_interaction command = Inl e \<or> parse_user_feedback command = Inl e"
    by (auto simp: do_host_interaction_def do_user_feedback_def require_ready_def res_simps split: if_splits)
  then show ?thesis using t parse_host_interaction_raises parse_user_feedback_raises by blast
qed

lemma decode_line_raises: "decode_line loads repr l = Inl e \<Longrightarrow> loads (py_strip l) = Inl e"
  by (auto simp: decode_line_def Let_def res_simps split: if_splits)

lemma decode_line_command:
  assumes "decode_line loads repr l = Inr (Command command)"
  shows "loads (py_strip l) = Inr (Some (PyDict command))"
proof -
  obtain raw where raw: "loads (py_strip l) = Inr (Some raw)"
    using assms by (cases "loads (py_strip l)"; cases "projr (loads (py_strip l))")
      (auto simp: decode_line_def Let_def split: if_splits)
  show ?thesis
  proof (cases raw)
    case (PyDict d)
    then have "d = command"
      using assms raw by (cases "get_or_none d ''type''") (auto simp: decode_line_def Let_def split: if_splits)
    then show ?thesis using raw PyDict by simp
  qed (use assms raw in \<open>simp_all add: decode_line_def Let_def split: if_splits\<close>)
qed

text \<open>A line can only raise out of the daemon, and end it, when \<open>json.loads\<close> raises something other
  than a decoding error, or when a \<open>host_interaction\<close> or \<open>user_feedback\<close> command carries an integer
  timestamp beyond the largest double: every other input is answered.\<close>

theorem dispatch_raises_only:
  assumes "dispatch_line de clock l d = Inl e"
  shows "de_loads de (py_strip l) = Inl e
    \<or> e = OverflowError
      \<and> (\<exists>command i. de_loads de (py_strip l) = Inr (Some (PyDict command))
           \<and> dict_get command ''type'' \<in> {Some (PyStr ''host_interaction''), Some (PyStr ''user_feedback'')}
           \<and> dict_get command ''created_timestamp'' = Some (PyInt i) \<and> float_max_int \<le> \<bar>i\<bar>)"
proof (cases "decode_line (de_loads de) (de_repr de) l")
  case (Inl x)
  then show ?thesis using assms decode_line_raises by (auto simp: dispatch_line_def)
next
  case (Inr decoded)
  then obtain command where command: "decoded = Command command" "dispatch_command de clock command d = Inl e"
    using assms by (auto simp: dispatch_line_def split: decoded.splits)
  define t where "t = (case text_or_none (get_or_none command ''type'') of None \<Rightarrow> [] | Some t \<Rightarrow> t)"
  obtain rid where known: "t \<in> set HOST_COMMANDS" "t \<noteq> ''shutdown''" "run_handler de clock t command rid d = Inl e"
    using command(2) unfolding dispatch_command_def t_def [symmetric] Let_def by (auto split: if_splits)
  note raised = run_handler_raises [OF known(3,1,2)]
  have "dict_get command ''type'' = Some (PyStr t)"
  proof (cases "text_or_none (get_or_none command ''type'')")
    case None
    then show ?thesis using known(1) by (simp add: t_def HOST_COMMANDS_def)
  next
    case (Some s)
    then have "t = s" by (simp add: t_def)
    then show ?thesis using Some by (simp add: text_or_none_Some get_or_none_PyStr)
  qed
  moreover have "de_loads de (py_strip l) = Inr (Some (PyDict command))"
    using Inr command(1) by (intro decode_line_command) simp
  ultimately show ?thesis using raised by blast
qed

section \<open>Every line is answered\<close>

text \<open>The command of a line that is well formed: a JSON object of the protocol's version, with a known type and a request
  identifier that is a text and not empty.\<close>

definition asked_for :: "('p, 'c, 'f) daemon_env \<Rightarrow> string \<Rightarrow> string option" where
  "asked_for de l =
     (case de_loads de (py_strip l) of
        Inr (Some (PyDict command)) \<Rightarrow>
          (case get_or_none command ''type'' of
             PyStr t \<Rightarrow>
               if is_version (get_or_none command ''protocol_version'') \<and> t \<in> set HOST_COMMANDS
                  \<and> \<not> falsy (text_or_none (get_or_none command ''request_id'')) then Some t else None
           | _ \<Rightarrow> None)
      | _ \<Rightarrow> None)"

definition answer_type :: "string \<Rightarrow> string" where
  "answer_type t =
     (if t = ''hello'' then ''ready'' else if t = ''get_state'' then ''state''
      else if t = ''shutdown'' then ''shutdown_ack'' else ''ack'')"

text \<open>The answer to a command: an error, or the message of the command's kind with what it reports. A greeting is refused only
  while the daemon shuts down, and a shutdown never.\<close>

definition answers :: "('p, 'c, 'f) daemon_env \<Rightarrow> ('p, 'c, 'f) daemon \<Rightarrow> ('p, 'c, 'f) daemon \<Rightarrow> string \<Rightarrow> payload \<Rightarrow> bool" where
  "answers de d d' t m \<longleftrightarrow>
     typed_as ''error'' m \<and> t \<noteq> ''shutdown'' \<and> (t = ''hello'' \<longrightarrow> dm_phase d = SHUTTING_DOWN)
     \<or> typed_as (answer_type t) m
       \<and> (t = ''hello'' \<longrightarrow> dict_get m ''core_version'' = Some (PyStr (de_version de)))
       \<and> (t = ''set_watchlist'' \<longrightarrow>
            dict_get m ''watchlist_count'' = Some (PyInt (int (length (wl_list (en_watchlist (dm_engine d')))))))"

lemma refuse_answers:
  assumes "dm_out e = dm_out d" "t \<noteq> ''shutdown''" "t = ''hello'' \<longrightarrow> dm_phase d = SHUTTING_DOWN"
  shows "\<exists>m. dm_out (refuse code msg rid e) = dm_out d @ [m] \<and> answers de d (refuse code msg rid e) t m"
  using assms by (simp add: refuse_def answers_def typed_as_def)

lemma ack_answers:
  assumes "dm_out e = dm_out d" "answer_type t = ''ack''" "t \<noteq> ''set_watchlist''"
  shows "\<exists>m. dm_out (ack rid e) = dm_out d @ [m] \<and> answers de d (ack rid e) t m"
proof -
  have "t \<noteq> ''hello''" using assms(2) by (auto simp: answer_type_def)
  then show ?thesis using assms by (simp add: ack_def answers_def typed_as_def encode_message_get)
qed

lemma require_ready_cases:
  assumes "require_ready rid d rest = Inr d'"
  obtains "d' = refuse NOT_READY ''hello is required first'' rid d" | "rest = Inr d'"
  using assms by (cases "dm_phase d = AWAITING_HELLO") (simp_all add: require_ready_def)

lemma hello_answers:
  assumes "do_hello de rid d = Inr d'"
  shows "\<exists>m. dm_out d' = dm_out d @ [m] \<and> answers de d d' ''hello'' m"
proof -
  let ?m = "encode_message ''ready'' (Some rid) [(''core_version'', PyStr (de_version de))]"
  have "dict_get ?m ''core_version'' = Some (PyStr (de_version de))" by (rule encode_message_field) simp_all
  then show ?thesis
    using assms by (auto simp: do_hello_def Let_def answers_def answer_type_def typed_as_def encode_message_get)
qed

lemma set_watchlist_answers:
  assumes "do_set_watchlist command rid d = Inr d'"
  shows "\<exists>m. dm_out d' = dm_out d @ [m] \<and> answers de d d' ''set_watchlist'' m"
proof (cases "dm_phase d = AWAITING_HELLO")
  case True
  then have "d' = refuse NOT_READY ''hello is required first'' rid d"
    using assms by (simp add: do_set_watchlist_def require_ready_def)
  then show ?thesis using refuse_answers [of d d "''set_watchlist''"] by simp
next
  case False
  from set_watchlist_cases [OF False, of command rid] show ?thesis
  proof cases
    case (1 code msg)
    then show ?thesis using assms refuse_answers [of d d "''set_watchlist''"] by simp
  next
    case (2 parsed raws w stored)
    let ?m = "encode_message ''ack'' (Some rid) [(''watchlist_count'', PyInt (int (length (wl_list w))))]"
    have "dict_get ?m ''watchlist_count'' = Some (PyInt (int (length (wl_list w))))" by (rule encode_message_field) simp_all
    then show ?thesis
      using assms 2(4) by (auto simp: answers_def answer_type_def typed_as_def encode_message_get)
  qed
qed

lemma get_state_answers:
  assumes "do_get_state de clock rid d = Inr d'"
  shows "\<exists>m. dm_out d' = dm_out d @ [m] \<and> answers de d d' ''get_state'' m"
  using assms unfolding do_get_state_def
proof (cases rule: require_ready_cases)
  case 1
  then show ?thesis using refuse_answers [of d d "''get_state''"] by simp
next
  case 2
  then show ?thesis
    by (auto simp: send_state_def answers_def answer_type_def typed_as_def encode_message_get split: prod.split)
qed

lemma phase_answers:
  assumes "do_start rid d = Inr d' \<or> do_pause rid d = Inr d' \<or> do_resume rid d = Inr d'"
    and "answer_type t = ''ack''" "t \<noteq> ''hello''" "t \<noteq> ''set_watchlist''" "t \<noteq> ''shutdown''"
  shows "\<exists>m. dm_out d' = dm_out d @ [m] \<and> answers de d d' t m"
proof -
  have "(\<exists>code msg. d' = refuse code msg rid d) \<or> (\<exists>p. d' = ack rid (d\<lparr>dm_phase := p\<rparr>))"
    using assms(1) by (auto simp: do_start_def do_pause_def do_resume_def require_ready_def split: if_splits)
  then show ?thesis
  proof (elim disjE exE)
    fix code msg assume "d' = refuse code msg rid d"
    then show ?thesis using refuse_answers [OF refl assms(5)] assms(3) by simp
  next
    fix p assume "d' = ack rid (d\<lparr>dm_phase := p\<rparr>)"
    then show ?thesis using ack_answers [OF _ assms(2,4), of "d\<lparr>dm_phase := p\<rparr>" d] by simp
  qed
qed

lemma observation_answers:
  assumes "do_host_interaction de clock command rid d = Inr d' \<or> do_user_feedback de command rid d = Inr d'"
    and "answer_type t = ''ack''" "t \<noteq> ''hello''" "t \<noteq> ''set_watchlist''" "t \<noteq> ''shutdown''"
  shows "\<exists>m. dm_out d' = dm_out d @ [m] \<and> answers de d d' t m"
proof -
  have "\<exists>e. dm_out e = dm_out d \<and> ((\<exists>code msg. d' = refuse code msg rid e) \<or> d' = ack rid e)"
    using assms(1)
  proof
    assume run: "do_host_interaction de clock command rid d = Inr d'"
    show ?thesis
    proof (cases "dm_phase d = AWAITING_HELLO")
      case True
      then show ?thesis using run by (auto simp: do_host_interaction_def require_ready_def)
    next
      case False
      then obtain parsed where parsed: "parse_host_interaction command = Inr parsed"
        using run by (auto simp: do_host_interaction_def require_ready_later res_simps)
      note run' = run [unfolded do_host_interaction_def require_ready_later [OF False] parsed res_bind.simps]
      show ?thesis
      proof (cases parsed)
        case (Inl err)
        then show ?thesis using run' by auto
      next
        case (Inr given)
        then have "\<exists>tel. d' = ack rid (set_telemetry tel d)" using run' by (auto simp: Let_def)
        moreover have "dm_out (set_telemetry tel d) = dm_out d" for tel by simp
        ultimately show ?thesis by metis
      qed
    qed
  next
    assume run: "do_user_feedback de command rid d = Inr d'"
    show ?thesis
    proof (cases "dm_phase d = AWAITING_HELLO")
      case True
      then show ?thesis using run by (auto simp: do_user_feedback_def require_ready_def)
    next
      case False
      then obtain parsed where parsed: "parse_user_feedback command = Inr parsed"
        using run by (auto simp: do_user_feedback_def require_ready_later res_simps)
      note run' = run [unfolded do_user_feedback_def require_ready_later [OF False] parsed res_bind.simps]
      show ?thesis
      proof (cases parsed)
        case (Inl err)
        then show ?thesis using run' by auto
      next
        case (Inr given)
        then have "d' = ack rid d \<or> (\<exists>tel fb. d' = ack rid ((set_telemetry tel d)\<lparr>dm_feedback := fb\<rparr>)
            \<or> (\<exists>code msg. d' = refuse code msg rid ((set_telemetry tel d)\<lparr>dm_feedback := fb\<rparr>)))"
          using run' by (auto simp: Let_def split: option.splits prod.splits sum.splits)
        moreover have "dm_out ((set_telemetry tel d)\<lparr>dm_feedback := fb\<rparr>) = dm_out d" for tel fb by simp
        ultimately show ?thesis by metis
      qed
    qed
  qed
  then obtain e where e: "dm_out e = dm_out d" "(\<exists>code msg. d' = refuse code msg rid e) \<or> d' = ack rid e" by blast
  from e(2) show ?thesis
  proof (elim disjE exE)
    fix code msg assume "d' = refuse code msg rid e"
    then show ?thesis using refuse_answers [OF e(1) assms(5)] assms(3) by simp
  next
    assume "d' = ack rid e"
    then show ?thesis using ack_answers [OF e(1) assms(2,4)] by simp
  qed
qed

lemma run_handler_answers:
  assumes "run_handler de clock t command rid d = Inr d'" "t \<noteq> ''shutdown''"
  shows "\<exists>m. dm_out d' = dm_out d @ [m] \<and> answers de d d' t m"
proof (cases "t = ''hello''")
  case True
  then show ?thesis using assms(1) hello_answers by (simp add: run_handler_def)
next
  case hello: False
  show ?thesis
  proof (cases "t = ''set_watchlist''")
    case True
    then show ?thesis using assms(1) set_watchlist_answers by (simp add: run_handler_def)
  next
    case watch: False
    show ?thesis
    proof (cases "t = ''get_state''")
      case True
      then show ?thesis using assms(1) get_state_answers by (simp add: run_handler_def)
    next
      case False
      then have plain: "answer_type t = ''ack''" using hello assms(2) by (simp add: answer_type_def)
      have "(do_start rid d = Inr d' \<or> do_pause rid d = Inr d' \<or> do_resume rid d = Inr d')
          \<or> do_host_interaction de clock command rid d = Inr d' \<or> do_user_feedback de command rid d = Inr d'"
        using assms(1) hello watch False unfolding run_handler_def by (simp split: if_splits)
      then show ?thesis
        using phase_answers [OF _ plain hello watch assms(2)] observation_answers [OF _ plain hello watch assms(2)] by metis
    qed
  qed
qed

lemma dispatch_command_answers:
  assumes "dispatch_command de clock command d = Inr d'" "get_or_none command ''type'' = PyStr t"
  shows "\<exists>m. dm_out d' = dm_out d @ [m]
    \<and> (if t \<in> set HOST_COMMANDS \<and> \<not> falsy (text_or_none (get_or_none command ''request_id'')) then answers de d d' t m
       else typed_as ''error'' m)"
proof -
  let ?rid = "text_or_none (get_or_none command ''request_id'')"
  have t: "(case text_or_none (get_or_none command ''type'') of None \<Rightarrow> [] | Some t \<Rightarrow> t) = t"
    by (simp add: assms(2) text_or_none_def)
  note run = assms(1) [unfolded dispatch_command_def t Let_def]
  show ?thesis
  proof (cases "t \<in> set HOST_COMMANDS \<and> \<not> falsy ?rid")
    case False
    then show ?thesis using run by (auto simp: typed_as_def split: if_splits)
  next
    case True
    consider "t = ''shutdown''" "d' = do_shutdown (Some (the ?rid)) d"
      | "t \<noteq> ''shutdown''" "dm_phase d = SHUTTING_DOWN" "\<exists>code msg. d' = refuse code msg (the ?rid) d"
      | "t \<noteq> ''shutdown''" "run_handler de clock t command (the ?rid) d = Inr d'"
      using run True by (auto split: if_splits)
    then show ?thesis
    proof cases
      case 1
      then show ?thesis
        using True by (simp add: do_shutdown_def answers_def answer_type_def typed_as_def encode_message_get)
    next
      case 2
      then obtain code msg where "d' = refuse code msg (the ?rid) d" by blast
      then show ?thesis
        using True refuse_answers [where d = d and e = d and t = t and de = de and code = code and msg = msg and rid = "the ?rid"]
          2(1,2) by simp
    next
      case 3
      then show ?thesis using True run_handler_answers [OF 3(2,1)] by simp
    qed
  qed
qed

lemma dispatch_line_answers:
  assumes "dispatch_line de clock l d = Inr d'" "py_strip l \<noteq> []"
  shows "\<exists>m. dm_out d' = dm_out d @ [m]
    \<and> (case asked_for de l of None \<Rightarrow> typed_as ''error'' m | Some t \<Rightarrow> answers de d d' t m)"
proof -
  obtain decoded where decoded: "decode_line (de_loads de) (de_repr de) l = Inr decoded"
    using assms(1) by (auto simp: dispatch_line_def res_simps)
  obtain raw where raw: "de_loads de (py_strip l) = Inr raw"
    using decoded assms(2) by (auto simp: decode_line_def Let_def res_simps)
  note run = assms(1) [unfolded dispatch_line_def decoded res_bind.simps]
  show ?thesis
  proof (cases "\<exists>command t. raw = Some (PyDict command) \<and> is_version (get_or_none command ''protocol_version'')
      \<and> get_or_none command ''type'' = PyStr t \<and> t \<noteq> []")
    case True
    then obtain command t where command: "raw = Some (PyDict command)"
      "is_version (get_or_none command ''protocol_version'')" "get_or_none command ''type'' = PyStr t" "t \<noteq> []" by blast
    then have "decoded = Command command"
      using decoded raw assms(2) by (simp add: decode_line_def Let_def)
    then have "dispatch_command de clock command d = Inr d'" using run by simp
    from dispatch_command_answers [OF this command(3)] show ?thesis
      using raw command by (auto simp: asked_for_def)
  next
    case False
    have "\<exists>code msg rid. decoded = Refused (encode_error code msg rid)"
    proof (cases "\<exists>command. raw = Some (PyDict command)")
      case dict: True
      then obtain command where "raw = Some (PyDict command)" by blast
      then show ?thesis
        using decoded raw assms(2) False
        by (auto simp: decode_line_def Let_def split: pyval.splits if_splits)
    next
      case no_dict: False
      then show ?thesis using decoded raw assms(2) by (auto simp: decode_line_def split: option.splits pyval.splits)
    qed
    then obtain code msg rid where "d' = send (encode_error code msg rid) d" using run by auto
    moreover have "asked_for de l = None"
    proof (rule ccontr)
      assume "asked_for de l \<noteq> None"
      then obtain command t where "raw = Some (PyDict command)" "is_version (get_or_none command ''protocol_version'')"
        "get_or_none command ''type'' = PyStr t" "t \<in> set HOST_COMMANDS"
        using raw by (auto simp: asked_for_def split: option.splits pyval.splits if_splits)
      moreover have "[] \<notin> set HOST_COMMANDS" by (simp add: HOST_COMMANDS_def)
      ultimately show False using False by metis
    qed
    ultimately show ?thesis by (simp add: typed_as_def)
  qed
qed

text \<open>C6: Every line is answered exactly once. A blank line changes nothing. Any other is answered by one message under the
  request identifier it carries: the message of the command's kind, with the version of the core for a greeting and the
  new count for a watchlist, or an error, and always an error if the line is not a well-formed command. The one exception
  ends the daemon: \<open>json.loads\<close> raises something other than a decoding error, or the timestamp of a host interaction or of
  feedback is an integer beyond the largest double.\<close>

theorem every_line_answered_once:
  "case dispatch_line de clock l d of
     Inl e \<Rightarrow>
       de_loads de (py_strip l) = Inl e
       \<or> e = OverflowError
         \<and> (\<exists>command i. de_loads de (py_strip l) = Inr (Some (PyDict command))
              \<and> dict_get command ''type'' \<in> {Some (PyStr ''host_interaction''), Some (PyStr ''user_feedback'')}
              \<and> dict_get command ''created_timestamp'' = Some (PyInt i) \<and> float_max_int \<le> \<bar>i\<bar>)
   | Inr d' \<Rightarrow>
       if py_strip l = [] then d' = d
       else \<exists>m. dm_out d' = dm_out d @ [m]
         \<and> (\<forall>r. asked_under de l = Some r \<longrightarrow> dict_get m ''request_id'' = Some (PyStr r))
         \<and> (case asked_for de l of None \<Rightarrow> typed_as ''error'' m | Some t \<Rightarrow> answers de d d' t m)"
proof (cases "dispatch_line de clock l d")
  case (Inl e)
  then show ?thesis using dispatch_raises_only [OF Inl] by simp
next
  case (Inr d')
  show ?thesis
  proof (cases "py_strip l = []")
    case True
    then show ?thesis using dispatch_line_handled [OF Inr] Inr by simp
  next
    case False
    obtain m where m: "dm_out d' = dm_out d @ [m]"
      "case asked_for de l of None \<Rightarrow> typed_as ''error'' m | Some t \<Rightarrow> answers de d d' t m"
      using dispatch_line_answers [OF Inr False] by blast
    obtain rid where rid: "answered rid d d'" "\<forall>r. asked_under de l = Some r \<longrightarrow> rid = Some r"
      using dispatch_line_handled [OF Inr] False unfolding handled_def by blast
    then have "dict_get m ''request_id'' = map_option PyStr rid" using m(1) by (auto simp: answered_def)
    then have "\<forall>r. asked_under de l = Some r \<longrightarrow> dict_get m ''request_id'' = Some (PyStr r)" using rid(2) by auto
    then show ?thesis using m by (simp add: Inr False)
  qed
qed

text \<open>Replacing the watchlist is all or nothing: either the command is acknowledged and the list is
  exactly the items it names, in its order, without duplicates and within the limit, or it is refused
  with an error and neither the list nor its file changes.\<close>

theorem set_watchlist_atomic:
  assumes "do_set_watchlist command rid d = Inr d'" "dm_phase d \<noteq> AWAITING_HELLO"
  shows "(\<exists>raws parsed. get_or_none command ''items'' = PyList raws \<and> watch_items_of raws = Inr parsed
        \<and> wl_list (en_watchlist (dm_engine d')) = parsed \<and> distinct (map wi_symbol parsed)
        \<and> int (length parsed) \<le> wl_limit (en_watchlist (dm_engine d))
        \<and> dict_get (hd (rev (dm_out d'))) ''type'' = Some (PyStr ''ack''))
    \<or> dm_engine d' = dm_engine d \<and> dm_file d' = dm_file d
        \<and> dict_get (hd (rev (dm_out d'))) ''type'' = Some (PyStr ''error'')"
  using set_watchlist_cases [OF assms(2), of command rid]
proof cases
  case (1 code m)
  then show ?thesis using assms(1) by (auto simp: refuse_def)
next
  case (2 parsed raws w stored)
  obtain seen where seen: "collect_items parsed [] = Inr seen"
    "int (length seen) \<le> wl_limit (en_watchlist (dm_engine d))" "wl_items w = seen"
    using 2(3) by (auto simp: wl_replace_def res_simps wl_save_def split: if_splits)
  have items: "items_ok seen" "map snd seen = parsed"
    using collect_items_ok [OF seen(1)] by (simp_all add: items_ok_def)
  have "map fst seen = map (wi_symbol \<circ> snd) seen"
    by (rule map_cong [OF refl]) (use items(1) in \<open>auto simp: items_ok_def\<close>)
  then have "map fst seen = map wi_symbol parsed" by (simp flip: items(2))
  then have "distinct (map wi_symbol parsed)" using items(1) by (simp add: items_ok_def dict_wf_def)
  then show ?thesis
    using 2 assms(1) seen(2,3) items(2) by (auto simp: wl_list_def encode_message_get)
qed

subsection \<open>A sample session\<close>

definition sample_command :: "string \<Rightarrow> payload \<Rightarrow> pyval" where
  "sample_command t extra =
     PyDict ([(''protocol_version'', PyInt 1), (''type'', PyStr t), (''request_id'', PyStr ''r1'')] @ extra)"

definition sample_loads :: "string \<Rightarrow> pyval option res" where
  "sample_loads s =
     Inr (if s = ''watch'' then Some (sample_command ''set_watchlist''
            [(''items'', PyList [PyDict [(''symbol'', PyStr ''AAPL.US'')]])])
          else if s = ''late'' then Some (sample_command ''host_interaction''
            [(''action'', PyStr ''alert_badge_reset''), (''created_timestamp'', PyInt float_max_int)])
          else if s \<in> set HOST_COMMANDS then Some (sample_command s [])
          else None)"

definition sample_daemon_env :: "(fake_provider, telemetry_event list, unit) daemon_env" where
  "sample_daemon_env =
     \<lparr>de_engine = sample_engine_env, de_loads = sample_loads, de_repr = (\<lambda>_. ''value''), de_keys = concat,
      de_display = \<lparr>dp_title = (\<lambda>_. ''title''), dp_summary = (\<lambda>_. ''summary'')\<rparr>,
      de_feedback = (\<lambda>f _. (f, Inr ())), de_version = ''0.7.0''\<rparr>"

definition sample_daemon :: "(fake_provider, telemetry_event list, unit) daemon" where
  "sample_daemon = new_daemon sample_engine None Missing ()"

definition greeted_daemon :: "(fake_provider, telemetry_event list, unit) daemon" where
  "greeted_daemon = projr (dispatch_line sample_daemon_env sample_clock ''hello'' sample_daemon)"

lemma sample_daemon_env_ok: "env_ok sample_daemon_env"
  using sample_env_ok by (simp add: env_ok_def sample_daemon_env_def)

lemma sample_hello: "dispatch_line sample_daemon_env sample_clock ''hello'' sample_daemon = Inr greeted_daemon"
proof -
  have "\<not> raises (dispatch_line sample_daemon_env sample_clock ''hello'' sample_daemon)" by code_simp
  then show ?thesis unfolding greeted_daemon_def not_raises_iff by auto
qed

lemma sample_hello_run: "daemon_run sample_daemon_env sample_daemon greeted_daemon"
proof -
  have "\<not> dm_stop sample_daemon" by (simp add: sample_daemon_def new_daemon_def)
  from run_next [OF run_nil line [OF this sample_hello]] show ?thesis .
qed

lemma sample_stored: "wl_ok (en_watchlist sample_engine)" "wl_saved (en_watchlist sample_engine, Missing)"
  by (simp_all add: sample_engine_def wl_ok_def wl_saved_def dict_wf_def)

theorem daemon_session_safe_witness:
  "daemon_ok sample_daemon_env greeted_daemon
   \<and> (\<exists>r. daemon_tick sample_daemon_env sample_clock greeted_daemon = Inr r)"
proof (rule daemon_session_safe)
  show "engine_ok (env_uuid (ee_env (de_engine sample_daemon_env))) sample_engine"
    using sample_engine_ok by (simp add: sample_daemon_env_def)
  show "daemon_run sample_daemon_env (new_daemon sample_engine None Missing ()) greeted_daemon"
    using sample_hello_run by (simp add: sample_daemon_def)
qed (use sample_daemon_env_ok sample_stored in simp_all)

theorem every_line_answered_once_witness:
  "\<exists>m. dm_out greeted_daemon = [m] \<and> dict_get m ''request_id'' = Some (PyStr ''r1'')
     \<and> typed_as ''ready'' m \<and> dict_get m ''core_version'' = Some (PyStr ''0.7.0'')"
proof -
  have line: "py_strip ''hello'' \<noteq> []" "dm_out sample_daemon = []" "asked_under sample_daemon_env ''hello'' = Some ''r1''"
    "asked_for sample_daemon_env ''hello'' = Some ''hello''" by code_simp+
  have phase: "dm_phase sample_daemon = AWAITING_HELLO" by (simp add: sample_daemon_def new_daemon_def)
  from every_line_answered_once [where de = sample_daemon_env and clock = sample_clock and l = "''hello''" and d = sample_daemon]
  obtain m where "dm_out greeted_daemon = [m]" "dict_get m ''request_id'' = Some (PyStr ''r1'')"
    "answers sample_daemon_env sample_daemon greeted_daemon ''hello'' m"
    unfolding sample_hello sum.case line using line(1) by auto
  then show ?thesis by (auto simp: answers_def phase answer_type_def sample_daemon_env_def)
qed

theorem daemon_follows_protocol_witness:
  "phase_step (dm_phase sample_daemon) (dm_phase greeted_daemon) \<and> dm_phase greeted_daemon = READY"
proof -
  have stop: "\<not> dm_stop sample_daemon" by (simp add: sample_daemon_def new_daemon_def)
  have "daemon_ok sample_daemon_env sample_daemon"
    using sample_engine_ok sample_stored
    by (simp add: daemon_ok_def sample_daemon_def new_daemon_def sample_daemon_env_def stored_ok_def)
  with daemon_follows_protocol [OF line [OF stop sample_hello]]
  have "phase_step (dm_phase sample_daemon) (dm_phase greeted_daemon)" by blast
  moreover have "dm_phase greeted_daemon = READY" by code_simp
  ultimately show ?thesis by blast
qed

theorem dispatch_raises_only_witness:
  "dispatch_line sample_daemon_env sample_clock ''late'' greeted_daemon = Inl OverflowError
   \<and> (\<exists>command i. sample_loads ''late'' = Inr (Some (PyDict command))
        \<and> dict_get command ''created_timestamp'' = Some (PyInt i) \<and> float_max_int \<le> \<bar>i\<bar>)"
proof -
  have "case dispatch_line sample_daemon_env sample_clock ''late'' greeted_daemon of
      Inl e \<Rightarrow> e = OverflowError | Inr _ \<Rightarrow> False"
    by code_simp
  then have late: "dispatch_line sample_daemon_env sample_clock ''late'' greeted_daemon = Inl OverflowError"
    by (simp split: sum.splits)
  moreover have "de_loads sample_daemon_env (py_strip ''late'') = sample_loads ''late''" 
    "sample_loads ''late'' \<noteq> Inl OverflowError"
  proof -
    have "py_strip ''late'' = ''late''" by code_simp
    then show "de_loads sample_daemon_env (py_strip ''late'') = sample_loads ''late''"
      by (simp add: sample_daemon_env_def)
    show "sample_loads ''late'' \<noteq> Inl OverflowError" by (simp add: sample_loads_def)
  qed
  ultimately show ?thesis using dispatch_raises_only [OF late] by auto
qed

theorem set_watchlist_atomic_witness:
  "\<exists>d'. do_set_watchlist [(''items'', PyList [PyDict [(''symbol'', PyStr ''AAPL.US'')]])] ''r1'' greeted_daemon = Inr d'
     \<and> map wi_symbol (wl_list (en_watchlist (dm_engine d'))) = [''AAPL.US'']"
proof -
  let ?c = "[(''items'', PyList [PyDict [(''symbol'', PyStr ''AAPL.US'')]])]"
  obtain d' where d': "do_set_watchlist ?c ''r1'' greeted_daemon = Inr d'" using set_watchlist_total by blast
  have acked: "case do_set_watchlist ?c ''r1'' greeted_daemon of Inl _ \<Rightarrow> False
      | Inr d' \<Rightarrow> dict_get (hd (rev (dm_out d'))) ''type'' = Some (PyStr ''ack'')"
    by code_simp
  have "dm_phase greeted_daemon \<noteq> AWAITING_HELLO" by code_simp
  from set_watchlist_atomic [OF d' this] acked d'
  have "wl_list (en_watchlist (dm_engine d')) = [\<lparr>wi_symbol = ''AAPL.US'', wi_enabled = True\<rparr>]"
    by (auto simp: get_or_none_def watch_item_of_def)
  then show ?thesis using d' by auto
qed

theorem session_messages_typed_witness:
  "\<exists>m. dm_out greeted_daemon = [m] \<and> protocol_message m"
proof -
  have "daemon_run sample_daemon_env (new_daemon sample_engine None Missing ()) greeted_daemon"
    using sample_hello_run by (simp add: sample_daemon_def)
  note typed = session_messages_typed [OF this]
  have "length (dm_out greeted_daemon) = 1" by code_simp
  then obtain m where "dm_out greeted_daemon = [m]" by (auto simp: length_Suc_conv)
  then show ?thesis using typed by simp
qed

end
