(* ===== verification/Jsonl.thy ===== *)
theory Jsonl
  imports Telemetry "HOL-Library.Sublist"
begin

text \<open>
  \<open>telemetry/jsonl.py\<close>, \<open>telemetry/factory.py\<close> and \<open>evaluation/reader.py\<close>: the append-only log of JSON
  lines with its bounded rotation, the repair of a file whose last line was cut off, and the reader. A
  file is its list of bytes. File number 0 is the current one and number \<open>i\<close> its \<open>i\<close>-th backup.
  \<open>json.dumps\<close> followed by the encoding is the parameter \<open>dumps\<close>, and decoding followed by \<open>json.loads\<close>
  is \<open>parse\<close>, with \<open>None\<close> for text that is not UTF-8 or not JSON.
\<close>

section \<open>Lines of a file\<close>

type_synonym bytes = string

definition newline :: char where
  "newline = CHR 0x0A"

fun split_lines :: "bytes \<Rightarrow> bytes list" where
  "split_lines [] = [[]]"
| "split_lines (b # bs) =
     (if b = newline then [] # split_lines bs
      else case split_lines bs of l # ls \<Rightarrow> (b # l) # ls | [] \<Rightarrow> [[b]])"

definition ends_with_newline :: "bytes \<Rightarrow> bool" where
  "ends_with_newline raw \<longleftrightarrow> raw \<noteq> [] \<and> last raw = newline"

text \<open>The bytes up to and including the last newline, and those after it.\<close>

definition whole_part :: "bytes \<Rightarrow> bytes" where
  "whole_part raw = rev (dropWhile (\<lambda>b. b \<noteq> newline) (rev raw))"

definition tail_part :: "bytes \<Rightarrow> bytes" where
  "tail_part raw = rev (takeWhile (\<lambda>b. b \<noteq> newline) (rev raw))"

definition newline_terminated_lines :: "bytes \<Rightarrow> bytes list" where
  "newline_terminated_lines blob =
     (if blob = [] then []
      else if ends_with_newline blob then butlast (split_lines blob)
      else split_lines blob)"

text \<open>\<open>bytes.strip\<close> removes ASCII white space.\<close>

definition byte_space :: "char \<Rightarrow> bool" where
  "byte_space c \<longleftrightarrow> (let n = of_char c :: nat in 9 \<le> n \<and> n \<le> 13 \<or> n = 32)"

section \<open>Reading and repairing\<close>

record read_result =
  rd_records :: "payload list"
  rd_skipped_trailing_partial :: bool
  rd_malformed_complete_lines :: nat

definition rd_healthy :: "read_result \<Rightarrow> bool" where
  "rd_healthy r \<longleftrightarrow> rd_malformed_complete_lines r = 0"

definition read_line :: "(bytes \<Rightarrow> pyval option) \<Rightarrow> bytes \<Rightarrow> payload list \<times> nat \<Rightarrow> payload list \<times> nat" where
  "read_line parse l = (\<lambda>(records, malformed).
     if list_all byte_space l then (records, malformed)
     else case parse l of
       Some (PyDict d) \<Rightarrow> (records @ [d], malformed)
     | _ \<Rightarrow> (records, Suc malformed))"

definition read_jsonl :: "(bytes \<Rightarrow> pyval option) \<Rightarrow> bytes option \<Rightarrow> read_result" where
  "read_jsonl parse content =
     (case content of
        None \<Rightarrow> \<lparr>rd_records = [], rd_skipped_trailing_partial = False, rd_malformed_complete_lines = 0\<rparr>
      | Some raw \<Rightarrow>
          (let partial = raw \<noteq> [] \<and> \<not> ends_with_newline raw;
               valid_tail = partial \<and> parse (tail_part raw) \<noteq> None;
               complete = (if partial then whole_part raw else raw);
               ls = newline_terminated_lines complete @ (if valid_tail then [tail_part raw] else []);
               (records, malformed) = fold (read_line parse) ls ([], 0)
           in \<lparr>rd_records = records, rd_skipped_trailing_partial = partial \<and> \<not> valid_tail,
               rd_malformed_complete_lines = malformed\<rparr>))"

definition truncate_trailing_partial :: "(bytes \<Rightarrow> pyval option) \<Rightarrow> bytes option \<Rightarrow> bytes option" where
  "truncate_trailing_partial parse content =
     (case content of
        None \<Rightarrow> None
      | Some raw \<Rightarrow>
          if raw = [] \<or> ends_with_newline raw then Some raw
          else if parse (tail_part raw) = None then Some (whole_part raw)
          else Some (raw @ [newline]))"

section \<open>The sink\<close>

type_synonym log_files = "nat \<rightharpoonup> bytes"

record sink =
  sk_max_bytes :: int
  sk_backup_count :: int
  sk_allowlist :: "string list"
  sk_open :: bool
  sk_files :: log_files

definition open_file :: "log_files \<Rightarrow> log_files" where
  "open_file fs = (case fs 0 of None \<Rightarrow> fs(0 \<mapsto> []) | Some _ \<Rightarrow> fs)"

definition new_sink ::
  "(bytes \<Rightarrow> pyval option) \<Rightarrow> int \<Rightarrow> int \<Rightarrow> string list option \<Rightarrow> log_files \<Rightarrow> sink res" where
  "new_sink parse max_bytes backup_count allowlist fs =
     (if max_bytes < 1 then Inl (ValueError ''max_bytes must be >= 1'')
      else if backup_count < 1 then Inl (ValueError ''backup_count must be >= 1'')
      else Inr
        \<lparr>sk_max_bytes = max_bytes, sk_backup_count = backup_count,
         sk_allowlist = (case allowlist of None \<Rightarrow> TELEMETRY_ALLOWLIST | Some a \<Rightarrow> a),
         sk_open = True,
         sk_files = open_file (fs(0 := truncate_trailing_partial parse (fs 0)))\<rparr>)"

definition shift_backup :: "nat \<Rightarrow> log_files \<Rightarrow> log_files" where
  "shift_backup i fs = (case fs i of None \<Rightarrow> fs | Some b \<Rightarrow> fs(Suc i \<mapsto> b, i := None))"

definition rotate_files :: "nat \<Rightarrow> log_files \<Rightarrow> log_files" where
  "rotate_files n fs = open_file (shift_backup 0 (fold shift_backup (rev [1..<n]) (fs(n := None))))"

definition sink_close :: "sink \<Rightarrow> sink" where
  "sink_close s = s\<lparr>sk_open := False\<rparr>"

definition sink_require :: "sink \<Rightarrow> sink" where
  "sink_require s = (if sk_open s then s else s\<lparr>sk_open := True, sk_files := open_file (sk_files s)\<rparr>)"

definition append_file :: "bytes \<Rightarrow> log_files \<Rightarrow> log_files" where
  "append_file text fs = fs(0 \<mapsto> (case fs 0 of None \<Rightarrow> [] | Some b \<Rightarrow> b) @ text)"

definition sink_write :: "(payload \<Rightarrow> bytes) \<Rightarrow> sink \<Rightarrow> payload \<Rightarrow> sink \<times> unit res" where
  "sink_write dumps s given =
     (case project_allowlist given (sk_allowlist s) of
        Inl e \<Rightarrow> (s, Inl e)
      | Inr payload \<Rightarrow>
          (let s = sink_require s; fs = append_file (dumps payload @ [newline]) (sk_files s)
           in if int (length (the (fs 0))) \<ge> sk_max_bytes s
              then (s\<lparr>sk_files := rotate_files (nat (sk_backup_count s)) fs\<rparr>, Inr ())
              else (s\<lparr>sk_files := fs\<rparr>, Inr ())))"

section \<open>The reader\<close>

record loaded_telemetry =
  lt_records :: "payload list"
  lt_input_files :: "nat list"
  lt_records_read :: nat
  lt_malformed_complete_lines :: nat
  lt_skipped_trailing_partial :: bool
  lt_healthy :: bool

definition rotated_paths :: "log_files \<Rightarrow> nat \<Rightarrow> nat list" where
  "rotated_paths fs backup_count =
     filter (\<lambda>i. fs i \<noteq> None) (rev [1..<Suc backup_count]) @ (if fs 0 \<noteq> None then [0] else [])"

definition load_telemetry :: "(bytes \<Rightarrow> pyval option) \<Rightarrow> nat \<Rightarrow> log_files \<Rightarrow> loaded_telemetry" where
  "load_telemetry parse backup_count fs =
     (let names = rotated_paths fs backup_count;
          results = map (\<lambda>i. read_jsonl parse (fs i)) names;
          records = concat (map rd_records results);
          malformed = sum_list (map rd_malformed_complete_lines results)
      in \<lparr>lt_records = records, lt_input_files = names, lt_records_read = length records,
          lt_malformed_complete_lines = malformed,
          lt_skipped_trailing_partial = list_ex rd_skipped_trailing_partial results,
          lt_healthy = (malformed = 0)\<rparr>)"

section \<open>The lazy feedback file\<close>

text \<open>The feedback file is only opened, and repaired, when the first feedback arrives.\<close>

definition lazy_feedback_record ::
  "(payload \<Rightarrow> bytes) \<Rightarrow> (bytes \<Rightarrow> pyval option) \<Rightarrow> int \<Rightarrow> int
    \<Rightarrow> sink option \<times> log_files \<Rightarrow> user_feedback \<Rightarrow> (sink option \<times> log_files) \<times> unit res" where
  "lazy_feedback_record dumps parse max_bytes backup_count = (\<lambda>(inner, fs) feedback.
     case (case inner of Some s \<Rightarrow> Inr s | None \<Rightarrow> new_sink parse max_bytes backup_count (Some FEEDBACK_ALLOWLIST) fs) of
       Inl e \<Rightarrow> ((None, fs), Inl e)
     | Inr s \<Rightarrow>
         (case feedback_to_record feedback of
            Inl e \<Rightarrow> ((Some s, sk_files s), Inl e)
          | Inr record \<Rightarrow>
              (case sink_write dumps s record of (s, outcome) \<Rightarrow> ((Some s, sk_files s), outcome))))"

definition lazy_feedback_close :: "sink option \<times> log_files \<Rightarrow> sink option \<times> log_files" where
  "lazy_feedback_close = (\<lambda>(inner, fs).
     case inner of None \<Rightarrow> (None, fs) | Some s \<Rightarrow> (None, sk_files (sink_close s)))"

section \<open>Lines\<close>

lemma whole_tail: "whole_part raw @ tail_part raw = raw"
proof -
  have "rev (takeWhile P xs @ dropWhile P xs) = rev xs" for P and xs :: bytes by simp
  from this [of "\<lambda>b. b \<noteq> newline" "rev raw"] show ?thesis
    by (simp add: whole_part_def tail_part_def del: takeWhile_dropWhile_id)
qed

lemma newline_notin_tail: "newline \<notin> set (tail_part raw)"
  by (auto simp: tail_part_def dest: set_takeWhileD)

lemma whole_part_ends: "whole_part raw = [] \<or> ends_with_newline (whole_part raw)"
proof (cases "dropWhile (\<lambda>b. b \<noteq> newline) (rev raw)")
  case (Cons b bs)
  then have "b = newline" using hd_dropWhile [of "\<lambda>b. b \<noteq> newline" "rev raw"] by fastforce
  then show ?thesis by (simp add: whole_part_def Cons ends_with_newline_def)
qed (simp add: whole_part_def)

lemma ends_with_newline_append [simp]: "ends_with_newline (xs @ [newline])"
  by (simp add: ends_with_newline_def)

lemma ends_with_newlineE:
  assumes "ends_with_newline raw"
  obtains xs where "raw = xs @ [newline]"
  using assms by (cases raw rule: rev_cases) (auto simp: ends_with_newline_def)

lemma whole_part_append:
  assumes "newline \<notin> set p" "ends_with_newline raw \<or> raw = []"
  shows "whole_part (raw @ p) = raw" "tail_part (raw @ p) = p"
proof -
  have "\<forall>b \<in> set (rev p). b \<noteq> newline" using assms(1) by auto
  note skip = dropWhile_append2 [of "rev p" "\<lambda>b. b \<noteq> newline" "rev raw"]
  have "whole_part (raw @ p) = raw"
  proof (cases "raw = []")
    case True
    then show ?thesis using \<open>\<forall>b \<in> set (rev p). b \<noteq> newline\<close> by (simp add: whole_part_def)
  next
    case False
    then obtain xs where "raw = xs @ [newline]" using assms(2) by (auto elim: ends_with_newlineE)
    then show ?thesis using skip \<open>\<forall>b \<in> set (rev p). b \<noteq> newline\<close> by (simp add: whole_part_def)
  qed
  then show "whole_part (raw @ p) = raw" "tail_part (raw @ p) = p"
    using whole_tail [of "raw @ p"] by simp_all
qed

lemma split_lines_not_Nil [simp]: "split_lines bs \<noteq> []"
  by (induction bs) (auto split: list.split)

lemma split_lines_append_newline: "split_lines (xs @ newline # ys) = split_lines xs @ split_lines ys"
  by (induction xs) (auto split: list.split)

lemma split_lines_plain: "newline \<notin> set xs \<Longrightarrow> split_lines xs = [xs]"
  by (induction xs) auto

lemma newline_terminated_append: "newline_terminated_lines (xs @ [newline]) = split_lines xs"
  using split_lines_append_newline [of xs "[]"] by (simp add: newline_terminated_lines_def)

lemma split_lines_whole: "split_lines raw = newline_terminated_lines (whole_part raw) @ [tail_part raw]"
proof (cases "whole_part raw = []")
  case True
  then have "raw = tail_part raw" using whole_tail [of raw] by simp
  then have "newline \<notin> set raw" using newline_notin_tail by metis
  then show ?thesis using True \<open>raw = tail_part raw\<close> by (simp add: newline_terminated_lines_def split_lines_plain)
next
  case False
  then obtain xs where xs: "whole_part raw = xs @ [newline]" using whole_part_ends ends_with_newlineE by metis
  have "split_lines raw = split_lines (xs @ newline # tail_part raw)" using whole_tail [of raw] xs by simp
  then show ?thesis
    using xs by (simp add: split_lines_append_newline split_lines_plain newline_notin_tail newline_terminated_append)
qed

text \<open>Repairing a file never changes what is read from it: whatever bytes it holds, the records and the
  count of malformed lines are the same before and after, and no cut-off line is left.\<close>

theorem repair_preserves_reading:
  "let before = read_jsonl parse content; repaired = read_jsonl parse (truncate_trailing_partial parse content)
   in rd_records repaired = rd_records before
      \<and> rd_malformed_complete_lines repaired = rd_malformed_complete_lines before
      \<and> \<not> rd_skipped_trailing_partial repaired"
proof (cases content)
  case None
  then show ?thesis by (simp add: truncate_trailing_partial_def read_jsonl_def)
next
  case (Some raw)
  show ?thesis
  proof (cases "raw = [] \<or> ends_with_newline raw")
    case True
    then show ?thesis by (auto simp: Some truncate_trailing_partial_def read_jsonl_def Let_def split_beta)
  next
    case partial: False
    show ?thesis
    proof (cases "parse (tail_part raw)")
      case None
      then show ?thesis
        using partial whole_part_ends [of raw]
        by (auto simp: Some truncate_trailing_partial_def read_jsonl_def Let_def split_beta)
    next
      case v: (Some v)
      then show ?thesis
        using partial split_lines_whole [of raw]
        by (simp add: Some truncate_trailing_partial_def read_jsonl_def Let_def split_beta newline_terminated_append)
    qed
  qed
qed

section \<open>What is written is read\<close>

definition log_text :: "(payload \<Rightarrow> bytes) \<Rightarrow> payload list \<Rightarrow> bytes" where
  "log_text dumps rs = concat (map (\<lambda>r. dumps r @ [newline]) rs)"

text \<open>
  What is relied on of the JSON codec, for one record: its text is one line, is not blank, decodes to the
  record, and no text cut off inside it is JSON.
\<close>

definition codec_ok :: "(payload \<Rightarrow> bytes) \<Rightarrow> (bytes \<Rightarrow> pyval option) \<Rightarrow> payload \<Rightarrow> bool" where
  "codec_ok dumps parse r \<longleftrightarrow>
     newline \<notin> set (dumps r) \<and> parse (dumps r) = Some (PyDict r) \<and> \<not> list_all byte_space (dumps r)
     \<and> list_all (\<lambda>n. parse (take n (dumps r)) = None) [0..<length (dumps r)]"

lemma log_text_simps [simp]:
  "log_text dumps [] = []" "log_text dumps (r # rs) = dumps r @ newline # log_text dumps rs"
  "log_text dumps (rs @ qs) = log_text dumps rs @ log_text dumps qs"
  by (simp_all add: log_text_def)

lemma log_text_ends: "log_text dumps rs = [] \<or> ends_with_newline (log_text dumps rs)"
  by (cases rs rule: rev_cases) (simp_all add: ends_with_newline_def)

lemma lines_log_text:
  assumes "\<forall>r \<in> set rs. codec_ok dumps parse r"
  shows "newline_terminated_lines (log_text dumps rs) = map dumps rs"
proof -
  have split: "split_lines (log_text dumps rs) = map dumps rs @ [[]]"
    using assms by (induction rs) (simp_all add: split_lines_append_newline split_lines_plain codec_ok_def)
  then show ?thesis
    using log_text_ends [of dumps rs] by (cases rs) (auto simp: newline_terminated_lines_def)
qed

lemma read_lines_of:
  assumes "\<forall>r \<in> set rs. codec_ok dumps parse r"
  shows "fold (read_line parse) (map dumps rs) (acc, m) = (acc @ rs, m)"
  using assms by (induction rs arbitrary: acc) (simp_all add: read_line_def codec_ok_def)

lemma read_log_text:
  assumes "\<forall>r \<in> set rs. codec_ok dumps parse r"
  shows "read_jsonl parse (Some (log_text dumps rs))
    = \<lparr>rd_records = rs, rd_skipped_trailing_partial = False, rd_malformed_complete_lines = 0\<rparr>"
  using log_text_ends [of dumps rs] lines_log_text [OF assms] read_lines_of [OF assms, of "[]" 0]
  by (auto simp: read_jsonl_def Let_def)

text \<open>C26: A crash in the middle of a write costs at most the record being written: whatever part of its line
  reached the file, opening the log again leaves exactly the complete records, followed by the new one
  only if all of its text had been written, and nothing malformed.\<close>

theorem crash_loses_at_most_one:
  assumes "\<forall>r \<in> set (rs @ [r]). codec_ok dumps parse r" "n \<le> Suc (length (dumps r))"
  shows "read_jsonl parse (truncate_trailing_partial parse
      (Some (log_text dumps rs @ take n (dumps r @ [newline]))))
    = \<lparr>rd_records = (if n < length (dumps r) then rs else rs @ [r]), rd_skipped_trailing_partial = False,
       rd_malformed_complete_lines = 0\<rparr>"
proof -
  let ?p = "take n (dumps r)"
  have ok: "\<forall>q \<in> set rs. codec_ok dumps parse q" "codec_ok dumps parse r" using assms(1) by simp_all
  have plain: "newline \<notin> set ?p" using ok(2) by (auto simp: codec_ok_def dest: in_set_takeD)
  note parts = whole_part_append [OF plain, of "log_text dumps rs"]
  consider "n = 0" | "0 < n" "n < length (dumps r)" | "n = length (dumps r)" "0 < n" | "n = Suc (length (dumps r))"
    using assms(2) by linarith
  then show ?thesis
  proof cases
    case 1
    moreover have "dumps r \<noteq> []" using ok(2) by (auto simp: codec_ok_def)
    ultimately show ?thesis
      using log_text_ends [of dumps rs] read_log_text [OF ok(1)] by (auto simp: truncate_trailing_partial_def)
  next
    case 2
    have "parse ?p = None" using ok(2) 2 by (simp add: codec_ok_def list_all_iff)
    moreover have "?p \<noteq> []" using 2 by auto
    moreover have "last ?p \<noteq> newline" using last_in_set [OF \<open>?p \<noteq> []\<close>] plain by metis
    moreover have "\<not> ends_with_newline (log_text dumps rs @ ?p)"
      using \<open>?p \<noteq> []\<close> \<open>last ?p \<noteq> newline\<close> by (simp add: ends_with_newline_def)
    ultimately have "truncate_trailing_partial parse (Some (log_text dumps rs @ ?p)) = Some (log_text dumps rs)"
      using parts log_text_ends [of dumps rs] by (auto simp: truncate_trailing_partial_def)
    then show ?thesis using 2 read_log_text [OF ok(1)] by simp
  next
    case 3
    then have p: "?p = dumps r" "dumps r \<noteq> []" by auto
    then have "parse (dumps r) = Some (PyDict r)" using ok(2) by (simp add: codec_ok_def)
    moreover have "last (dumps r) \<noteq> newline" using last_in_set [OF p(2)] plain p(1) by metis
    ultimately have "truncate_trailing_partial parse (Some (log_text dumps rs @ dumps r)) = Some (log_text dumps (rs @ [r]))"
      using parts p log_text_ends [of dumps rs]
      by (auto simp: truncate_trailing_partial_def ends_with_newline_def last_append)
    then show ?thesis using 3 read_log_text [OF assms(1)] by simp
  next
    case 4
    have "truncate_trailing_partial parse (Some (log_text dumps (rs @ [r]))) = Some (log_text dumps (rs @ [r]))"
      using log_text_ends [of dumps "rs @ [r]"] by (auto simp: truncate_trailing_partial_def)
    then show ?thesis using 4 read_log_text [OF assms(1)] by simp
  qed
qed

section \<open>Rotation\<close>

lemma shift_backups:
  "g (Suc m) = None \<Longrightarrow> fold shift_backup (rev [1..<Suc m]) g
    = (\<lambda>i. if i = 1 then None else if 2 \<le> i \<and> i \<le> Suc m then g (i - 1) else g i)"
proof (induction m arbitrary: g)
  case 0
  then show ?case by (auto simp: fun_eq_iff)
next
  case (Suc m)
  let ?g = "g(Suc (Suc m) := g (Suc m), Suc m := None)"
  have step: "shift_backup (Suc m) g = ?g"
    using Suc.prems by (auto simp: shift_backup_def fun_eq_iff split: option.split)
  have "rev [1..<Suc (Suc m)] = Suc m # rev [1..<Suc m]" by simp
  then have "fold shift_backup (rev [1..<Suc (Suc m)]) g = fold shift_backup (rev [1..<Suc m]) ?g"
    by (simp add: step del: upt_Suc)
  also have "\<dots> = (\<lambda>i. if i = 1 then None else if 2 \<le> i \<and> i \<le> Suc m then ?g (i - 1) else ?g i)"
    by (rule Suc.IH) simp
  finally show ?case by (auto simp: fun_eq_iff)
qed

text \<open>Rotation renames every file to the next number, drops the last one and starts an empty file.\<close>

lemma rotate_files_eq:
  assumes "0 < n"
  shows "rotate_files n fs = (\<lambda>i. if i = 0 then Some [] else if i \<le> n then fs (i - 1) else fs i)"
proof -
  obtain m where n: "n = Suc m" using assms by (cases n) auto
  have "fold shift_backup (rev [1..<n]) (fs(n := None))
      = (\<lambda>i. if i = 1 then None else if 2 \<le> i \<and> i \<le> Suc m then (fs(n := None)) (i - 1) else (fs(n := None)) i)"
    unfolding n by (rule shift_backups) simp
  then have shifted: "fold shift_backup (rev [1..<n]) (fs(n := None))
      = (\<lambda>i. if i = 1 then None else if 2 \<le> i \<and> i \<le> n then fs (i - 1) else fs i)"
    by (auto simp: n fun_eq_iff)
  show ?thesis
  proof
    fix i show "rotate_files n fs i = (if i = 0 then Some [] else if i \<le> n then fs (i - 1) else fs i)"
      using n unfolding rotate_files_def shifted
      by (cases "fs 0"; cases "i = 0"; cases "i = 1") (simp_all add: open_file_def shift_backup_def)
  qed
qed

text \<open>
  The abstract log: the records of each file, the current one first. A write appends to the first and,
  once it is full, pushes an empty one and forgets the last.
\<close>

definition seg_write :: "(payload \<Rightarrow> bytes) \<Rightarrow> nat \<Rightarrow> int \<Rightarrow> payload \<Rightarrow> payload list list \<Rightarrow> payload list list" where
  "seg_write dumps n max_bytes r segs =
     (let cur = hd segs @ [r]
      in if int (length (log_text dumps cur)) \<ge> max_bytes then [] # take n (cur # tl segs) else cur # tl segs)"

definition holds :: "(payload \<Rightarrow> bytes) \<Rightarrow> sink \<Rightarrow> payload list list \<Rightarrow> bool" where
  "holds dumps s segs \<longleftrightarrow>
     1 \<le> sk_backup_count s \<and> sk_open s \<and> segs \<noteq> [] \<and> length segs \<le> Suc (nat (sk_backup_count s))
     \<and> (\<forall>i \<le> nat (sk_backup_count s).
          sk_files s i = (if i < length segs then Some (log_text dumps (segs ! i)) else None))"

lemma sink_write_holds:
  assumes "holds dumps s segs" "project_allowlist r (sk_allowlist s) = Inr r"
  shows "\<exists>s'. sink_write dumps s r = (s', Inr ())
    \<and> holds dumps s' (seg_write dumps (nat (sk_backup_count s)) (sk_max_bytes s) r segs)
    \<and> sk_max_bytes s' = sk_max_bytes s \<and> sk_backup_count s' = sk_backup_count s \<and> sk_allowlist s' = sk_allowlist s"
proof -
  let ?n = "nat (sk_backup_count s)"
  obtain cur backs where segs: "segs = cur # backs" using assms(1) by (cases segs) (auto simp: holds_def)
  let ?fs = "append_file (dumps r @ [newline]) (sk_files s)"
  have n: "0 < ?n" using assms(1) by (simp add: holds_def)
  have fs: "?fs i = (if i < length segs then Some (log_text dumps (((cur @ [r]) # backs) ! i)) else None)" if "i \<le> ?n" for i
    using assms(1) that by (cases i) (auto simp: holds_def segs append_file_def)
  have now: "the (?fs 0) = log_text dumps (cur @ [r])" using fs [of 0] by (simp add: segs)
  have wr: "sink_write dumps s r =
      (if int (length (log_text dumps (cur @ [r]))) \<ge> sk_max_bytes s
       then (s\<lparr>sk_files := rotate_files ?n ?fs\<rparr>, Inr ()) else (s\<lparr>sk_files := ?fs\<rparr>, Inr ()))"
    using assms by (simp add: sink_write_def sink_require_def holds_def Let_def now del: log_text_simps)
  show ?thesis
  proof (cases "int (length (log_text dumps (cur @ [r]))) \<ge> sk_max_bytes s")
    case False
    then have "holds dumps (s\<lparr>sk_files := ?fs\<rparr>) (seg_write dumps ?n (sk_max_bytes s) r segs)"
      using assms(1) fs by (simp add: holds_def seg_write_def Let_def segs del: log_text_simps)
    then show ?thesis using False by (simp add: wr del: log_text_simps)
  next
    case True
    have "rotate_files ?n ?fs i = (if i < length ([] # take ?n ((cur @ [r]) # backs))
        then Some (log_text dumps (([] # take ?n ((cur @ [r]) # backs)) ! i)) else None)" if "i \<le> ?n" for i
      using that n fs [of "i - 1"] by (cases i) (auto simp: rotate_files_eq segs simp del: log_text_simps(3))
    then have "holds dumps (s\<lparr>sk_files := rotate_files ?n ?fs\<rparr>) (seg_write dumps ?n (sk_max_bytes s) r segs)"
      using assms(1) True by (simp add: holds_def seg_write_def Let_def segs del: log_text_simps)
    then show ?thesis using True by (simp add: wr del: log_text_simps)
  qed
qed

text \<open>Writing a list of records one after the other.\<close>

fun write_all :: "(payload \<Rightarrow> bytes) \<Rightarrow> sink \<Rightarrow> payload list \<Rightarrow> sink" where
  "write_all dumps s [] = s"
| "write_all dumps s (r # rs) = write_all dumps (fst (sink_write dumps s r)) rs"

lemma write_all_holds:
  assumes "holds dumps s segs" "\<forall>r \<in> set rs. project_allowlist r (sk_allowlist s) = Inr r"
  shows "holds dumps (write_all dumps s rs) (fold (seg_write dumps (nat (sk_backup_count s)) (sk_max_bytes s)) rs segs)
    \<and> sk_backup_count (write_all dumps s rs) = sk_backup_count s"
  using assms
proof (induction rs arbitrary: s segs)
  case (Cons r rs)
  have "project_allowlist r (sk_allowlist s) = Inr r" using Cons.prems(2) by simp
  from sink_write_holds [OF Cons.prems(1) this] obtain s' where s': "sink_write dumps s r = (s', Inr ())"
    "holds dumps s' (seg_write dumps (nat (sk_backup_count s)) (sk_max_bytes s) r segs)"
    "sk_max_bytes s' = sk_max_bytes s" "sk_backup_count s' = sk_backup_count s" "sk_allowlist s' = sk_allowlist s"
    by blast
  show ?case using Cons.IH [OF s'(2)] Cons.prems(2) s' by simp
qed simp

text \<open>What the abstract log keeps: the newest records, and never less than its backups hold when full.\<close>

definition seg_ok :: "(payload \<Rightarrow> bytes) \<Rightarrow> nat \<Rightarrow> int \<Rightarrow> payload list \<Rightarrow> payload list list \<Rightarrow> bool" where
  "seg_ok dumps n max_bytes all segs \<longleftrightarrow>
     segs \<noteq> [] \<and> length segs \<le> Suc n \<and> suffix (concat (rev segs)) all
     \<and> (concat (rev segs) = all \<or> length segs = Suc n)
     \<and> int (length (log_text dumps (hd segs))) < max_bytes
     \<and> (\<forall>seg \<in> set (tl segs). max_bytes \<le> int (length (log_text dumps seg)))"

lemma seg_write_ok:
  assumes "seg_ok dumps n max_bytes all segs" "0 < n" "0 < max_bytes"
  shows "seg_ok dumps n max_bytes (all @ [r]) (seg_write dumps n max_bytes r segs)"
proof -
  obtain cur backs where segs: "segs = cur # backs" using assms(1) by (cases segs) (auto simp: seg_ok_def)
  have suf: "suffix (concat (rev backs) @ cur @ [r]) (all @ [r])"
    using assms(1) by (auto simp: seg_ok_def segs suffix_def)
  show ?thesis
  proof (cases "int (length (log_text dumps (cur @ [r]))) \<ge> max_bytes")
    case False
    then show ?thesis
      using assms(1) suf by (auto simp: seg_ok_def seg_write_def segs simp del: log_text_simps)
  next
    case True
    let ?all = "(cur @ [r]) # backs"
    have "suffix (concat (rev (take n ?all))) (concat (rev ?all))"
    proof -
      have "concat (rev ?all) = concat (rev (drop n ?all)) @ concat (rev (take n ?all))"
        by (metis append_take_drop_id concat_append rev_append)
      then show ?thesis by (metis suffixI)
    qed
    then have "suffix (concat (rev (take n ?all))) (all @ [r])" using suf suffix_order.trans by fastforce
    moreover have "concat (rev (take n ?all)) = all @ [r] \<or> length (take n ?all) = n"
    proof (cases "length ?all \<le> n")
      case True
      then have "concat (rev backs) @ cur = all" using assms(1) by (auto simp: seg_ok_def segs)
      then show ?thesis using True by auto
    qed simp
    moreover have "\<forall>seg \<in> set (take n ?all). max_bytes \<le> int (length (log_text dumps seg))"
      using assms(1) True by (auto simp: seg_ok_def segs simp del: log_text_simps dest!: in_set_takeD)
    ultimately show ?thesis
      using True assms(3) by (auto simp: seg_ok_def seg_write_def segs simp del: log_text_simps(2,3))
  qed
qed

lemma rotated_paths_segs:
  assumes "\<forall>i \<le> n. (fs i \<noteq> None) = (i < m)" "0 < m" "m \<le> Suc n"
  shows "rotated_paths fs n = rev [0..<m]"
proof -
  have "filter (\<lambda>i. fs i \<noteq> None) [1..<Suc n] = filter (\<lambda>i. i < m) [1..<Suc n]"
  proof (intro filter_cong refl)
    fix i assume "i \<in> set [1..<Suc n]"
    then have "i \<le> n" by (simp add: less_Suc_eq_le del: upt_Suc)
    then show "(fs i \<noteq> None) = (i < m)" using assms(1) by blast
  qed
  also have "\<dots> = filter (\<lambda>i. i < m) ([1..<m] @ [m..<Suc n])"
    using assms(2,3) upt_add_eq_append [of 1 m "Suc n - m"] by (simp del: upt_Suc)
  also have "\<dots> = [1..<m]" by (simp del: upt_Suc)
  finally have "filter (\<lambda>i. fs i \<noteq> None) (rev [1..<Suc n]) = rev [1..<m]" by (simp only: rev_filter [symmetric])
  moreover have "[0..<m] = 0 # [1..<m]" using assms(2) by (simp add: upt_conv_Cons)
  moreover have "fs 0 \<noteq> None" using assms(1,2) by blast
  ultimately show ?thesis by (simp add: rotated_paths_def del: upt_Suc)
qed

lemma load_holds:
  assumes "holds dumps s segs" "\<forall>seg \<in> set segs. \<forall>r \<in> set seg. codec_ok dumps parse r"
  shows "lt_records (load_telemetry parse (nat (sk_backup_count s)) (sk_files s)) = concat (rev segs)"
    "lt_healthy (load_telemetry parse (nat (sk_backup_count s)) (sk_files s))"
    "\<not> lt_skipped_trailing_partial (load_telemetry parse (nat (sk_backup_count s)) (sk_files s))"
proof -
  have paths: "rotated_paths (sk_files s) (nat (sk_backup_count s)) = rev [0..<length segs]"
    by (rule rotated_paths_segs) (use assms(1) in \<open>auto simp: holds_def\<close>)
  have each: "read_jsonl parse (sk_files s i) = \<lparr>rd_records = segs ! i, rd_skipped_trailing_partial = False,
      rd_malformed_complete_lines = 0\<rparr>" if "i < length segs" for i
  proof -
    have "segs ! i \<in> set segs" using that by simp
    then have "\<forall>r \<in> set (segs ! i). codec_ok dumps parse r" using assms(2) by blast
    moreover have "sk_files s i = Some (log_text dumps (segs ! i))"
      using that assms(1) by (simp add: holds_def)
    ultimately show ?thesis using read_log_text by simp
  qed
  have results: "map (\<lambda>i. read_jsonl parse (sk_files s i)) (rev [0..<length segs])
      = map (\<lambda>seg. \<lparr>rd_records = seg, rd_skipped_trailing_partial = False, rd_malformed_complete_lines = 0\<rparr>) (rev segs)"
    by (intro nth_equalityI) (simp_all add: rev_nth each)
  show "lt_records (load_telemetry parse (nat (sk_backup_count s)) (sk_files s)) = concat (rev segs)"
    "lt_healthy (load_telemetry parse (nat (sk_backup_count s)) (sk_files s))"
    "\<not> lt_skipped_trailing_partial (load_telemetry parse (nat (sk_backup_count s)) (sk_files s))"
    unfolding load_telemetry_def Let_def paths results
    by (simp_all add: comp_def list_ex_iff sum_list_0)
qed

lemma log_text_concat: "log_text dumps (concat segs) = concat (map (log_text dumps) segs)"
  by (induction segs) simp_all

lemma seg_ok_retains:
  assumes "seg_ok dumps n max_bytes all segs"
  shows "concat (rev segs) = all \<or> int n * max_bytes \<le> int (length (log_text dumps (concat (rev segs))))"
proof (cases "concat (rev segs) = all")
  case False
  obtain cur backs where segs: "segs = cur # backs" using assms by (cases segs) (auto simp: seg_ok_def)
  have backs: "length backs = n" "\<forall>seg \<in> set backs. max_bytes \<le> int (length (log_text dumps seg))"
    using assms False by (auto simp: seg_ok_def segs)
  have "int (length bs) * max_bytes \<le> int (length (log_text dumps (concat (rev bs))))"
    if "\<forall>seg \<in> set bs. max_bytes \<le> int (length (log_text dumps seg))" for bs
    using that by (induction bs) (simp_all add: algebra_simps)
  from this [OF backs(2)] backs(1) show ?thesis by (simp add: segs)
qed simp

text \<open>C25: What is written is what is read, up to the rotation's bound: after writing any records to a fresh
  log, loading it through all its backups gives a final part of them in order, undamaged; and if anything
  older was dropped, what remains fills at least the configured number of backups.\<close>

theorem log_keeps_newest:
  assumes "new_sink parse max_bytes backup_count allowlist Map.empty = Inr s"
    and "\<forall>r \<in> set rs. codec_ok dumps parse r \<and> project_allowlist r (sk_allowlist s) = Inr r"
    and "loaded = load_telemetry parse (nat backup_count) (sk_files (write_all dumps s rs))"
  shows "suffix (lt_records loaded) rs \<and> lt_healthy loaded \<and> \<not> lt_skipped_trailing_partial loaded
    \<and> (lt_records loaded = rs \<or> backup_count * max_bytes \<le> int (length (log_text dumps (lt_records loaded))))"
proof -
  have config: "1 \<le> max_bytes" "1 \<le> backup_count" "sk_max_bytes s = max_bytes" "sk_backup_count s = backup_count"
    using assms(1) by (auto simp: new_sink_def split: if_splits)
  have fresh: "holds dumps s [[]]"
    using assms(1) by (auto simp: new_sink_def holds_def truncate_trailing_partial_def open_file_def split: if_splits)
  let ?put = "seg_write dumps (nat backup_count) max_bytes"
  let ?segs = "fold ?put rs [[]]"
  have held: "holds dumps (write_all dumps s rs) ?segs" "sk_backup_count (write_all dumps s rs) = backup_count"
    using write_all_holds [OF fresh] assms(2) config by simp_all
  have "seg_ok dumps (nat backup_count) max_bytes (all @ qs) (fold ?put qs segs)"
    if "seg_ok dumps (nat backup_count) max_bytes all segs" for all qs segs
    using that
  proof (induction qs arbitrary: all segs)
    case (Cons q qs)
    have "seg_ok dumps (nat backup_count) max_bytes (all @ [q]) (?put q segs)"
      using seg_write_ok [OF Cons.prems] config by simp
    from Cons.IH [OF this] show ?case by simp
  qed simp
  from this [of "[]" "[[]]" rs] have ok: "seg_ok dumps (nat backup_count) max_bytes rs ?segs"
    using config by (simp add: seg_ok_def)
  then have sub: "suffix (concat (rev ?segs)) rs" by (simp add: seg_ok_def)
  have "\<forall>seg \<in> set ?segs. \<forall>r \<in> set seg. codec_ok dumps parse r"
    using set_mono_suffix [OF sub] assms(2) by fastforce
  note loaded = load_holds [OF held(1) this, unfolded held(2), folded assms(3)]
  show ?thesis using loaded sub seg_ok_retains [OF ok] config by simp
qed

subsection \<open>A sample log\<close>

definition sample_record :: payload where
  "sample_record = [(''name'', PyStr ''x'')]"

definition sample_dumps :: "payload \<Rightarrow> bytes" where
  "sample_dumps r = (if r = sample_record then ''{ab}'' else [])"

definition sample_parse :: "bytes \<Rightarrow> pyval option" where
  "sample_parse b = (if b = ''{ab}'' then Some (PyDict sample_record) else None)"

lemma sample_codec_ok: "codec_ok sample_dumps sample_parse sample_record"
  by code_simp

theorem crash_loses_at_most_one_witness:
  "rd_records (read_jsonl sample_parse (truncate_trailing_partial sample_parse
      (Some (log_text sample_dumps [sample_record] @ take 3 (sample_dumps sample_record @ [newline])))))
    = [sample_record]"
proof -
  have "\<forall>r \<in> set ([sample_record] @ [sample_record]). codec_ok sample_dumps sample_parse r"
    using sample_codec_ok by simp
  moreover have "(3 :: nat) < length (sample_dumps sample_record)" by code_simp
  ultimately show ?thesis
    using crash_loses_at_most_one [of "[sample_record]" sample_record sample_dumps sample_parse 3] by simp
qed

definition sample_sink :: sink where
  "sample_sink = projr (new_sink sample_parse 12 2 None Map.empty)"

theorem log_keeps_newest_witness:
  "suffix (lt_records (load_telemetry sample_parse 2
      (sk_files (write_all sample_dumps sample_sink (replicate 11 sample_record))))) (replicate 11 sample_record)
   \<and> length (lt_records (load_telemetry sample_parse 2
      (sk_files (write_all sample_dumps sample_sink (replicate 11 sample_record))))) = 8"
proof -
  have sink: "new_sink sample_parse 12 2 None Map.empty = Inr sample_sink"
    by (simp add: sample_sink_def new_sink_def)
  have "project_allowlist sample_record (sk_allowlist sample_sink) = Inr sample_record" by code_simp
  then have "\<forall>r \<in> set (replicate 11 sample_record). codec_ok sample_dumps sample_parse r
      \<and> project_allowlist r (sk_allowlist sample_sink) = Inr r"
    using sample_codec_ok by simp
  from log_keeps_newest [OF sink this refl]
  have "suffix (lt_records (load_telemetry sample_parse (nat 2)
      (sk_files (write_all sample_dumps sample_sink (replicate 11 sample_record))))) (replicate 11 sample_record)"
    by blast
  moreover have "length (lt_records (load_telemetry sample_parse 2
      (sk_files (write_all sample_dumps sample_sink (replicate 11 sample_record))))) = 8"
    by code_simp
  ultimately show ?thesis by simp
qed

end
