(* ===== verification/Sanitizer.thy ===== *)
theory Sanitizer
  imports Telemetry
begin

text \<open>
  The recursive sanitizer that \<open>evaluation/report.py\<close> and \<open>tuning/report.py\<close> share: the keys of a JSON
  value at every depth, and its projection to an allow list that fails on a denied key. A value whose keys
  are all on the list is clean; the locale \<open>sanitizer\<close> states the contract of the two lists, under which
  a clean value passes unchanged.
\<close>

function (sequential) all_keys :: "pyval \<Rightarrow> string list"
  and field_keys :: "payload \<Rightarrow> string list"
  and item_keys :: "pyval list \<Rightarrow> string list" where
  "all_keys (PyDict d) = map fst d @ field_keys d"
| "all_keys (PyList xs) = item_keys xs"
| "all_keys v = []"
| "field_keys [] = []"
| "field_keys ((k, v) # d) = all_keys v @ field_keys d"
| "item_keys [] = []"
| "item_keys (v # vs) = all_keys v @ item_keys vs"
  by pat_completeness auto
termination by size_change

function (sequential) project_tree :: "string list \<Rightarrow> string list \<Rightarrow> string \<Rightarrow> pyval \<Rightarrow> pyval res"
  and project_fields :: "string list \<Rightarrow> string list \<Rightarrow> string \<Rightarrow> payload \<Rightarrow> payload res"
  and project_items :: "string list \<Rightarrow> string list \<Rightarrow> string \<Rightarrow> pyval list \<Rightarrow> pyval list res" where
  "project_tree allow deny message (PyDict d) =
     (if list_ex (\<lambda>(k, v). k \<in> set deny) d then Inl (ValueError message)
      else res_bind (project_fields allow deny message d) (\<lambda>e. Inr (PyDict e)))"
| "project_tree allow deny message (PyList xs) =
     res_bind (project_items allow deny message xs) (\<lambda>ys. Inr (PyList ys))"
| "project_tree allow deny message v = Inr v"
| "project_fields allow deny message [] = Inr []"
| "project_fields allow deny message ((k, v) # d) =
     (if k \<notin> set allow then project_fields allow deny message d
      else res_bind (project_tree allow deny message v) (\<lambda>w.
           res_bind (project_fields allow deny message d) (\<lambda>e. Inr ((k, w) # e))))"
| "project_items allow deny message [] = Inr []"
| "project_items allow deny message (v # vs) =
     res_bind (project_tree allow deny message v) (\<lambda>w.
     res_bind (project_items allow deny message vs) (\<lambda>ws. Inr (w # ws)))"
  by pat_completeness auto
termination by size_change

definition has_denied :: "string list \<Rightarrow> pyval \<Rightarrow> bool" where
  "has_denied deny v \<longleftrightarrow> list_ex (\<lambda>k. k \<in> set deny) (all_keys v)"

section \<open>Clean values\<close>

definition clean_by :: "(string \<Rightarrow> bool) \<Rightarrow> pyval \<Rightarrow> bool" where
  "clean_by P v \<longleftrightarrow> list_all P (all_keys v)"

definition clean_fields_by :: "(string \<Rightarrow> bool) \<Rightarrow> payload \<Rightarrow> bool" where
  "clean_fields_by P d \<longleftrightarrow> list_all (\<lambda>(k, v). P k \<and> clean_by P v) d"

lemma field_keys_clean: "list_all P (field_keys d) \<longleftrightarrow> list_all (\<lambda>(k, v). clean_by P v) d"
  by (induction d) (auto simp: clean_by_def)

lemma item_keys_clean: "list_all P (item_keys vs) \<longleftrightarrow> list_all (clean_by P) vs"
  by (induction vs) (auto simp: clean_by_def)

lemma clean_simps [simp]:
  "clean_by P PyNone" "clean_by P (PyBool b)" "clean_by P (PyInt i)" "clean_by P (PyFloat x)" "clean_by P (PyStr s)"
  "clean_by P (PyList vs) \<longleftrightarrow> list_all (clean_by P) vs" "clean_by P (PyDict d) \<longleftrightarrow> clean_fields_by P d"
proof -
  show "clean_by P (PyList vs) \<longleftrightarrow> list_all (clean_by P) vs"
    unfolding clean_by_def [of P "PyList vs"] by (simp add: item_keys_clean)
  show "clean_by P (PyDict d) \<longleftrightarrow> clean_fields_by P d"
    unfolding clean_by_def [of P "PyDict d"] all_keys.simps list_all_append field_keys_clean
    by (auto simp: clean_fields_by_def list_all_iff)
qed (simp_all add: clean_by_def)

lemma clean_fields_simps [simp]:
  "clean_fields_by P []"
  "clean_fields_by P ((k, v) # d) \<longleftrightarrow> P k \<and> clean_by P v \<and> clean_fields_by P d"
  "clean_fields_by P (d @ e) \<longleftrightarrow> clean_fields_by P d \<and> clean_fields_by P e"
  by (simp_all add: clean_fields_by_def)

section \<open>Clean values pass unchanged\<close>

locale sanitizer =
  fixes allow deny :: "string list"
  assumes disjoint: "list_all (\<lambda>k. k \<notin> set deny) allow"
begin

lemma allowed_not_denied: "k \<in> set allow \<Longrightarrow> k \<notin> set deny"
  using disjoint by (simp add: list_all_iff)

lemma project_clean:
  "clean_by (\<lambda>k. k \<in> set allow) v \<Longrightarrow> project_tree allow deny message v = Inr v"
  "clean_fields_by (\<lambda>k. k \<in> set allow) d \<Longrightarrow> project_fields allow deny message d = Inr d"
  "list_all (clean_by (\<lambda>k. k \<in> set allow)) vs \<Longrightarrow> project_items allow deny message vs = Inr vs"
proof (induction v and d and vs rule: all_keys_field_keys_item_keys.induct)
  case (1 d)
  then have "\<not> list_ex (\<lambda>(k, v). k \<in> set deny) d"
    using allowed_not_denied by (auto simp: clean_fields_by_def list_all_iff list_ex_iff)
  then show ?case using 1 by simp
qed auto

lemma clean_not_denied: "clean_by (\<lambda>k. k \<in> set allow) v \<Longrightarrow> \<not> has_denied deny v"
  using allowed_not_denied unfolding clean_by_def has_denied_def list_all_iff list_ex_iff by blast

end

end
