(* ===== verification/Evaluation.thy ===== *)
theory Evaluation
  imports Jsonl Pipeline Sessions Intelligence Sanitizer
begin

text \<open>
  \<open>evaluation/stats.py\<close>, \<open>report.py\<close> and \<open>aggregate.py\<close>: the offline report over the records of the
  telemetry and feedback logs. A record is whatever JSON object a line of the log held, so every field
  is checked as the code checks it. Numbers are exact rationals; a market timestamp without a date makes
  the report fail, in the model where it is first read. A latency that is not finite cannot be written by
  the telemetry contract and is passed over. Dates are day numbers, printed by the parameter \<open>date_text\<close>.
\<close>

section \<open>Statistics\<close>

definition ratio :: "flt \<Rightarrow> flt \<Rightarrow> flt option" where
  "ratio numerator denominator = (if denominator = 0 then None else Some (numerator / denominator))"

definition percentile :: "flt list \<Rightarrow> flt \<Rightarrow> flt option res" where
  "percentile values pct =
     (if values = [] then Inr None
      else
        let ordered = sort values; rank = nat (max 1 \<lceil>pct / 100 * of_nat (length ordered)\<rceil>)
        in if rank \<le> length ordered then Inr (Some (ordered ! (rank - 1))) else Inl IndexError)"

definition latency_bundle :: "flt list \<Rightarrow> string \<Rightarrow> payload res" where
  "latency_bundle samples stage =
     (if samples = [] then
        Inr [(''stage'', PyStr stage), (''count'', PyInt 0), (''min_s'', PyNone), (''median_s'', PyNone),
             (''p95_s'', PyNone), (''max_s'', PyNone)]
      else
        let ordered = sort samples
        in res_bind (percentile ordered 50) (\<lambda>median. res_bind (percentile ordered 95) (\<lambda>p95.
             Inr [(''stage'', PyStr stage), (''count'', PyInt (int (length ordered))),
                  (''min_s'', PyFloat (Fin (hd ordered))), (''median_s'', opt_flt median),
                  (''p95_s'', opt_flt p95), (''max_s'', PyFloat (Fin (last ordered)))])))"

section \<open>Report values\<close>

definition EVALUATION_ALLOWLIST :: "string list" where
  "EVALUATION_ALLOWLIST =
     [''metadata'', ''data_quality'', ''pipeline'', ''alert_noise'', ''host_interaction'', ''intelligence'',
      ''per_symbol'', ''per_run'', ''per_market_date'', ''explicit_feedback'', ''run_ids'', ''symbols'',
      ''market_dates'', ''filter_run_id'', ''input_files'', ''records_read'', ''malformed_complete_lines'',
      ''skipped_trailing_partial'', ''healthy'', ''data_quality_warning'', ''semantic_warning_count'',
      ''runs_insufficient_market_time'', ''runs_unsupported_market_scope'', ''market_time_coverage'',
      ''min_market_timestamp'', ''max_market_timestamp'', ''observed_market_seconds'', ''events_generated'',
      ''events_deduped'', ''events_clustered'', ''signal_episodes_created'', ''signal_escalations'',
      ''alert_candidates'', ''alert_suppressed'', ''alerts_presented'', ''cluster_tracker_seen_count'',
      ''dedupe_rate'', ''event_to_signal_rate'', ''signal_to_alert_candidate_rate'',
      ''candidate_to_presented_rate'', ''alert_suppression_rate'', ''info_count'', ''notice_count'',
      ''important_count'', ''critical_count'', ''important_critical_ratio'', ''alerts_per_market_hour'',
      ''repeated_episode_signal_count'', ''repeated_episode_extra_alert_count'', ''suppression_by_reason'',
      ''cooldown'', ''same_tick_duplicate'', ''unrecognized_skip_reason_count'',
      ''unrecognized_fallback_reason_count'', ''unrecognized_suppression_reason_count'',
      ''alert_badge_reset'', ''signal_opened'', ''alert_dismissed'', ''signal_muted'', ''open_rate'',
      ''dismiss_rate'', ''mute_rate'', ''feedback_count'', ''useful_count'', ''not_useful_count'',
      ''too_noisy_count'', ''too_late_count'', ''useful_rate'', ''feedback_coverage'',
      ''invalid_feedback_record_count'', ''available'', ''value'', ''unavailable_reason'', ''producer'',
      ''routed'', ''skipped'', ''succeeded'', ''fallback'', ''skip_by_decision_reason'',
      ''fallback_by_fallback_reason'', ''latency'', ''token_usage'', ''router'', ''model'', ''parse'',
      ''stage'', ''count'', ''min_s'', ''median_s'', ''p95_s'', ''max_s'', ''token_in_total'',
      ''token_out_total'', ''token_total'', ''token_events_count'', ''symbol'', ''run_id'', ''market_date'',
      ''expired_episode'', ''suppressed_edge'', ''stale_feed'', ''insufficient_features'',
      ''not_candidate'', ''episode_budget'', ''none'', ''timeout'', ''transport'', ''malformed'',
      ''rate_limited'', ''unavailable'', ''cancelled'', ''stale_work'', ''policy'']"

definition KNOWN_SKIP_REASONS :: "string list" where
  "KNOWN_SKIP_REASONS =
     map decision_reason_value
       [EXPIRED_EPISODE, SUPPRESSED_EDGE, STALE_FEED, INSUFFICIENT_FEATURES, NOT_CANDIDATE, EPISODE_BUDGET]"

definition KNOWN_FALLBACK_REASONS :: "string list" where
  "KNOWN_FALLBACK_REASONS =
     map fallback_reason_value
       [FR_NONE, FR_NOT_CANDIDATE, FR_STALE_FEED, FR_INSUFFICIENT_FEATURES, FR_SUPPRESSED_EDGE,
        FR_EPISODE_BUDGET, FR_EXPIRED_EPISODE, FR_TIMEOUT, FR_TRANSPORT, FR_MALFORMED, FR_RATE_LIMITED,
        FR_UNAVAILABLE, FR_CANCELLED, FR_STALE_WORK, FR_POLICY]"

definition KNOWN_SUPPRESSION_REASONS :: "string list" where
  "KNOWN_SUPPRESSION_REASONS = map suppression_reason_value [COOLDOWN, SAME_TICK_DUPLICATE]"

text \<open>The keys of both are on the list, so projecting them changes nothing.\<close>

definition unavailable :: "string \<Rightarrow> payload" where
  "unavailable reason =
     [(''available'', PyBool False), (''value'', PyNone), (''unavailable_reason'', PyStr reason),
      (''producer'', PyNone)]"

definition available_value :: "flt \<Rightarrow> payload" where
  "available_value value =
     [(''available'', PyBool True), (''value'', PyFloat (Fin value)), (''unavailable_reason'', PyNone),
      (''producer'', PyNone)]"

subsection \<open>The sanitizer\<close>

definition report_tree :: "pyval \<Rightarrow> pyval res" where
  "report_tree = project_tree EVALUATION_ALLOWLIST TELEMETRY_DENYLIST ''evaluation report contains denied keys''"

definition sanitize_report :: "payload \<Rightarrow> pyval res" where
  "sanitize_report report =
     (if has_denied TELEMETRY_DENYLIST (PyDict report)
      then Inl (ValueError ''evaluation report contains denied keys'')
      else report_tree (PyDict report))"

section \<open>Fields of a record\<close>

definition row_text :: "string \<Rightarrow> payload \<Rightarrow> string option" where
  "row_text key row = text_or_none (get_or_none row key)"

definition named :: "telemetry_name \<Rightarrow> payload \<Rightarrow> bool" where
  "named name row \<longleftrightarrow> get_or_none row ''name'' = PyStr (telemetry_name_value name)"

fun is_number :: "pyval \<Rightarrow> bool" where
  "is_number (PyBool b) = True"
| "is_number (PyInt i) = True"
| "is_number (PyFloat x) = True"
| "is_number v = False"

text \<open>\<open>float()\<close> of a number, and of a market timestamp, which must have a date.\<close>

fun stamp_value :: "pyval \<Rightarrow> flt res" where
  "stamp_value (PyBool b) = Inr (of_bool b)"
| "stamp_value (PyInt i) = (if \<bar>i\<bar> < float_max_int then Inr (of_int i) else Inl OverflowError)"
| "stamp_value (PyFloat (Fin x)) = Inr x"
| "stamp_value (PyFloat NaN) = Inl (ValueError ''cannot convert float NaN to integer'')"
| "stamp_value v = Inl OverflowError"

definition stamped :: "payload list \<Rightarrow> payload list" where
  "stamped rows = filter (\<lambda>row. is_number (get_or_none row ''market_timestamp'')) rows"

definition stamps :: "payload list \<Rightarrow> flt list res" where
  "stamps rows = res_map (\<lambda>row. stamp_value (get_or_none row ''market_timestamp'')) (stamped rows)"

definition count_name :: "string list \<Rightarrow> telemetry_name \<Rightarrow> int" where
  "count_name names name = int (length (filter (\<lambda>n. n = telemetry_name_value name) names))"

definition names_of :: "payload list \<Rightarrow> string list" where
  "names_of rows = List.map_filter (row_text ''name'') rows"

text \<open>\<open>sorted\<close> of a set.\<close>

definition sorted_set :: "'a::linorder list \<Rightarrow> 'a list" where
  "sorted_set xs = sort (remdups xs)"

text \<open>Grouping in a \<open>defaultdict(list)\<close>; rows without the key are left out.\<close>

definition group_step :: "(payload \<Rightarrow> 'k option) \<Rightarrow> payload \<Rightarrow> ('k, payload list) dict \<Rightarrow> ('k, payload list) dict" where
  "group_step key row d =
     (case key row of
        None \<Rightarrow> d
      | Some k \<Rightarrow> dict_set k ((case dict_get d k of None \<Rightarrow> [] | Some rows \<Rightarrow> rows) @ [row]) d)"

definition group_rows :: "(payload \<Rightarrow> 'k option) \<Rightarrow> payload list \<Rightarrow> ('k, payload list) dict" where
  "group_rows key rows = fold (group_step key) rows []"

section \<open>Sections of the report\<close>

definition funnel :: "payload list \<Rightarrow> payload" where
  "funnel rows =
     (let names = names_of rows
      in [(''events_generated'', PyInt (count_name names EVENT_GENERATED)),
          (''signal_episodes_created'', PyInt (count_name names SIGNAL_EPISODE_CREATED)),
          (''alert_candidates'', PyInt (count_name names ALERT_CANDIDATE)),
          (''alert_suppressed'', PyInt (count_name names ALERT_SUPPRESSED)),
          (''alerts_presented'', PyInt (count_name names ALERT_PRESENTED))])"

definition py_strs :: "string list \<Rightarrow> pyval" where
  "py_strs xs = PyList (map PyStr xs)"

definition metadata_section :: "(int \<Rightarrow> string) \<Rightarrow> payload list \<Rightarrow> string option \<Rightarrow> payload res" where
  "metadata_section date_text rows run_id =
     res_bind (stamps rows) (\<lambda>ts. res_bind (res_map session_id ts) (\<lambda>days.
       Inr [(''run_ids'', py_strs (sorted_set (List.map_filter (row_text ''run_id'') rows))),
            (''symbols'', py_strs (sorted_set (List.map_filter (row_text ''symbol'') rows))),
            (''market_dates'', py_strs (map date_text (sorted_set days))),
            (''filter_run_id'', opt_str run_id)]))"

definition opt_ratio :: "int \<Rightarrow> int \<Rightarrow> pyval" where
  "opt_ratio a b = opt_flt (ratio (of_int a) (of_int b))"

definition pipeline_section :: "payload list \<Rightarrow> string list \<Rightarrow> int option \<Rightarrow> payload" where
  "pipeline_section rows names cluster_seen =
     (let generated = count_name names EVENT_GENERATED;
          deduped = count_name names EVENT_DEDUPED;
          clustered = count_name names EVENT_CLUSTERED;
          created = count_name names SIGNAL_EPISODE_CREATED;
          escalated = count_name names SIGNAL_ESCALATED;
          candidates = count_name names ALERT_CANDIDATE;
          suppressed = count_name names ALERT_SUPPRESSED;
          presented = count_name names ALERT_PRESENTED;
          seen = (case cluster_seen of
             Some n \<Rightarrow> n
           | None \<Rightarrow> int (length (remdups (List.map_filter (row_text ''event_id'') (filter (named EVENT_CLUSTERED) rows)))))
      in [(''events_generated'', PyInt generated), (''events_deduped'', PyInt deduped),
          (''events_clustered'', PyInt clustered), (''signal_episodes_created'', PyInt created),
          (''signal_escalations'', PyInt escalated), (''alert_candidates'', PyInt candidates),
          (''alert_suppressed'', PyInt suppressed), (''alerts_presented'', PyInt presented),
          (''cluster_tracker_seen_count'', PyInt seen),
          (''dedupe_rate'', opt_ratio deduped generated),
          (''event_to_signal_rate'', opt_ratio created generated),
          (''signal_to_alert_candidate_rate'', opt_ratio candidates created),
          (''candidate_to_presented_rate'', opt_ratio presented candidates),
          (''alert_suppression_rate'', opt_ratio suppressed (candidates + suppressed))])"

text \<open>Tallying a field over known values; anything else is counted as unrecognized.\<close>

definition tally_step :: "string \<Rightarrow> payload \<Rightarrow> (string, int) dict \<times> int \<Rightarrow> (string, int) dict \<times> int" where
  "tally_step key row = (\<lambda>(counts, unknown).
     case row_text key row of
       None \<Rightarrow> (counts, unknown + 1)
     | Some reason \<Rightarrow>
         (case dict_get counts reason of
            None \<Rightarrow> (counts, unknown + 1)
          | Some n \<Rightarrow> (dict_set reason (n + 1) counts, unknown)))"

definition tally :: "string list \<Rightarrow> string \<Rightarrow> payload list \<Rightarrow> (string, int) dict \<times> int" where
  "tally known key rows = fold (tally_step key) rows (map (\<lambda>k. (k, 0)) known, 0)"

definition py_counts :: "(string, int) dict \<Rightarrow> pyval" where
  "py_counts counts = PyDict (map (\<lambda>(k, n). (k, PyInt n)) counts)"

definition suppression :: "payload list \<Rightarrow> (string, int) dict \<times> int" where
  "suppression rows = tally KNOWN_SUPPRESSION_REASONS ''suppression_reason'' (filter (named ALERT_SUPPRESSED) rows)"

definition repeated_episodes :: "payload list \<Rightarrow> int \<times> int" where
  "repeated_episodes candidates =
     (let pair = (\<lambda>row. case (row_text ''run_id'' row, row_text ''signal_id'' row) of
            (Some r, Some s) \<Rightarrow> Some (r, s) | _ \<Rightarrow> None);
          counts = map (\<lambda>(k, rows). int (length rows)) (group_rows pair candidates);
          repeated = filter (\<lambda>n. n > 1) counts
      in (int (length repeated), sum_list (map (\<lambda>n. n - 1) repeated)))"

definition PRIORITIES :: "string list" where
  "PRIORITIES = [''INFO'', ''NOTICE'', ''IMPORTANT'', ''CRITICAL'']"

text \<open>Counts of the candidates by priority; a value that is not one of them is not counted.\<close>

definition priority_counts :: "payload list \<Rightarrow> (string, int) dict" where
  "priority_counts candidates = fst (tally PRIORITIES ''priority'' candidates)"

definition count_at :: "(string, int) dict \<Rightarrow> string \<Rightarrow> int" where
  "count_at counts k = (case dict_get counts k of None \<Rightarrow> 0 | Some n \<Rightarrow> n)"

subsection \<open>Market time\<close>

datatype market_scope = ASHARE | UNSUPPORTED | EMPTY

definition market_scope_of :: "payload list \<Rightarrow> market_scope" where
  "market_scope_of rows =
     (let symbols = filter (\<lambda>s. s \<noteq> []) (List.map_filter (row_text ''symbol'') (stamped rows));
          saw_ashare = list_ex is_a_share_symbol symbols;
          saw_other = list_ex (\<lambda>s. \<not> is_a_share_symbol s) symbols
      in if stamped rows = [] then EMPTY
         else if saw_other \<or> symbols = [] then UNSUPPORTED
         else if saw_ashare then ASHARE
         else UNSUPPORTED)"

record run_exposure =
  re_funnel :: payload
  re_observed :: flt
  re_rate :: payload
  re_scope :: market_scope
  re_candidates :: int
  re_ok :: bool

definition UNAVAILABLE_MARKET_TIME :: string where
  "UNAVAILABLE_MARKET_TIME = ''insufficient_market_time_evidence''"

definition UNAVAILABLE_MARKET_SCOPE :: string where
  "UNAVAILABLE_MARKET_SCOPE = ''unsupported_market_scope''"

definition run_exposure_of :: "payload list \<Rightarrow> run_exposure res" where
  "run_exposure_of rows =
     res_bind (stamps rows) (\<lambda>ts.
       let unique = sorted_set ts;
           candidates = int (length (filter (named ALERT_CANDIDATE) rows));
           scope = market_scope_of rows;
           none = (\<lambda>observed reason. \<lparr>re_funnel = funnel rows, re_observed = observed, re_rate = unavailable reason,
             re_scope = scope, re_candidates = candidates, re_ok = False\<rparr>)
       in if scope = UNSUPPORTED then Inr (none 0 UNAVAILABLE_MARKET_SCOPE)
          else if length unique < 2 then Inr (none 0 UNAVAILABLE_MARKET_TIME)
          else res_bind (cash_session_overlap_s (Fin (hd unique)) (Fin (last unique))) (\<lambda>observed.
            if observed \<le> 0 then Inr (none observed UNAVAILABLE_MARKET_TIME)
            else Inr \<lparr>re_funnel = funnel rows, re_observed = observed,
                      re_rate = available_value (of_int candidates / observed * 3600),
                      re_scope = scope, re_candidates = candidates, re_ok = True\<rparr>))"

record market_metrics =
  mm_rate :: payload
  mm_observed :: flt
  mm_per_run :: "payload list"
  mm_insufficient :: "string list"
  mm_unsupported :: "string list"

definition per_run_row :: "string \<Rightarrow> run_exposure \<Rightarrow> payload" where
  "per_run_row run_id e =
     [(''run_id'', PyStr run_id)] @ re_funnel e
     @ [(''observed_market_seconds'', PyFloat (Fin (re_observed e))), (''alerts_per_market_hour'', PyDict (re_rate e))]"

definition run_exposures :: "payload list \<Rightarrow> (string \<times> run_exposure) list res" where
  "run_exposures rows =
     (let grouped = group_rows (row_text ''run_id'') rows
      in res_map (\<lambda>run_id. res_bind (run_exposure_of (the (dict_get grouped run_id))) (\<lambda>e. Inr (run_id, e)))
           (sort (map fst grouped)))"

definition orphan_candidates :: "payload list \<Rightarrow> payload list" where
  "orphan_candidates rows = filter (\<lambda>row. named ALERT_CANDIDATE row \<and> row_text ''run_id'' row = None) rows"

definition market_metrics_of :: "payload list \<Rightarrow> market_metrics res" where
  "market_metrics_of rows =
     res_bind (run_exposures rows) (\<lambda>exposures.
       let orphans = orphan_candidates rows;
           unsupported = map fst (filter (\<lambda>(r, e). re_scope e = UNSUPPORTED) exposures);
           insufficient = map fst (filter (\<lambda>(r, e). re_scope e \<noteq> UNSUPPORTED \<and> re_candidates e > 0 \<and> \<not> re_ok e) exposures)
             @ (if orphans \<noteq> [] then [[]] else []);
           total_observed = sum_list (map (\<lambda>(r, e). if re_ok e then re_observed e else 0) exposures);
           candidates = sum_list (map (\<lambda>(r, e). re_candidates e) exposures) + int (length orphans);
           (rate, observed) =
             (if unsupported \<noteq> [] then (unavailable UNAVAILABLE_MARKET_SCOPE, 0)
              else if insufficient \<noteq> [] then (unavailable UNAVAILABLE_MARKET_TIME, 0)
              else if total_observed \<le> 0 then (unavailable UNAVAILABLE_MARKET_TIME, 0)
              else (available_value (of_int candidates / total_observed * 3600), total_observed))
       in Inr \<lparr>mm_rate = rate, mm_observed = observed,
               mm_per_run = map (\<lambda>(r, e). per_run_row r e) exposures,
               mm_insufficient = filter (\<lambda>r. r \<noteq> []) insufficient,
               mm_unsupported = unsupported\<rparr>)"

definition per_market_date :: "(int \<Rightarrow> string) \<Rightarrow> payload list \<Rightarrow> payload list res" where
  "per_market_date date_text rows =
     res_bind (res_map (\<lambda>row. res_bind (stamp_value (get_or_none row ''market_timestamp'')) (\<lambda>t.
         res_bind (session_id t) (\<lambda>day. Inr (day, row)))) (stamped rows)) (\<lambda>dated.
       res_map (\<lambda>day.
           let subset = map snd (filter (\<lambda>(d, row). d = day) dated)
           in res_bind (market_metrics_of subset) (\<lambda>metrics.
                Inr ([(''market_date'', PyStr (date_text day))] @ funnel subset
                  @ [(''observed_market_seconds'', PyFloat (Fin (mm_observed metrics))),
                     (''alerts_per_market_hour'', PyDict (mm_rate metrics))])))
         (sorted_set (map fst dated)))"

definition alert_noise_section :: "payload list \<Rightarrow> market_metrics \<Rightarrow> (string, int) dict \<Rightarrow> int \<Rightarrow> payload" where
  "alert_noise_section rows market suppressed suppression_unknown =
     (let candidates = filter (named ALERT_CANDIDATE) rows;
          counts = priority_counts candidates;
          total_priority = sum_list (map snd counts);
          important_critical = count_at counts ''IMPORTANT'' + count_at counts ''CRITICAL'';
          (repeated_signals, extra_alerts) = repeated_episodes candidates
      in [(''info_count'', PyInt (count_at counts ''INFO'')), (''notice_count'', PyInt (count_at counts ''NOTICE'')),
          (''important_count'', PyInt (count_at counts ''IMPORTANT'')),
          (''critical_count'', PyInt (count_at counts ''CRITICAL'')),
          (''important_critical_ratio'', opt_ratio important_critical total_priority),
          (''alerts_per_market_hour'', PyDict (mm_rate market)),
          (''observed_market_seconds'', PyFloat (Fin (mm_observed market))),
          (''repeated_episode_signal_count'', PyInt repeated_signals),
          (''repeated_episode_extra_alert_count'', PyInt extra_alerts),
          (''suppression_by_reason'', py_counts suppressed),
          (''unrecognized_suppression_reason_count'', PyInt suppression_unknown)])"

subsection \<open>Host and feedback\<close>

definition unimplemented :: "string \<Rightarrow> pyval" where
  "unimplemented producer =
     PyDict (dict_set ''producer'' (PyStr producer) (unavailable ''producer_not_implemented''))"

definition host_section :: "string list \<Rightarrow> payload" where
  "host_section names =
     [(''alerts_presented'', PyInt (count_name names ALERT_PRESENTED)),
      (''alert_badge_reset'', PyInt (count_name names ALERT_BADGE_RESET)),
      (''signal_opened'', unimplemented ''signal_opened''),
      (''alert_dismissed'', unimplemented ''alert_dismissed''),
      (''signal_muted'', unimplemented ''signal_muted''),
      (''open_rate'', unimplemented ''signal_opened''),
      (''dismiss_rate'', unimplemented ''alert_dismissed''),
      (''mute_rate'', unimplemented ''signal_muted'')]"

definition text_ok :: "string \<Rightarrow> payload \<Rightarrow> bool" where
  "text_ok key row \<longleftrightarrow> (case row_text key row of None \<Rightarrow> False | Some s \<Rightarrow> \<not> blank s)"

definition optional_text_ok :: "string \<Rightarrow> payload \<Rightarrow> bool" where
  "optional_text_ok key row \<longleftrightarrow> get_or_none row key = PyNone \<or> text_ok key row"

definition valid_feedback_row :: "payload \<Rightarrow> bool res" where
  "valid_feedback_row row =
     (if list_ex (\<lambda>(k, v). k \<notin> set FEEDBACK_ALLOWLIST) row then Inr False
      else if \<not> text_ok ''feedback_id'' row \<or> \<not> text_ok ''run_id'' row \<or> \<not> text_ok ''signal_id'' row then Inr False
      else if Option.bind (row_text ''label'' row) feedback_label_of = None then Inr False
      else res_bind (finite_number (get_or_none row ''created_timestamp'')) (\<lambda>created.
        if created = None then Inr False
        else Inr (list_all (\<lambda>key. optional_text_ok key row) [''symbol'', ''event_id'', ''telemetry_id''])))"

definition signal_key :: "payload \<Rightarrow> (string \<times> string) option" where
  "signal_key row =
     (case (row_text ''run_id'' row, row_text ''signal_id'' row) of
        (Some r, Some s) \<Rightarrow> Some (r, s) | _ \<Rightarrow> None)"

definition label_count :: "payload list \<Rightarrow> feedback_label \<Rightarrow> int" where
  "label_count valid label =
     int (length (filter (\<lambda>row. get_or_none row ''label'' = PyStr (feedback_label_value label)) valid))"

definition explicit_feedback :: "payload list \<Rightarrow> payload list \<Rightarrow> (payload \<times> int) res" where
  "explicit_feedback feedback_rows telemetry_rows =
     res_bind (res_filter valid_feedback_row feedback_rows) (\<lambda>valid.
       let invalid = int (length feedback_rows) - int (length valid);
           total_count = int (length valid);
           useful = label_count valid USEFUL;
           presented_keys = remdups (List.map_filter signal_key
             (filter (\<lambda>row. named ALERT_PRESENTED row \<and> text_ok ''run_id'' row \<and> text_ok ''signal_id'' row) telemetry_rows));
           feedback_keys = remdups (List.map_filter signal_key valid);
           covered = filter (\<lambda>k. k \<in> set presented_keys) feedback_keys
       in Inr ([(''feedback_count'', PyInt total_count), (''useful_count'', PyInt useful),
                (''not_useful_count'', PyInt (label_count valid NOT_USEFUL)),
                (''too_noisy_count'', PyInt (label_count valid TOO_NOISY)),
                (''too_late_count'', PyInt (label_count valid TOO_LATE)),
                (''useful_rate'', PyDict (if total_count = 0 then unavailable ''no_explicit_feedback''
                   else available_value (of_int useful / of_int total_count))),
                (''feedback_coverage'', PyDict (if presented_keys = [] then unavailable ''denominator_is_zero''
                   else available_value (of_nat (length covered) / of_nat (length presented_keys)))),
                (''invalid_feedback_record_count'', PyInt invalid)], invalid))"

subsection \<open>Intelligence\<close>

fun latency_value :: "pyval \<Rightarrow> flt option res" where
  "latency_value (PyBool b) = Inr (Some (of_bool b))"
| "latency_value (PyInt i) = (if \<bar>i\<bar> < float_max_int then Inr (Some (of_int i)) else Inl OverflowError)"
| "latency_value (PyFloat (Fin x)) = Inr (Some x)"
| "latency_value v = Inr None"

definition latency_samples :: "latency_stage \<Rightarrow> payload list \<Rightarrow> flt list res" where
  "latency_samples stage rows =
     res_bind (res_map (\<lambda>row. latency_value (get_or_none row ''latency_s''))
       (filter (\<lambda>row. named INTELLIGENCE_LATENCY row
          \<and> get_or_none row ''latency_stage'' = PyStr (latency_stage_value stage)) rows))
       (\<lambda>xs. Inr (List.map_filter id xs))"

fun token_value :: "pyval \<Rightarrow> int" where
  "token_value (PyInt i) = i"
| "token_value (PyBool b) = of_bool b"
| "token_value v = 0"

definition token_usage :: "payload list \<Rightarrow> payload" where
  "token_usage rows =
     (let token_rows = filter (named INTELLIGENCE_TOKEN_USAGE) rows;
          token_in = sum_list (map (\<lambda>row. token_value (get_or_none row ''token_in'')) token_rows);
          token_out = sum_list (map (\<lambda>row. token_value (get_or_none row ''token_out'')) token_rows)
      in if token_rows = [] then
           [(''available'', PyBool False), (''unavailable_reason'', PyStr ''no_provider_usage''),
            (''token_in_total'', PyNone), (''token_out_total'', PyNone), (''token_total'', PyNone),
            (''token_events_count'', PyInt 0)]
         else
           [(''available'', PyBool True), (''unavailable_reason'', PyNone), (''token_in_total'', PyInt token_in),
            (''token_out_total'', PyInt token_out), (''token_total'', PyInt (token_in + token_out)),
            (''token_events_count'', PyInt (int (length token_rows)))])"

definition intelligence_section :: "payload list \<Rightarrow> string list \<Rightarrow> (payload \<times> int \<times> int) res" where
  "intelligence_section rows names =
     (let (skips, skip_unknown) = tally KNOWN_SKIP_REASONS ''decision_reason'' (filter (named INTELLIGENCE_SKIPPED) rows);
          (fallbacks, fallback_unknown) =
            tally KNOWN_FALLBACK_REASONS ''fallback_reason'' (filter (named INTELLIGENCE_FALLBACK) rows)
      in res_bind (res_map (\<lambda>stage.
             res_bind (latency_samples stage rows) (\<lambda>samples.
               res_bind (latency_bundle samples (latency_stage_value stage)) (\<lambda>bundle.
                 Inr (latency_stage_value stage, PyDict bundle)))) [ROUTER, MODEL, PARSE]) (\<lambda>latency.
           Inr ([(''routed'', PyInt (count_name names INTELLIGENCE_ROUTED)),
                 (''skipped'', PyInt (count_name names INTELLIGENCE_SKIPPED)),
                 (''succeeded'', PyInt (count_name names INTELLIGENCE_SUCCEEDED)),
                 (''fallback'', PyInt (count_name names INTELLIGENCE_FALLBACK)),
                 (''skip_by_decision_reason'', py_counts skips),
                 (''fallback_by_fallback_reason'', py_counts fallbacks),
                 (''unrecognized_skip_reason_count'', PyInt skip_unknown),
                 (''unrecognized_fallback_reason_count'', PyInt fallback_unknown),
                 (''latency'', PyDict latency),
                 (''token_usage'', PyDict (token_usage rows))], skip_unknown, fallback_unknown)))"

definition per_symbol :: "payload list \<Rightarrow> payload list" where
  "per_symbol rows =
     (let by_symbol = group_rows (row_text ''symbol'') rows
      in map (\<lambda>symbol. [(''symbol'', PyStr symbol)] @ funnel (the (dict_get by_symbol symbol)))
           (sort (map fst by_symbol)))"

section \<open>The report\<close>

record report_texts =
  rx_date :: "int \<Rightarrow> string"
  rx_telemetry_path :: "nat \<Rightarrow> string"
  rx_feedback_path :: "nat \<Rightarrow> string"

definition data_quality_section ::
  "report_texts \<Rightarrow> loaded_telemetry \<Rightarrow> payload list \<Rightarrow> string option \<Rightarrow> market_metrics \<Rightarrow> int
    \<Rightarrow> loaded_telemetry \<Rightarrow> int \<Rightarrow> payload res" where
  "data_quality_section rx loaded rows run_id market semantic feedback feedback_used =
     res_bind (stamps rows) (\<lambda>ts.
       let coverage =
             [(''min_market_timestamp'', if ts = [] then PyNone else PyFloat (Fin (Min (set ts)))),
              (''max_market_timestamp'', if ts = [] then PyNone else PyFloat (Fin (Max (set ts)))),
              (''observed_market_seconds'', PyFloat (Fin (if ts = [] then 0 else mm_observed market)))];
           warning = \<not> lt_healthy loaded \<or> \<not> lt_healthy feedback \<or> semantic > 0;
           records_read = (if run_id = None then int (lt_records_read loaded) + int (lt_records_read feedback)
                           else int (length rows) + feedback_used)
       in Inr [(''input_files'', py_strs (map (rx_telemetry_path rx) (lt_input_files loaded)
                   @ map (rx_feedback_path rx) (lt_input_files feedback))),
               (''records_read'', PyInt records_read),
               (''malformed_complete_lines'',
                  PyInt (int (lt_malformed_complete_lines loaded + lt_malformed_complete_lines feedback))),
               (''skipped_trailing_partial'',
                  PyBool (lt_skipped_trailing_partial loaded \<or> lt_skipped_trailing_partial feedback)),
               (''healthy'', PyBool (lt_healthy loaded \<and> lt_healthy feedback)),
               (''data_quality_warning'', PyBool warning),
               (''semantic_warning_count'', PyInt semantic),
               (''runs_insufficient_market_time'', py_strs (mm_insufficient market)),
               (''runs_unsupported_market_scope'', py_strs (mm_unsupported market)),
               (''run_ids'', py_strs (sorted_set (List.map_filter (row_text ''run_id'') rows))),
               (''market_time_coverage'', PyDict coverage)])"

record evaluation_report =
  er_metadata :: payload
  er_data_quality :: payload
  er_pipeline :: payload
  er_alert_noise :: payload
  er_host_interaction :: payload
  er_intelligence :: payload
  er_per_symbol :: "payload list"
  er_per_run :: "payload list"
  er_per_market_date :: "payload list"
  er_explicit_feedback :: payload

definition raw_record :: "evaluation_report \<Rightarrow> payload" where
  "raw_record r =
     [(''metadata'', PyDict (er_metadata r)), (''data_quality'', PyDict (er_data_quality r)),
      (''pipeline'', PyDict (er_pipeline r)), (''alert_noise'', PyDict (er_alert_noise r)),
      (''host_interaction'', PyDict (er_host_interaction r)), (''intelligence'', PyDict (er_intelligence r)),
      (''per_symbol'', PyList (map PyDict (er_per_symbol r))), (''per_run'', PyList (map PyDict (er_per_run r))),
      (''per_market_date'', PyList (map PyDict (er_per_market_date r))),
      (''explicit_feedback'', PyDict (er_explicit_feedback r))]"

definition report_to_record :: "evaluation_report \<Rightarrow> pyval res" where
  "report_to_record r = sanitize_report (raw_record r)"

definition no_telemetry :: loaded_telemetry where
  "no_telemetry =
     \<lparr>lt_records = [], lt_input_files = [], lt_records_read = 0, lt_malformed_complete_lines = 0,
      lt_skipped_trailing_partial = False, lt_healthy = True\<rparr>"

definition of_run :: "string option \<Rightarrow> payload \<Rightarrow> bool" where
  "of_run run_id row \<longleftrightarrow> (case run_id of None \<Rightarrow> True | Some r \<Rightarrow> get_or_none row ''run_id'' = PyStr r)"

definition evaluate ::
  "report_texts \<Rightarrow> loaded_telemetry \<Rightarrow> string option \<Rightarrow> int option \<Rightarrow> loaded_telemetry option
    \<Rightarrow> evaluation_report res" where
  "evaluate rx loaded run_id cluster_seen feedback =
     (let rows = filter (\<lambda>row. row_text ''name'' row \<noteq> None \<and> of_run run_id row) (lt_records loaded);
          names = names_of rows;
          (suppressed, suppression_unknown) = suppression rows;
          fb = (case feedback of None \<Rightarrow> no_telemetry | Some f \<Rightarrow> f);
          fb_rows = filter (of_run run_id) (lt_records fb)
      in res_bind (intelligence_section rows names) (\<lambda>(intelligence, skip_unknown, fallback_unknown).
         res_bind (market_metrics_of rows) (\<lambda>market.
         res_bind (per_market_date (rx_date rx) rows) (\<lambda>dates.
         res_bind (explicit_feedback fb_rows rows) (\<lambda>(fb_section, invalid_fb).
           let semantic = skip_unknown + fallback_unknown + suppression_unknown + invalid_fb
           in res_bind (metadata_section (rx_date rx) rows run_id) (\<lambda>metadata.
              res_bind (data_quality_section rx loaded rows run_id market semantic fb (int (length fb_rows))) (\<lambda>quality.
                Inr \<lparr>er_metadata = metadata, er_data_quality = quality,
                     er_pipeline = pipeline_section rows names cluster_seen,
                     er_alert_noise = alert_noise_section rows market suppressed suppression_unknown,
                     er_host_interaction = host_section names, er_intelligence = intelligence,
                     er_per_symbol = per_symbol rows, er_per_run = mm_per_run market,
                     er_per_market_date = dates, er_explicit_feedback = fb_section\<rparr>)))))))"

section \<open>Percentiles\<close>

lemma sorted_count_le:
  assumes "sorted xs" "k < length xs"
  shows "k < length (filter (\<lambda>y. y \<le> xs ! k) xs)" "y < xs ! k \<Longrightarrow> length (filter (\<lambda>z. z \<le> y) xs) \<le> k"
proof -
  have split: "length (filter P xs) = length (filter P (take n xs)) + length (filter P (drop n xs))" for P n
    by (metis append_take_drop_id filter_append length_append)
  have "filter (\<lambda>y. y \<le> xs ! k) (take (Suc k) xs) = take (Suc k) xs"
    using assms sorted_nth_mono [OF assms(1)] by (auto simp: filter_id_conv in_set_conv_nth less_Suc_eq_le)
  then show "k < length (filter (\<lambda>y. y \<le> xs ! k) xs)" using split [of _ "Suc k"] assms(2) by simp
  assume y: "y < xs ! k"
  have "filter (\<lambda>z. z \<le> y) (drop k xs) = []"
  proof (rule filter_False, rule ballI)
    fix z assume "z \<in> set (drop k xs)"
    then obtain i where "i < length xs - k" "z = xs ! (k + i)" using assms(2) by (auto simp: in_set_conv_nth)
    then have "xs ! k \<le> z" using assms(1) by (auto intro: sorted_nth_mono)
    then show "\<not> z \<le> y" using y by simp
  qed
  then show "length (filter (\<lambda>z. z \<le> y) xs) \<le> k"
    using split [of "\<lambda>z. z \<le> y" k] length_filter_le [of "\<lambda>z. z \<le> y" "take k xs"] by simp
qed

lemma length_filter_sort: "length (filter P (sort xs)) = length (filter P (xs :: flt list))"
  by (metis mset_filter mset_sort size_mset)

text \<open>The nearest-rank percentile is what its name says: for any samples and a percentage above zero and
  up to a hundred it is one of the samples, at least that share of the samples is no larger, and no
  smaller sample has this.\<close>

theorem percentile_nearest_rank:
  assumes "values \<noteq> []" "0 < pct" "pct \<le> 100"
  shows "\<exists>x \<in> set values. percentile values pct = Inr (Some x)
    \<and> pct / 100 * of_nat (length values) \<le> of_nat (length (filter (\<lambda>z. z \<le> x) values))
    \<and> (\<forall>y. y < x \<longrightarrow> of_nat (length (filter (\<lambda>z. z \<le> y) values)) < pct / 100 * of_nat (length values))"
proof -
  let ?n = "length values" and ?q = "pct / 100 * of_nat (length values)" and ?xs = "sort values"
  let ?k = "nat \<lceil>?q\<rceil> - 1"
  have "0 < ?q" using assms by simp
  moreover have "?q \<le> of_nat ?n" using mult_right_mono [of pct 100 "of_nat ?n"] assms(3) by simp
  ultimately have ceil: "1 \<le> \<lceil>?q\<rceil>" "\<lceil>?q\<rceil> \<le> int ?n" by (simp_all add: ceiling_le_iff)
  then have rank: "nat (max 1 \<lceil>?q\<rceil>) = Suc ?k" "?k < ?n" by linarith+
  have p: "percentile values pct = Inr (Some (?xs ! ?k))"
    using assms(1) rank by (simp add: percentile_def Let_def)
  have q: "?q \<le> of_nat (Suc ?k)" "of_nat ?k < ?q" using ceil by linarith+
  note count = sorted_count_le [OF sorted_sort, of ?k "values", unfolded length_sort length_filter_sort, OF rank(2)]
  show ?thesis
  proof (intro bexI conjI allI impI)
    show "percentile values pct = Inr (Some (?xs ! ?k))" by (rule p)
    show "?q \<le> of_nat (length (filter (\<lambda>z. z \<le> ?xs ! ?k) values))"
      using q(1) of_nat_mono [OF Suc_leI [OF count(1)], where 'a = flt] by (rule order_trans)
    show "of_nat (length (filter (\<lambda>z. z \<le> y) values)) < ?q" if "y < ?xs ! ?k" for y
      using of_nat_mono [OF count(2) [OF that], where 'a = flt] q(2) by (rule order_le_less_trans)
    show "?xs ! ?k \<in> set values" using rank(2) nth_mem [of ?k ?xs] by simp
  qed
qed

section \<open>Grouping and tallying lose nothing\<close>

lemma fold_group_step:
  "dict_get (fold (group_step key) rows d) k
    = (if filter (\<lambda>r. key r = Some k) rows = [] then dict_get d k
       else Some ((case dict_get d k of None \<Rightarrow> [] | Some xs \<Rightarrow> xs) @ filter (\<lambda>r. key r = Some k) rows))"
  by (induction rows arbitrary: d) (auto simp: group_step_def dict_lookup split: option.splits)

lemma group_rows_get:
  "dict_get (group_rows key rows) k
    = (if filter (\<lambda>r. key r = Some k) rows = [] then None else Some (filter (\<lambda>r. key r = Some k) rows))"
  unfolding group_rows_def by (simp add: fold_group_step)

lemma group_rows_wf: "dict_wf (group_rows key rows)"
proof -
  have "dict_wf d \<Longrightarrow> dict_wf (fold (group_step key) rows d)" for d
    by (induction rows arbitrary: d) (auto simp: group_step_def intro: dict_wf_set split: option.split)
  then show ?thesis by (simp add: group_rows_def)
qed

lemma group_rows_keys: "set (map fst (group_rows key rows)) = {k. \<exists>r \<in> set rows. key r = Some k}"
proof -
  have "set (map fst (group_rows key rows)) = dom (dict_get (group_rows key rows))" by (simp add: dom_map_of_conv_image_fst)
  also have "\<dots> = {k. \<exists>r \<in> set rows. key r = Some k}" by (auto simp: dom_def group_rows_get filter_empty_conv)
  finally show ?thesis .
qed

text \<open>Summing a count over the groups counts every row that has a key once.\<close>

lemma sum_over_groups:
  assumes "distinct ks" "set ks = {k. \<exists>r \<in> set rows. key r = Some k}"
  shows "(\<Sum>k \<leftarrow> ks. length (filter P (filter (\<lambda>r. key r = Some k) rows)))
    = length (filter (\<lambda>r. P r \<and> key r \<noteq> None) rows)"
proof -
  have all: "{k. \<exists>r \<in> set rows. key r = Some k} \<subseteq> set ks \<Longrightarrow>
    (\<Sum>k \<leftarrow> ks. length (filter P (filter (\<lambda>r. key r = Some k) rows)))
      = length (filter (\<lambda>r. P r \<and> key r \<noteq> None) rows)"
  proof (induction rows)
    case (Cons r rows)
    have one: "(\<Sum>k \<leftarrow> ks. if k = k' then f k + (1 :: nat) else f k) = (\<Sum>k \<leftarrow> ks. f k) + (if k' \<in> set ks then 1 else 0)"
      for k' f using assms(1) by (induction ks) auto
    have ih: "(\<Sum>k \<leftarrow> ks. length (filter P (filter (\<lambda>r. key r = Some k) rows)))
        = length (filter (\<lambda>r. P r \<and> key r \<noteq> None) rows)" using Cons by auto
    show ?case
    proof (cases "P r \<and> key r \<noteq> None")
      case True
      then obtain k' where k': "key r = Some k'" by auto
      then have "k' \<in> set ks" using Cons.prems by auto
      have "length (filter P (filter (\<lambda>r. key r = Some k) (r # rows)))
          = (if k = k' then length (filter P (filter (\<lambda>r. key r = Some k) rows)) + 1
             else length (filter P (filter (\<lambda>r. key r = Some k) rows)))" for k
        using True k' by auto
      then show ?thesis using one [of k'] ih True \<open>k' \<in> set ks\<close> by (simp add: k')
    next
      case False
      then have "filter P (filter (\<lambda>r. key r = Some k) (r # rows)) = filter P (filter (\<lambda>r. key r = Some k) rows)" for k
        by auto
      then show ?thesis using ih False by simp
    qed
  qed simp
  show ?thesis by (rule all) (use assms(2) in blast)
qed

lemma tally_step_sum:
  assumes "tally_step key row (counts, unknown) = (counts', unknown')" "dict_wf counts"
  shows "sum_list (map snd counts') + unknown' = sum_list (map snd counts) + unknown + 1"
    "map fst counts' = map fst counts"
proof -
  have "sum_list (map snd (dict_set k (n + 1) counts)) = sum_list (map snd counts) + (1 :: int)
      \<and> map fst (dict_set k (n + 1) counts) = map fst counts"
    if "dict_get counts k = Some n" for k n
    using that assms(2) by (induction counts) (auto simp: dict_wf_def split: if_splits)
  then show "sum_list (map snd counts') + unknown' = sum_list (map snd counts) + unknown + 1"
    "map fst counts' = map fst counts"
    using assms(1) by (auto simp: tally_step_def split: option.splits)
qed

lemma tally_sum:
  assumes "tally known key rows = (counts, unknown)" "distinct known"
  shows "sum_list (map snd counts) + unknown = int (length rows)" "map fst counts = known"
proof -
  have "fold (tally_step key) rows (c, u) = (counts, unknown) \<Longrightarrow> map fst c = known \<Longrightarrow>
      sum_list (map snd counts) + unknown = sum_list (map snd c) + u + int (length rows) \<and> map fst counts = known" for c u
  proof (induction rows arbitrary: c u)
    case (Cons row rows)
    obtain c' u' where step: "tally_step key row (c, u) = (c', u')" by (rule prod.exhaust)
    have "dict_wf c" using Cons.prems(2) assms(2) by (simp add: dict_wf_def)
    from tally_step_sum [OF step this] show ?case using Cons.IH [of c' u'] Cons.prems step by simp
  qed simp
  from this [of "map (\<lambda>k. (k, 0)) known" 0] show "sum_list (map snd counts) + unknown = int (length rows)" "map fst counts = known"
    using assms(1) by (simp_all add: tally_def comp_def sum_list_triv)
qed

section \<open>The sanitizer keeps every report\<close>

definition allowed :: "string \<Rightarrow> bool" where
  "allowed = (\<lambda>k. k \<in> set EVALUATION_ALLOWLIST)"

abbreviation clean :: "pyval \<Rightarrow> bool" where
  "clean \<equiv> clean_by allowed"

abbreviation clean_fields :: "payload \<Rightarrow> bool" where
  "clean_fields \<equiv> clean_fields_by allowed"

lemma allowed_all: "list_all allowed EVALUATION_ALLOWLIST"
  by (simp add: list_all_iff allowed_def)

lemmas allowed_keys [simp] = allowed_all [unfolded EVALUATION_ALLOWLIST_def list.pred_inject]

interpretation report_sanitizer: sanitizer EVALUATION_ALLOWLIST TELEMETRY_DENYLIST
  by unfold_locales code_simp

lemma sanitize_clean:
  assumes "clean_fields report"
  shows "sanitize_report report = Inr (PyDict report)"
  using assms report_sanitizer.clean_not_denied [of "PyDict report"] report_sanitizer.project_clean(1) [of "PyDict report"]
  by (simp add: sanitize_report_def report_tree_def allowed_def)

lemma clean_opts [simp]: "clean (opt_flt x)" "clean (opt_ratio a b)" "clean (opt_str s)" "clean (py_strs xs)"
  by (auto simp: opt_flt_def opt_ratio_def opt_str_def py_strs_def list_all_iff split: option.split)

lemma clean_availability [simp]: "clean_fields (unavailable r)" "clean_fields (available_value x)" "clean (unimplemented p)"
  by (simp_all add: unavailable_def available_value_def unimplemented_def)

lemma clean_funnel [simp]: "clean_fields (funnel rows)"
  by (simp add: funnel_def Let_def)

lemma clean_counts: "list_all allowed (map fst counts) \<Longrightarrow> clean (py_counts counts)"
  by (auto simp: py_counts_def clean_fields_by_def list_all_iff)

lemma known_allowed:
  "list_all allowed KNOWN_SKIP_REASONS" "list_all allowed KNOWN_FALLBACK_REASONS" "list_all allowed KNOWN_SUPPRESSION_REASONS"
  "distinct KNOWN_SKIP_REASONS" "distinct KNOWN_FALLBACK_REASONS" "distinct KNOWN_SUPPRESSION_REASONS" "distinct PRIORITIES"
  by (simp_all add: KNOWN_SKIP_REASONS_def KNOWN_FALLBACK_REASONS_def KNOWN_SUPPRESSION_REASONS_def PRIORITIES_def)

lemma clean_tally:
  "tally known key rows = (counts, unknown) \<Longrightarrow> distinct known \<Longrightarrow> list_all allowed known \<Longrightarrow> clean (py_counts counts)"
  using tally_sum(2) by (intro clean_counts) simp

lemma clean_metadata: "metadata_section f rows run_id = Inr p \<Longrightarrow> clean_fields p"
  by (auto simp: metadata_section_def res_simps)

lemma clean_pipeline: "clean_fields (pipeline_section rows names seen)"
  by (simp add: pipeline_section_def Let_def)

lemma clean_host: "clean_fields (host_section names)"
  by (simp add: host_section_def)

lemma clean_tokens: "clean_fields (token_usage rows)"
  by (simp add: token_usage_def Let_def)

lemma clean_latency: "latency_bundle samples stage = Inr p \<Longrightarrow> clean_fields p"
  by (auto simp: latency_bundle_def Let_def res_simps split: if_splits)

lemma clean_feedback: "explicit_feedback fb_rows rows = Inr (p, n) \<Longrightarrow> clean_fields p"
  by (auto simp: explicit_feedback_def Let_def res_simps)

lemma clean_quality: "data_quality_section rx loaded rows run_id market semantic fb used = Inr p \<Longrightarrow> clean_fields p"
  unfolding data_quality_section_def Let_def by (elim res_bind_InrE) (auto simp del: split_paired_Ex)

lemma clean_alert_noise:
  assumes "clean_fields (mm_rate market)" "clean (py_counts suppressed)"
  shows "clean_fields (alert_noise_section rows market suppressed n)"
  using assms by (simp add: alert_noise_section_def Let_def split_beta)

section \<open>Every well-dated log has a report\<close>

text \<open>
  A record whose market timestamp, if it has one, falls on a date, and whose latency and creation time
  are within the range of a double.
\<close>

definition row_ok :: "payload \<Rightarrow> bool" where
  "row_ok row \<longleftrightarrow>
     (is_number (get_or_none row ''market_timestamp'')
       \<longrightarrow> (\<exists>t d. stamp_value (get_or_none row ''market_timestamp'') = Inr t \<and> session_id t = Inr d))
     \<and> \<not> raises (latency_value (get_or_none row ''latency_s''))
     \<and> \<not> raises (finite_number (get_or_none row ''created_timestamp''))"

lemma res_map_all:
  assumes "\<forall>x \<in> set xs. \<exists>y. f x = Inr y \<and> P y"
  shows "\<exists>ys. res_map f xs = Inr ys \<and> (\<forall>y \<in> set ys. P y)"
proof -
  obtain ys where "res_map f xs = Inr ys" "list_all2 (\<lambda>x. P) xs ys"
    using res_map_total [of xs f "\<lambda>x. P"] assms by blast
  then show ?thesis by (auto simp: list_all2_conv_all_nth in_set_conv_nth)
qed

lemma res_map_all2:
  "res_map f xs = Inr ys \<Longrightarrow> (\<And>x y. x \<in> set xs \<Longrightarrow> f x = Inr y \<Longrightarrow> P x y) \<Longrightarrow> list_all2 P xs ys"
  by (induction xs arbitrary: ys) (auto simp: res_simps)

lemma stamps_total:
  assumes "\<forall>row \<in> set rows. row_ok row"
  shows "\<exists>ts. stamps rows = Inr ts \<and> (\<forall>t \<in> set ts. \<exists>d. session_id t = Inr d)"
  unfolding stamps_def by (rule res_map_all) (use assms in \<open>auto simp: stamped_def row_ok_def\<close>)

lemma overlap_total:
  assumes "session_id a = Inr d" "session_id b = Inr e"
  shows "\<exists>x. cash_session_overlap_s (Fin a) (Fin b) = Inr x"
proof -
  obtain u v where "from_timestamp a = Inr u" "from_timestamp b = Inr v"
    using assms by (auto simp: session_id_def res_simps)
  then have "\<not> raises (cash_session_overlap_s (Fin a) (Fin b))" by (auto simp: cash_session_overlap_s_def Let_def)
  then show ?thesis by (simp only: not_raises_iff)
qed

lemma set_sorted_set [simp]: "set (sorted_set xs) = set xs"
  by (simp add: sorted_set_def)

definition clean_exposure :: "run_exposure \<Rightarrow> bool" where
  "clean_exposure e \<longleftrightarrow> clean_fields (re_funnel e) \<and> clean_fields (re_rate e)"

lemma run_exposure_total:
  assumes "\<forall>row \<in> set rows. row_ok row"
  shows "\<exists>e. run_exposure_of rows = Inr e \<and> clean_exposure e"
proof -
  obtain ts where ts: "stamps rows = Inr ts" "\<forall>t \<in> set ts. \<exists>d. session_id t = Inr d"
    using stamps_total [OF assms] by blast
  let ?u = "sorted_set ts"
  show ?thesis
  proof (cases "length ?u < 2")
    case True
    then show ?thesis by (simp add: run_exposure_of_def ts(1) Let_def clean_exposure_def)
  next
    case False
    then have "?u \<noteq> []" by auto
    then have "hd ?u \<in> set ts" "last ?u \<in> set ts" using hd_in_set last_in_set set_sorted_set by metis+
    then obtain x where "cash_session_overlap_s (Fin (hd ?u)) (Fin (last ?u)) = Inr x"
      using ts(2) overlap_total by blast
    then show ?thesis by (simp add: run_exposure_of_def ts(1) Let_def clean_exposure_def)
  qed
qed

lemma group_rows_subset: "dict_get (group_rows key rows) k = Some xs \<Longrightarrow> set xs \<subseteq> set rows"
  by (auto simp: group_rows_get split: if_splits)

lemma run_exposures_total:
  assumes "\<forall>row \<in> set rows. row_ok row"
  shows "\<exists>es. run_exposures rows = Inr es \<and> (\<forall>(r, e) \<in> set es. clean_exposure e)"
  unfolding run_exposures_def Let_def
proof (rule res_map_all, rule ballI)
  let ?g = "group_rows (row_text ''run_id'') rows"
  fix r assume "r \<in> set (sort (map fst ?g))"
  then have "r \<in> fst ` set ?g" by simp
  then have "dict_get ?g r \<noteq> None" by (simp only: map_of_eq_None_iff not_not)
  then obtain xs where xs: "dict_get ?g r = Some xs" by blast
  have "\<forall>row \<in> set xs. row_ok row" using assms group_rows_subset [OF xs] by blast
  from run_exposure_total [OF this] obtain e where "run_exposure_of xs = Inr e" "clean_exposure e" by blast
  then show "\<exists>y. res_bind (run_exposure_of (the (dict_get ?g r))) (\<lambda>e. Inr (r, e)) = Inr y
      \<and> (case y of (r, e) \<Rightarrow> clean_exposure e)"
    by (simp add: xs)
qed

definition clean_metrics :: "market_metrics \<Rightarrow> bool" where
  "clean_metrics m \<longleftrightarrow> clean_fields (mm_rate m) \<and> list_all clean_fields (mm_per_run m)"

lemma market_metrics_total:
  assumes "\<forall>row \<in> set rows. row_ok row"
  shows "\<exists>m. market_metrics_of rows = Inr m \<and> clean_metrics m"
proof -
  obtain es where es: "run_exposures rows = Inr es" "\<forall>(r, e) \<in> set es. clean_exposure e"
    using run_exposures_total [OF assms] by blast
  then have "list_all clean_fields (map (\<lambda>(r, e). per_run_row r e) es)"
    by (auto simp: list_all_iff per_run_row_def clean_exposure_def)
  then show ?thesis by (simp add: market_metrics_of_def es(1) clean_metrics_def Let_def split_beta)
qed

lemma per_market_date_total:
  assumes "\<forall>row \<in> set rows. row_ok row"
  shows "\<exists>ds. per_market_date f rows = Inr ds \<and> (\<forall>d \<in> set ds. clean_fields d)"
proof -
  let ?date = "\<lambda>row. res_bind (stamp_value (get_or_none row ''market_timestamp'')) (\<lambda>t.
      res_bind (session_id t) (\<lambda>day. Inr (day, row)))"
  have "\<exists>dated. res_map ?date (stamped rows) = Inr dated \<and> (\<forall>p \<in> set dated. row_ok (snd p))"
  proof (rule res_map_all, rule ballI)
    fix row assume "row \<in> set (stamped rows)"
    then have "row_ok row" "is_number (get_or_none row ''market_timestamp'')" using assms by (auto simp: stamped_def)
    then show "\<exists>y. ?date row = Inr y \<and> row_ok (snd y)" by (auto simp: row_ok_def)
  qed
  then obtain dated where dated: "res_map ?date (stamped rows) = Inr dated" "\<forall>p \<in> set dated. row_ok (snd p)" by blast
  show ?thesis
    unfolding per_market_date_def dated(1) res_bind.simps Let_def
  proof (rule res_map_all, rule ballI)
    fix day
    let ?subset = "map snd (filter (\<lambda>(d, row). d = day) dated)"
    have "\<forall>row \<in> set ?subset. row_ok row" using dated(2) by auto
    then obtain m where "market_metrics_of ?subset = Inr m" "clean_metrics m" using market_metrics_total by blast
    then show "\<exists>y. res_bind (market_metrics_of ?subset) (\<lambda>metrics.
          Inr ([(''market_date'', PyStr (f day))] @ funnel ?subset
            @ [(''observed_market_seconds'', PyFloat (Fin (mm_observed metrics))),
               (''alerts_per_market_hour'', PyDict (mm_rate metrics))])) = Inr y \<and> clean_fields y"
      by (simp add: clean_metrics_def)
  qed
qed

lemma latency_bundle_total: "\<exists>p. latency_bundle samples stage = Inr p"
proof (cases "samples = []")
  case False
  have "\<exists>x. percentile (sort samples) pct = Inr x" if "0 < pct" "pct \<le> 100" for pct
    using percentile_nearest_rank [of "sort samples" pct] that False by (metis set_sort set_empty)
  from this [of 50] this [of 95] show ?thesis using False by (auto simp: latency_bundle_def Let_def)
qed (simp add: latency_bundle_def)

lemma latency_samples_total:
  assumes "\<forall>row \<in> set rows. row_ok row"
  shows "\<exists>xs. latency_samples stage rows = Inr xs"
proof -
  have "\<exists>ys. res_map (\<lambda>row. latency_value (get_or_none row ''latency_s''))
      (filter (\<lambda>row. named INTELLIGENCE_LATENCY row
        \<and> get_or_none row ''latency_stage'' = PyStr (latency_stage_value stage)) rows) = Inr ys \<and> (\<forall>y \<in> set ys. True)"
    by (rule res_map_all) (use assms in \<open>auto simp: row_ok_def not_raises_iff\<close>)
  then show ?thesis by (auto simp: latency_samples_def)
qed

lemma intelligence_total:
  assumes "\<forall>row \<in> set rows. row_ok row"
  shows "\<exists>p a b. intelligence_section rows names = Inr (p, a, b) \<and> clean_fields p"
proof -
  obtain skips a where skips: "tally KNOWN_SKIP_REASONS ''decision_reason'' (filter (named INTELLIGENCE_SKIPPED) rows) = (skips, a)"
    by (rule prod.exhaust)
  obtain falls b where falls: "tally KNOWN_FALLBACK_REASONS ''fallback_reason'' (filter (named INTELLIGENCE_FALLBACK) rows) = (falls, b)"
    by (rule prod.exhaust)
  let ?of_stage = "\<lambda>stage. res_bind (latency_samples stage rows) (\<lambda>samples.
      res_bind (latency_bundle samples (latency_stage_value stage)) (\<lambda>bundle.
        Inr (latency_stage_value stage, PyDict bundle)))"
  have "\<exists>y. ?of_stage stage = Inr y \<and> (allowed (fst y) \<and> clean (snd y))" for stage
  proof -
    obtain xs where xs: "latency_samples stage rows = Inr xs" using latency_samples_total [OF assms] by blast
    obtain q where q: "latency_bundle xs (latency_stage_value stage) = Inr q" using latency_bundle_total by blast
    have "allowed (latency_stage_value stage)" by (cases stage) simp_all
    then show ?thesis using clean_latency [OF q] by (simp add: xs q)
  qed
  then obtain ys where ys: "res_map ?of_stage [ROUTER, MODEL, PARSE] = Inr ys" "\<forall>y \<in> set ys. allowed (fst y) \<and> clean (snd y)"
    using res_map_all [of "[ROUTER, MODEL, PARSE]" ?of_stage "\<lambda>y. allowed (fst y) \<and> clean (snd y)"] by blast
  have "clean_fields ys" using ys(2) by (auto simp: clean_fields_by_def list_all_iff)
  then show ?thesis
    using clean_tally [OF skips] clean_tally [OF falls] known_allowed
    by (simp add: intelligence_section_def skips falls ys(1) clean_tokens del: res_map.simps)
qed

lemma valid_feedback_total:
  assumes "\<forall>row \<in> set fb_rows. row_ok row"
  shows "res_filter valid_feedback_row fb_rows = Inr (filter (\<lambda>row. projr (valid_feedback_row row)) fb_rows)"
proof -
  have "\<exists>b. valid_feedback_row row = Inr b" if "row \<in> set fb_rows" for row
  proof -
    have "row_ok row" using assms that by blast
    then obtain x where "finite_number (get_or_none row ''created_timestamp'') = Inr x"
      unfolding row_ok_def not_raises_iff by blast
    then have "\<not> raises (valid_feedback_row row)" by (simp add: valid_feedback_row_def)
    then show ?thesis by (simp only: not_raises_iff)
  qed
  then have "\<forall>row \<in> set fb_rows. valid_feedback_row row = Inr (projr (valid_feedback_row row))" by force
  then show ?thesis by (intro res_filter_total) blast
qed

lemma feedback_total:
  assumes "\<forall>row \<in> set fb_rows. row_ok row"
  shows "\<exists>p n. explicit_feedback fb_rows rows = Inr (p, n)"
  by (simp add: explicit_feedback_def Let_def valid_feedback_total [OF assms])

lemma metadata_total:
  assumes "\<forall>row \<in> set rows. row_ok row"
  shows "\<exists>p. metadata_section f rows run_id = Inr p"
proof -
  obtain ts where ts: "stamps rows = Inr ts" "\<forall>t \<in> set ts. \<exists>d. session_id t = Inr d"
    using stamps_total [OF assms] by blast
  have "\<exists>ds. res_map session_id ts = Inr ds \<and> (\<forall>d \<in> set ds. True)" by (rule res_map_all) (use ts(2) in simp)
  then show ?thesis by (auto simp: metadata_section_def ts(1))
qed

lemma quality_total:
  assumes "\<forall>row \<in> set rows. row_ok row"
  shows "\<exists>p. data_quality_section rx loaded rows run_id market semantic fb used = Inr p"
  using stamps_total [OF assms] unfolding data_quality_section_def Let_def by fastforce

lemma clean_per_symbol: "list_all clean_fields (per_symbol rows)"
  by (simp add: per_symbol_def list_all_iff Let_def)

text \<open>Any log whose records are well dated has a report, and the sanitizer passes it unchanged: every
  key of every section, however deep, is on the allow list and none is denied, so that no figure is
  dropped and the report of a sound log never fails.\<close>

theorem evaluate_reports:
  assumes "\<forall>row \<in> set (lt_records loaded). row_ok row"
    and "\<forall>f row. feedback = Some f \<and> row \<in> set (lt_records f) \<longrightarrow> row_ok row"
  shows "\<exists>r. evaluate rx loaded run_id cluster_seen feedback = Inr r
    \<and> report_to_record r = Inr (PyDict (raw_record r))"
proof -
  define rows where "rows = filter (\<lambda>row. row_text ''name'' row \<noteq> None \<and> of_run run_id row) (lt_records loaded)"
  define fb where "fb = (case feedback of None \<Rightarrow> no_telemetry | Some f \<Rightarrow> f)"
  define fb_rows where "fb_rows = filter (of_run run_id) (lt_records fb)"
  have ok: "\<forall>row \<in> set rows. row_ok row" using assms(1) by (simp add: rows_def)
  have fb_ok: "\<forall>row \<in> set fb_rows. row_ok row"
    using assms(2) by (auto simp: fb_rows_def fb_def no_telemetry_def split: option.splits)
  obtain intelligence a b where i: "intelligence_section rows (names_of rows) = Inr (intelligence, a, b)" "clean_fields intelligence"
    using intelligence_total [OF ok] by blast
  obtain m where m: "market_metrics_of rows = Inr m" "clean_metrics m" using market_metrics_total [OF ok] by blast
  obtain ds where ds: "per_market_date (rx_date rx) rows = Inr ds" "\<forall>d \<in> set ds. clean_fields d"
    using per_market_date_total [OF ok] by blast
  obtain fs n where fs: "explicit_feedback fb_rows rows = Inr (fs, n)" using feedback_total [OF fb_ok] by blast
  obtain md where md: "metadata_section (rx_date rx) rows run_id = Inr md" using metadata_total [OF ok] by blast
  obtain sup u where sup: "suppression rows = (sup, u)" by (rule prod.exhaust)
  obtain dq where dq: "data_quality_section rx loaded rows run_id m (a + b + u + n) fb (int (length fb_rows)) = Inr dq"
    using quality_total [OF ok] by blast
  let ?r = "\<lparr>er_metadata = md, er_data_quality = dq, er_pipeline = pipeline_section rows (names_of rows) cluster_seen,
      er_alert_noise = alert_noise_section rows m sup u, er_host_interaction = host_section (names_of rows),
      er_intelligence = intelligence, er_per_symbol = per_symbol rows, er_per_run = mm_per_run m,
      er_per_market_date = ds, er_explicit_feedback = fs\<rparr>"
  have run: "evaluate rx loaded run_id cluster_seen feedback = Inr ?r"
    unfolding evaluate_def Let_def rows_def [symmetric] fb_def [symmetric] fb_rows_def [symmetric]
    by (simp add: i(1) m(1) ds(1) fs md sup dq)
  have "clean (py_counts sup)"
    using clean_tally [OF sup [unfolded suppression_def]] known_allowed by simp
  then have "clean_fields (alert_noise_section rows m sup u)"
    using m(2) by (intro clean_alert_noise) (simp_all add: clean_metrics_def)
  moreover have "list_all clean (map PyDict (per_symbol rows))" "list_all clean (map PyDict (mm_per_run m))"
    "list_all clean (map PyDict ds)"
    using clean_per_symbol [of rows] m(2) ds(2) by (simp_all add: list.pred_map comp_def clean_metrics_def list_all_iff)
  ultimately have "clean_fields (raw_record ?r)"
    using clean_metadata [OF md] clean_quality [OF dq] clean_feedback [OF fs] i(2)
    by (simp add: raw_record_def clean_pipeline clean_host del: list.pred_map)
  then show ?thesis using run by (auto simp: report_to_record_def sanitize_clean)
qed

section \<open>Figures of the report\<close>

lemma sum_int: "(\<Sum>k \<leftarrow> ks. int (f k)) = int (\<Sum>k \<leftarrow> ks. f k)"
  by (induction ks) simp_all

text \<open>C40: When the report states an alert rate, no alert is left out of it: the rate is the number of all
  recorded alert candidates per hour of the market time observed, which is the sum over the runs and is
  positive, and every candidate belongs to a run.\<close>

theorem alert_rate_counts_every_candidate:
  assumes "market_metrics_of rows = Inr m" "dict_get (mm_rate m) ''available'' = Some (PyBool True)"
  shows "mm_rate m = available_value (of_nat (length (filter (named ALERT_CANDIDATE) rows)) / mm_observed m * 3600)
    \<and> 0 < mm_observed m
    \<and> mm_observed m = (\<Sum>(r, e) \<leftarrow> projr (run_exposures rows). if re_ok e then re_observed e else 0)
    \<and> (\<forall>row \<in> set rows. named ALERT_CANDIDATE row \<longrightarrow> row_text ''run_id'' row \<noteq> None)"
proof -
  let ?g = "group_rows (row_text ''run_id'') rows"
  obtain es where es: "run_exposures rows = Inr es" using assms(1) by (auto simp: market_metrics_of_def res_simps)
  have no_rate: "dict_get (unavailable x) ''available'' \<noteq> Some (PyBool True)" for x by (simp add: unavailable_def)
  have m: "mm_rate m = available_value (of_int ((\<Sum>(r, e) \<leftarrow> es. re_candidates e) + int (length (orphan_candidates rows)))
        / mm_observed m * 3600)"
    "0 < mm_observed m" "mm_observed m = (\<Sum>(r, e) \<leftarrow> es. if re_ok e then re_observed e else 0)"
    "orphan_candidates rows = []"
    using assms no_rate by (auto simp: market_metrics_of_def es Let_def split: if_splits)
  have each: "list_all2 (\<lambda>k p. re_candidates (snd p)
      = int (length (filter (named ALERT_CANDIDATE) (filter (\<lambda>r. row_text ''run_id'' r = Some k) rows))))
      (sort (map fst ?g)) es"
  proof -
    have cand: "re_candidates e = int (length (filter (named ALERT_CANDIDATE) xs))" if "run_exposure_of xs = Inr e" for xs e
      using that by (auto simp: run_exposure_of_def Let_def res_simps split: if_splits)
    show ?thesis
    proof (rule res_map_all2 [OF es [unfolded run_exposures_def Let_def]])
      fix k p assume k: "k \<in> set (sort (map fst ?g))"
        and p: "res_bind (run_exposure_of (the (dict_get ?g k))) (\<lambda>e. Inr (k, e)) = Inr p"
      have "k \<in> fst ` set ?g" using k by simp
      then have "dict_get ?g k \<noteq> None" by (simp only: map_of_eq_None_iff not_not)
      then have "dict_get ?g k = Some (filter (\<lambda>r. row_text ''run_id'' r = Some k) rows)"
        by (simp add: group_rows_get split: if_splits)
      then show "re_candidates (snd p)
          = int (length (filter (named ALERT_CANDIDATE) (filter (\<lambda>r. row_text ''run_id'' r = Some k) rows)))"
        using p cand by (auto simp: res_simps)
    qed
  qed
  have "(\<Sum>(r, e) \<leftarrow> es. re_candidates e)
      = (\<Sum>k \<leftarrow> sort (map fst ?g). int (length (filter (named ALERT_CANDIDATE) (filter (\<lambda>r. row_text ''run_id'' r = Some k) rows))))"
    using each by (induction rule: list_all2_induct) (auto simp: split_beta)
  also have "\<dots> = int (\<Sum>k \<leftarrow> sort (map fst ?g). length (filter (named ALERT_CANDIDATE) (filter (\<lambda>r. row_text ''run_id'' r = Some k) rows)))"
    by (rule sum_int)
  also have "\<dots> = int (length (filter (\<lambda>r. named ALERT_CANDIDATE r \<and> row_text ''run_id'' r \<noteq> None) rows))"
    using sum_over_groups [of "sort (map fst ?g)" rows "row_text ''run_id''" "named ALERT_CANDIDATE"]
      group_rows_wf [of "row_text ''run_id''" rows] group_rows_keys [of "row_text ''run_id''" rows]
    by (simp only: dict_wf_def distinct_sort set_sort)
  also have "filter (\<lambda>r. named ALERT_CANDIDATE r \<and> row_text ''run_id'' r \<noteq> None) rows = filter (named ALERT_CANDIDATE) rows"
    using m(4) by (intro filter_cong) (auto simp: orphan_candidates_def filter_empty_conv)
  finally show ?thesis
    using m es by (auto simp: orphan_candidates_def filter_empty_conv)
qed

lemma record_of_event:
  assumes "event_to_record e = Inr row"
  shows "get_or_none row ''priority'' = opt_str (te_priority e)"
    "get_or_none row ''name'' = PyStr (telemetry_name_value (te_name e))"
  using assms unfolding event_to_record_def project_allowlist_def reject_denied_def
  by (auto simp: TELEMETRY_ALLOWLIST_def TELEMETRY_DENYLIST_def get_or_none_def)

lemma tally_none_known:
  assumes "\<forall>row \<in> set rows. \<forall>k \<in> set known. row_text key row \<noteq> Some k"
  shows "fst (tally known key rows) = map (\<lambda>k. (k, 0)) known"
proof -
  have "fst (fold (tally_step key) rows (map (\<lambda>k. (k, 0)) known, u)) = map (\<lambda>k. (k, 0)) known" for u
    using assms
  proof (induction rows arbitrary: u)
    case (Cons row rows)
    have "dict_get (map (\<lambda>k. (k, 0 :: int)) known) r = None" if "row_text key row = Some r" for r
      using Cons.prems that by (auto simp: map_of_eq_None_iff)
    then have "tally_step key row (map (\<lambda>k. (k, 0)) known, u) = (map (\<lambda>k. (k, 0)) known, u + 1)"
      by (simp add: tally_step_def split: option.split)
    then show ?case using Cons by simp
  qed simp
  then show ?thesis by (simp add: tally_def)
qed

text \<open>The priority figures of the report count nothing the program itself records: in the records of any
  observations whose candidates carry the priority of a signal, as the pipeline emits them, all four
  counts are zero and the share of important alerts is undefined, because the report looks for upper
  case names and the telemetry holds lower case values.\<close>

theorem priority_counts_blind:
  assumes "rows = map (\<lambda>e. projr (event_to_record e)) es"
    and "\<forall>e \<in> set es. te_name e = ALERT_CANDIDATE \<longrightarrow> (\<exists>s. te_priority e = te_priority (signal_fields s))"
  shows "list_all (\<lambda>k. dict_get (alert_noise_section rows market suppressed n) k = Some (PyInt 0))
      [''info_count'', ''notice_count'', ''important_count'', ''critical_count'']
    \<and> dict_get (alert_noise_section rows market suppressed n) ''important_critical_ratio'' = Some PyNone"
proof -
  have "row_text ''priority'' row \<noteq> Some k" if "row \<in> set (filter (named ALERT_CANDIDATE) rows)" "k \<in> set PRIORITIES" for row k
  proof -
    have "row \<in> (\<lambda>e. projr (event_to_record e)) ` set es" "named ALERT_CANDIDATE row"
      using that(1) by (simp_all add: assms(1))
    then obtain e where e: "e \<in> set es" "row = projr (event_to_record e)" "named ALERT_CANDIDATE row" by blast
    then have row: "event_to_record e = Inr row" using event_to_record_total [of e] by auto
    note get = record_of_event [OF row]
    then have "telemetry_name_value (te_name e) = telemetry_name_value ALERT_CANDIDATE"
      using e(3) unfolding named_def by (metis pyval.inject(4))
    then have "te_name e = ALERT_CANDIDATE" by (simp only: telemetry_name_value_inject)
    then obtain s where "te_priority e = te_priority (signal_fields s)" using assms(2) e(1) by blast
    then have "row_text ''priority'' row = Some (signal_priority_value (sg_priority s))"
      by (simp add: row_text_def get signal_fields_def opt_str_def text_or_none_def)
    then show ?thesis using that(2) by (cases "sg_priority s") (auto simp: PRIORITIES_def)
  qed
  then have "priority_counts (filter (named ALERT_CANDIDATE) rows) = map (\<lambda>k. (k, 0)) PRIORITIES"
    unfolding priority_counts_def by (intro tally_none_known) blast
  then show ?thesis
    by (simp add: alert_noise_section_def Let_def split_beta count_at_def PRIORITIES_def opt_ratio_def ratio_def opt_flt_def)
qed

subsection \<open>A sample log\<close>

definition sample_row :: "int \<Rightarrow> payload" where
  "sample_row t =
     [(''name'', PyStr ''alert_candidate''), (''run_id'', PyStr ''r''), (''symbol'', PyStr ''600519.SH''),
      (''market_timestamp'', PyInt t), (''latency_s'', PyNone)]"

definition sample_rows :: "payload list" where
  "sample_rows = [sample_row 1704159000, sample_row 1704160800]"

definition sample_loaded :: loaded_telemetry where
  "sample_loaded = no_telemetry\<lparr>lt_records := sample_rows, lt_records_read := 2\<rparr>"

theorem percentile_nearest_rank_witness:
  "\<exists>x \<in> set [3, 1, 2]. percentile [3, 1, 2] (50 :: flt) = Inr (Some x) \<and> x = 2"
proof -
  have "percentile [3, 1, 2] (50 :: flt) = Inr (Some 2)" by code_simp
  then show ?thesis using percentile_nearest_rank [of "[3, 1, 2]" 50] by auto
qed

theorem evaluate_reports_witness:
  "\<exists>r. evaluate \<lparr>rx_date = \<lambda>_. ''d'', rx_telemetry_path = \<lambda>_. ''t'', rx_feedback_path = \<lambda>_. ''f''\<rparr>
        sample_loaded None None None = Inr r
     \<and> report_to_record r = Inr (PyDict (raw_record r))"
proof -
  have "\<not> raises (session_id (1704159000 :: flt))" "\<not> raises (session_id (1704160800 :: flt))" by code_simp+
  then have "row_ok (sample_row 1704159000)" "row_ok (sample_row 1704160800)"
    unfolding not_raises_iff by (simp_all add: row_ok_def sample_row_def get_or_none_def float_max_int_def)
  then have "\<forall>row \<in> set (lt_records sample_loaded). row_ok row"
    by (simp add: sample_loaded_def sample_rows_def)
  from evaluate_reports [OF this, of None] show ?thesis by blast
qed

theorem alert_rate_counts_every_candidate_witness:
  "mm_rate (projr (market_metrics_of sample_rows)) = available_value (2 / 1800 * 3600)"
proof -
  have ok: "\<not> raises (market_metrics_of sample_rows)" by code_simp
  then have run: "market_metrics_of sample_rows = Inr (projr (market_metrics_of sample_rows))"
    unfolding not_raises_iff by auto
  have "dict_get (mm_rate (projr (market_metrics_of sample_rows))) ''available'' = Some (PyBool True)" by code_simp
  note rate = alert_rate_counts_every_candidate [OF run this]
  have "length (filter (named ALERT_CANDIDATE) sample_rows) = 2"
    "mm_observed (projr (market_metrics_of sample_rows)) = 1800" by code_simp+
  then show ?thesis using rate by simp
qed

theorem priority_counts_blind_witness:
  "dict_get (alert_noise_section
       [projr (event_to_record (no_fields\<lparr>te_name := ALERT_CANDIDATE, te_priority := Some ''critical''\<rparr>))]
       (projr (market_metrics_of sample_rows)) [] 0) ''critical_count'' = Some (PyInt 0)"
proof -
  let ?e = "no_fields\<lparr>te_name := ALERT_CANDIDATE, te_priority := Some ''critical''\<rparr>"
  let ?s = "undefined\<lparr>sg_priority := CRITICAL\<rparr>"
  have "te_priority ?e = te_priority (signal_fields ?s)" by (simp add: signal_fields_def)
  then have "\<forall>e \<in> set [?e]. te_name e = ALERT_CANDIDATE \<longrightarrow> (\<exists>s. te_priority e = te_priority (signal_fields s))"
    by (simp only: list.set ball_simps) blast
  from priority_counts_blind [OF refl this] show ?thesis by simp
qed

end
