(* ===== verification/Tuning.thy ===== *)
theory Tuning
  imports Evaluation Scheduler
begin

text \<open>
  \<open>tuning/config.py\<close>, \<open>store.py\<close> and \<open>feedback.py\<close>: the parameters an offline comparison may change, their
  strict validation, the snapshot files with their identifiers, and the feedback evidence. The directory of
  snapshots maps an identifier to what its file holds: \<open>None\<close> is text that is not UTF-8 JSON, and a value
  that the store wrote is the value that \<open>json.loads\<close> gives back.
\<close>

section \<open>The parameters\<close>

datatype parameter_status = SUPPORTED | DEFERRED

definition OFFLINE_TUNING_CONFIG_ALLOWLIST :: "string list" where
  "OFFLINE_TUNING_CONFIG_ALLOWLIST =
     [''cluster_lookback_s'', ''hot_event_severity'', ''hot_volume_ratio_5m'',
      ''hot_change_5m'', ''warm_change_1m'', ''warm_change_5m'', ''warm_volume_ratio'']"

definition DEFERRED_TUNING_PARAMETER_NAMES :: "string list" where
  "DEFERRED_TUNING_PARAMETER_NAMES =
     [''cooldown_s'', ''upgrade_dwell_s'', ''hot_downgrade_dwell_s'',
      ''warm_downgrade_dwell_s'', ''router_min_priority'', ''router_require_alert_edge'',
      ''router_min_convergence_types'', ''episode_max_calls'', ''allow_escalation_recall'',
      ''cold_interval_s'', ''warm_interval_s'', ''hot_interval_s'', ''rapid_1m_sev2'',
      ''rapid_1m_sev3'', ''rapid_1m_sev4'', ''rapid_5m_sev3'', ''rapid_5m_sev4'',
      ''rapid_5m_sev5'', ''vol_5m_sev2'', ''vol_5m_sev3'', ''vol_1m_sev3'', ''vol_5m_sev4'',
      ''vol_5m_sev5'', ''breakout_sev4'', ''breakout_sev5'', ''vwap_cross_sev3_5m'',
      ''ttl_short_s'', ''ttl_long_s'', ''prompt_compactness'', ''intelligence_timeout_s'',
      ''volume_ratio_lookback'']"

record tuning_parameter =
  ti_name :: string
  ti_status :: parameter_status
  ti_production_default :: pyval
  ti_reason :: string

definition inventory_row :: "string \<Rightarrow> parameter_status \<Rightarrow> pyval \<Rightarrow> string \<Rightarrow> tuning_parameter" where
  "inventory_row name status production_default reason =
     \<lparr>ti_name = name, ti_status = status, ti_production_default = production_default, ti_reason = reason\<rparr>"

definition WARMING_REASON :: string where
  "WARMING_REASON = ''WarmingConfig via WarmingPolicy; comparator observes scheduler tick counts''"

definition FROZEN_MONOTONIC_REASON :: string where
  "FROZEN_MONOTONIC_REASON =
     ''Current deterministic M5 Replay freezes monotonic time. '' @
     ''Absolute cooldown/dwell seconds are not faithfully comparable.''"

definition INTEL_NOT_ATTACHED_REASON :: string where
  "INTEL_NOT_ATTACHED_REASON =
     ''M5 comparator does not attach Intelligence; '' @
     ''parameter cannot affect current comparison execution.''"

definition LIVE_CADENCE_REASON :: string where
  "LIVE_CADENCE_REASON =
     ''Replay corpus fetches every fixture tick with 0 intervals; '' @
     ''live AdaptiveScheduler cadence is not Replay-comparable.''"

definition EVENT_MODULE_GLOBAL_REASON :: string where
  "EVENT_MODULE_GLOBAL_REASON = ''Event rule module global; requires EventThresholds injection across rules''"

definition tuning_parameter_inventory :: "tuning_parameter list" where
  "tuning_parameter_inventory =
     [inventory_row ''cluster_lookback_s'' SUPPORTED
        (PyFloat (Fin CLUSTER_LOOKBACK_S))
        ''SignalComposer lookback_s; comparator observes signal_episodes_created'',
      inventory_row ''hot_event_severity'' SUPPORTED
        (PyInt (wc_hot_event_severity default_warming_config))
        WARMING_REASON,
      inventory_row ''hot_volume_ratio_5m'' SUPPORTED
        (PyFloat (Fin (wc_hot_volume_ratio_5m default_warming_config)))
        WARMING_REASON,
      inventory_row ''hot_change_5m'' SUPPORTED
        (PyFloat (Fin (wc_hot_change_5m default_warming_config)))
        WARMING_REASON,
      inventory_row ''warm_change_1m'' SUPPORTED
        (PyFloat (Fin (wc_warm_change_1m default_warming_config)))
        WARMING_REASON,
      inventory_row ''warm_change_5m'' SUPPORTED
        (PyFloat (Fin (wc_warm_change_5m default_warming_config)))
        WARMING_REASON,
      inventory_row ''warm_volume_ratio'' SUPPORTED
        (PyFloat (Fin (wc_warm_volume_ratio default_warming_config)))
        WARMING_REASON,
      inventory_row ''cooldown_s'' DEFERRED (PyFloat (Fin DEFAULT_COOLDOWN_S)) FROZEN_MONOTONIC_REASON,
      inventory_row ''upgrade_dwell_s'' DEFERRED
        (PyFloat (Fin (sp_upgrade_dwell_s default_scheduler_policy)))
        FROZEN_MONOTONIC_REASON,
      inventory_row ''hot_downgrade_dwell_s'' DEFERRED
        (PyFloat (Fin (sp_hot_downgrade_dwell_s default_scheduler_policy)))
        FROZEN_MONOTONIC_REASON,
      inventory_row ''warm_downgrade_dwell_s'' DEFERRED
        (PyFloat (Fin (sp_warm_downgrade_dwell_s default_scheduler_policy)))
        FROZEN_MONOTONIC_REASON,
      inventory_row ''router_min_priority'' DEFERRED
        (PyStr (signal_priority_value (ro_min_priority default_router_policy)))
        INTEL_NOT_ATTACHED_REASON,
      inventory_row ''router_require_alert_edge'' DEFERRED
        (PyBool (ro_require_alert_edge default_router_policy))
        INTEL_NOT_ATTACHED_REASON,
      inventory_row ''router_min_convergence_types'' DEFERRED
        (PyInt (int (ro_min_convergence_types default_router_policy)))
        INTEL_NOT_ATTACHED_REASON,
      inventory_row ''episode_max_calls'' DEFERRED
        (PyInt (int (cb_max_calls default_call_budget)))
        INTEL_NOT_ATTACHED_REASON,
      inventory_row ''allow_escalation_recall'' DEFERRED
        (PyBool (cb_allow_escalation_recall default_call_budget))
        INTEL_NOT_ATTACHED_REASON,
      inventory_row ''cold_interval_s'' DEFERRED
        (PyFloat (Fin (sp_cold_interval_s default_scheduler_policy)))
        LIVE_CADENCE_REASON,
      inventory_row ''warm_interval_s'' DEFERRED
        (PyFloat (Fin (sp_warm_interval_s default_scheduler_policy)))
        LIVE_CADENCE_REASON,
      inventory_row ''hot_interval_s'' DEFERRED
        (PyFloat (Fin (sp_hot_interval_s default_scheduler_policy)))
        LIVE_CADENCE_REASON,
      inventory_row ''rapid_1m_sev2'' DEFERRED (PyFloat (Fin RAPID_1M_SEV2)) EVENT_MODULE_GLOBAL_REASON,
      inventory_row ''rapid_1m_sev3'' DEFERRED (PyFloat (Fin RAPID_1M_SEV3)) EVENT_MODULE_GLOBAL_REASON,
      inventory_row ''rapid_1m_sev4'' DEFERRED (PyFloat (Fin RAPID_1M_SEV4)) EVENT_MODULE_GLOBAL_REASON,
      inventory_row ''rapid_5m_sev3'' DEFERRED (PyFloat (Fin RAPID_5M_SEV3)) EVENT_MODULE_GLOBAL_REASON,
      inventory_row ''rapid_5m_sev4'' DEFERRED (PyFloat (Fin RAPID_5M_SEV4)) EVENT_MODULE_GLOBAL_REASON,
      inventory_row ''rapid_5m_sev5'' DEFERRED (PyFloat (Fin RAPID_5M_SEV5)) EVENT_MODULE_GLOBAL_REASON,
      inventory_row ''vol_5m_sev2'' DEFERRED (PyFloat (Fin VOL_5M_SEV2)) EVENT_MODULE_GLOBAL_REASON,
      inventory_row ''vol_5m_sev3'' DEFERRED (PyFloat (Fin VOL_5M_SEV3)) EVENT_MODULE_GLOBAL_REASON,
      inventory_row ''vol_1m_sev3'' DEFERRED (PyFloat (Fin VOL_1M_SEV3)) EVENT_MODULE_GLOBAL_REASON,
      inventory_row ''vol_5m_sev4'' DEFERRED (PyFloat (Fin VOL_5M_SEV4)) EVENT_MODULE_GLOBAL_REASON,
      inventory_row ''vol_5m_sev5'' DEFERRED (PyFloat (Fin VOL_5M_SEV5)) EVENT_MODULE_GLOBAL_REASON,
      inventory_row ''breakout_sev4'' DEFERRED (PyFloat (Fin BREAKOUT_SEV4)) EVENT_MODULE_GLOBAL_REASON,
      inventory_row ''breakout_sev5'' DEFERRED (PyFloat (Fin BREAKOUT_SEV5)) EVENT_MODULE_GLOBAL_REASON,
      inventory_row ''vwap_cross_sev3_5m'' DEFERRED
        (PyFloat (Fin VWAP_CROSS_SEV3_5M))
        EVENT_MODULE_GLOBAL_REASON,
      inventory_row ''ttl_short_s'' DEFERRED
        (PyFloat (Fin TTL_SHORT_S))
        ''Event TTL module global; requires EventThresholds injection across rules'',
      inventory_row ''ttl_long_s'' DEFERRED
        (PyFloat (Fin TTL_LONG_S))
        ''Event TTL module global; requires EventThresholds injection across rules'',
      inventory_row ''prompt_compactness'' DEFERRED
        PyNone
        ''Intelligence payload shaping is not a typed injectable Offline Replay field'',
      inventory_row ''intelligence_timeout_s'' DEFERRED
        PyNone
        ''Coordinator timeout; M5 comparator does not attach Intelligence'',
      inventory_row ''volume_ratio_lookback'' DEFERRED
        (PyInt 20)
        ''FeatureEngine rolling window; not injected without FeaturePolicy refactor'']"

section \<open>The candidate configuration\<close>

text \<open>\<open>min_exclusive\<close> and \<open>min_inclusive\<close> are optional, as in the source.\<close>

definition config_finite_float :: "pyval \<Rightarrow> string \<Rightarrow> flt option \<Rightarrow> flt option \<Rightarrow> flt res" where
  "config_finite_float value field min_exclusive min_inclusive =
     res_bind
       (case value of
          PyInt i \<Rightarrow> if \<bar>i\<bar> < float_max_int then Inr (Fin (of_int i)) else Inl OverflowError
        | PyFloat x \<Rightarrow> Inr x
        | _ \<Rightarrow> Inl (TuningConfigError (field @ '' must be a finite number'')))
       (\<lambda>number. case number of
          Fin x \<Rightarrow>
            if (case min_exclusive of None \<Rightarrow> False | Some m \<Rightarrow> x \<le> m)
            then Inl (TuningConfigError (field @ '' must be > the minimum''))
            else if (case min_inclusive of None \<Rightarrow> False | Some m \<Rightarrow> x < m)
            then Inl (TuningConfigError (field @ '' must be >= the minimum''))
            else Inr x
        | _ \<Rightarrow> Inl (TuningConfigError (field @ '' must be finite'')))"

definition strict_int :: "pyval \<Rightarrow> string \<Rightarrow> int \<Rightarrow> int res" where
  "strict_int value field min_inclusive =
     (case value of
        PyInt i \<Rightarrow>
          if i < min_inclusive then Inl (TuningConfigError (field @ '' must be >= the minimum'')) else Inr i
      | _ \<Rightarrow> Inl (TuningConfigError (field @ '' must be an int'')))"

text \<open>A configuration is built from finite floats; what \<open>__post_init__\<close> adds is their ranges.\<close>

record offline_tuning_config =
  oc_cluster_lookback_s :: flt
  oc_hot_event_severity :: int
  oc_hot_volume_ratio_5m :: flt
  oc_hot_change_5m :: flt
  oc_warm_change_1m :: flt
  oc_warm_change_5m :: flt
  oc_warm_volume_ratio :: flt

definition positive_field :: "flt \<Rightarrow> string \<Rightarrow> unit res" where
  "positive_field x field = res_bind (config_finite_float (PyFloat (Fin x)) field (Some 0) None) (\<lambda>_. Inr ())"

definition config_post_init :: "offline_tuning_config \<Rightarrow> offline_tuning_config res" where
  "config_post_init c =
     res_bind (all_checks
       [positive_field (oc_cluster_lookback_s c) ''cluster_lookback_s'',
        (if oc_hot_event_severity c < 1 \<or> oc_hot_event_severity c > 5
         then Inl (TuningConfigError ''hot_event_severity must be 1..5'') else Inr ()),
        positive_field (oc_hot_volume_ratio_5m c) ''hot_volume_ratio_5m'',
        positive_field (oc_hot_change_5m c) ''hot_change_5m'',
        positive_field (oc_warm_change_1m c) ''warm_change_1m'',
        positive_field (oc_warm_change_5m c) ''warm_change_5m'',
        positive_field (oc_warm_volume_ratio c) ''warm_volume_ratio'']) (\<lambda>_. Inr c)"

definition raw_config :: "offline_tuning_config \<Rightarrow> payload" where
  "raw_config c =
     [(''cluster_lookback_s'', PyFloat (Fin (oc_cluster_lookback_s c))),
      (''hot_event_severity'', PyInt (oc_hot_event_severity c)),
      (''hot_volume_ratio_5m'', PyFloat (Fin (oc_hot_volume_ratio_5m c))),
      (''hot_change_5m'', PyFloat (Fin (oc_hot_change_5m c))),
      (''warm_change_1m'', PyFloat (Fin (oc_warm_change_1m c))),
      (''warm_change_5m'', PyFloat (Fin (oc_warm_change_5m c))),
      (''warm_volume_ratio'', PyFloat (Fin (oc_warm_volume_ratio c)))]"

definition config_to_record :: "offline_tuning_config \<Rightarrow> payload res" where
  "config_to_record c =
     (if list_ex (\<lambda>(k, v). k \<in> set TELEMETRY_DENYLIST) (raw_config c)
      then Inl (TuningConfigError ''denied keys'')
      else project_allowlist (raw_config c) OFFLINE_TUNING_CONFIG_ALLOWLIST)"

definition required_float :: "payload \<Rightarrow> string \<Rightarrow> flt res" where
  "required_float d key =
     (case dict_get d key of
        None \<Rightarrow> Inl (KeyError key)
      | Some v \<Rightarrow> config_finite_float v key (Some 0) None)"

definition config_from_record :: "pyval \<Rightarrow> offline_tuning_config res" where
  "config_from_record value =
     (case value of
        PyDict d \<Rightarrow>
          if list_ex (\<lambda>(k, v). k \<in> set DEFERRED_TUNING_PARAMETER_NAMES) d
          then Inl (TuningConfigError ''deferred parameters cannot enter OfflineTuningConfig'')
          else if list_ex (\<lambda>(k, v). k \<notin> set OFFLINE_TUNING_CONFIG_ALLOWLIST) d
          then Inl (TuningConfigError ''unknown OfflineTuningConfig keys'')
          else if list_ex (\<lambda>k. dict_get d k = None) OFFLINE_TUNING_CONFIG_ALLOWLIST
          then Inl (TuningConfigError ''missing OfflineTuningConfig keys'')
          else
            res_bind (case dict_get d ''hot_event_severity'' of
                None \<Rightarrow> Inl (KeyError ''hot_event_severity'')
              | Some v \<Rightarrow> strict_int v ''hot_event_severity'' 1) (\<lambda>severity.
            if severity > 5 then Inl (TuningConfigError ''hot_event_severity must be 1..5'') else
            res_bind (required_float d ''cluster_lookback_s'') (\<lambda>cluster_lookback.
            res_bind (required_float d ''hot_volume_ratio_5m'') (\<lambda>hot_volume_ratio.
            res_bind (required_float d ''hot_change_5m'') (\<lambda>hot_change.
            res_bind (required_float d ''warm_change_1m'') (\<lambda>warm_change_1m.
            res_bind (required_float d ''warm_change_5m'') (\<lambda>warm_change_5m.
            res_bind (required_float d ''warm_volume_ratio'') (\<lambda>warm_volume_ratio.
              config_post_init
                \<lparr>oc_cluster_lookback_s = cluster_lookback, oc_hot_event_severity = severity,
                 oc_hot_volume_ratio_5m = hot_volume_ratio, oc_hot_change_5m = hot_change,
                 oc_warm_change_1m = warm_change_1m, oc_warm_change_5m = warm_change_5m,
                 oc_warm_volume_ratio = warm_volume_ratio\<rparr>)))))))
      | _ \<Rightarrow> Inl (TuningConfigError ''OfflineTuningConfig must be a JSON object''))"

definition warming_config_of :: "offline_tuning_config \<Rightarrow> warming_config" where
  "warming_config_of c =
     \<lparr>wc_hot_event_severity = oc_hot_event_severity c, wc_hot_volume_ratio_5m = oc_hot_volume_ratio_5m c,
      wc_hot_change_5m = oc_hot_change_5m c, wc_warm_change_1m = oc_warm_change_1m c,
      wc_warm_change_5m = oc_warm_change_5m c, wc_warm_volume_ratio = oc_warm_volume_ratio c\<rparr>"

definition capture_baseline_config :: "offline_tuning_config res" where
  "capture_baseline_config =
     (let warming = default_warming_config
      in config_post_init
        \<lparr>oc_cluster_lookback_s = CLUSTER_LOOKBACK_S, oc_hot_event_severity = wc_hot_event_severity warming,
         oc_hot_volume_ratio_5m = wc_hot_volume_ratio_5m warming, oc_hot_change_5m = wc_hot_change_5m warming,
         oc_warm_change_1m = wc_warm_change_1m warming, oc_warm_change_5m = wc_warm_change_5m warming,
         oc_warm_volume_ratio = wc_warm_volume_ratio warming\<rparr>)"

section \<open>Identifiers of snapshots\<close>

text \<open>
  \<open>uuid.UUID(hex=...)\<close> of the standard library, written out: the prefixes and hyphens are dropped, braces
  stripped, and 32 characters are read by \<open>int(..., 16)\<close>, which takes white space, a sign, a prefix and single
  underscores. \<open>UUID.hex\<close> prints 32 lower-case digits.
\<close>

function remove_all :: "string \<Rightarrow> string \<Rightarrow> string" where
  "remove_all pat s =
     (case s of
        [] \<Rightarrow> []
      | c # cs \<Rightarrow>
          if pat \<noteq> [] \<and> take (length pat) s = pat then remove_all pat (drop (length pat) s)
          else c # remove_all pat cs)"
  by pat_completeness auto
termination
  by (relation "measure (\<lambda>(pat, s). length s)") auto

declare remove_all.simps [simp del]

definition strip_by :: "(char \<Rightarrow> bool) \<Rightarrow> string \<Rightarrow> string" where
  "strip_by P s = rev (dropWhile P (rev (dropWhile P s)))"

definition hex_value :: "char \<Rightarrow> nat option" where
  "hex_value c =
     (let n = of_char c :: nat
      in if 48 \<le> n \<and> n \<le> 57 then Some (n - 48)
         else if 97 \<le> n \<and> n \<le> 102 then Some (n - 87)
         else if 65 \<le> n \<and> n \<le> 70 then Some (n - 55)
         else None)"

fun hex_digits :: "nat \<Rightarrow> string \<Rightarrow> nat option" where
  "hex_digits acc [] = Some acc"
| "hex_digits acc (c # cs) =
     (if c = CHR ''_'' then
        (case cs of
           [] \<Rightarrow> None
         | d # ds \<Rightarrow> (case hex_value d of None \<Rightarrow> None | Some v \<Rightarrow> hex_digits (16 * acc + v) ds))
      else case hex_value c of None \<Rightarrow> None | Some v \<Rightarrow> hex_digits (16 * acc + v) cs)"

definition int_base16 :: "string \<Rightarrow> int option" where
  "int_base16 text =
     (let s = strip_by py_space text;
          negative = (s \<noteq> [] \<and> hd s = CHR ''-'');
          s = (if s \<noteq> [] \<and> hd s \<in> {CHR ''-'', CHR ''+''} then tl s else s);
          prefixed = (length s \<ge> 2 \<and> s ! 0 = CHR ''0'' \<and> s ! 1 \<in> {CHR ''x'', CHR ''X''});
          digits = (if prefixed then drop 2 s else s)
      in if digits = [] \<or> (\<not> prefixed \<and> hd digits = CHR ''_'') then None
         else map_option (\<lambda>n. if negative then - int n else int n) (hex_digits 0 digits))"

definition uuid_int :: "string \<Rightarrow> int option" where
  "uuid_int text =
     (let s = remove_all ''-'' (strip_by (\<lambda>c. c \<in> {CHR 0x7B, CHR 0x7D}) (remove_all ''uuid:'' (remove_all ''urn:'' text)))
      in if length s \<noteq> 32 then None
         else case int_base16 s of
           None \<Rightarrow> None
         | Some n \<Rightarrow> if 0 \<le> n \<and> n < 2 ^ 128 then Some n else None)"

definition hex_char :: "nat \<Rightarrow> char" where
  "hex_char n = ''0123456789abcdef'' ! n"

fun hex_text :: "nat \<Rightarrow> nat \<Rightarrow> string" where
  "hex_text 0 n = []"
| "hex_text (Suc w) n = hex_text w (n div 16) @ [hex_char (n mod 16)]"

definition contains_text :: "string \<Rightarrow> string \<Rightarrow> bool" where
  "contains_text pat s \<longleftrightarrow> list_ex (\<lambda>n. take (length pat) (drop n s) = pat) [0..<Suc (length s)]"

definition validate_snapshot_id :: "string \<Rightarrow> string res" where
  "validate_snapshot_id snapshot_id =
     (if blank snapshot_id then Inl (TuningSnapshotError ''snapshot_id must be non-empty'')
      else if contains_text ''/'' snapshot_id \<or> contains_text [CHR 0x5C] snapshot_id \<or> contains_text ''..'' snapshot_id
      then Inl (TuningSnapshotError ''snapshot_id is not a filesystem path'')
      else case uuid_int snapshot_id of
        None \<Rightarrow> Inl (TuningSnapshotError ''snapshot_id must be an opaque UUID hex'')
      | Some n \<Rightarrow>
          if hex_text 32 (nat n) \<noteq> snapshot_id
          then Inl (TuningSnapshotError ''snapshot_id must be an opaque UUID hex'')
          else Inr snapshot_id)"

section \<open>Snapshot files\<close>

definition TUNING_ARTIFACT_SCHEMA_VERSION :: int where
  "TUNING_ARTIFACT_SCHEMA_VERSION = 2"

definition TUNING_ARTIFACT_TOP_KEYS :: "string list" where
  "TUNING_ARTIFACT_TOP_KEYS = [''schema_version'', ''snapshot'', ''config'']"

record tuning_artifact =
  ta_snapshot :: tuning_snapshot
  ta_config :: offline_tuning_config
  ta_schema_version :: int

definition artifact_to_record :: "tuning_artifact \<Rightarrow> payload res" where
  "artifact_to_record a =
     (if ta_schema_version a \<noteq> TUNING_ARTIFACT_SCHEMA_VERSION
      then Inl (TuningSnapshotError ''unsupported tuning artifact schema_version'')
      else
        res_bind (tuning_to_record (ta_snapshot a)) (\<lambda>snapshot.
        res_bind (config_to_record (ta_config a)) (\<lambda>config.
          let raw = [(''schema_version'', PyInt (ta_schema_version a)), (''snapshot'', PyDict snapshot),
                     (''config'', PyDict config)]
          in if has_denied TELEMETRY_DENYLIST (PyDict raw) then Inl (TuningSnapshotError ''denied keys'')
             else Inr raw)))"

text \<open>The directory \<open>tuning\<close>: the files named \<open><id>.json\<close>.\<close>

type_synonym snapshot_files = "string \<rightharpoonup> pyval option"

text \<open>The identifier is given, or the next draw.\<close>

definition make_artifact ::
  "uuid_source \<Rightarrow> nat \<Rightarrow> offline_tuning_config \<Rightarrow> string \<Rightarrow> tuning_source \<Rightarrow> fake_clock \<Rightarrow> string option
    \<Rightarrow> tuning_artifact res \<times> nat" where
  "make_artifact uuid draws config config_version source clock snapshot_id =
     (if blank config_version then (Inl (TuningSnapshotError ''config_version must be non-empty''), draws)
      else
        let (ident, draws) = (case snapshot_id of Some i \<Rightarrow> (i, draws) | None \<Rightarrow> (uuid draws, Suc draws))
        in (res_bind (validate_snapshot_id ident) (\<lambda>_.
              res_bind (tuning_post_init
                 \<lparr>ts_snapshot_id = ident, ts_created_timestamp = Fin (fc_wall clock), ts_source = source,
                  ts_config_version = config_version\<rparr>) (\<lambda>snapshot.
                Inr \<lparr>ta_snapshot = snapshot, ta_config = config,
                     ta_schema_version = TUNING_ARTIFACT_SCHEMA_VERSION\<rparr>)), draws))"

definition write_snapshot :: "tuning_artifact \<Rightarrow> snapshot_files \<Rightarrow> snapshot_files res" where
  "write_snapshot artifact files =
     res_bind (validate_snapshot_id (ts_snapshot_id (ta_snapshot artifact))) (\<lambda>ident.
       if files ident \<noteq> None
       then Inl (TuningSnapshotError ''snapshot_id already exists; refusing to overwrite'')
       else res_bind (artifact_to_record artifact) (\<lambda>payload. Inr (files(ident \<mapsto> Some (PyDict payload)))))"

text \<open>\<open>version != 2\<close>, where a float compares by value.\<close>

definition is_schema_version :: "pyval \<Rightarrow> bool" where
  "is_schema_version v \<longleftrightarrow>
     (case v of
        PyInt i \<Rightarrow> i = TUNING_ARTIFACT_SCHEMA_VERSION
      | PyFloat (Fin x) \<Rightarrow> x = of_int TUNING_ARTIFACT_SCHEMA_VERSION
      | _ \<Rightarrow> False)"

definition tuning_source_of :: "pyval \<Rightarrow> tuning_source option" where
  "tuning_source_of v =
     (if v = PyStr ''manual'' then Some MANUAL
      else if v = PyStr ''offline_eval'' then Some OFFLINE_EVAL else None)"

definition required :: "payload \<Rightarrow> string \<Rightarrow> pyval res" where
  "required d key = (case dict_get d key of None \<Rightarrow> Inl (KeyError key) | Some v \<Rightarrow> Inr v)"

text \<open>\<open>float(created)\<close> raises \<open>OverflowError\<close>, which the handler around it does not catch.\<close>

definition stored_snapshot :: "payload \<Rightarrow> tuning_source \<Rightarrow> tuning_snapshot res" where
  "stored_snapshot d source =
     res_bind (required d ''snapshot_id'') (\<lambda>ident.
     res_bind (required d ''created_timestamp'') (\<lambda>created.
     res_bind (required d ''config_version'') (\<lambda>version_text.
       case (ident, version_text) of
         (PyStr i, PyStr v) \<Rightarrow>
           (case created of
              PyInt _ \<Rightarrow> res_bind (py_float (\<lambda>_. None) created) (\<lambda>t.
                (case tuning_post_init \<lparr>ts_snapshot_id = i, ts_created_timestamp = t, ts_source = source, ts_config_version = v\<rparr> of
                   Inl _ \<Rightarrow> Inl (TuningSnapshotError ''invalid snapshot identity'') | Inr s \<Rightarrow> Inr s))
            | PyFloat t \<Rightarrow>
                (case tuning_post_init \<lparr>ts_snapshot_id = i, ts_created_timestamp = t, ts_source = source, ts_config_version = v\<rparr> of
                   Inl _ \<Rightarrow> Inl (TuningSnapshotError ''invalid snapshot identity'') | Inr s \<Rightarrow> Inr s)
            | _ \<Rightarrow> Inl (TuningSnapshotError ''invalid snapshot identity''))
       | _ \<Rightarrow> Inl (TuningSnapshotError ''invalid snapshot identity''))))"

definition artifact_from_record :: "pyval \<Rightarrow> tuning_artifact res" where
  "artifact_from_record value =
     (case value of
        PyDict d \<Rightarrow>
          if list_ex (\<lambda>(k, v). k \<notin> set TUNING_ARTIFACT_TOP_KEYS) d
          then Inl (TuningSnapshotError ''unknown tuning artifact keys'')
          else if list_ex (\<lambda>k. dict_get d k = None) TUNING_ARTIFACT_TOP_KEYS
          then Inl (TuningSnapshotError ''missing tuning artifact keys'')
          else if \<not> is_schema_version (get_or_none d ''schema_version'')
          then Inl (TuningSnapshotError ''unsupported tuning artifact schema_version'')
          else
            (case get_or_none d ''snapshot'' of
               PyDict e \<Rightarrow>
                 if list_ex (\<lambda>(k, v). k \<notin> set TUNING_ALLOWLIST) e
                 then Inl (TuningSnapshotError ''unknown snapshot keys'')
                 else if list_ex (\<lambda>k. dict_get e k = None) TUNING_ALLOWLIST
                 then Inl (TuningSnapshotError ''missing snapshot keys'')
                 else
                   (case tuning_source_of (get_or_none e ''source'') of
                      None \<Rightarrow> Inl (TuningSnapshotError ''invalid snapshot source'')
                    | Some source \<Rightarrow>
                        res_bind (stored_snapshot e source) (\<lambda>snapshot.
                        res_bind (validate_snapshot_id (ts_snapshot_id snapshot)) (\<lambda>_.
                          case config_from_record (get_or_none d ''config'') of
                            Inl _ \<Rightarrow> Inl (TuningSnapshotError ''invalid OfflineTuningConfig'')
                          | Inr config \<Rightarrow>
                              Inr \<lparr>ta_snapshot = snapshot, ta_config = config,
                                   ta_schema_version = TUNING_ARTIFACT_SCHEMA_VERSION\<rparr>)))
             | _ \<Rightarrow> Inl (TuningSnapshotError ''snapshot must be an object''))
      | _ \<Rightarrow> Inl (TuningSnapshotError ''tuning snapshot must be a JSON object''))"

definition load_snapshot :: "snapshot_files \<Rightarrow> string \<Rightarrow> tuning_artifact res" where
  "load_snapshot files snapshot_id =
     res_bind (validate_snapshot_id snapshot_id) (\<lambda>ident.
       case files ident of
         None \<Rightarrow> Inl (TuningSnapshotError ''tuning snapshot not found'')
       | Some None \<Rightarrow> Inl (TuningSnapshotError ''tuning snapshot is not valid UTF-8 JSON'')
       | Some (Some value) \<Rightarrow> artifact_from_record value)"

section \<open>Feedback evidence\<close>

definition JOINABLE_SIGNAL_EVIDENCE :: "telemetry_name list" where
  "JOINABLE_SIGNAL_EVIDENCE = [SIGNAL_EPISODE_CREATED, SIGNAL_ESCALATED, ALERT_CANDIDATE, ALERT_SUPPRESSED]"

record tuning_feedback =
  tf_raw_feedback_count :: int
  tf_semantic_valid_feedback_count :: int
  tf_eligible_target_count :: int
  tf_orphan_feedback_count :: int
  tf_superseded_feedback_count :: int
  tf_useful :: int
  tf_not_useful :: int
  tf_too_noisy :: int
  tf_too_late :: int

definition feedback_evidence_record :: "tuning_feedback \<Rightarrow> payload" where
  "feedback_evidence_record f =
     [(''raw_feedback_count'', PyInt (tf_raw_feedback_count f)),
      (''semantic_valid_feedback_count'', PyInt (tf_semantic_valid_feedback_count f)),
      (''eligible_target_count'', PyInt (tf_eligible_target_count f)),
      (''orphan_feedback_count'', PyInt (tf_orphan_feedback_count f)),
      (''superseded_feedback_count'', PyInt (tf_superseded_feedback_count f)),
      (''useful'', PyInt (tf_useful f)), (''not_useful'', PyInt (tf_not_useful f)),
      (''too_noisy'', PyInt (tf_too_noisy f)), (''too_late'', PyInt (tf_too_late f))]"

definition joinable_keys :: "payload list \<Rightarrow> (string \<times> string) list" where
  "joinable_keys telemetry =
     remdups (List.map_filter signal_key
       (filter (\<lambda>row. list_ex (\<lambda>name. named name row) JOINABLE_SIGNAL_EVIDENCE
          \<and> text_ok ''run_id'' row \<and> text_ok ''signal_id'' row) telemetry))"

text \<open>Tuples compare lexicographically; \<open>sorted\<close> is stable.\<close>

definition feedback_order :: "payload \<Rightarrow> ((flt \<times> string) \<times> payload) res" where
  "feedback_order row =
     res_bind (stamp_value (get_or_none row ''created_timestamp'')) (\<lambda>created.
       case row_text ''feedback_id'' row of
         None \<Rightarrow> Inl TypeError
       | Some i \<Rightarrow> Inr ((created, i), row))"

definition latest_feedback :: "payload list \<Rightarrow> payload res" where
  "latest_feedback rows =
     res_bind (res_map feedback_order rows) (\<lambda>keyed.
       if keyed = [] then Inl IndexError else Inr (snd (last (sort_key fst keyed))))"

definition build_tuning_feedback_dataset :: "payload list \<Rightarrow> payload list \<Rightarrow> tuning_feedback res" where
  "build_tuning_feedback_dataset feedback_rows telemetry_rows =
     res_bind (res_filter valid_feedback_row feedback_rows) (\<lambda>valid.
       let joinable = joinable_keys telemetry_rows;
           target = (\<lambda>row. Option.bind (signal_key row) (\<lambda>k. if k \<in> set joinable then Some k else None));
           orphan = filter (\<lambda>row. target row = None) valid;
           by_target = group_rows target valid
       in res_bind (res_map (\<lambda>(k, rows). latest_feedback rows) by_target) (\<lambda>winners.
            Inr \<lparr>tf_raw_feedback_count = int (length feedback_rows),
                 tf_semantic_valid_feedback_count = int (length valid),
                 tf_eligible_target_count = int (length by_target),
                 tf_orphan_feedback_count = int (length orphan),
                 tf_superseded_feedback_count = sum_list (map (\<lambda>(k, rows). int (length rows) - 1) by_target),
                 tf_useful = label_count winners USEFUL, tf_not_useful = label_count winners NOT_USEFUL,
                 tf_too_noisy = label_count winners TOO_NOISY, tf_too_late = label_count winners TOO_LATE\<rparr>))"

section \<open>The configuration is strict\<close>

definition config_ok :: "offline_tuning_config \<Rightarrow> bool" where
  "config_ok c \<longleftrightarrow>
     0 < oc_cluster_lookback_s c \<and> 1 \<le> oc_hot_event_severity c \<and> oc_hot_event_severity c \<le> 5
     \<and> 0 < oc_hot_volume_ratio_5m c \<and> 0 < oc_hot_change_5m c \<and> 0 < oc_warm_change_1m c
     \<and> 0 < oc_warm_change_5m c \<and> 0 < oc_warm_volume_ratio c"

lemma config_finite_float_Fin [simp]:
  "config_finite_float (PyFloat (Fin x)) field (Some 0) None
    = (if 0 < x then Inr x else Inl (TuningConfigError (field @ '' must be > the minimum'')))"
  by (simp add: config_finite_float_def not_less)

lemma positive_field_iff [simp]: "positive_field x field = Inr () \<longleftrightarrow> 0 < x"
  by (simp add: positive_field_def)

lemma config_post_init_iff: "config_post_init c = Inr c' \<longleftrightarrow> c' = c \<and> config_ok c"
proof -
  have "config_post_init c = Inr c' \<longleftrightarrow> c' = c \<and> all_checks
       [positive_field (oc_cluster_lookback_s c) ''cluster_lookback_s'',
        (if oc_hot_event_severity c < 1 \<or> oc_hot_event_severity c > 5
         then Inl (TuningConfigError ''hot_event_severity must be 1..5'') else Inr ()),
        positive_field (oc_hot_volume_ratio_5m c) ''hot_volume_ratio_5m'',
        positive_field (oc_hot_change_5m c) ''hot_change_5m'',
        positive_field (oc_warm_change_1m c) ''warm_change_1m'',
        positive_field (oc_warm_change_5m c) ''warm_change_5m'',
        positive_field (oc_warm_volume_ratio c) ''warm_volume_ratio''] = Inr ()"
    unfolding config_post_init_def by (auto simp: res_bind_Inr_iff)
  then show ?thesis unfolding all_checks_Inr config_ok_def by (auto simp: not_less split: if_splits)
qed

lemma raw_config_keys: "map fst (raw_config c) = OFFLINE_TUNING_CONFIG_ALLOWLIST"
  by (simp add: raw_config_def OFFLINE_TUNING_CONFIG_ALLOWLIST_def)

lemma config_keys_free:
  "list_all (\<lambda>k. k \<notin> set TELEMETRY_DENYLIST \<and> k \<notin> set DEFERRED_TUNING_PARAMETER_NAMES) OFFLINE_TUNING_CONFIG_ALLOWLIST"
  by code_simp

lemma config_key_free:
  assumes "(k, v) \<in> set (raw_config c)"
  shows "k \<notin> set TELEMETRY_DENYLIST" "k \<notin> set DEFERRED_TUNING_PARAMETER_NAMES" "k \<in> set OFFLINE_TUNING_CONFIG_ALLOWLIST"
proof -
  have "k \<in> set (map fst (raw_config c))" using assms by force
  then show *: "k \<in> set OFFLINE_TUNING_CONFIG_ALLOWLIST" unfolding raw_config_keys .
  show "k \<notin> set TELEMETRY_DENYLIST" "k \<notin> set DEFERRED_TUNING_PARAMETER_NAMES"
    using * config_keys_free unfolding list_all_iff by blast+
qed

lemma config_to_record_raw: "config_to_record c = Inr (raw_config c)"
proof -
  have "\<not> list_ex (\<lambda>(k, v). k \<in> set TELEMETRY_DENYLIST) (raw_config c)"
    using config_key_free(1) [of _ _ c] unfolding list_ex_iff by fast
  moreover have "filter (\<lambda>(k, v). k \<in> set OFFLINE_TUNING_CONFIG_ALLOWLIST) (raw_config c) = raw_config c"
    using config_key_free(3) [of _ _ c] unfolding filter_id_conv by fast
  ultimately show ?thesis by (simp add: config_to_record_def project_allowlist_def reject_denied_def)
qed

lemma list_ex_none:
  assumes "\<And>k v. (k, v) \<in> set d \<Longrightarrow> \<not> P k"
  shows "\<not> list_ex (\<lambda>(k, v). P k) d"
  using assms unfolding list_ex_iff by fast

lemma config_from_raw:
  assumes "config_ok c"
  shows "config_from_record (PyDict (raw_config c)) = Inr c"
proof -
  have keys: "\<not> list_ex (\<lambda>(k, v). k \<in> set DEFERRED_TUNING_PARAMETER_NAMES) (raw_config c)"
    "\<not> list_ex (\<lambda>(k, v). k \<notin> set OFFLINE_TUNING_CONFIG_ALLOWLIST) (raw_config c)"
    using config_key_free [of _ _ c] by (auto intro!: list_ex_none)
  have none: "\<not> list_ex (\<lambda>k. dict_get (raw_config c) k = None) OFFLINE_TUNING_CONFIG_ALLOWLIST"
    unfolding raw_config_keys [of c, symmetric] list_ex_iff map_of_eq_None_iff by auto
  have sev: "dict_get (raw_config c) ''hot_event_severity'' = Some (PyInt (oc_hot_event_severity c))"
    by (simp add: raw_config_def)
  have ranges: "\<not> oc_hot_event_severity c < 1" "\<not> 5 < oc_hot_event_severity c" using assms by (simp_all add: config_ok_def)
  have "required_float (raw_config c) ''cluster_lookback_s'' = Inr (oc_cluster_lookback_s c)"
    "required_float (raw_config c) ''hot_volume_ratio_5m'' = Inr (oc_hot_volume_ratio_5m c)"
    "required_float (raw_config c) ''hot_change_5m'' = Inr (oc_hot_change_5m c)"
    "required_float (raw_config c) ''warm_change_1m'' = Inr (oc_warm_change_1m c)"
    "required_float (raw_config c) ''warm_change_5m'' = Inr (oc_warm_change_5m c)"
    "required_float (raw_config c) ''warm_volume_ratio'' = Inr (oc_warm_volume_ratio c)"
    using assms by (simp_all add: required_float_def raw_config_def config_ok_def)
  then show ?thesis
    using assms ranges by (simp add: config_from_record_def keys none sev strict_int_def config_post_init_iff config_ok_def)
qed

text \<open>C29: A tuning configuration is strict in both directions: one in range is written and read back unchanged,
  and whatever JSON value is accepted is an object whose keys are exactly the supported parameters, with every
  parameter in range. So no deferred or unknown parameter ever enters a comparison.\<close>

theorem tuning_config_strict:
  "(config_ok c \<longrightarrow> (\<exists>p. config_to_record c = Inr p \<and> config_from_record (PyDict p) = Inr c))
   \<and> (config_from_record value = Inr c \<longrightarrow>
      config_ok c \<and> (\<exists>d. value = PyDict d \<and> set (map fst d) = set OFFLINE_TUNING_CONFIG_ALLOWLIST))"
proof (rule conjI; rule impI)
  assume "config_ok c"
  then show "\<exists>p. config_to_record c = Inr p \<and> config_from_record (PyDict p) = Inr c"
    by (simp add: config_to_record_raw config_from_raw)
next
  assume accepted: "config_from_record value = Inr c"
  then obtain d where d: "value = PyDict d" by (cases "value") (simp_all add: config_from_record_def)
  have keys: "\<not> list_ex (\<lambda>(k, v). k \<notin> set OFFLINE_TUNING_CONFIG_ALLOWLIST) d"
    "\<not> list_ex (\<lambda>k. dict_get d k = None) OFFLINE_TUNING_CONFIG_ALLOWLIST"
    using accepted by (auto simp: d config_from_record_def split: if_splits)
  have "k \<in> set (map fst d)" if "k \<in> set OFFLINE_TUNING_CONFIG_ALLOWLIST" for k
    using keys(2) that unfolding list_ex_iff map_of_eq_None_iff by force
  moreover have "k \<in> set OFFLINE_TUNING_CONFIG_ALLOWLIST" if "k \<in> set (map fst d)" for k
    using keys(1) that unfolding list_ex_iff by force
  moreover have "\<exists>c'. config_post_init c' = Inr c"
    using accepted by (auto simp: d config_from_record_def res_bind_Inr_iff split: if_splits)
  ultimately show "config_ok c \<and> (\<exists>d. value = PyDict d \<and> set (map fst d) = set OFFLINE_TUNING_CONFIG_ALLOWLIST)"
    using d by (auto simp: config_post_init_iff)
qed

section \<open>Identifiers are 32 hexadecimal digits\<close>

abbreviation hex_alphabet :: string where
  "hex_alphabet \<equiv> ''0123456789abcdef''"

lemma hex_alphabet_plain:
  "list_all (\<lambda>c. \<not> py_space c \<and> c \<noteq> CHR ''-'' \<and> c \<noteq> CHR ''+'' \<and> c \<noteq> CHR ''_'' \<and> c \<noteq> CHR ''x'' \<and> c \<noteq> CHR ''X''
     \<and> c \<noteq> CHR '':'' \<and> c \<noteq> CHR ''/'' \<and> c \<noteq> CHR 0x5C \<and> c \<noteq> CHR ''.'' \<and> c \<noteq> CHR 0x7B \<and> c \<noteq> CHR 0x7D
     \<and> hex_value c \<noteq> None \<and> the (hex_value c) < 16 \<and> hex_char (the (hex_value c)) = c) hex_alphabet"
  by code_simp

lemmas hex_digit_plain = hex_alphabet_plain [unfolded list_all_iff, THEN bspec]

lemma hex_text_digits: "length (hex_text w n) = w" "set (hex_text w n) \<subseteq> set hex_alphabet"
proof (induction w arbitrary: n)
  case (Suc w)
  { case 1 show ?case using Suc by simp }
  { case 2
    have "n mod 16 < length hex_alphabet" by simp
    then have "hex_char (n mod 16) \<in> set hex_alphabet" unfolding hex_char_def by (rule nth_mem)
    then show ?case using Suc(2) [of "n div 16"] by simp }
qed simp_all

definition hex_number :: "nat \<Rightarrow> string \<Rightarrow> nat" where
  "hex_number = foldl (\<lambda>acc c. 16 * acc + the (hex_value c))"

lemma hex_digits_number:
  assumes "set s \<subseteq> set hex_alphabet"
  shows "hex_digits acc s = Some (hex_number acc s)"
  using assms
proof (induction s arbitrary: acc)
  case (Cons c s)
  then have "c \<in> set hex_alphabet" and rest: "set s \<subseteq> set hex_alphabet" by (simp_all only: list.set insert_subset)
  from hex_digit_plain [OF this(1)] obtain v where "hex_value c = Some v" "c \<noteq> CHR ''_''" by blast
  then show ?case using Cons.IH [OF rest, of "16 * acc + v"] by (simp add: hex_number_def)
qed (simp add: hex_number_def)

lemma hex_number_inverse:
  assumes "set s \<subseteq> set hex_alphabet"
  shows "hex_text (length s) (hex_number 0 s) = s \<and> hex_number 0 s < 16 ^ length s"
  using assms
proof (induction s rule: rev_induct)
  case (snoc c s)
  have "c \<in> set hex_alphabet" and rest: "set s \<subseteq> set hex_alphabet"
    using snoc.prems by (simp_all only: set_append list.set Un_subset_iff insert_subset)
  from hex_digit_plain [OF this(1)] have c: "the (hex_value c) < 16" "hex_char (the (hex_value c)) = c" by blast+
  have n: "hex_number 0 (s @ [c]) = 16 * hex_number 0 s + the (hex_value c)" by (simp add: hex_number_def)
  show ?case using snoc.IH [OF rest] c by (simp add: n)
qed (simp add: hex_number_def)

lemma remove_all_none:
  assumes "d \<in> set pat" "d \<notin> set s"
  shows "remove_all pat s = s"
  using assms
proof (induction pat s rule: remove_all.induct)
  case (1 pat s)
  show ?case
  proof (cases s)
    case (Cons c cs)
    have "take (length pat) s \<noteq> pat" using 1(3,4) by (metis in_set_takeD)
    then show ?thesis using 1 Cons by (subst remove_all.simps) simp
  qed (simp add: remove_all.simps)
qed

lemma strip_by_none:
  assumes "\<And>c. c \<in> set s \<Longrightarrow> \<not> P c"
  shows "strip_by P s = s"
proof -
  have "dropWhile P xs = xs" if "set xs \<subseteq> set s" for xs
    using assms that by (cases xs) auto
  from this [of s] this [of "rev s"] show ?thesis by (simp add: strip_by_def)
qed

lemma contains_text_none:
  assumes "d \<in> set pat" "d \<notin> set s"
  shows "\<not> contains_text pat s"
proof -
  have "take (length pat) (drop n s) \<noteq> pat" for n using assms by (metis in_set_dropD in_set_takeD)
  then show ?thesis by (simp add: contains_text_def list_ex_iff)
qed

lemma hex_free: "set s \<subseteq> set hex_alphabet \<Longrightarrow> c \<notin> set hex_alphabet \<Longrightarrow> c \<notin> set s"
  by (rule contra_subsetD)

lemma uuid_int_digits:
  assumes "length s = 32" "set s \<subseteq> set hex_alphabet"
  shows "uuid_int s = Some (int (hex_number 0 s))"
proof -
  have digit: "c \<in> set hex_alphabet" if "c \<in> set s" for c using assms(2) that by (rule subsetD)
  have free: "CHR ''-'' \<notin> set s" "CHR '':'' \<notin> set s" "CHR 0x7B \<notin> set s" "CHR 0x7D \<notin> set s"
    by (rule hex_free [OF assms(2)]; simp)+
  have clean: "remove_all ''-'' (strip_by (\<lambda>c. c \<in> {CHR 0x7B, CHR 0x7D}) (remove_all ''uuid:'' (remove_all ''urn:'' s))) = s"
  proof -
    have "remove_all ''urn:'' s = s" "remove_all ''uuid:'' s = s"
      by (rule remove_all_none [of "CHR '':''"]; simp add: free)+
    moreover have "strip_by (\<lambda>c. c \<in> {CHR 0x7B, CHR 0x7D}) s = s"
    proof (rule strip_by_none)
      fix c assume "c \<in> set s"
      then have "c \<noteq> CHR 0x7B" "c \<noteq> CHR 0x7D" using free(3,4) by metis+
      then show "c \<notin> {CHR 0x7B, CHR 0x7D}" by simp
    qed
    moreover have "remove_all ''-'' s = s" by (rule remove_all_none [of "CHR ''-''"]) (simp_all add: free)
    ultimately show ?thesis by simp
  qed
  have ne: "s \<noteq> []" using assms(1) by auto
  then have hd: "hd s \<in> set hex_alphabet" and one: "s ! 1 \<in> set hex_alphabet"
    using digit [OF hd_in_set [OF ne]] digit [OF nth_mem [of 1 s]] assms(1) by simp_all
  have strip: "strip_by py_space s = s" using hex_digit_plain [OF digit] by (intro strip_by_none) blast
  have plain: "hd s \<noteq> CHR ''-''" "hd s \<noteq> CHR ''+''" "hd s \<noteq> CHR ''_''" "s ! 1 \<noteq> CHR ''x''" "s ! 1 \<noteq> CHR ''X''"
    using hex_digit_plain [OF hd] hex_digit_plain [OF one] by blast+
  have "int_base16 s = Some (int (hex_number 0 s))"
    unfolding int_base16_def Let_def strip
    using plain ne by (simp add: hex_digits_number [OF assms(2)])
  moreover have "int (hex_number 0 s) < 2 ^ 128"
  proof -
    have "hex_number 0 s < 2 ^ 128" using hex_number_inverse [OF assms(2)] assms(1) by simp
    then show ?thesis by (metis of_nat_less_iff of_nat_numeral of_nat_power)
  qed
  ultimately show ?thesis unfolding uuid_int_def Let_def clean using assms(1) by simp
qed

lemma guarded_Inr:
  "(if a then Inl d else if b then Inl e else case x of None \<Rightarrow> Inl f | Some n \<Rightarrow> if h (nat n) \<noteq> s then Inl g else Inr s) = Inr r
    \<Longrightarrow> \<exists>n. h n = s \<and> r = s"
  by (auto split: if_splits option.splits)

lemma snapshot_id_only:
  assumes "validate_snapshot_id s = Inr r"
  shows "r = s"
  using guarded_Inr [where h = "hex_text 32", OF assms [unfolded validate_snapshot_id_def]] by blast

text \<open>C28: A snapshot identifier can never be a path: the validation accepts exactly the texts of 32 lower-case
  hexadecimal digits, and returns them unchanged. Whatever else \<open>uuid.UUID\<close> tolerates (braces, prefixes, hyphens, signs,
  underscores, upper case) is refused.\<close>

theorem snapshot_id_iff:
  "validate_snapshot_id s = Inr r \<longleftrightarrow> r = s \<and> length s = 32 \<and> set s \<subseteq> set ''0123456789abcdef''"
proof
  assume "validate_snapshot_id s = Inr r"
  from guarded_Inr [where h = "hex_text 32", OF this [unfolded validate_snapshot_id_def]]
  obtain n where n: "hex_text 32 n = s" "r = s" by blast
  have "length (hex_text 32 n) = 32" "set (hex_text 32 n) \<subseteq> set hex_alphabet" by (rule hex_text_digits)+
  then show "r = s \<and> length s = 32 \<and> set s \<subseteq> set hex_alphabet" unfolding n by (intro conjI refl)
next
  assume s: "r = s \<and> length s = 32 \<and> set s \<subseteq> set hex_alphabet"
  then have digits: "set s \<subseteq> set hex_alphabet" and len: "length s = 32" by blast+
  have digit: "c \<in> set hex_alphabet" if "c \<in> set s" for c using digits that by (rule subsetD)
  obtain c cs where cs: "s = c # cs" using len by (cases s) simp_all
  then have "\<not> py_space c" using hex_digit_plain [OF digit, of c] by simp
  then have "\<not> blank s" by (simp add: blank_def cs)
  moreover have "CHR ''/'' \<notin> set s" "CHR 0x5C \<notin> set s" "CHR ''.'' \<notin> set s"
    using hex_digit_plain [OF digit] by blast+
  then have "\<not> contains_text ''/'' s" "\<not> contains_text [CHR 0x5C] s" "\<not> contains_text ''..'' s"
    by (simp_all add: contains_text_none [of "CHR ''/''"] contains_text_none [of "CHR 0x5C"] contains_text_none [of "CHR ''.''"])
  moreover have "hex_text 32 (hex_number 0 s) = s" using hex_number_inverse [OF digits] len by simp
  moreover have "uuid_int s = Some (int (hex_number 0 s))" by (rule uuid_int_digits [OF len digits])
  ultimately show "validate_snapshot_id s = Inr r" using s by (simp add: validate_snapshot_id_def)
qed

section \<open>Snapshots are written once and read back\<close>

definition artifact_ok :: "tuning_artifact \<Rightarrow> bool" where
  "artifact_ok a \<longleftrightarrow>
     tuning_post_init (ta_snapshot a) = Inr (ta_snapshot a) \<and> config_ok (ta_config a)
     \<and> ta_schema_version a = TUNING_ARTIFACT_SCHEMA_VERSION"

definition raw_snapshot :: "tuning_snapshot \<Rightarrow> payload" where
  "raw_snapshot t =
     [(''snapshot_id'', PyStr (ts_snapshot_id t)), (''created_timestamp'', PyFloat (ts_created_timestamp t)),
      (''source'', PyStr (tuning_source_value (ts_source t))), (''config_version'', PyStr (ts_config_version t))]"

lemma tuning_to_record_raw: "tuning_to_record t = Inr (raw_snapshot t)"
  by (simp add: tuning_to_record_def project_allowlist_def reject_denied_def TELEMETRY_DENYLIST_def TUNING_ALLOWLIST_def
      raw_snapshot_def)

lemma tuning_source_of_value: "tuning_source_of (PyStr (tuning_source_value x)) = Some x"
  by (cases x) (simp_all add: tuning_source_of_def)

lemma stored_snapshot_raw:
  assumes "tuning_post_init t = Inr t"
  shows "stored_snapshot (raw_snapshot t) (ts_source t) = Inr t"
  using assms by (cases t) (simp add: stored_snapshot_def required_def raw_snapshot_def)

lemma artifact_keys_free:
  "list_all (\<lambda>k. k \<notin> set TELEMETRY_DENYLIST)
     (TUNING_ARTIFACT_TOP_KEYS @ TUNING_ALLOWLIST @ OFFLINE_TUNING_CONFIG_ALLOWLIST)"
  by code_simp

definition raw_artifact :: "tuning_artifact \<Rightarrow> payload" where
  "raw_artifact a =
     [(''schema_version'', PyInt (ta_schema_version a)), (''snapshot'', PyDict (raw_snapshot (ta_snapshot a))),
      (''config'', PyDict (raw_config (ta_config a)))]"

lemma artifact_to_record_raw:
  assumes "ta_schema_version a = TUNING_ARTIFACT_SCHEMA_VERSION"
  shows "artifact_to_record a = Inr (raw_artifact a)"
proof -
  have "all_keys (PyDict (raw_artifact a))
      = TUNING_ARTIFACT_TOP_KEYS @ TUNING_ALLOWLIST @ OFFLINE_TUNING_CONFIG_ALLOWLIST"
    by (simp add: raw_artifact_def raw_snapshot_def raw_config_def TUNING_ARTIFACT_TOP_KEYS_def TUNING_ALLOWLIST_def
        OFFLINE_TUNING_CONFIG_ALLOWLIST_def)
  then have "\<not> has_denied TELEMETRY_DENYLIST (PyDict (raw_artifact a))"
    using artifact_keys_free unfolding has_denied_def list_all_iff list_ex_iff by metis
  then show ?thesis
    using assms by (simp add: artifact_to_record_def tuning_to_record_raw config_to_record_raw Let_def raw_artifact_def)
qed

lemma artifact_from_raw:
  assumes "artifact_ok a" "validate_snapshot_id (ts_snapshot_id (ta_snapshot a)) = Inr i"
  shows "artifact_from_record (PyDict (raw_artifact a)) = Inr a"
proof -
  note ok = assms(1) [unfolded artifact_ok_def]
  have fields: "get_or_none (raw_artifact a) ''schema_version'' = PyInt TUNING_ARTIFACT_SCHEMA_VERSION"
    "get_or_none (raw_artifact a) ''snapshot'' = PyDict (raw_snapshot (ta_snapshot a))"
    "get_or_none (raw_artifact a) ''config'' = PyDict (raw_config (ta_config a))"
    "get_or_none (raw_snapshot (ta_snapshot a)) ''source'' = PyStr (tuning_source_value (ts_source (ta_snapshot a)))"
    using ok by (simp_all add: get_or_none_def raw_artifact_def raw_snapshot_def)
  have keys: "\<not> list_ex (\<lambda>(k, v). k \<notin> set TUNING_ARTIFACT_TOP_KEYS) (raw_artifact a)"
    "\<not> list_ex (\<lambda>k. dict_get (raw_artifact a) k = None) TUNING_ARTIFACT_TOP_KEYS"
    "\<not> list_ex (\<lambda>(k, v). k \<notin> set TUNING_ALLOWLIST) (raw_snapshot (ta_snapshot a))"
    "\<not> list_ex (\<lambda>k. dict_get (raw_snapshot (ta_snapshot a)) k = None) TUNING_ALLOWLIST"
    by (simp_all add: raw_artifact_def raw_snapshot_def TUNING_ARTIFACT_TOP_KEYS_def TUNING_ALLOWLIST_def)
  show ?thesis
    using ok assms(2) config_from_raw [of "ta_config a"] stored_snapshot_raw [of "ta_snapshot a"]
    by (simp add: artifact_from_record_def keys fields is_schema_version_def tuning_source_of_value)
qed

text \<open>C27: A snapshot is immutable and read back exactly: writing a well-formed artifact only succeeds when no file has its
  identifier, leaves every other file alone, makes the identifier load as that very artifact, and from then on
  any write under the same identifier is refused.\<close>

theorem snapshot_written_once:
  assumes "write_snapshot a files = Inr files'" "artifact_ok a"
  shows "files (ts_snapshot_id (ta_snapshot a)) = None
    \<and> load_snapshot files' (ts_snapshot_id (ta_snapshot a)) = Inr a
    \<and> (\<forall>i. i \<noteq> ts_snapshot_id (ta_snapshot a) \<longrightarrow> files' i = files i)
    \<and> (\<forall>b. ts_snapshot_id (ta_snapshot b) = ts_snapshot_id (ta_snapshot a) \<longrightarrow>
      write_snapshot b files' = Inl (TuningSnapshotError ''snapshot_id already exists; refusing to overwrite''))"
proof -
  let ?i = "ts_snapshot_id (ta_snapshot a)"
  obtain i' where "validate_snapshot_id ?i = Inr i'" using assms(1) unfolding write_snapshot_def by (rule res_bind_InrE)
  then have valid: "validate_snapshot_id ?i = Inr ?i" using snapshot_id_only by blast
  have "artifact_to_record a = Inr (raw_artifact a)"
    using assms(2) by (intro artifact_to_record_raw) (simp add: artifact_ok_def)
  then have files: "files ?i = None" "files' = files(?i \<mapsto> Some (PyDict (raw_artifact a)))"
    using assms(1) valid by (simp_all add: write_snapshot_def split: if_splits)
  have kept: "files' i = files i" if "i \<noteq> ?i" for i using that by (simp add: files(2))
  have stored: "load_snapshot files' ?i = Inr a"
    using artifact_from_raw [OF assms(2) valid] by (simp add: load_snapshot_def valid files(2))
  have "write_snapshot b files' = Inl (TuningSnapshotError ''snapshot_id already exists; refusing to overwrite'')"
    if "ts_snapshot_id (ta_snapshot b) = ?i" for b
    by (simp add: write_snapshot_def that valid files(2))
  then show ?thesis using files(1) kept stored by blast
qed

section \<open>Every feedback is accounted for\<close>

lemma finite_number_stamp:
  assumes "finite_number v = Inr (Some x)"
  shows "\<exists>t. stamp_value v = Inr t"
proof (cases v)
  case (PyFloat y)
  then obtain z where "y = Fin z" using assms by (cases y) simp_all
  then show ?thesis by (simp add: PyFloat)
qed (use assms in \<open>simp_all split: if_splits\<close>)

lemma feedback_label_of_Some: "feedback_label_of s = Some l \<Longrightarrow> s = feedback_label_value l"
  unfolding feedback_label_of_def find_Some_iff by blast

lemma valid_feedback_rowD:
  assumes "valid_feedback_row row = Inr True"
  obtains i k t l where "row_text ''feedback_id'' row = Some i" "signal_key row = Some k"
    "stamp_value (get_or_none row ''created_timestamp'') = Inr t" "get_or_none row ''label'' = PyStr (feedback_label_value l)"
proof -
  have texts: "text_ok ''feedback_id'' row" "text_ok ''run_id'' row" "text_ok ''signal_id'' row"
    "Option.bind (row_text ''label'' row) feedback_label_of \<noteq> None"
    using assms by (simp_all add: valid_feedback_row_def split: if_splits)
  obtain x where "finite_number (get_or_none row ''created_timestamp'') = Inr (Some x)"
    using assms by (auto simp: valid_feedback_row_def res_bind_Inr_iff split: if_splits)
  then obtain t where t: "stamp_value (get_or_none row ''created_timestamp'') = Inr t"
    using finite_number_stamp by blast
  obtain x l where "row_text ''label'' row = Some x" "feedback_label_of x = Some l"
    using texts(4) by (cases "row_text ''label'' row") auto
  then have l: "get_or_none row ''label'' = PyStr (feedback_label_value l)"
    using feedback_label_of_Some unfolding row_text_def text_or_none_Some by blast
  obtain i r g where "row_text ''feedback_id'' row = Some i" "row_text ''run_id'' row = Some r" "row_text ''signal_id'' row = Some g"
    using texts(1-3) unfolding text_ok_def by (auto split: option.splits)
  then show thesis using that [of i "(r, g)" t l] t l by (simp add: signal_key_def)
qed

text \<open>The latest feedback of a target wins; feedback of the same instant is ordered by its identifier.\<close>

lemma latest_feedback_wins:
  assumes "rows \<noteq> []" "\<forall>row \<in> set rows. valid_feedback_row row = Inr True"
  shows "\<exists>w \<in> set rows. latest_feedback rows = Inr w
    \<and> (\<forall>r \<in> set rows. \<exists>a b. feedback_order r = Inr (a, r) \<and> feedback_order w = Inr (b, w) \<and> a \<le> b)"
proof -
  have "\<exists>y. feedback_order row = Inr y \<and> snd y = row" if "row \<in> set rows" for row
    by (rule valid_feedback_rowD [OF assms(2) [rule_format, OF that]]) (simp add: feedback_order_def)
  then obtain keyed where keyed: "res_map feedback_order rows = Inr keyed"
    "list_all2 (\<lambda>row y. feedback_order row = Inr y \<and> snd y = row) rows keyed"
    using res_map_total [of rows feedback_order "\<lambda>row y. feedback_order row = Inr y \<and> snd y = row"] by blast
  then have snds: "map snd keyed = rows" by (auto simp: list_all2_conv_all_nth intro: nth_equalityI)
  have order: "feedback_order (snd y) = Inr y" if "y \<in> set keyed" for y
    using keyed(2) that by (auto simp: list_all2_conv_all_nth in_set_conv_nth)
  have ne: "keyed \<noteq> []" using snds assms(1) by auto
  let ?ys = "sort_key fst keyed"
  have "last ?ys \<in> set keyed" using ne last_in_set [of ?ys] by simp
  moreover have "fst y \<le> fst (last ?ys)" if "y \<in> set keyed" for y
  proof -
    have "y \<in> set ?ys" using that by simp
    then obtain i where i: "i < length ?ys" "y = ?ys ! i" unfolding in_set_conv_nth by blast
    have "sorted (map fst ?ys)" by simp
    from sorted_nth_mono [OF this, of i "length ?ys - 1"] show ?thesis
      using i ne by (simp add: last_conv_nth)
  qed
  ultimately have best: "last ?ys \<in> set keyed" "\<forall>y \<in> set keyed. fst y \<le> fst (last ?ys)" by blast+
  let ?w = "snd (last ?ys)"
  have w: "feedback_order ?w = Inr (fst (last ?ys), ?w)" using order [OF best(1)] by simp
  show ?thesis
  proof (intro bexI conjI ballI)
    show "latest_feedback rows = Inr ?w" using keyed(1) ne by (simp add: latest_feedback_def)
    show "?w \<in> set rows" using imageI [OF best(1), of snd] unfolding snds [symmetric] by simp
    fix r assume "r \<in> set rows"
    then obtain y where "y \<in> set keyed" "snd y = r" unfolding snds [symmetric] by auto
    then show "\<exists>a b. feedback_order r = Inr (a, r) \<and> feedback_order ?w = Inr (b, ?w) \<and> a \<le> b"
      using order best(2) w by (metis prod.collapse)
  qed
qed

lemma label_counts_sum:
  assumes "\<forall>w \<in> set ws. \<exists>l. get_or_none w ''label'' = PyStr (feedback_label_value l)"
  shows "label_count ws USEFUL + label_count ws NOT_USEFUL + label_count ws TOO_NOISY + label_count ws TOO_LATE
    = int (length ws)"
  using assms
proof (induction ws)
  case (Cons w ws)
  then obtain l where "get_or_none w ''label'' = PyStr (feedback_label_value l)" by auto
  then show ?case using Cons by (cases l) (simp_all add: label_count_def)
qed (simp add: label_count_def)

lemma group_rows_lengths:
  "sum_list (map (\<lambda>(k, rs). length rs) (group_rows key rows)) = length (filter (\<lambda>r. key r \<noteq> None) rows)"
proof -
  let ?g = "group_rows key rows"
  have "length rs = length (filter (\<lambda>r. key r = Some k) rows)" if "(k, rs) \<in> set ?g" for k rs
    using that group_rows_wf [of key rows] group_rows_get [of key rows k] by (simp add: dict_wf_in_set split: if_splits)
  then have "map (\<lambda>(k, rs). length rs) ?g = map (\<lambda>k. length (filter (\<lambda>r. key r = Some k) rows)) (map fst ?g)"
    by (auto simp: split_beta)
  moreover have keep: "filter (\<lambda>_. True) xs = xs" for xs :: "payload list" by simp
  moreover have "distinct (map fst ?g)" using group_rows_wf [of key rows] by (simp add: dict_wf_def)
  ultimately show ?thesis using sum_over_groups [OF _ group_rows_keys, of key rows "\<lambda>_. True"]
    by (simp only: keep simp_thms)
qed

text \<open>The feedback evidence of a comparison loses and invents nothing. Whatever records the two logs hold (as the
  report accepts them), the dataset is built; the valid feedback is split into the targets that count, the
  feedback superseded by a later one of its target, and the orphans; and every target counts under exactly one label.\<close>

theorem tuning_feedback_accounts:
  assumes "\<forall>row \<in> set feedback_rows. row_ok row"
  shows "\<exists>d. build_tuning_feedback_dataset feedback_rows telemetry_rows = Inr d
    \<and> tf_raw_feedback_count d = int (length feedback_rows)
    \<and> tf_semantic_valid_feedback_count d \<le> tf_raw_feedback_count d
    \<and> tf_semantic_valid_feedback_count d
      = tf_eligible_target_count d + tf_superseded_feedback_count d + tf_orphan_feedback_count d
    \<and> tf_useful d + tf_not_useful d + tf_too_noisy d + tf_too_late d = tf_eligible_target_count d
    \<and> 0 \<le> tf_superseded_feedback_count d"
proof -
  note filtered = valid_feedback_total [OF assms]
  define valid where "valid = filter (\<lambda>row. projr (valid_feedback_row row)) feedback_rows"
  have valid: "valid_feedback_row row = Inr True" if "row \<in> set valid" for row
    using that unfolding valid_def res_filter_InrD [OF filtered] by simp
  define target where "target = (\<lambda>row. Option.bind (signal_key row) (\<lambda>k. if k \<in> set (joinable_keys telemetry_rows) then Some k else None))"
  have lookup: "Option.bind (signal_key row) (\<lambda>k. if k \<in> set (joinable_keys telemetry_rows) then Some k else None) = target row"
    for row by (simp add: target_def)
  let ?g = "group_rows target valid"
  have rs: "rs \<noteq> [] \<and> set rs \<subseteq> set valid" if "(k, rs) \<in> set ?g" for k rs
    using that group_rows_wf [of target valid] group_rows_get [of target valid k]
    by (auto simp: dict_wf_in_set split: if_splits)
  have "\<forall>p \<in> set ?g. \<exists>w. (case p of (k, rs) \<Rightarrow> latest_feedback rs) = Inr w \<and> w \<in> set valid"
  proof (rule ballI, clarify)
    fix k1 k2 rs assume "((k1, k2), rs) \<in> set ?g"
    from rs [OF this] have "rs \<noteq> []" "set rs \<subseteq> set valid" by auto
    moreover from this have "\<forall>row \<in> set rs. valid_feedback_row row = Inr True" using valid by blast
    ultimately show "\<exists>w. latest_feedback rs = Inr w \<and> w \<in> set valid"
      using latest_feedback_wins [of rs] by blast
  qed
  then obtain ws where ws: "res_map (\<lambda>(k, rs). latest_feedback rs) ?g = Inr ws"
    "list_all2 (\<lambda>p w. w \<in> set valid) ?g ws"
    using res_map_total [of ?g "\<lambda>(k, rs). latest_feedback rs" "\<lambda>p w. w \<in> set valid"] by blast
  have labels: "\<forall>w \<in> set ws. \<exists>l. get_or_none w ''label'' = PyStr (feedback_label_value l)"
  proof
    fix w assume "w \<in> set ws"
    then have "w \<in> set valid" using ws(2) by (auto simp: list_all2_conv_all_nth in_set_conv_nth)
    then show "\<exists>l. get_or_none w ''label'' = PyStr (feedback_label_value l)"
      using valid valid_feedback_rowD by metis
  qed
  have pos: "0 \<le> (\<Sum>p \<leftarrow> ?g. case p of (k, rs) \<Rightarrow> int (length rs) - 1)"
    using rs by (intro sum_list_nonneg) (auto simp: Suc_le_eq)
  have "(\<Sum>p \<leftarrow> xs. case p of (k, rs) \<Rightarrow> int (length rs) - 1)
      = int (sum_list (map (\<lambda>(k, rs). length rs) xs)) - int (length xs)" for xs :: "((string \<times> string) \<times> payload list) list"
    by (induction xs) auto
  then have sum: "(\<Sum>p \<leftarrow> ?g. case p of (k, rs) \<Rightarrow> int (length rs) - 1)
      = int (length (filter (\<lambda>r. target r \<noteq> None) valid)) - int (length ?g)"
    by (simp add: group_rows_lengths)
  have split: "length valid = length (filter (\<lambda>r. target r = None) valid) + length (filter (\<lambda>r. target r \<noteq> None) valid)"
    by (rule sum_length_filter_compl [symmetric])
  have valid_le: "length valid \<le> length feedback_rows" by (simp add: valid_def)
  show ?thesis
    unfolding build_tuning_feedback_dataset_def filtered valid_def [symmetric] res_bind.simps Let_def
      lookup ws(1)
    using label_counts_sum [OF labels] list_all2_lengthD [OF ws(2)] sum split pos valid_le by auto
qed

section \<open>Loading fails closed\<close>

definition fails_only :: "(exc \<Rightarrow> bool) \<Rightarrow> 'a res \<Rightarrow> bool" where
  "fails_only P m \<longleftrightarrow> (case m of Inl e \<Rightarrow> P e | Inr _ \<Rightarrow> True)"

lemma fails_only_simps [simp]: "fails_only P (Inl e) \<longleftrightarrow> P e" "fails_only P (Inr x)"
  by (simp_all add: fails_only_def)

lemma fails_only_bind:
  "fails_only P m \<Longrightarrow> (\<And>x. m = Inr x \<Longrightarrow> fails_only P (f x)) \<Longrightarrow> fails_only P (res_bind m f)"
  by (cases m) simp_all

lemma fails_only_if: "(c \<Longrightarrow> fails_only P a) \<Longrightarrow> (\<not> c \<Longrightarrow> fails_only P b) \<Longrightarrow> fails_only P (if c then a else b)"
  by simp

lemma fails_only_option:
  "(x = None \<Longrightarrow> fails_only P a) \<Longrightarrow> (\<And>v. x = Some v \<Longrightarrow> fails_only P (f v)) \<Longrightarrow> fails_only P (case x of None \<Rightarrow> a | Some v \<Rightarrow> f v)"
  by (cases x) simp_all

definition snapshot_error :: "exc \<Rightarrow> bool" where
  "snapshot_error e \<longleftrightarrow> (\<exists>m. e = TuningSnapshotError m)"

lemma snapshot_error_simp [simp]: "snapshot_error (TuningSnapshotError m)"
  by (simp add: snapshot_error_def)

text \<open>The one exception that escapes: an integer time that no float can hold.\<close>

definition huge_time :: "payload \<Rightarrow> bool" where
  "huge_time d \<longleftrightarrow> (\<exists>n. dict_get d ''created_timestamp'' = Some (PyInt n) \<and> float_max_int \<le> \<bar>n\<bar>)"

abbreviation load_error :: "payload \<Rightarrow> exc \<Rightarrow> bool" where
  "load_error d e \<equiv> snapshot_error e \<or> e = OverflowError \<and> huge_time d"

lemma validate_snapshot_id_fails: "fails_only snapshot_error (validate_snapshot_id i)"
  unfolding validate_snapshot_id_def by (intro fails_only_if fails_only_option) simp_all

lemma fails_only_mono: "fails_only P m \<Longrightarrow> (\<And>e. P e \<Longrightarrow> Q e) \<Longrightarrow> fails_only Q m"
  by (cases m) simp_all

lemma fails_only_translated:
  "P (TuningSnapshotError s) \<Longrightarrow> fails_only P (case m of Inl _ \<Rightarrow> Inl (TuningSnapshotError s) | Inr x \<Rightarrow> Inr (g x))"
  by (cases m) simp_all

lemmas identity_fails = fails_only_translated [where g = "\<lambda>x. x"]

lemma stored_snapshot_fails:
  assumes "\<not> list_ex (\<lambda>k. dict_get d k = None) TUNING_ALLOWLIST"
  shows "fails_only (load_error d) (stored_snapshot d source)"
proof -
  obtain i c v where fields: "dict_get d ''snapshot_id'' = Some i" "dict_get d ''created_timestamp'' = Some c"
    "dict_get d ''config_version'' = Some v"
    using assms by (auto simp: TUNING_ALLOWLIST_def)
  show ?thesis
  proof (cases "\<exists>a b. i = PyStr a \<and> v = PyStr b")
    case True
    then obtain a b where "i = PyStr a" "v = PyStr b" by blast
    then show ?thesis
      by (cases c) (simp_all add: stored_snapshot_def required_def fields identity_fails huge_time_def not_less)
  next
    case False
    then have "stored_snapshot d source = Inl (TuningSnapshotError ''invalid snapshot identity'')"
      by (cases i; cases v) (simp_all add: stored_snapshot_def required_def fields)
    then show ?thesis by simp
  qed
qed

text \<open>Loading fails closed. Whatever the file holds, the only exception is a snapshot error, with one exception that the
  code lets through: a creation time written as an integer beyond the range of floats raises \<open>OverflowError\<close>, which
  the handler around the conversion does not name.\<close>

theorem load_fails_closed:
  assumes "load_snapshot files i = Inl e"
  shows "(\<exists>m. e = TuningSnapshotError m) \<or> e = OverflowError \<and> (\<exists>d t n. files i = Some (Some (PyDict d))
    \<and> get_or_none d ''snapshot'' = PyDict t \<and> dict_get t ''created_timestamp'' = Some (PyInt n) \<and> float_max_int \<le> \<bar>n\<bar>)"
proof -
  define P where "P = (\<lambda>e. snapshot_error e \<or> e = OverflowError \<and> (\<exists>d t. files i = Some (Some (PyDict d))
    \<and> get_or_none d ''snapshot'' = PyDict t \<and> huge_time t))"
  have P: "P (TuningSnapshotError m)" for m by (simp add: P_def)
  have snapshot: "fails_only P (artifact_from_record v)" if stored_file: "files i = Some (Some v)" for v
  proof (cases v)
    case (PyDict d)
    have inner: "fails_only P (case get_or_none d ''snapshot'' of PyDict t \<Rightarrow> f t | _ \<Rightarrow> Inl (TuningSnapshotError m))"
      if "\<And>t. get_or_none d ''snapshot'' = PyDict t \<Longrightarrow> fails_only P (f t)" for f :: "payload \<Rightarrow> tuning_artifact res" and m
      using that by (cases "get_or_none d ''snapshot''") (simp_all add: P)
    have valid: "fails_only P (validate_snapshot_id j)" for j
      by (rule fails_only_mono [OF validate_snapshot_id_fails]) (simp add: P_def)
    have stored: "fails_only P (stored_snapshot t source)"
      if "get_or_none d ''snapshot'' = PyDict t" "\<not> list_ex (\<lambda>k. dict_get t k = None) TUNING_ALLOWLIST" for t source
      by (rule fails_only_mono [OF stored_snapshot_fails [OF that(2)]]) (use stored_file PyDict that(1) in \<open>auto simp: P_def\<close>)
    show ?thesis
      unfolding artifact_from_record_def PyDict pyval.case
      by (intro fails_only_if inner fails_only_option fails_only_bind valid stored fails_only_translated P) (simp_all only: P fails_only_simps not_False_eq_True)
  qed (simp_all add: artifact_from_record_def P)
  have "fails_only P (load_snapshot files i)"
    unfolding load_snapshot_def
  proof (intro fails_only_bind fails_only_option)
    show "fails_only P (validate_snapshot_id i)"
      by (rule fails_only_mono [OF validate_snapshot_id_fails]) (simp add: P_def)
    fix j v w assume "validate_snapshot_id i = Inr j" "files j = Some v" "v = Some w"
    then show "fails_only P (artifact_from_record w)"
      using snapshot snapshot_id_only [of i j] by blast
  qed (simp_all only: P fails_only_simps not_False_eq_True)
  then have "P e" using assms by simp
  then show ?thesis by (auto simp: P_def snapshot_error_def huge_time_def)
qed

section \<open>Samples\<close>

definition sample_config :: offline_tuning_config where
  "sample_config =
     \<lparr>oc_cluster_lookback_s = 90, oc_hot_event_severity = 3, oc_hot_volume_ratio_5m = 2, oc_hot_change_5m = 12 / 1000,
      oc_warm_change_1m = 4 / 1000, oc_warm_change_5m = 8 / 1000, oc_warm_volume_ratio = 15 / 10\<rparr>"

definition sample_id :: string where
  "sample_id = replicate 32 (CHR ''0'')"

definition sample_artifact :: tuning_artifact where
  "sample_artifact =
     \<lparr>ta_snapshot = \<lparr>ts_snapshot_id = sample_id, ts_created_timestamp = Fin 1000, ts_source = MANUAL,
                     ts_config_version = ''v1''\<rparr>,
      ta_config = sample_config, ta_schema_version = 2\<rparr>"

lemma baseline_config: "capture_baseline_config = Inr sample_config"
  by code_simp

lemma sample_config_ok: "config_ok sample_config"
  by (simp add: config_ok_def sample_config_def)

text \<open>The inventory describes exactly the two lists of names, and its supported defaults are the baseline.\<close>

lemma inventory_describes_lists:
  "map ti_name (filter (\<lambda>t. ti_status t = SUPPORTED) tuning_parameter_inventory) = OFFLINE_TUNING_CONFIG_ALLOWLIST"
  "set (map ti_name (filter (\<lambda>t. ti_status t = DEFERRED) tuning_parameter_inventory)) = set DEFERRED_TUNING_PARAMETER_NAMES"
  "map (\<lambda>t. (ti_name t, ti_production_default t)) (filter (\<lambda>t. ti_status t = SUPPORTED) tuning_parameter_inventory)
    = raw_config sample_config"
  by code_simp+

theorem tuning_config_strict_witness:
  "(\<exists>p. config_to_record sample_config = Inr p \<and> config_from_record (PyDict p) = Inr sample_config)
   \<and> config_ok sample_config
   \<and> (\<exists>d. PyDict (raw_config sample_config) = PyDict d \<and> set (map fst d) = set OFFLINE_TUNING_CONFIG_ALLOWLIST)"
  using tuning_config_strict [of sample_config "PyDict (raw_config sample_config)"] sample_config_ok
    config_from_raw [OF sample_config_ok] by simp

theorem snapshot_written_once_witness:
  "\<exists>files. write_snapshot sample_artifact Map.empty = Inr files
    \<and> load_snapshot files sample_id = Inr sample_artifact \<and> files ''other'' = None
    \<and> write_snapshot sample_artifact files
      = Inl (TuningSnapshotError ''snapshot_id already exists; refusing to overwrite'')"
proof -
  have id: "ts_snapshot_id (ta_snapshot sample_artifact) = sample_id" by (simp add: sample_artifact_def)
  have plain: "\<not> blank sample_id" "\<not> blank ''v1''" by code_simp+
  have ok: "artifact_ok sample_artifact"
    using sample_config_ok plain
    by (simp add: artifact_ok_def sample_artifact_def TUNING_ARTIFACT_SCHEMA_VERSION_def tuning_post_init_def
        require_text_def require_finite_def)
  have "validate_snapshot_id sample_id = Inr sample_id" by code_simp
  then have run: "write_snapshot sample_artifact Map.empty = Inr [sample_id \<mapsto> Some (PyDict (raw_artifact sample_artifact))]"
    using artifact_to_record_raw [of sample_artifact] ok by (simp add: write_snapshot_def id artifact_ok_def)
  have "CHR ''t'' \<in> set ''other''" "CHR ''t'' \<notin> set sample_id" by code_simp+
  then have "''other'' \<noteq> sample_id" by metis
  then show ?thesis
    using snapshot_written_once [OF run ok] run by (simp add: id)
qed

definition sample_feedback :: "string \<Rightarrow> string \<Rightarrow> int \<Rightarrow> feedback_label \<Rightarrow> payload" where
  "sample_feedback feedback_id signal_id created label =
     [(''feedback_id'', PyStr feedback_id), (''created_timestamp'', PyInt created), (''run_id'', PyStr ''r''),
      (''label'', PyStr (feedback_label_value label)), (''signal_id'', PyStr signal_id)]"

definition sample_evidence :: "payload list" where
  "sample_evidence =
     [sample_feedback ''f1'' ''s'' 20 USEFUL, sample_feedback ''f2'' ''s'' 10 TOO_LATE, sample_feedback ''f3'' ''gone'' 5 USEFUL]"

definition sample_signals :: "payload list" where
  "sample_signals =
     [[(''name'', PyStr ''alert_candidate''), (''run_id'', PyStr ''r''), (''signal_id'', PyStr ''s'')]]"

theorem tuning_feedback_accounts_witness:
  "\<exists>d. build_tuning_feedback_dataset sample_evidence sample_signals = Inr d
    \<and> tf_semantic_valid_feedback_count d
      = tf_eligible_target_count d + tf_superseded_feedback_count d + tf_orphan_feedback_count d
    \<and> tf_superseded_feedback_count d = 1 \<and> tf_useful d = 1 \<and> tf_too_late d = 0 \<and> tf_orphan_feedback_count d = 1"
proof -
  have "list_all (\<lambda>row. \<not> is_number (get_or_none row ''market_timestamp'') \<and> \<not> raises (latency_value (get_or_none row ''latency_s''))
      \<and> \<not> raises (finite_number (get_or_none row ''created_timestamp''))) sample_evidence"
    by code_simp
  then have "\<forall>row \<in> set sample_evidence. row_ok row" by (simp add: list_all_iff row_ok_def)
  from tuning_feedback_accounts [OF this, of sample_signals]
  obtain d where d: "build_tuning_feedback_dataset sample_evidence sample_signals = Inr d"
    "tf_semantic_valid_feedback_count d
      = tf_eligible_target_count d + tf_superseded_feedback_count d + tf_orphan_feedback_count d" by blast
  have "map_sum id (\<lambda>d. (tf_superseded_feedback_count d, tf_useful d, tf_too_late d, tf_orphan_feedback_count d))
      (build_tuning_feedback_dataset sample_evidence sample_signals) = Inr (1, 1, 0, 1)"
    by code_simp
  then show ?thesis using d by simp
qed

definition sample_huge_snapshot :: payload where
  "sample_huge_snapshot =
     [(''snapshot_id'', PyStr sample_id), (''created_timestamp'', PyInt (2 ^ 1024)), (''source'', PyStr ''manual''),
      (''config_version'', PyStr ''v1'')]"

definition sample_huge :: payload where
  "sample_huge = [(''schema_version'', PyInt 2), (''snapshot'', PyDict sample_huge_snapshot), (''config'', PyNone)]"

theorem load_fails_closed_witness:
  "load_snapshot [sample_id \<mapsto> Some (PyDict sample_huge)] sample_id = Inl OverflowError
   \<and> (\<exists>t n. get_or_none sample_huge ''snapshot'' = PyDict t
     \<and> dict_get t ''created_timestamp'' = Some (PyInt n) \<and> float_max_int \<le> \<bar>n\<bar>)"
proof -
  have "validate_snapshot_id sample_id = Inr sample_id" by code_simp
  moreover have "artifact_from_record (PyDict sample_huge) = Inl OverflowError" by code_simp
  ultimately have run: "load_snapshot [sample_id \<mapsto> Some (PyDict sample_huge)] sample_id = Inl OverflowError"
    by (simp add: load_snapshot_def)
  from load_fails_closed [OF run] show ?thesis using run by simp
qed

end
