(* ===== verification/Comparison.thy ===== *)
theory Comparison
  imports Tuning Engine
begin

text \<open>
  \<open>tuning/replay.py\<close>, \<open>compare.py\<close> and \<open>report.py\<close>: replaying a fixture through the real engine under a
  candidate configuration, the metrics of a replay, and the report that sets two configurations side by side.
  A fixture is the list of its batches of quotes, or the exception that reading it raises. The first quote of a
  batch sets the wall clock; the monotonic clock stays at zero. Every replay draws its identifiers from a stream
  of its own. What the work directory holds is the watchlist file of each fixture.
\<close>

section \<open>The report\<close>

definition TUNING_COMPARISON_SCHEMA_VERSION :: int where
  "TUNING_COMPARISON_SCHEMA_VERSION = 2"

definition UNAVAILABLE_HOST_OFFLINE :: string where
  "UNAVAILABLE_HOST_OFFLINE = ''host_not_in_offline_replay''"

definition UNAVAILABLE_INTEL_OFFLINE :: string where
  "UNAVAILABLE_INTEL_OFFLINE = ''intelligence_not_in_offline_replay''"

definition RECOMMENDATION_DENIED_KEYS :: "string list" where
  "RECOMMENDATION_DENIED_KEYS =
     [''recommended'', ''optimal'', ''better'', ''best'', ''ship'', ''winner'', ''score'', ''rank'', ''approve'',
      ''apply'', ''promote'', ''activate'', ''deploy'']"

definition TUNING_COMPARISON_ALLOWLIST :: "string list" where
  "TUNING_COMPARISON_ALLOWLIST =
     [''schema_version'', ''baseline_snapshot'', ''candidate_snapshot'', ''baseline_config'', ''candidate_config'',
      ''corpus'', ''baseline_metrics'', ''candidate_metrics'', ''delta'', ''feedback_evidence'', ''data_quality'',
      ''per_fixture'', ''corpus_id'', ''snapshot_id'', ''created_timestamp'', ''source'', ''config_version'',
      ''pipeline'', ''noise'', ''scheduler'', ''intelligence'', ''cold_tick_count'', ''warm_tick_count'',
      ''hot_tick_count'', ''level_transition_count'', ''processed_tick_count'', ''events_generated'',
      ''events_deduped'', ''events_clustered'', ''signal_episodes_created'', ''signal_escalations'',
      ''alert_candidates'', ''alert_suppressed'', ''alerts_presented'', ''info_count'', ''notice_count'',
      ''important_count'', ''critical_count'', ''suppression_by_reason'', ''cooldown'', ''same_tick_duplicate'',
      ''repeated_episode_signal_count'', ''repeated_episode_extra_alert_count'', ''alerts_per_market_hour'',
      ''available'', ''value'', ''unavailable_reason'', ''producer'', ''baseline'', ''candidate'', ''delta'',
      ''raw_feedback_count'', ''semantic_valid_feedback_count'', ''eligible_target_count'',
      ''orphan_feedback_count'', ''superseded_feedback_count'', ''useful'', ''not_useful'', ''too_noisy'',
      ''too_late'', ''orphan_count'', ''snapshot_valid'', ''wrote_telemetry_jsonl'', ''wrote_feedback_jsonl'',
      ''cluster_lookback_s'', ''hot_event_severity'', ''hot_volume_ratio_5m'', ''hot_change_5m'',
      ''warm_change_1m'', ''warm_change_5m'', ''warm_volume_ratio'', ''facts_match'']"

definition unavailable_metric :: "string \<Rightarrow> pyval" where
  "unavailable_metric reason =
     PyDict [(''available'', PyBool False), (''value'', PyNone), (''unavailable_reason'', PyStr reason),
             (''producer'', PyNone)]"

definition comparison_tree :: "pyval \<Rightarrow> pyval res" where
  "comparison_tree =
     project_tree TUNING_COMPARISON_ALLOWLIST (TELEMETRY_DENYLIST @ RECOMMENDATION_DENIED_KEYS)
       ''tuning comparison contains denied keys''"

definition sanitize_comparison :: "payload \<Rightarrow> pyval res" where
  "sanitize_comparison payload =
     (if has_denied TELEMETRY_DENYLIST (PyDict payload)
      then Inl (ValueError ''tuning comparison contains denied keys'')
      else if has_denied RECOMMENDATION_DENIED_KEYS (PyDict payload)
      then Inl (ValueError ''tuning comparison contains recommendation keys'')
      else comparison_tree (PyDict payload))"

record comparison_report =
  cr_schema_version :: int
  cr_baseline_snapshot :: payload
  cr_candidate_snapshot :: payload
  cr_baseline_config :: payload
  cr_candidate_config :: payload
  cr_corpus :: "string list"
  cr_baseline_metrics :: payload
  cr_candidate_metrics :: payload
  cr_delta :: payload
  cr_feedback_evidence :: payload
  cr_data_quality :: payload
  cr_per_fixture :: "payload list"

definition raw_comparison :: "comparison_report \<Rightarrow> payload" where
  "raw_comparison r =
     [(''schema_version'', PyInt (cr_schema_version r)),
      (''baseline_snapshot'', PyDict (cr_baseline_snapshot r)),
      (''candidate_snapshot'', PyDict (cr_candidate_snapshot r)),
      (''baseline_config'', PyDict (cr_baseline_config r)),
      (''candidate_config'', PyDict (cr_candidate_config r)),
      (''corpus'', py_strs (cr_corpus r)),
      (''baseline_metrics'', PyDict (cr_baseline_metrics r)),
      (''candidate_metrics'', PyDict (cr_candidate_metrics r)),
      (''delta'', PyDict (cr_delta r)),
      (''feedback_evidence'', PyDict (cr_feedback_evidence r)),
      (''data_quality'', PyDict (cr_data_quality r)),
      (''per_fixture'', PyList (map PyDict (cr_per_fixture r)))]"

definition comparison_to_record :: "comparison_report \<Rightarrow> pyval res" where
  "comparison_to_record r =
     (if cr_schema_version r \<noteq> TUNING_COMPARISON_SCHEMA_VERSION
      then Inl (ValueError ''unsupported tuning comparison schema_version'')
      else sanitize_comparison (raw_comparison r))"

section \<open>Replaying a fixture\<close>

definition validate_corpus :: "string list \<Rightarrow> string list res" where
  "validate_corpus ids =
     (if ids = [] then Inl (TuningConfigError ''corpus must contain at least one corpus_id'')
      else if \<not> distinct ids then Inl (TuningConfigError ''duplicate corpus_id'')
      else Inr ids)"

type_synonym fixtures = "string \<rightharpoonup> raw_quote list list res"

definition corpus_fixture :: "fixtures \<Rightarrow> string \<Rightarrow> raw_quote list list res res" where
  "corpus_fixture fixtures corpus_id =
     (if contains_text ''/'' corpus_id \<or> contains_text [CHR 0x5C] corpus_id \<or> contains_text ''..'' corpus_id \<or> blank corpus_id
      then Inl (TuningConfigError ''corpus_id is not a filesystem path'')
      else case fixtures corpus_id of
        None \<Rightarrow> Inl (TuningConfigError ''corpus fixture not found'')
      | Some content \<Rightarrow> Inr content)"

definition scheduler_policy_for_replay :: scheduler_policy where
  "scheduler_policy_for_replay =
     default_scheduler_policy\<lparr>sp_cold_interval_s := 0, sp_warm_interval_s := 0, sp_hot_interval_s := 0\<rparr>"

text \<open>What the replays of a comparison are given: the parsers, and for each replay its identifier streams.\<close>

record replay_env =
  re_parse :: float_parser
  re_str :: "pyval \<Rightarrow> string"
  re_texts :: report_texts
  re_uuid :: "nat \<Rightarrow> uuid_source"
  re_telemetry_uuid :: "nat \<Rightarrow> uuid_source"

type_synonym replay_engine = "(replay_provider, telemetry_event list) engine"

definition tuned_env :: "replay_env \<Rightarrow> nat \<Rightarrow> offline_tuning_config \<Rightarrow> (replay_provider, telemetry_event list) engine_env" where
  "tuned_env re run config =
     \<lparr>ee_env = \<lparr>env_uuid = re_uuid re run, env_telemetry_uuid = re_telemetry_uuid re run,
                env_collect = in_memory_record, env_rules = default_rules\<rparr>,
      ee_fetch = replay_fetch (re_parse re) (re_str re), ee_exhausted = replay_source_exhausted,
      ee_features = default_feature_policy, ee_warming = warming_config_of config\<rparr>"

definition build_tuned_engine ::
  "watchlist \<Rightarrow> replay_provider \<Rightarrow> offline_tuning_config \<Rightarrow> telemetry_event list telemetry_runtime \<Rightarrow> replay_engine" where
  "build_tuned_engine w provider config telemetry =
     \<lparr>en_watchlist = w, en_provider = provider, en_scheduler = new_scheduler scheduler_policy_for_replay,
      en_buffers = sb_new 3600 4096, en_states = Map.empty, en_health = new_health default_health_policy,
      en_pipeline = new_pipeline\<lparr>pl_composer := new_composer (oc_cluster_lookback_s config),
                                 pl_cooldown := new_cooldown_gate DEFAULT_COOLDOWN_S\<rparr>,
      en_telemetry = Some telemetry, en_fetched = [],
      en_diagnostics = \<lparr>ed_out_of_order_count = 0, ed_duplicate_timestamp_count = 0, ed_recovery_count = 0,
        ed_last_fetch_error = None\<rparr>\<rparr>"

record tick_fact =
  tk_event_types :: "string list"
  tk_alert_count :: nat
  tk_priorities :: "string list"
  tk_families :: "string list"
  tk_level :: string

definition tick_fact_of :: "symbol_tick_result \<Rightarrow> tick_fact" where
  "tick_fact_of item =
     \<lparr>tk_event_types = sort (map (\<lambda>e. event_type_value (ev_type e)) (sr_accepted_events item)),
      tk_alert_count = length (sr_alert_candidates item),
      tk_priorities = map (\<lambda>s. signal_priority_value (sg_priority s)) (sr_alert_candidates item),
      tk_families = map sg_family (sr_alert_candidates item),
      tk_level = scheduler_level_value (sr_level_after item)\<rparr>"

definition tick_facts :: "engine_tick_result list \<Rightarrow> string \<Rightarrow> tick_fact list" where
  "tick_facts results symbol = List.map_filter (\<lambda>tick. map_option tick_fact_of (for_symbol tick symbol)) results"

text \<open>\<open>float(batch[0]["market_timestamp"])\<close>; a time that is not finite has no clock in the model and ends the replay.\<close>

definition batch_time :: "float_parser \<Rightarrow> raw_quote list \<Rightarrow> flt res" where
  "batch_time parse batch =
     (case batch of
        [] \<Rightarrow> Inl IndexError
      | quote # _ \<Rightarrow>
          (case dict_get quote ''market_timestamp'' of
             None \<Rightarrow> Inl (KeyError ''market_timestamp'')
           | Some v \<Rightarrow> res_bind (py_float parse v) (\<lambda>t.
               case t of Fin x \<Rightarrow> Inr x | _ \<Rightarrow> Inl (ValueError ''not a finite time''))))"

fun replay_batches ::
  "(replay_provider, telemetry_event list) engine_env \<Rightarrow> float_parser \<Rightarrow> raw_quote list list \<Rightarrow> fake_clock \<Rightarrow> replay_engine
    \<Rightarrow> (engine_tick_result list \<times> replay_engine) res" where
  "replay_batches ee parse [] clock eng = Inr ([], eng)"
| "replay_batches ee parse (batch # batches) clock eng =
     res_bind (batch_time parse batch) (\<lambda>t.
       let clock = clock_set_wall clock t
       in res_bind (engine_tick ee clock eng) (\<lambda>(result, eng).
          res_bind (replay_batches ee parse batches clock eng) (\<lambda>(results, eng). Inr (result # results, eng))))"

record tuned_replay =
  tr_records :: "payload list"
  tr_facts :: "tick_fact list"

definition DEFAULT_REPLAY_SYMBOL :: string where
  "DEFAULT_REPLAY_SYMBOL = ''600519.SH''"

text \<open>The watchlist files of the work directory.\<close>

type_synonym work_dir = "string \<Rightarrow> json_file"

definition run_tuned_replay ::
  "replay_env \<Rightarrow> nat \<Rightarrow> fixtures \<Rightarrow> offline_tuning_config \<Rightarrow> string \<Rightarrow> string \<Rightarrow> work_dir
    \<Rightarrow> (tuned_replay \<times> work_dir) res" where
  "run_tuned_replay re run fixtures config corpus_id symbol work =
     res_bind (corpus_fixture fixtures corpus_id) (\<lambda>content.
     res_bind content (\<lambda>batches.
       if batches = [] then Inl (TuningConfigError ''empty replay corpus'')
       else
         res_bind (batch_time (re_parse re) (hd batches)) (\<lambda>start.
         res_bind (new_watchlist (re_str re) True 10 True (work corpus_id)) (\<lambda>w.
         res_bind (wl_add symbol (w, work corpus_id)) (\<lambda>(item, w, file_now).
           let work = work(corpus_id := file_now);
               telemetry = new_runtime (re_telemetry_uuid re run) None [];
               eng = build_tuned_engine w \<lparr>rp_ticks = batches, rp_index = 0\<rparr> config telemetry
           in res_bind (replay_batches (tuned_env re run config) (re_parse re) batches \<lparr>fc_wall = start, fc_mono = 0\<rparr> eng)
                (\<lambda>(results, eng).
              res_bind (res_map event_to_record (case en_telemetry eng of None \<Rightarrow> [] | Some rt \<Rightarrow> rt_collector rt)) (\<lambda>records.
                Inr (\<lparr>tr_records = records, tr_facts = tick_facts results symbol\<rparr>, work))))))))"

section \<open>Metrics of a replay\<close>

type_synonym counts = "(string, int) dict"

record tuning_metrics =
  tm_pipeline :: counts
  tm_noise :: counts
  tm_suppression :: counts
  tm_hour :: pyval
  tm_scheduler :: counts

definition PRIORITY_COUNTS :: "(string \<times> string) list" where
  "PRIORITY_COUNTS =
     [(''INFO'', ''info_count''), (''NOTICE'', ''notice_count''), (''IMPORTANT'', ''important_count''),
      (''CRITICAL'', ''critical_count'')]"

definition PIPELINE_COUNTS :: "string list" where
  "PIPELINE_COUNTS =
     [''events_generated'', ''events_deduped'', ''events_clustered'', ''signal_episodes_created'',
      ''signal_escalations'', ''alert_candidates'', ''alert_suppressed'']"

definition NOISE_COUNTS :: "string list" where
  "NOISE_COUNTS =
     [''info_count'', ''notice_count'', ''important_count'', ''critical_count'', ''repeated_episode_signal_count'',
      ''repeated_episode_extra_alert_count'']"

definition SUPPRESSION_COUNTS :: "string list" where
  "SUPPRESSION_COUNTS = [''cooldown'', ''same_tick_duplicate'']"

definition SCHEDULER_COUNTS :: "string list" where
  "SCHEDULER_COUNTS =
     [''cold_tick_count'', ''warm_tick_count'', ''hot_tick_count'', ''level_transition_count'', ''processed_tick_count'']"

definition count_records :: "payload list \<Rightarrow> telemetry_name \<Rightarrow> int" where
  "count_records records name = int (length (filter (named name) records))"

text \<open>\<open>str.upper\<close> changes more than ASCII letters, but no other character below 256 turns into a letter of a priority.\<close>

definition upper_char :: "char \<Rightarrow> char" where
  "upper_char c = (let n = of_char c :: nat in if 97 \<le> n \<and> n \<le> 122 then char_of (n - 32) else c)"

definition count_priority :: "payload \<Rightarrow> counts \<Rightarrow> counts" where
  "count_priority row counts =
     (if \<not> named ALERT_CANDIDATE row then counts
      else case row_text ''priority'' row of
        None \<Rightarrow> counts
      | Some p \<Rightarrow>
          (case map_of PRIORITY_COUNTS (map upper_char p) of
             None \<Rightarrow> counts
           | Some key \<Rightarrow> dict_set key (count_at counts key + 1) counts))"

definition candidate_priorities :: "payload list \<Rightarrow> counts" where
  "candidate_priorities records = fold count_priority records (map (\<lambda>(p, key). (key, 0)) PRIORITY_COUNTS)"

definition repeated_counts :: "payload list \<Rightarrow> int \<times> int" where
  "repeated_counts records = repeated_episodes (filter (named ALERT_CANDIDATE) records)"

definition suppression_counts :: "payload list \<Rightarrow> counts" where
  "suppression_counts records =
     fst (tally KNOWN_SUPPRESSION_REASONS ''suppression_reason'' (filter (named ALERT_SUPPRESSED) records))"

record level_counts =
  lv_cold :: int
  lv_warm :: int
  lv_hot :: int
  lv_transitions :: int
  lv_previous :: "string option"

definition count_level :: "tick_fact \<Rightarrow> level_counts \<Rightarrow> level_counts" where
  "count_level row c =
     (let level = tk_level row;
          c = (if level = ''COLD'' then c\<lparr>lv_cold := lv_cold c + 1\<rparr>
               else if level = ''WARM'' then c\<lparr>lv_warm := lv_warm c + 1\<rparr>
               else if level = ''HOT'' then c\<lparr>lv_hot := lv_hot c + 1\<rparr> else c)
      in if level \<in> {''COLD'', ''WARM'', ''HOT''} then
           (let c = (if lv_previous c \<noteq> None \<and> Some level \<noteq> lv_previous c
                     then c\<lparr>lv_transitions := lv_transitions c + 1\<rparr> else c)
            in c\<lparr>lv_previous := Some level\<rparr>)
         else c)"

definition scheduler_metrics_from_facts :: "tick_fact list \<Rightarrow> counts" where
  "scheduler_metrics_from_facts facts =
     (let c = fold count_level facts \<lparr>lv_cold = 0, lv_warm = 0, lv_hot = 0, lv_transitions = 0, lv_previous = None\<rparr>
      in [(''cold_tick_count'', lv_cold c), (''warm_tick_count'', lv_warm c), (''hot_tick_count'', lv_hot c),
          (''level_transition_count'', lv_transitions c), (''processed_tick_count'', int (length facts))])"

definition py_index :: "pyval \<Rightarrow> string \<Rightarrow> pyval res" where
  "py_index v key =
     (case v of
        PyDict d \<Rightarrow> (case dict_get d key of None \<Rightarrow> Inl (KeyError key) | Some w \<Rightarrow> Inr w)
      | _ \<Rightarrow> Inl TypeError)"

definition memory_log :: "payload list \<Rightarrow> loaded_telemetry" where
  "memory_log records =
     \<lparr>lt_records = records, lt_input_files = [0], lt_records_read = length records,
      lt_malformed_complete_lines = 0, lt_skipped_trailing_partial = False, lt_healthy = True\<rparr>"

definition metrics_from_records :: "report_texts \<Rightarrow> payload list \<Rightarrow> tick_fact list \<Rightarrow> tuning_metrics res" where
  "metrics_from_records rx records facts =
     res_bind (evaluate rx (memory_log records) None None None) (\<lambda>evaluation.
     res_bind (report_to_record evaluation) (\<lambda>record.
     res_bind (py_index record ''alert_noise'') (\<lambda>noise.
     res_bind (py_index noise ''alerts_per_market_hour'') (\<lambda>hour.
       let (repeated_signals, extra_alerts) = repeated_counts records
       in Inr \<lparr>tm_pipeline =
                 [(''events_generated'', count_records records EVENT_GENERATED),
                  (''events_deduped'', count_records records EVENT_DEDUPED),
                  (''events_clustered'', count_records records EVENT_CLUSTERED),
                  (''signal_episodes_created'', count_records records SIGNAL_EPISODE_CREATED),
                  (''signal_escalations'', count_records records SIGNAL_ESCALATED),
                  (''alert_candidates'', count_records records ALERT_CANDIDATE),
                  (''alert_suppressed'', count_records records ALERT_SUPPRESSED)],
               tm_noise = candidate_priorities records
                 @ [(''repeated_episode_signal_count'', repeated_signals),
                    (''repeated_episode_extra_alert_count'', extra_alerts)],
               tm_suppression = suppression_counts records,
               tm_hour = hour,
               tm_scheduler = scheduler_metrics_from_facts facts\<rparr>))))"

text \<open>The dictionary that the source builds; the host's and the model's parts are constant.\<close>

definition count_fields :: "counts \<Rightarrow> payload" where
  "count_fields counts = map (\<lambda>(k, n). (k, PyInt n)) counts"

definition metrics_record :: "tuning_metrics \<Rightarrow> payload" where
  "metrics_record m =
     [(''pipeline'', PyDict (count_fields (tm_pipeline m)
         @ [(''alerts_presented'', unavailable_metric UNAVAILABLE_HOST_OFFLINE)])),
      (''noise'', PyDict (count_fields (tm_noise m)
         @ [(''suppression_by_reason'', PyDict (count_fields (tm_suppression m))),
            (''alerts_per_market_hour'', tm_hour m)])),
      (''scheduler'', PyDict (count_fields (tm_scheduler m))),
      (''intelligence'', unavailable_metric UNAVAILABLE_INTEL_OFFLINE)]"

definition count_index :: "counts \<Rightarrow> string \<Rightarrow> int res" where
  "count_index counts key = (case dict_get counts key of None \<Rightarrow> Inl (KeyError key) | Some n \<Rightarrow> Inr n)"

text \<open>\<open>{key: f(left[key], right[key]) for key in keys}\<close>.\<close>

definition with_both :: "(int \<Rightarrow> int \<Rightarrow> 'a) \<Rightarrow> string list \<Rightarrow> counts \<Rightarrow> counts \<Rightarrow> (string \<times> 'a) list res" where
  "with_both f keys left right =
     res_map (\<lambda>key. res_bind (count_index left key) (\<lambda>a. res_bind (count_index right key) (\<lambda>b. Inr (key, f a b)))) keys"

definition is_unavailable :: "pyval \<Rightarrow> bool" where
  "is_unavailable v \<longleftrightarrow> (case v of PyDict d \<Rightarrow> get_or_none d ''available'' = PyBool False | _ \<Rightarrow> False)"

definition merged_hour :: "(pyval \<Rightarrow> string) \<Rightarrow> pyval \<Rightarrow> pyval \<Rightarrow> pyval" where
  "merged_hour to_str left right =
     (if is_unavailable left \<and> is_unavailable right then
        (let reason = (case left of PyDict d \<Rightarrow> get_or_none d ''unavailable_reason'' | _ \<Rightarrow> PyNone)
         in unavailable_metric (if truthy reason then str_of to_str reason else ''unsupported_market_scope''))
      else unavailable_metric ''incomparable_market_hour'')"

definition add_metrics :: "(pyval \<Rightarrow> string) \<Rightarrow> tuning_metrics \<Rightarrow> tuning_metrics \<Rightarrow> tuning_metrics res" where
  "add_metrics to_str left right =
     res_bind (with_both (+) PIPELINE_COUNTS (tm_pipeline left) (tm_pipeline right)) (\<lambda>pipeline.
     res_bind (with_both (+) NOISE_COUNTS (tm_noise left) (tm_noise right)) (\<lambda>noise.
     res_bind (with_both (+) SUPPRESSION_COUNTS (tm_suppression left) (tm_suppression right)) (\<lambda>suppressed.
     res_bind (with_both (+) SCHEDULER_COUNTS (tm_scheduler left) (tm_scheduler right)) (\<lambda>sched.
       Inr \<lparr>tm_pipeline = pipeline, tm_noise = noise, tm_suppression = suppressed,
            tm_hour = merged_hour to_str (tm_hour left) (tm_hour right), tm_scheduler = sched\<rparr>))))"

record count_delta =
  cd_baseline :: int
  cd_candidate :: int
  cd_delta :: int

definition count_delta_of :: "int \<Rightarrow> int \<Rightarrow> count_delta" where
  "count_delta_of baseline candidate =
     \<lparr>cd_baseline = baseline, cd_candidate = candidate, cd_delta = candidate - baseline\<rparr>"

record metric_delta =
  md_pipeline :: "(string \<times> count_delta) list"
  md_noise :: "(string \<times> count_delta) list"
  md_suppression :: "(string \<times> count_delta) list"
  md_hour :: pyval
  md_scheduler :: "(string \<times> count_delta) list"

definition metric_delta_of :: "(pyval \<Rightarrow> string) \<Rightarrow> tuning_metrics \<Rightarrow> tuning_metrics \<Rightarrow> metric_delta res" where
  "metric_delta_of to_str baseline candidate =
     res_bind (with_both count_delta_of PIPELINE_COUNTS (tm_pipeline baseline) (tm_pipeline candidate)) (\<lambda>pipeline.
     res_bind (with_both count_delta_of NOISE_COUNTS (tm_noise baseline) (tm_noise candidate)) (\<lambda>noise.
     res_bind (with_both count_delta_of SUPPRESSION_COUNTS (tm_suppression baseline) (tm_suppression candidate)) (\<lambda>suppressed.
     res_bind (with_both count_delta_of SCHEDULER_COUNTS (tm_scheduler baseline) (tm_scheduler candidate)) (\<lambda>sched.
       Inr \<lparr>md_pipeline = pipeline, md_noise = noise, md_suppression = suppressed,
            md_hour = merged_hour to_str (tm_hour baseline) (tm_hour candidate), md_scheduler = sched\<rparr>))))"

definition delta_fields :: "(string \<times> count_delta) list \<Rightarrow> payload" where
  "delta_fields ds =
     map (\<lambda>(k, d). (k, PyDict [(''baseline'', PyInt (cd_baseline d)), (''candidate'', PyInt (cd_candidate d)),
                              (''delta'', PyInt (cd_delta d))])) ds"

definition delta_record :: "metric_delta \<Rightarrow> payload" where
  "delta_record d =
     [(''pipeline'', PyDict (delta_fields (md_pipeline d)
         @ [(''alerts_presented'', unavailable_metric UNAVAILABLE_HOST_OFFLINE)])),
      (''noise'', PyDict (delta_fields (md_noise d)
         @ [(''suppression_by_reason'', PyDict (delta_fields (md_suppression d))),
            (''alerts_per_market_hour'', md_hour d)])),
      (''scheduler'', PyDict (delta_fields (md_scheduler d))),
      (''intelligence'', unavailable_metric UNAVAILABLE_INTEL_OFFLINE)]"

section \<open>The comparison\<close>

definition empty_feedback_dataset :: tuning_feedback where
  "empty_feedback_dataset =
     \<lparr>tf_raw_feedback_count = 0, tf_semantic_valid_feedback_count = 0, tf_eligible_target_count = 0,
      tf_orphan_feedback_count = 0, tf_superseded_feedback_count = 0, tf_useful = 0, tf_not_useful = 0,
      tf_too_noisy = 0, tf_too_late = 0\<rparr>"

definition compare_fixture ::
  "replay_env \<Rightarrow> fixtures \<Rightarrow> offline_tuning_config \<Rightarrow> offline_tuning_config \<Rightarrow> string \<Rightarrow> nat \<Rightarrow> work_dir
    \<Rightarrow> (tuning_metrics \<times> tuning_metrics \<times> metric_delta \<times> work_dir) res" where
  "compare_fixture re fixtures baseline candidate corpus_id run work =
     res_bind (run_tuned_replay re run fixtures baseline corpus_id DEFAULT_REPLAY_SYMBOL work) (\<lambda>(left, work).
     res_bind (run_tuned_replay re (Suc run) fixtures candidate corpus_id DEFAULT_REPLAY_SYMBOL work) (\<lambda>(right, work).
     res_bind (metrics_from_records (re_texts re) (tr_records left) (tr_facts left)) (\<lambda>left_metrics.
     res_bind (metrics_from_records (re_texts re) (tr_records right) (tr_facts right)) (\<lambda>right_metrics.
     res_bind (metric_delta_of (re_str re) left_metrics right_metrics) (\<lambda>delta.
       Inr (left_metrics, right_metrics, delta, work))))))"

definition fixture_record :: "string \<Rightarrow> tuning_metrics \<Rightarrow> tuning_metrics \<Rightarrow> metric_delta \<Rightarrow> payload" where
  "fixture_record corpus_id left right delta =
     [(''corpus_id'', PyStr corpus_id), (''baseline_metrics'', PyDict (metrics_record left)),
      (''candidate_metrics'', PyDict (metrics_record right)), (''delta'', PyDict (delta_record delta))]"

definition add_total :: "(pyval \<Rightarrow> string) \<Rightarrow> tuning_metrics option \<Rightarrow> tuning_metrics \<Rightarrow> tuning_metrics option res" where
  "add_total to_str t m =
     (case t of None \<Rightarrow> Inr (Some m) | Some s \<Rightarrow> res_bind (add_metrics to_str s m) (\<lambda>s. Inr (Some s)))"

fun compare_corpus ::
  "replay_env \<Rightarrow> fixtures \<Rightarrow> offline_tuning_config \<Rightarrow> offline_tuning_config \<Rightarrow> string list \<Rightarrow> nat \<Rightarrow> work_dir
    \<Rightarrow> (string \<times> tuning_metrics \<times> tuning_metrics \<times> metric_delta) list \<Rightarrow> tuning_metrics option \<Rightarrow> tuning_metrics option
    \<Rightarrow> ((string \<times> tuning_metrics \<times> tuning_metrics \<times> metric_delta) list \<times> tuning_metrics option \<times> tuning_metrics option) res"
where
  "compare_corpus re fixtures baseline candidate [] run work rows totals_b totals_c = Inr (rows, totals_b, totals_c)"
| "compare_corpus re fixtures baseline candidate (corpus_id # corpus) run work rows totals_b totals_c =
     res_bind (compare_fixture re fixtures baseline candidate corpus_id run work) (\<lambda>(left, right, delta, work).
     res_bind (add_total (re_str re) totals_b left) (\<lambda>totals_b.
     res_bind (add_total (re_str re) totals_c right) (\<lambda>totals_c.
       compare_corpus re fixtures baseline candidate corpus (Suc (Suc run)) work (rows @ [(corpus_id, left, right, delta)])
         totals_b totals_c)))"

definition compare_artifacts ::
  "replay_env \<Rightarrow> fixtures \<Rightarrow> work_dir \<Rightarrow> tuning_artifact \<Rightarrow> tuning_artifact \<Rightarrow> string list \<Rightarrow> tuning_feedback option
    \<Rightarrow> comparison_report res" where
  "compare_artifacts re fixtures work baseline candidate corpus feedback =
     res_bind (artifact_to_record baseline) (\<lambda>_.
     res_bind (artifact_to_record candidate) (\<lambda>_.
     let evidence = (case feedback of None \<Rightarrow> empty_feedback_dataset | Some f \<Rightarrow> f) in
     res_bind (validate_corpus corpus) (\<lambda>corpus.
     res_bind (compare_corpus re fixtures (ta_config baseline) (ta_config candidate) corpus 0 work [] None None)
       (\<lambda>(rows, totals_b, totals_c).
     case (totals_b, totals_c) of
       (Some b, Some c) \<Rightarrow>
         res_bind (tuning_to_record (ta_snapshot baseline)) (\<lambda>baseline_snapshot.
         res_bind (tuning_to_record (ta_snapshot candidate)) (\<lambda>candidate_snapshot.
         res_bind (config_to_record (ta_config baseline)) (\<lambda>baseline_config.
         res_bind (config_to_record (ta_config candidate)) (\<lambda>candidate_config.
         res_bind (metric_delta_of (re_str re) b c) (\<lambda>delta.
           Inr \<lparr>cr_schema_version = TUNING_COMPARISON_SCHEMA_VERSION,
                cr_baseline_snapshot = baseline_snapshot, cr_candidate_snapshot = candidate_snapshot,
                cr_baseline_config = baseline_config, cr_candidate_config = candidate_config,
                cr_corpus = corpus, cr_baseline_metrics = metrics_record b, cr_candidate_metrics = metrics_record c,
                cr_delta = delta_record delta, cr_feedback_evidence = feedback_evidence_record evidence,
                cr_data_quality =
                  [(''snapshot_valid'', PyBool True),
                   (''orphan_count'', PyInt (tf_orphan_feedback_count evidence)),
                   (''orphan_feedback_count'', PyInt (tf_orphan_feedback_count evidence)),
                   (''wrote_telemetry_jsonl'', PyBool False), (''wrote_feedback_jsonl'', PyBool False)],
                cr_per_fixture = map (\<lambda>(i, l, r, d). fixture_record i l r d) rows\<rparr>)))))
     | _ \<Rightarrow> Inl (TuningConfigError ''corpus must contain at least one corpus_id'')))))"

section \<open>Deltas add up over the corpus\<close>

definition keyed :: "tuning_metrics \<Rightarrow> bool" where
  "keyed m \<longleftrightarrow>
     map fst (tm_pipeline m) = PIPELINE_COUNTS \<and> map fst (tm_noise m) = NOISE_COUNTS
     \<and> map fst (tm_suppression m) = SUPPRESSION_COUNTS \<and> map fst (tm_scheduler m) = SCHEDULER_COUNTS"

lemma count_keys_distinct:
  "distinct PIPELINE_COUNTS" "distinct NOISE_COUNTS" "distinct SUPPRESSION_COUNTS" "distinct SCHEDULER_COUNTS"
  by code_simp+

lemma with_both_Inr:
  "with_both f keys left right = Inr xs \<Longrightarrow>
     xs = map (\<lambda>k. (k, f (count_at left k) (count_at right k))) keys
     \<and> set keys \<subseteq> dom (dict_get left) \<and> set keys \<subseteq> dom (dict_get right)"
  unfolding with_both_def
  by (induction keys arbitrary: xs) (auto simp: res_simps count_index_def count_at_def split: option.splits)

lemma with_both_total:
  assumes "map fst left = keys" "map fst right = keys"
  shows "with_both f keys left right = Inr (map (\<lambda>k. (k, f (count_at left k) (count_at right k))) keys)"
proof -
  have "k \<in> set keys \<Longrightarrow> \<exists>a b. dict_get left k = Some a \<and> dict_get right k = Some b" for k
    using assms by (metis map_of_eq_None_iff not_None_eq list.set_map)
  then have "set ks \<subseteq> set keys \<Longrightarrow> res_map (\<lambda>key. res_bind (count_index left key) (\<lambda>a. res_bind (count_index right key) (\<lambda>b.
      Inr (key, f a b)))) ks = Inr (map (\<lambda>k. (k, f (count_at left k) (count_at right k))) ks)" for ks
    by (induction ks) (fastforce simp: count_index_def count_at_def)+
  then show ?thesis by (simp add: with_both_def)
qed

lemma map_fst_with_both: "with_both f keys left right = Inr xs \<Longrightarrow> map fst xs = keys"
  by (auto dest: with_both_Inr simp: comp_def)

lemma dict_get_map_keys: "dict_get (map (\<lambda>k. (k, h k)) ks) k = (if k \<in> set ks then Some (h k) else None)"
  by (induction ks) auto

text \<open>The change of one count, zero for a key that is not counted.\<close>

definition delta_at :: "(string \<times> count_delta) list \<Rightarrow> string \<Rightarrow> int" where
  "delta_at ds k = (case dict_get ds k of None \<Rightarrow> 0 | Some d \<Rightarrow> cd_delta d)"

lemma count_at_missing: "map fst c = keys \<Longrightarrow> k \<notin> set keys \<Longrightarrow> count_at c k = 0"
  unfolding count_at_def by (metis list.set_map map_of_eq_None_iff option.case(1))

lemma delta_of_with_both:
  assumes "with_both count_delta_of keys left right = Inr ds" "map fst left = keys" "map fst right = keys"
  shows "delta_at ds k = count_at right k - count_at left k"
proof (cases "k \<in> set keys")
  case True
  then show ?thesis
    using with_both_Inr [OF assms(1)] by (simp add: delta_at_def dict_get_map_keys count_delta_of_def)
next
  case False
  then show ?thesis
    using with_both_Inr [OF assms(1)] count_at_missing [OF assms(2)] count_at_missing [OF assms(3)]
    by (simp add: delta_at_def dict_get_map_keys)
qed

lemma sum_of_with_both:
  assumes "with_both (+) keys left right = Inr c" "map fst left = keys" "map fst right = keys"
  shows "count_at c k = count_at left k + count_at right k"
proof (cases "k \<in> set keys")
  case True
  then show ?thesis using with_both_Inr [OF assms(1)] by (simp add: count_at_def dict_get_map_keys)
next
  case False
  then show ?thesis
    using count_at_missing [OF map_fst_with_both [OF assms(1)]] count_at_missing [OF assms(2)] count_at_missing [OF assms(3)]
    by simp
qed

text \<open>The four groups of counts, read at any key.\<close>

definition counts_of :: "tuning_metrics \<Rightarrow> counts list" where
  "counts_of m = [tm_pipeline m, tm_noise m, tm_suppression m, tm_scheduler m]"

definition deltas_of :: "metric_delta \<Rightarrow> (string \<times> count_delta) list list" where
  "deltas_of d = [md_pipeline d, md_noise d, md_suppression d, md_scheduler d]"

definition at_key :: "string \<Rightarrow> tuning_metrics \<Rightarrow> int list" where
  "at_key k m = map (\<lambda>c. count_at c k) (counts_of m)"

definition delta_key :: "string \<Rightarrow> metric_delta \<Rightarrow> int list" where
  "delta_key k d = map (\<lambda>c. delta_at c k) (deltas_of d)"

lemma add_metrics_ok:
  assumes "add_metrics to_str l r = Inr m" "keyed l" "keyed r"
  shows "keyed m" "at_key k m = map2 (+) (at_key k l) (at_key k r)"
proof -
  obtain p n s c where parts: "with_both (+) PIPELINE_COUNTS (tm_pipeline l) (tm_pipeline r) = Inr p"
    "with_both (+) NOISE_COUNTS (tm_noise l) (tm_noise r) = Inr n"
    "with_both (+) SUPPRESSION_COUNTS (tm_suppression l) (tm_suppression r) = Inr s"
    "with_both (+) SCHEDULER_COUNTS (tm_scheduler l) (tm_scheduler r) = Inr c"
    "m = \<lparr>tm_pipeline = p, tm_noise = n, tm_suppression = s, tm_hour = merged_hour to_str (tm_hour l) (tm_hour r), tm_scheduler = c\<rparr>"
    using assms(1) by (auto simp: add_metrics_def res_simps)
  note keys = assms(2,3) [unfolded keyed_def]
  show "keyed m" using parts(1-4) [THEN map_fst_with_both] by (simp add: keyed_def parts(5))
  show "at_key k m = map2 (+) (at_key k l) (at_key k r)"
    using keys sum_of_with_both [OF parts(1)] sum_of_with_both [OF parts(2)] sum_of_with_both [OF parts(3)]
      sum_of_with_both [OF parts(4)] by (simp add: at_key_def counts_of_def parts(5))
qed

lemma add_metrics_total:
  assumes "keyed l" "keyed r"
  shows "\<exists>m. add_metrics to_str l r = Inr m"
  using assms by (simp add: add_metrics_def keyed_def with_both_total)

lemma metric_delta_ok:
  assumes "metric_delta_of to_str b c = Inr d" "keyed b" "keyed c"
  shows "delta_key k d = map2 (-) (at_key k c) (at_key k b)"
proof -
  obtain p n s q where parts: "with_both count_delta_of PIPELINE_COUNTS (tm_pipeline b) (tm_pipeline c) = Inr p"
    "with_both count_delta_of NOISE_COUNTS (tm_noise b) (tm_noise c) = Inr n"
    "with_both count_delta_of SUPPRESSION_COUNTS (tm_suppression b) (tm_suppression c) = Inr s"
    "with_both count_delta_of SCHEDULER_COUNTS (tm_scheduler b) (tm_scheduler c) = Inr q"
    "d = \<lparr>md_pipeline = p, md_noise = n, md_suppression = s, md_hour = merged_hour to_str (tm_hour b) (tm_hour c), md_scheduler = q\<rparr>"
    using assms(1) by (auto simp: metric_delta_of_def res_simps)
  note keys = assms(2,3) [unfolded keyed_def]
  show ?thesis
    using keys delta_of_with_both [OF parts(1)] delta_of_with_both [OF parts(2)] delta_of_with_both [OF parts(3)]
      delta_of_with_both [OF parts(4)] by (simp add: delta_key_def deltas_of_def at_key_def counts_of_def parts(5))
qed

lemma metric_delta_total:
  assumes "keyed b" "keyed c"
  shows "\<exists>d. metric_delta_of to_str b c = Inr d"
  using assms by (simp add: metric_delta_of_def keyed_def with_both_total)

lemma candidate_priorities_keys: "map fst (candidate_priorities records) = map snd PRIORITY_COUNTS"
proof -
  have step: "map fst (count_priority row c) = map fst c" if "map fst c = map snd PRIORITY_COUNTS" for row c
  proof -
    have "k \<in> set (map fst c)" if "map_of PRIORITY_COUNTS p = Some k" for p k
      using map_of_SomeD [OF that] \<open>map fst c = map snd PRIORITY_COUNTS\<close> by force
    then have "dict_get c k \<noteq> None" if "map_of PRIORITY_COUNTS p = Some k" for p k
      using that by (simp add: map_of_eq_None_iff)
    then have known: "map_of PRIORITY_COUNTS p = Some k \<Longrightarrow> dict_get c k = None \<Longrightarrow> False" for p k by blast
    show ?thesis by (auto simp: count_priority_def map_fst_dict_set split: option.splits dest: known)
  qed
  have "map fst (fold count_priority rows c) = map snd PRIORITY_COUNTS" if "map fst c = map snd PRIORITY_COUNTS" for rows c
    using that by (induction rows arbitrary: c) (simp_all add: step)
  then show ?thesis by (simp add: candidate_priorities_def comp_def split_beta)
qed

lemma metrics_keyed:
  assumes "metrics_from_records rx records facts = Inr m"
  shows "keyed m"
proof -
  have "map fst (suppression_counts records) = SUPPRESSION_COUNTS"
    using tally_sum(2) [OF prod.collapse [symmetric], of KNOWN_SUPPRESSION_REASONS]
    by (simp add: suppression_counts_def KNOWN_SUPPRESSION_REASONS_def SUPPRESSION_COUNTS_def)
  moreover have "map fst (candidate_priorities records) @ [''repeated_episode_signal_count'', ''repeated_episode_extra_alert_count'']
      = NOISE_COUNTS"
    by (simp add: candidate_priorities_keys PRIORITY_COUNTS_def NOISE_COUNTS_def)
  ultimately show ?thesis
    using assms
    by (auto simp: metrics_from_records_def res_simps keyed_def PIPELINE_COUNTS_def SCHEDULER_COUNTS_def
        scheduler_metrics_from_facts_def Let_def split_beta)
qed

subsection \<open>The loop over the corpus\<close>

type_synonym fixture_row = "string \<times> tuning_metrics \<times> tuning_metrics \<times> metric_delta"

fun row_left :: "fixture_row \<Rightarrow> tuning_metrics" where
  "row_left (i, l, r, d) = l"

fun row_right :: "fixture_row \<Rightarrow> tuning_metrics" where
  "row_right (i, l, r, d) = r"

fun row_delta :: "fixture_row \<Rightarrow> metric_delta" where
  "row_delta (i, l, r, d) = d"

definition row_keyed :: "fixture_row \<Rightarrow> bool" where
  "row_keyed row \<longleftrightarrow> keyed (row_left row) \<and> keyed (row_right row)
     \<and> (\<forall>k. delta_key k (row_delta row) = map2 (-) (at_key k (row_right row)) (at_key k (row_left row)))"

definition sum_lists :: "int list list \<Rightarrow> int list" where
  "sum_lists xs = foldr (map2 (+)) xs [0, 0, 0, 0]"

text \<open>A running total is the sum of the fixtures so far.\<close>

definition is_total :: "tuning_metrics list \<Rightarrow> tuning_metrics option \<Rightarrow> bool" where
  "is_total ms t \<longleftrightarrow>
     (case t of None \<Rightarrow> ms = [] | Some m \<Rightarrow> ms \<noteq> [] \<and> keyed m \<and> (\<forall>k. at_key k m = sum_lists (map (at_key k) ms)))"

lemma quad_add:
  "map2 (+) [a, b, c, d] [a', b', c', d'] = [a + a', b + b', c + c', d + (d' :: int)]"
  by simp

lemma at_key_quad: "\<exists>a b c d. at_key k m = [a, b, c, d]"
  by (simp add: at_key_def counts_of_def)

lemma sum_lists_quad: "\<exists>a b c d. sum_lists (map (at_key k) ms) = [a, b, c, d]"
proof (induction ms)
  case (Cons m ms)
  then show ?case using at_key_quad [of k m] by (auto simp: sum_lists_def)
qed (simp add: sum_lists_def)

lemma sum_lists_snoc: "sum_lists (map (at_key k) (ms @ [m])) = map2 (+) (sum_lists (map (at_key k) ms)) (at_key k m)"
proof (induction ms)
  case Nil
  then show ?case using at_key_quad [of k m] by (auto simp: sum_lists_def)
next
  case (Cons x ms)
  obtain a b c d where x: "at_key k x = [a, b, c, d]" using at_key_quad by blast
  obtain a' b' c' d' where m: "at_key k m = [a', b', c', d']" using at_key_quad by blast
  obtain s1 s2 s3 s4 where s: "sum_lists (map (at_key k) ms) = [s1, s2, s3, s4]" using sum_lists_quad by blast
  show ?case using Cons by (simp add: sum_lists_def x m s [unfolded sum_lists_def] add.assoc)
qed

lemma sum_lists_diff:
  assumes "\<forall>row \<in> set rows. delta_key k (row_delta row) = map2 (-) (at_key k (row_right row)) (at_key k (row_left row))"
  shows "sum_lists (map (delta_key k) (map row_delta rows))
    = map2 (-) (sum_lists (map (at_key k) (map row_right rows))) (sum_lists (map (at_key k) (map row_left rows)))"
  using assms
proof (induction rows)
  case (Cons row rows)
  obtain a b c e where l: "at_key k (row_left row) = [a, b, c, e]" using at_key_quad by blast
  obtain a' b' c' e' where r: "at_key k (row_right row) = [a', b', c', e']" using at_key_quad by blast
  obtain s1 s2 s3 s4 where sl: "sum_lists (map (at_key k) (map row_left rows)) = [s1, s2, s3, s4]"
    using sum_lists_quad by blast
  obtain t1 t2 t3 t4 where sr: "sum_lists (map (at_key k) (map row_right rows)) = [t1, t2, t3, t4]"
    using sum_lists_quad by blast
  have Cons': "sum_lists (xs # xss) = map2 (+) xs (sum_lists xss)" for xs xss by (simp add: sum_lists_def)
  have d: "delta_key k (row_delta row) = [a' - a, b' - b, c' - c, e' - e]" using Cons.prems by (simp add: l r)
  have "sum_lists (map (delta_key k) (map row_delta rows)) = [t1 - s1, t2 - s2, t3 - s3, t4 - s4]"
    using Cons.IH Cons.prems unfolding sl sr by simp
  then show ?case using sl sr by (simp add: Cons' l r d del: map_map)
qed (simp add: sum_lists_def)

lemma add_total_ok:
  assumes "add_total to_str t m = Inr t'" "is_total ms t" "keyed m"
  shows "is_total (ms @ [m]) t'"
proof (cases t)
  case None
  have "sum_lists [at_key k m] = at_key k m" for k using at_key_quad [of k m] by (auto simp: sum_lists_def)
  then show ?thesis using None assms by (auto simp: add_total_def is_total_def)
next
  case (Some s)
  then obtain s' where s': "add_metrics to_str s m = Inr s'" "t' = Some s'" using assms(1) by (auto simp: add_total_def res_simps)
  then show ?thesis
    using add_metrics_ok [OF s'(1)] assms(2,3) Some by (simp add: is_total_def sum_lists_snoc del: map_append)
qed

lemma compare_fixture_ok:
  assumes "compare_fixture re fixtures bc cc i run work = Inr (l, r, d, work')"
  shows "row_keyed (i, l, r, d)"
proof -
  obtain records facts records' facts' where "metrics_from_records (re_texts re) records facts = Inr l"
    "metrics_from_records (re_texts re) records' facts' = Inr r" "metric_delta_of (re_str re) l r = Inr d"
    using assms by (auto simp: compare_fixture_def res_simps)
  then show ?thesis using metrics_keyed metric_delta_ok by (auto simp: row_keyed_def)
qed

lemma compare_corpus_ok:
  assumes "compare_corpus re fixtures bc cc corpus run work rows tb tc = Inr (rows', b, c)"
    and "is_total (map row_left rows) tb" "is_total (map row_right rows) tc"
    and "\<forall>row \<in> set rows. row_keyed row"
  shows "map fst rows' = map fst rows @ corpus \<and> (\<forall>row \<in> set rows'. row_keyed row)
    \<and> is_total (map row_left rows') b \<and> is_total (map row_right rows') c"
  using assms
proof (induction corpus arbitrary: run work rows tb tc)
  case (Cons i corpus)
  obtain l r d work1 tb1 tc1 where step: "compare_fixture re fixtures bc cc i run work = Inr (l, r, d, work1)"
    "add_total (re_str re) tb l = Inr tb1" "add_total (re_str re) tc r = Inr tc1"
    and rest: "compare_corpus re fixtures bc cc corpus (Suc (Suc run)) work1 (rows @ [(i, l, r, d)]) tb1 tc1 = Inr (rows', b, c)"
    using Cons.prems(1) by (auto simp: res_simps)
  note row = compare_fixture_ok [OF step(1)]
  then have "keyed l" "keyed r" by (simp_all add: row_keyed_def)
  then have "is_total (map row_left (rows @ [(i, l, r, d)])) tb1"
    "is_total (map row_right (rows @ [(i, l, r, d)])) tc1"
    using add_total_ok [OF step(2) Cons.prems(2)] add_total_ok [OF step(3) Cons.prems(3)] by simp_all
  from Cons.IH [OF rest this] show ?case using Cons.prems(4) row by simp
qed simp

text \<open>C31: The comparison is additive. When a comparison over a corpus returns, it has one row per fixture in the order
  of the corpus, and the change that the report states in total for a count is the sum of the changes of that count
  over the fixtures, for every count of the pipeline, the noise, the suppressions and the scheduler.\<close>

theorem comparison_is_additive:
  assumes "compare_corpus re fixtures bc cc corpus run work [] None None = Inr (rows, totals_b, totals_c)" "corpus \<noteq> []"
  shows "map fst rows = corpus
    \<and> (\<exists>b c total_delta. totals_b = Some b \<and> totals_c = Some c \<and> metric_delta_of (re_str re) b c = Inr total_delta
      \<and> (\<forall>key. delta_key key total_delta = sum_lists (map (delta_key key) (map row_delta rows))))"
proof -
  have ok: "map fst rows = corpus" "\<forall>row \<in> set rows. row_keyed row"
    "is_total (map row_left rows) totals_b" "is_total (map row_right rows) totals_c"
    using compare_corpus_ok [OF assms(1)] by (simp_all add: is_total_def)
  have "rows \<noteq> []" using ok(1) assms(2) by auto
  then obtain b c where bc: "totals_b = Some b" "totals_c = Some c" "keyed b" "keyed c"
    "\<forall>k. at_key k b = sum_lists (map (at_key k) (map row_left rows))"
    "\<forall>k. at_key k c = sum_lists (map (at_key k) (map row_right rows))"
    using ok(3,4) by (auto simp: is_total_def split: option.splits)
  obtain D where D: "metric_delta_of (re_str re) b c = Inr D" using metric_delta_total [OF bc(3,4)] by blast
  have "delta_key k D = sum_lists (map (delta_key k) (map row_delta rows))" for k
    using metric_delta_ok [OF D bc(3,4)] bc(5,6) ok(2) sum_lists_diff [of rows k] by (simp add: row_keyed_def del: map_map)
  then show ?thesis using ok(1) bc(1,2) D by blast
qed

section \<open>Levels only climb in a replay\<close>

text \<open>With the monotonic clock at zero a symbol that has changed its level never leaves it downwards.\<close>

definition replay_sched :: "scheduler \<Rightarrow> bool" where
  "replay_sched s \<longleftrightarrow>
     as_policy s = scheduler_policy_for_replay
     \<and> (\<forall>x. as_last_change_mono s x = Some 0 \<or> as_last_change_mono s x = None \<and> get_level s x = COLD)"

definition climbs :: "scheduler \<Rightarrow> scheduler \<Rightarrow> bool" where
  "climbs s s' \<longleftrightarrow>
     (replay_sched s \<longrightarrow> replay_sched s' \<and> (\<forall>x. level_rank (get_level s x) \<le> level_rank (get_level s' x)))"

lemma climbs_refl [simp]: "climbs s s"
  by (simp add: climbs_def)

lemma climbs_trans: "climbs a b \<Longrightarrow> climbs b c \<Longrightarrow> climbs a c"
  unfolding climbs_def by (meson order_trans)

lemma climbs_mark: "climbs s (mark_fetched clock symbol s)"
  by (simp add: climbs_def replay_sched_def mark_fetched_def get_level_def)

lemma replay_dwell:
  "required_dwell scheduler_policy_for_replay current target
    = (if level_rank target > level_rank current then 0 else if current = HOT then 30 else 60)"
  by (simp add: required_dwell_def scheduler_policy_for_replay_def default_scheduler_policy_def)

lemma climbs_set:
  assumes "fc_mono clock = 0"
  shows "climbs s (snd (set_level clock symbol level False s))"
  unfolding climbs_def
proof
  assume ok: "replay_sched s"
  let ?s = "snd (set_level clock symbol level False s)"
  show "replay_sched ?s \<and> (\<forall>x. level_rank (get_level s x) \<le> level_rank (get_level ?s x))"
  proof (cases "level = get_level s symbol")
    case True
    have same: "get_level ?s = get_level s" "as_last_change_mono ?s = as_last_change_mono s" "as_policy ?s = as_policy s"
      using True by (auto simp: set_level_def Let_def get_level_def fun_eq_iff split: option.splits)
    then show ?thesis using ok by (simp add: replay_sched_def)
  next
    case False
    show ?thesis
    proof (cases "dwell_elapsed s clock symbol (get_level s symbol) level")
      case stay: False
      then show ?thesis using False ok by (simp add: set_level_def Let_def)
    next
      case True
      have "level_rank (get_level s symbol) < level_rank level"
      proof (rule ccontr)
        assume low: "\<not> ?thesis"
        then have "level_rank level < level_rank (get_level s symbol)" using False by (cases level; cases "get_level s symbol") simp_all
        then have "get_level s symbol \<noteq> COLD" by auto
        then have "as_last_change_mono s symbol = Some 0" using ok by (auto simp: replay_sched_def)
        then show False using True low ok assms by (simp add: dwell_elapsed_def replay_sched_def replay_dwell Let_def split: if_splits)
      qed
      moreover have "?s = s\<lparr>as_levels := (as_levels s)(symbol \<mapsto> level), as_last_change_mono := (as_last_change_mono s)(symbol \<mapsto> 0)\<rparr>"
        using False True assms by (simp add: set_level_def Let_def)
      ultimately show ?thesis using ok by (auto simp: replay_sched_def get_level_def)
    qed
  qed
qed

definition engine_climbs :: "('p, 'c) engine \<Rightarrow> ('p, 'c) engine \<Rightarrow> bool" where
  "engine_climbs eng eng' \<longleftrightarrow> climbs (en_scheduler eng) (en_scheduler eng')"

lemma engine_climbs_refl [simp]: "en_scheduler eng' = en_scheduler eng \<Longrightarrow> engine_climbs eng eng'"
  by (simp add: engine_climbs_def)

lemma engine_climbs_trans: "engine_climbs a b \<Longrightarrow> engine_climbs b c \<Longrightarrow> engine_climbs a c"
  unfolding engine_climbs_def by (rule climbs_trans)

lemma engine_climbs_mark: "engine_climbs eng (engine_mark clock symbol eng)"
  by (simp add: engine_climbs_def engine_mark_def climbs_mark)

lemma fold_climbs:
  assumes "\<And>x eng. engine_climbs eng (f x eng)"
  shows "engine_climbs eng (fold f xs eng)"
  by (induction xs arbitrary: eng) (auto intro: engine_climbs_trans [OF assms])

lemma ingest_snapshot_scheduler:
  "ingest_snapshot clock symbol snapshot eng = Inr eng' \<Longrightarrow> en_scheduler eng' = en_scheduler eng"
  by (auto simp: ingest_snapshot_def Let_def observe_error_def res_simps split: if_splits)

lemma ingest_due_climbs: "ingest_due clock found due eng = Inr eng' \<Longrightarrow> engine_climbs eng eng'"
proof (induction due arbitrary: eng)
  case (Cons symbol due)
  obtain eng1 where step: "(case found symbol of None \<Rightarrow> Inr (observe_error clock symbol eng)
      | Some snapshot \<Rightarrow> ingest_snapshot clock symbol snapshot eng) = Inr eng1"
    and rest: "ingest_due clock found due (engine_mark clock symbol eng1) = Inr eng'"
    using Cons.prems by (auto simp: res_simps)
  have "en_scheduler eng1 = en_scheduler eng"
    using step ingest_snapshot_scheduler by (auto simp: observe_error_def split: option.splits)
  then have "engine_climbs eng (engine_mark clock symbol eng1)"
    using engine_climbs_trans [OF engine_climbs_refl engine_climbs_mark] by blast
  then show ?case using Cons.IH [OF rest] engine_climbs_trans by blast
qed simp

lemma fetch_due_climbs:
  assumes "fetch_due ee clock due eng = Inr eng'"
  shows "engine_climbs eng eng'"
proof (cases "ee_exhausted ee (en_provider eng)")
  case True
  have "engine_climbs e (engine_mark clock x (e\<lparr>en_health := keep_alive clock x (en_health e)\<rparr>))" for x and e :: "('a, 'b) engine"
    using engine_climbs_trans [OF engine_climbs_refl engine_climbs_mark] by (metis engine.ext_inject engine.surjective engine.update_convs(6))
  from fold_climbs [of "\<lambda>x e. engine_mark clock x (e\<lparr>en_health := keep_alive clock x (en_health e)\<rparr>)", OF this]
  show ?thesis using assms True by (auto simp: fetch_due_def)
next
  case False
  obtain reply p where reply: "ee_fetch ee (en_provider eng) clock due = (reply, p)" by (rule prod.exhaust)
  show ?thesis
  proof (cases reply)
    case (Inl e)
    have step: "engine_climbs g (engine_mark clock x (observe_error clock x g))" for x and g :: "('a, 'b) engine"
      by (rule engine_climbs_trans [OF engine_climbs_refl engine_climbs_mark]) (simp add: observe_error_def)
    have "eng' = fold (\<lambda>symbol eng. engine_mark clock symbol (observe_error clock symbol eng)) due
        (eng\<lparr>en_provider := p, en_diagnostics := (en_diagnostics eng)\<lparr>ed_last_fetch_error := Some (exc_name e)\<rparr>\<rparr>)"
      using assms False by (simp add: fetch_due_def reply Inl)
    then show ?thesis
      using engine_climbs_trans [OF engine_climbs_refl
          fold_climbs [of "\<lambda>x g. engine_mark clock x (observe_error clock x g)", OF step]] by simp
  next
    case (Inr snapshots)
    then show ?thesis
      using assms False ingest_due_climbs by (fastforce simp: fetch_due_def reply engine_climbs_def)
  qed
qed

lemma process_symbol_climbs:
  assumes "process_symbol ee clock symbol eng = (r, eng')" "fc_mono clock = 0"
  shows "engine_climbs eng eng' \<and> sr_level_after r = get_level (en_scheduler eng') symbol"
proof -
  have quiet: ?thesis if "quiet_result clock symbol lb wf eng = (r, eng')" for lb wf
    using that by (auto simp: quiet_result_def Let_def tick_result_def)
  show ?thesis
    using assms(1) quiet climbs_set [OF assms(2)]
    unfolding process_symbol_def Let_def
    by (auto split: if_splits option.splits sum.splits prod.splits simp: tick_result_def engine_climbs_def)
qed

lemma process_due_climbs:
  assumes "process_due ee clock due eng = (rs, eng')" "fc_mono clock = 0"
  shows "engine_climbs eng eng'"
  using assms(1)
proof (induction due arbitrary: eng eng' rs)
  case (Cons symbol due)
  obtain r eng1 where step: "process_symbol ee clock symbol eng = (r, eng1)" by (rule prod.exhaust)
  obtain rs1 eng2 where rest: "process_due ee clock due eng1 = (rs1, eng2)" by (rule prod.exhaust)
  show ?case
    using process_symbol_climbs [OF step assms(2)] Cons.IH [OF rest] Cons.prems engine_climbs_trans
    by (auto simp: step rest)
qed simp

text \<open>A tick of the replay: the one symbol is due again, and its level does not fall.\<close>

definition replay_ready :: "string \<Rightarrow> uuid_source \<Rightarrow> ('p, 'c) engine \<Rightarrow> bool" where
  "replay_ready symbol uuid eng \<longleftrightarrow>
     engine_ok uuid eng \<and> replay_sched (en_scheduler eng) \<and> enabled_symbols (en_watchlist eng) = [symbol]
     \<and> (as_last_fetch_mono (en_scheduler eng) symbol = None \<or> as_last_fetch_mono (en_scheduler eng) symbol = Some 0)"

lemma replay_tick:
  assumes "replay_ready symbol (env_uuid (ee_env ee)) eng" "fc_mono clock = 0"
    and "inj (env_uuid (ee_env ee))" "counts_up (env_rules (ee_env ee))"
  shows "\<exists>r eng'. engine_tick ee clock eng = Inr ([r], eng') \<and> replay_ready symbol (env_uuid (ee_env ee)) eng'
    \<and> sr_symbol r = symbol \<and> sr_level_after r = get_level (en_scheduler eng') symbol
    \<and> level_rank (get_level (en_scheduler eng) symbol) \<le> level_rank (get_level (en_scheduler eng') symbol)"
proof -
  note ready = assms(1) [unfolded replay_ready_def]
  have zero: "level_interval scheduler_policy_for_replay l = 0" for l
    by (simp add: level_interval_def scheduler_policy_for_replay_def)
  then have due: "due_symbols (en_scheduler eng) clock (enabled_symbols (en_watchlist eng)) = [symbol]"
    using ready assms(2) by (auto simp: due_symbols_def is_due_def replay_sched_def)
  obtain results eng' where run: "engine_tick ee clock eng = Inr (results, eng')" "engine_ok (env_uuid (ee_env ee)) eng'"
    "en_watchlist eng' = en_watchlist eng" "map sr_symbol results = [symbol]" "marked clock symbol eng'"
    using engine_tick_run [OF _ assms(3,4), of eng clock] ready unfolding due by auto
  obtain eng1 where eng1: "fetch_due ee clock [symbol] (eng\<lparr>en_fetched := []\<rparr>) = Inr eng1"
    using run(1) by (auto simp: engine_tick_def Let_def due res_simps)
  obtain r eng2 where step: "process_symbol ee clock symbol eng1 = (r, eng2)" by (rule prod.exhaust)
  have out: "results = [r]" "eng' = eng2"
    using run(1) ready due eng1 step by (auto simp: engine_tick_def Let_def)
  have "engine_climbs eng eng1" using fetch_due_climbs [OF eng1] by (simp add: engine_climbs_def)
  moreover note after = process_symbol_climbs [OF step assms(2)]
  ultimately have "engine_climbs eng eng'" using engine_climbs_trans out by blast
  then have "replay_sched (en_scheduler eng')"
    "level_rank (get_level (en_scheduler eng) symbol) \<le> level_rank (get_level (en_scheduler eng') symbol)"
    using ready by (simp_all add: engine_climbs_def climbs_def)
  then show ?thesis
    using run ready after out assms(2) by (auto simp: replay_ready_def marked_def)
qed

lemma replay_batches_run:
  assumes "replay_ready symbol (env_uuid (ee_env ee)) eng" "fc_mono clock = 0"
    and "inj (env_uuid (ee_env ee))" "counts_up (env_rules (ee_env ee))"
    and "\<forall>batch \<in> set batches. \<not> raises (batch_time parse batch)"
  shows "\<exists>results eng' levels. replay_batches ee parse batches clock eng = Inr (results, eng')
    \<and> length levels = length batches \<and> map tk_level (tick_facts results symbol) = map scheduler_level_value levels
    \<and> sorted (map level_rank (get_level (en_scheduler eng) symbol # levels))"
  using assms(1,2,5)
proof (induction batches arbitrary: eng clock)
  case (Cons batch batches)
  obtain t where t: "batch_time parse batch = Inr t" using Cons.prems(3) by (auto simp: not_raises_iff)
  let ?clock = "clock_set_wall clock t"
  have mono: "fc_mono ?clock = 0" using Cons.prems(2) by (simp add: clock_set_wall_def)
  obtain r eng1 where tick: "engine_tick ee ?clock eng = Inr ([r], eng1)" "replay_ready symbol (env_uuid (ee_env ee)) eng1"
    "sr_symbol r = symbol" "sr_level_after r = get_level (en_scheduler eng1) symbol"
    "level_rank (get_level (en_scheduler eng) symbol) \<le> level_rank (get_level (en_scheduler eng1) symbol)"
    using replay_tick [OF Cons.prems(1) mono assms(3,4)] by blast
  obtain results eng' levels where rest: "replay_batches ee parse batches ?clock eng1 = Inr (results, eng')"
    "length levels = length batches" "map tk_level (tick_facts results symbol) = map scheduler_level_value levels"
    "sorted (map level_rank (get_level (en_scheduler eng1) symbol # levels))"
    using Cons.IH [OF tick(2) mono] Cons.prems(3) by auto
  have "replay_batches ee parse (batch # batches) clock eng = Inr ([r] # results, eng')"
    by (simp add: t tick(1) rest(1) Let_def)
  moreover have "map tk_level (tick_facts ([r] # results) symbol)
      = map scheduler_level_value (get_level (en_scheduler eng1) symbol # levels)"
    using rest(3) by (simp add: tick_facts_def List.map_filter_simps tick(3,4) tick_fact_of_def)
  moreover have "sorted (map level_rank (get_level (en_scheduler eng) symbol # get_level (en_scheduler eng1) symbol # levels))"
    using rest(4) tick(5) by auto
  ultimately show ?case using rest(2) by (metis length_Cons)
qed (simp add: tick_facts_def List.map_filter_simps)

text \<open>Climbing levels change at most twice.\<close>

lemma level_value_known: "scheduler_level_value l \<in> {''COLD'', ''WARM'', ''HOT''}"
  by (cases l) simp_all

lemma level_value_inject: "scheduler_level_value a = scheduler_level_value b \<longleftrightarrow> a = b"
  by (cases a; cases b) simp_all

lemma count_level_frame:
  assumes "tk_level row = scheduler_level_value l"
  shows "lv_previous (count_level row c) = Some (scheduler_level_value l)"
    "lv_transitions (count_level row c)
      = lv_transitions c + (if lv_previous c = None \<or> lv_previous c = Some (scheduler_level_value l) then 0 else 1)"
  using level_value_known [of l] by (auto simp: count_level_def Let_def assms)

lemma climbing_transitions:
  assumes "map tk_level facts = map scheduler_level_value levels" "sorted (map level_rank (l # levels))"
    and "lv_previous c = Some (scheduler_level_value l)"
  shows "lv_transitions (fold count_level facts c) \<le> lv_transitions c + (2 - int (level_rank l))"
  using assms
proof (induction facts arbitrary: levels l c)
  case Nil
  then show ?case by (cases l) simp_all
next
  case (Cons row facts)
  then obtain l' levels' where l': "levels = l' # levels'" "tk_level row = scheduler_level_value l'"
    "map tk_level facts = map scheduler_level_value levels'" by (cases levels) auto
  note step = count_level_frame [OF l'(2), of c]
  have "sorted (map level_rank (l' # levels'))" using Cons.prems(2) by (simp add: l'(1))
  from Cons.IH [OF l'(3) this step(1)]
  have ih: "lv_transitions (fold count_level facts (count_level row c))
      \<le> lv_transitions (count_level row c) + (2 - int (level_rank l'))" .
  have "level_rank l \<le> level_rank l'" using Cons.prems(2) by (simp add: l'(1))
  moreover have "l \<noteq> l' \<Longrightarrow> level_rank l \<noteq> level_rank l'" by (cases l; cases l') simp_all
  ultimately show ?case
    using ih by (auto simp: step(2) Cons.prems(3) level_value_inject split: if_splits)
qed

lemma replay_transitions:
  assumes "map tk_level facts = map scheduler_level_value levels" "sorted (map level_rank levels)"
  shows "count_at (scheduler_metrics_from_facts facts) ''level_transition_count'' \<le> 2"
proof -
  let ?c = "\<lparr>lv_cold = 0, lv_warm = 0, lv_hot = 0, lv_transitions = 0, lv_previous = None\<rparr>"
  have "lv_transitions (fold count_level facts ?c) \<le> 2"
  proof (cases facts)
    case (Cons row rest)
    then obtain l ls where l: "levels = l # ls" "tk_level row = scheduler_level_value l"
      "map tk_level rest = map scheduler_level_value ls" using assms(1) by (cases levels) auto
    note step = count_level_frame [OF l(2), of ?c]
    have "sorted (map level_rank (l # ls))" using assms(2) by (simp add: l(1))
    from climbing_transitions [OF l(3) this step(1)] show ?thesis using step(2) by (simp add: Cons)
  qed simp
  then show ?thesis by (simp add: scheduler_metrics_from_facts_def Let_def count_at_def)
qed

lemma fresh_replay_ready:
  assumes "enabled_symbols w = [symbol]"
  shows "replay_ready symbol uuid (build_tuned_engine w provider config telemetry)"
  using assms
  by (simp add: replay_ready_def build_tuned_engine_def engine_ok_def sb_inv_def sb_new_def latest_agree_def sb_latest_def
      pl_inv_def co_inv_new new_pipeline_def replay_sched_def new_scheduler_def get_level_def)

lemma replay_batches_dated:
  "replay_batches ee parse batches clock eng = Inr run \<Longrightarrow> \<forall>batch \<in> set batches. \<not> raises (batch_time parse batch)"
  by (induction batches arbitrary: clock eng run) (auto simp: Let_def res_simps)

text \<open>The watchlist file that a replay leaves, and that the next one of the same corpus finds.\<close>

definition replay_file :: "string \<Rightarrow> json_file" where
  "replay_file symbol = Json (watch_payload [(symbol, \<lparr>wi_symbol = symbol, wi_enabled = True\<rparr>)])"

definition replay_watchlist :: "string \<Rightarrow> watchlist" where
  "replay_watchlist symbol =
     \<lparr>wl_path = True, wl_limit = 10, wl_persist = True, wl_items = [(symbol, \<lparr>wi_symbol = symbol, wi_enabled = True\<rparr>)]\<rparr>"

lemma replay_watches:
  assumes "work = Missing \<or> work = replay_file symbol"
  shows "res_bind (new_watchlist to_str True 10 True work) (\<lambda>w. wl_add symbol (w, work))
    = Inr (\<lparr>wi_symbol = symbol, wi_enabled = True\<rparr>, replay_watchlist symbol, replay_file symbol)"
  using assms
proof
  assume "work = Missing"
  then show ?thesis
    by (simp add: new_watchlist_def wl_load_def wl_add_def wl_save_def Let_def replay_watchlist_def replay_file_def)
next
  assume work: "work = replay_file symbol"
  have "new_watchlist to_str True 10 True work = Inr (replay_watchlist symbol)"
    using load_saved [of "replay_watchlist symbol" to_str]
    by (simp add: work replay_watchlist_def replay_file_def items_ok_def dict_wf_def)
  then show ?thesis by (simp add: work wl_add_def) (simp add: replay_watchlist_def)
qed


section \<open>The report is never refused\<close>

definition reportable :: "string \<Rightarrow> bool" where
  "reportable = (\<lambda>k. k \<in> set TUNING_COMPARISON_ALLOWLIST)"

abbreviation presentable :: "pyval \<Rightarrow> bool" where
  "presentable \<equiv> clean_by reportable"

lemma reportable_all: "list_all reportable TUNING_COMPARISON_ALLOWLIST"
  by (simp add: list_all_iff reportable_def)

lemmas reportable_keys [simp] = reportable_all [unfolded TUNING_COMPARISON_ALLOWLIST_def list.pred_inject]

interpretation comparison_sanitizer: sanitizer TUNING_COMPARISON_ALLOWLIST "TELEMETRY_DENYLIST @ RECOMMENDATION_DENIED_KEYS"
  by unfold_locales code_simp

lemma has_denied_append: "has_denied (a @ b) v \<longleftrightarrow> has_denied a v \<or> has_denied b v"
  by (auto simp: has_denied_def list_ex_iff)

lemma sanitize_presentable:
  assumes "clean_fields_by reportable payload"
  shows "sanitize_comparison payload = Inr (PyDict payload)"
  using assms comparison_sanitizer.clean_not_denied [of "PyDict payload"]
    comparison_sanitizer.project_clean(1) [of "PyDict payload"]
  by (simp add: sanitize_comparison_def comparison_tree_def reportable_def has_denied_append)

lemma presentable_unavailable [simp]: "presentable (unavailable_metric reason)"
  by (simp add: unavailable_metric_def)

lemma presentable_hour [simp]: "presentable (merged_hour to_str l r)"
  by (simp add: merged_hour_def Let_def)

lemma count_keys_reportable:
  "list_all reportable PIPELINE_COUNTS" "list_all reportable NOISE_COUNTS" "list_all reportable SUPPRESSION_COUNTS"
  "list_all reportable SCHEDULER_COUNTS" "list_all reportable OFFLINE_TUNING_CONFIG_ALLOWLIST"
  by (simp_all add: PIPELINE_COUNTS_def NOISE_COUNTS_def SUPPRESSION_COUNTS_def SCHEDULER_COUNTS_def
      OFFLINE_TUNING_CONFIG_ALLOWLIST_def)

lemma clean_count_fields: "list_all reportable (map fst c) \<Longrightarrow> clean_fields_by reportable (count_fields c)"
  by (auto simp: count_fields_def clean_fields_by_def list_all_iff)

lemma clean_delta_fields: "list_all reportable (map fst ds) \<Longrightarrow> clean_fields_by reportable (delta_fields ds)"
  by (auto simp: delta_fields_def clean_fields_by_def list_all_iff)

definition presentable_metrics :: "tuning_metrics \<Rightarrow> bool" where
  "presentable_metrics m \<longleftrightarrow> keyed m \<and> presentable (tm_hour m)"

definition presentable_delta :: "metric_delta \<Rightarrow> bool" where
  "presentable_delta d \<longleftrightarrow>
     map fst (md_pipeline d) = PIPELINE_COUNTS \<and> map fst (md_noise d) = NOISE_COUNTS
     \<and> map fst (md_suppression d) = SUPPRESSION_COUNTS \<and> map fst (md_scheduler d) = SCHEDULER_COUNTS
     \<and> presentable (md_hour d)"

lemma clean_metrics_record: "presentable_metrics m \<Longrightarrow> clean_fields_by reportable (metrics_record m)"
  unfolding presentable_metrics_def keyed_def metrics_record_def
  by (simp add: clean_count_fields count_keys_reportable)

lemma clean_delta_record: "presentable_delta d \<Longrightarrow> clean_fields_by reportable (delta_record d)"
  unfolding presentable_delta_def delta_record_def
  by (simp add: clean_delta_fields count_keys_reportable)

lemma add_metrics_presentable:
  assumes "add_metrics to_str l r = Inr m" "keyed l" "keyed r"
  shows "presentable_metrics m"
proof -
  have "tm_hour m = merged_hour to_str (tm_hour l) (tm_hour r)" using assms(1) by (auto simp: add_metrics_def res_simps)
  then show ?thesis using add_metrics_ok(1) [OF assms] by (simp add: presentable_metrics_def)
qed

lemma metric_delta_presentable: "metric_delta_of to_str b c = Inr d \<Longrightarrow> presentable_delta d"
  by (auto simp: metric_delta_of_def res_simps presentable_delta_def dest: map_fst_with_both)

text \<open>The rate that a report holds is one of the two shapes, and projecting it changes nothing.\<close>

lemma project_fields_get:
  assumes "project_fields allow deny m d = Inr e" "k \<in> set allow" "dict_get d k = Some v"
  shows "\<exists>w. project_tree allow deny m v = Inr w \<and> dict_get e k = Some w"
  using assms
  by (induction d arbitrary: e) (auto simp: res_simps split: if_splits)

lemma market_rate_shape:
  assumes "market_metrics_of rows = Inr m"
  shows "(\<exists>s. mm_rate m = unavailable s) \<or> (\<exists>x. mm_rate m = available_value x)"
  using assms by (auto simp: market_metrics_of_def res_simps Let_def split: if_splits prod.splits)

lemma evaluate_alert_noise:
  assumes "evaluate rx loaded run_id seen feedback = Inr r"
  shows "\<exists>rows market sup u. market_metrics_of rows = Inr market \<and> er_alert_noise r = alert_noise_section rows market sup u"
proof -
  obtain sup u where sup: "suppression (filter (\<lambda>row. row_text ''name'' row \<noteq> None \<and> of_run run_id row) (lt_records loaded)) = (sup, u)"
    by (rule prod.exhaust)
  show ?thesis
    using assms unfolding evaluate_def Let_def sup prod.case
    by (elim res_bind_InrE) (clarsimp simp: split_beta res_bind_Inr_iff, blast)
qed

lemma metrics_hour_presentable:
  assumes "metrics_from_records rx records facts = Inr m"
  shows "presentable (tm_hour m)"
proof -
  obtain r out noise where r: "evaluate rx (memory_log records) None None None = Inr r" "report_to_record r = Inr out"
    "py_index out ''alert_noise'' = Inr noise" "py_index noise ''alerts_per_market_hour'' = Inr (tm_hour m)"
    using assms by (auto simp: metrics_from_records_def res_simps Let_def split_beta)
  obtain rows market sup u where noise: "market_metrics_of rows = Inr market" "er_alert_noise r = alert_noise_section rows market sup u"
    using evaluate_alert_noise [OF r(1)] by blast
  let ?project = "project_tree EVALUATION_ALLOWLIST TELEMETRY_DENYLIST ''evaluation report contains denied keys''"
  let ?project_fields = "project_fields EVALUATION_ALLOWLIST TELEMETRY_DENYLIST ''evaluation report contains denied keys''"
  have tree: "\<exists>e. w = PyDict e \<and> ?project_fields d = Inr e" if "?project (PyDict d) = Inr w" for d w
    using that by (auto simp: res_simps split: if_splits)
  have in_list: "''alert_noise'' \<in> set EVALUATION_ALLOWLIST" "''alerts_per_market_hour'' \<in> set EVALUATION_ALLOWLIST"
    using allowed_keys by (simp_all add: allowed_def)
  have "?project (PyDict (raw_record r)) = Inr out"
    using r(2) by (simp add: report_to_record_def sanitize_report_def report_tree_def split: if_splits)
  then obtain e where e: "out = PyDict e" "?project_fields (raw_record r) = Inr e" using tree by blast
  have "dict_get (raw_record r) ''alert_noise'' = Some (PyDict (er_alert_noise r))" by (simp add: raw_record_def)
  from project_fields_get [OF e(2) in_list(1) this] obtain w where w: "?project (PyDict (er_alert_noise r)) = Inr w"
    "dict_get e ''alert_noise'' = Some w" by blast
  then obtain n where n: "w = PyDict n" "?project_fields (er_alert_noise r) = Inr n" using tree by blast
  have "dict_get (er_alert_noise r) ''alerts_per_market_hour'' = Some (PyDict (mm_rate market))"
    by (simp add: noise(2) alert_noise_section_def Let_def split_beta)
  from project_fields_get [OF n(2) in_list(2) this] obtain h where h: "?project (PyDict (mm_rate market)) = Inr h"
    "dict_get n ''alerts_per_market_hour'' = Some h" by blast
  have "tm_hour m = h" using r(3,4) w(2) h(2) by (auto simp: e(1) n(1) py_index_def)
  moreover have "clean_fields (mm_rate market)" using market_rate_shape [OF noise(1)] by auto
  then have "h = PyDict (mm_rate market)"
    using h(1) report_sanitizer.project_clean(1) [of "PyDict (mm_rate market)"] by (simp add: allowed_def)
  moreover have "presentable (PyDict (mm_rate market))"
    using market_rate_shape [OF noise(1)] by (auto simp: unavailable_def available_value_def)
  ultimately show ?thesis by simp
qed

lemma add_total_presentable:
  assumes "add_total to_str t m = Inr t'" "presentable_metrics m" "\<forall>s. t = Some s \<longrightarrow> presentable_metrics s"
  shows "\<exists>s. t' = Some s \<and> presentable_metrics s"
proof (cases t)
  case (Some s)
  then show ?thesis
    using assms add_metrics_presentable by (auto simp: add_total_def res_simps presentable_metrics_def)
qed (use assms in \<open>auto simp: add_total_def\<close>)

definition presentable_row :: "fixture_row \<Rightarrow> bool" where
  "presentable_row row \<longleftrightarrow>
     presentable_metrics (row_left row) \<and> presentable_metrics (row_right row) \<and> presentable_delta (row_delta row)"

lemma compare_fixture_presentable:
  assumes "compare_fixture re fixtures bc cc i run work = Inr (l, r, d, work')"
  shows "presentable_row (i, l, r, d)"
proof -
  obtain recs facts recs1 facts1 where parts: "metrics_from_records (re_texts re) recs facts = Inr l"
    "metrics_from_records (re_texts re) recs1 facts1 = Inr r" "metric_delta_of (re_str re) l r = Inr d"
    using assms by (auto simp: compare_fixture_def res_simps)
  show ?thesis
    using metrics_keyed [OF parts(1)] metrics_keyed [OF parts(2)] metrics_hour_presentable [OF parts(1)]
      metrics_hour_presentable [OF parts(2)] metric_delta_presentable [OF parts(3)]
    by (simp add: presentable_row_def presentable_metrics_def)
qed

lemma compare_corpus_presentable:
  assumes "compare_corpus re fixtures bc cc corpus run work rows tb tc = Inr (rows', b, c)"
    and "\<forall>row \<in> set rows. presentable_row row"
    and "\<forall>s. tb = Some s \<longrightarrow> presentable_metrics s" "\<forall>s. tc = Some s \<longrightarrow> presentable_metrics s"
  shows "(\<forall>row \<in> set rows'. presentable_row row) \<and> (\<forall>s. b = Some s \<longrightarrow> presentable_metrics s)
    \<and> (\<forall>s. c = Some s \<longrightarrow> presentable_metrics s)"
  using assms
proof (induction corpus arbitrary: run work rows tb tc)
  case (Cons i corpus)
  obtain l r d work1 tb1 tc1 where step: "compare_fixture re fixtures bc cc i run work = Inr (l, r, d, work1)"
    "add_total (re_str re) tb l = Inr tb1" "add_total (re_str re) tc r = Inr tc1"
    and rest: "compare_corpus re fixtures bc cc corpus (Suc (Suc run)) work1 (rows @ [(i, l, r, d)]) tb1 tc1 = Inr (rows', b, c)"
    using Cons.prems(1) by (auto simp: res_simps)
  note row = compare_fixture_presentable [OF step(1)]
  have metrics: "presentable_metrics l" "presentable_metrics r" using row by (simp_all add: presentable_row_def)
  obtain s where s: "tb1 = Some s" "presentable_metrics s"
    using add_total_presentable [OF step(2) metrics(1) Cons.prems(3)] by blast
  obtain s' where s': "tc1 = Some s'" "presentable_metrics s'"
    using add_total_presentable [OF step(3) metrics(2) Cons.prems(4)] by blast
  show ?case
  proof (rule Cons.IH [OF rest])
    show "\<forall>row \<in> set (rows @ [(i, l, r, d)]). presentable_row row" using Cons.prems(2) row by simp
  qed (use s s' in simp_all)
qed simp

lemma clean_fixture_record: "presentable_row (i, l, r, d) \<Longrightarrow> clean_fields_by reportable (fixture_record i l r d)"
  by (simp add: presentable_row_def fixture_record_def clean_metrics_record clean_delta_record)

lemma clean_raw_config: "clean_fields_by reportable (raw_config c)"
  by (simp add: raw_config_def)

lemma clean_raw_snapshot: "clean_fields_by reportable (raw_snapshot t)"
  by (simp add: raw_snapshot_def)

lemma clean_evidence: "clean_fields_by reportable (feedback_evidence_record f)"
  by (simp add: feedback_evidence_record_def)

text \<open>A comparison never refuses or trims its own report: whatever the two artifacts, the corpus and the feedback, a
  report that was computed passes the sanitizer with every field, so it holds no denied key, no recommendation, and
  nothing that the allow list would drop.\<close>

theorem comparison_report_complete:
  assumes "compare_artifacts re fixtures work baseline candidate corpus feedback = Inr r"
  shows "comparison_to_record r = Inr (PyDict (raw_comparison r))"
proof -
  obtain p q corpus' x where artifacts: "artifact_to_record baseline = Inr p" "artifact_to_record candidate = Inr q"
    and valid: "validate_corpus corpus = Inr corpus'"
    and run: "compare_corpus re fixtures (ta_config baseline) (ta_config candidate) corpus' 0 work [] None None = Inr x"
    using assms unfolding compare_artifacts_def Let_def by (elim res_bind_InrE) (rule that, assumption+)
  obtain rows tb tc where x: "x = (rows, tb, tc)" by (rule prod_cases3)
  obtain b c where some: "tb = Some b" "tc = Some c"
    using assms by (cases tb; cases tc) (simp_all add: compare_artifacts_def artifacts valid run x res_simps)
  have start: "compare_corpus re fixtures (ta_config baseline) (ta_config candidate) corpus' 0 work [] None None
      = Inr (rows, Some b, Some c)"
    using run x some by simp
  obtain d where d: "metric_delta_of (re_str re) b c = Inr d"
    using assms by (cases "metric_delta_of (re_str re) b c")
      (simp_all add: compare_artifacts_def artifacts valid start res_simps tuning_to_record_raw config_to_record_raw)
  define evidence where "evidence = (case feedback of None \<Rightarrow> empty_feedback_dataset | Some f \<Rightarrow> f)"
  have parts:
    "cr_schema_version r = TUNING_COMPARISON_SCHEMA_VERSION"
    "cr_baseline_snapshot r = raw_snapshot (ta_snapshot baseline)" "cr_candidate_snapshot r = raw_snapshot (ta_snapshot candidate)"
    "cr_baseline_config r = raw_config (ta_config baseline)" "cr_candidate_config r = raw_config (ta_config candidate)"
    "cr_baseline_metrics r = metrics_record b" "cr_candidate_metrics r = metrics_record c" "cr_delta r = delta_record d"
    "cr_feedback_evidence r = feedback_evidence_record evidence"
    "cr_data_quality r = [(''snapshot_valid'', PyBool True), (''orphan_count'', PyInt (tf_orphan_feedback_count evidence)),
       (''orphan_feedback_count'', PyInt (tf_orphan_feedback_count evidence)), (''wrote_telemetry_jsonl'', PyBool False),
       (''wrote_feedback_jsonl'', PyBool False)]"
    "cr_per_fixture r = map (\<lambda>(i, l, r, d). fixture_record i l r d) rows"
    using assms unfolding compare_artifacts_def Let_def evidence_def [symmetric]
    by (clarsimp simp: res_simps artifacts valid start d tuning_to_record_raw config_to_record_raw)+
  have ok: "\<forall>row \<in> set rows. presentable_row row" "presentable_metrics b" "presentable_metrics c"
    using compare_corpus_presentable [OF start] by simp_all
  have "list_all presentable (map PyDict (map (\<lambda>(i, l, r, d). fixture_record i l r d) rows))"
    using ok(1) clean_fixture_record by (auto simp: list_all_iff)
  then have "clean_fields_by reportable (raw_comparison r)"
    using ok(2,3) metric_delta_presentable [OF d]
    by (simp add: raw_comparison_def parts clean_raw_config clean_raw_snapshot clean_evidence clean_metrics_record
        clean_delta_record py_strs_def list_all_iff del: list.pred_map)
  then show ?thesis by (simp add: comparison_to_record_def parts(1) sanitize_presentable)
qed

section \<open>A sample corpus\<close>

lemma metrics_total:
  assumes "\<forall>row \<in> set records. row_ok row"
  shows "\<exists>m. metrics_from_records rx records facts = Inr m"
proof -
  obtain r where r: "evaluate rx (memory_log records) None None None = Inr r" "report_to_record r = Inr (PyDict (raw_record r))"
    using evaluate_reports [of "memory_log records" None rx None None] assms by (auto simp: memory_log_def)
  obtain rows market sup u where noise: "er_alert_noise r = alert_noise_section rows market sup u"
    using evaluate_alert_noise [OF r(1)] by blast
  have "py_index (PyDict (raw_record r)) ''alert_noise'' = Inr (PyDict (er_alert_noise r))"
    by (simp add: py_index_def raw_record_def)
  moreover have "py_index (PyDict (er_alert_noise r)) ''alerts_per_market_hour'' = Inr (PyDict (mm_rate market))"
    by (simp add: py_index_def noise alert_noise_section_def Let_def split_beta)
  ultimately show ?thesis by (simp add: metrics_from_records_def r split_beta Let_def)
qed

text \<open>Of the work directory a replay reads the one document of its corpus.\<close>

lemma map_sum_bind: "map_sum id f (res_bind x g) = res_bind x (\<lambda>y. map_sum id f (g y))"
  by (simp add: res_bind_def split: sum.split)

lemma run_reads_own_document:
  assumes "work corpus_id = work' corpus_id"
  shows "map_sum id fst (run_tuned_replay re run fixtures config corpus_id symbol work)
    = map_sum id fst (run_tuned_replay re run fixtures config corpus_id symbol work')"
  unfolding run_tuned_replay_def Let_def
  by (simp add: assms map_sum_bind split_beta if_distrib [of "map_sum id fst"] cong: if_cong)

definition replay_quote :: "int \<Rightarrow> int \<Rightarrow> raw_quote" where
  "replay_quote t p =
     [(''symbol'', PyStr ''600519.SH''), (''market_timestamp'', PyInt t), (''received_timestamp'', PyInt t),
      (''price'', PyInt p), (''open'', PyInt 10), (''high'', PyInt p), (''low'', PyInt 10), (''prev_close'', PyInt 10),
      (''volume'', PyInt 10), (''turnover'', PyInt 10)]"

definition sample_replay :: replay_env where
  "sample_replay =
     \<lparr>re_parse = (\<lambda>_. None), re_str = (\<lambda>_. []),
      re_texts = \<lparr>rx_date = (\<lambda>_. ''d''), rx_telemetry_path = (\<lambda>_. ''m''), rx_feedback_path = (\<lambda>_. ''f'')\<rparr>,
      re_uuid = (\<lambda>_. Composer.tally), re_telemetry_uuid = (\<lambda>_. Composer.tally)\<rparr>"

definition sample_fixtures :: fixtures where
  "sample_fixtures = [''c'' \<mapsto> Inr [[replay_quote 1000 10]]]"

definition sample_document :: json_file where
  "sample_document =
     Json (PyDict [(''items'', PyList [PyDict [(''symbol'', PyStr ''600519.SH''), (''enabled'', PyBool True)]])])"

lemma sample_runs:
  "map_sum id (\<lambda>(out, work). (tr_records out, work ''c''))
     (run_tuned_replay sample_replay 0 sample_fixtures sample_config ''c'' DEFAULT_REPLAY_SYMBOL (\<lambda>_. Missing))
   = Inr ([], sample_document)"
  "map_sum id (\<lambda>out. tr_records out)
     (map_sum id fst (run_tuned_replay sample_replay 1 sample_fixtures sample_config ''c'' DEFAULT_REPLAY_SYMBOL (\<lambda>_. sample_document)))
   = Inr []"
  by code_simp+

lemma map_sum_InrD: "map_sum id f x = Inr y \<Longrightarrow> \<exists>z. x = Inr z \<and> f z = y"
  by (cases x) auto

lemma sample_comparison:
  "\<exists>rows b c. compare_corpus sample_replay sample_fixtures sample_config sample_config [''c''] 0 (\<lambda>_. Missing) [] None None
     = Inr (rows, Some b, Some c)"
proof -
  obtain left work where left: "run_tuned_replay sample_replay 0 sample_fixtures sample_config ''c'' DEFAULT_REPLAY_SYMBOL (\<lambda>_. Missing)
      = Inr (left, work)" "tr_records left = []" "work ''c'' = sample_document"
    using map_sum_InrD [OF sample_runs(1)] by auto
  obtain right work' where right: "run_tuned_replay sample_replay 1 sample_fixtures sample_config ''c'' DEFAULT_REPLAY_SYMBOL work
      = Inr (right, work')" "tr_records right = []"
    using map_sum_InrD [OF sample_runs(2) [unfolded run_reads_own_document
        [where work = "\<lambda>_. sample_document" and work' = work and corpus_id = "''c''", OF left(3) [symmetric]]]]
    by (auto dest!: map_sum_InrD)
  obtain l where l: "metrics_from_records (re_texts sample_replay) [] (tr_facts left) = Inr l"
    using metrics_total [of "[]"] by auto
  obtain r where r: "metrics_from_records (re_texts sample_replay) [] (tr_facts right) = Inr r"
    using metrics_total [of "[]"] by auto
  obtain d where "metric_delta_of (re_str sample_replay) l r = Inr d"
    using metric_delta_total metrics_keyed [OF l] metrics_keyed [OF r] by blast
  then show ?thesis
    using right by (simp add: compare_fixture_def left right l r add_total_def)
qed

theorem comparison_is_additive_witness:
  "\<exists>rows b c total_delta.
     compare_corpus sample_replay sample_fixtures sample_config sample_config [''c''] 0 (\<lambda>_. Missing) [] None None = Inr (rows, Some b, Some c)
     \<and> map fst rows = [''c''] \<and> metric_delta_of (re_str sample_replay) b c = Inr total_delta"
proof -
  obtain rows b c where run: "compare_corpus sample_replay sample_fixtures sample_config sample_config [''c''] 0 (\<lambda>_. Missing) [] None None
      = Inr (rows, Some b, Some c)"
    using sample_comparison by blast
  from comparison_is_additive [OF run] run show ?thesis by auto
qed


theorem comparison_report_complete_witness:
  "\<exists>r. compare_artifacts sample_replay sample_fixtures (\<lambda>_. Missing) sample_artifact sample_artifact [''c''] None = Inr r
     \<and> comparison_to_record r = Inr (PyDict (raw_comparison r))"
proof -
  obtain rows b c where run: "compare_corpus sample_replay sample_fixtures sample_config sample_config [''c''] 0 (\<lambda>_. Missing) [] None None
      = Inr (rows, Some b, Some c)"
    using sample_comparison by blast
  have keyed: "keyed b" "keyed c" using compare_corpus_ok [OF run] by (simp_all add: is_total_def)
  obtain d where d: "metric_delta_of (re_str sample_replay) b c = Inr d" using metric_delta_total [OF keyed] by blast
  have "ta_schema_version sample_artifact = TUNING_ARTIFACT_SCHEMA_VERSION" "ta_config sample_artifact = sample_config"
    by (simp_all add: sample_artifact_def TUNING_ARTIFACT_SCHEMA_VERSION_def)
  note artifact = artifact_to_record_raw [OF this(1)] this(2)
  have "validate_corpus [''c''] = Inr [''c'']" by code_simp
  then have "\<not> raises (compare_artifacts sample_replay sample_fixtures (\<lambda>_. Missing) sample_artifact sample_artifact [''c''] None)"
    by (simp add: compare_artifacts_def artifact run d Let_def tuning_to_record_raw config_to_record_raw
        del: compare_corpus.simps)
  then obtain r where "compare_artifacts sample_replay sample_fixtures (\<lambda>_. Missing) sample_artifact sample_artifact [''c''] None = Inr r"
    unfolding not_raises_iff by blast
  with comparison_report_complete [OF this] show ?thesis by blast
qed

end
