(* ===== verification/Draining.thy ===== *)
theory Draining
  imports Coordinator
begin

text \<open>
  \<open>IntelligenceCoordinator.idle\<close>: waiting until the queue is empty and no call is in flight. Between two ticks only
  the workers move; every one of their moves brings the coordinator nearer to that state.
\<close>

section \<open>The moves of the workers\<close>

text \<open>What \<open>idle\<close> waits for: \<open>queue.join()\<close> counts the works queued and running, the loop after it the calls in flight.\<close>

definition coordinator_idle :: "coordinator \<Rightarrow> bool" where
  "coordinator_idle c \<longleftrightarrow>
     (case ic_queue c of None \<Rightarrow> True | Some queue \<Rightarrow> queue = [] \<and> ic_running c = [] \<and> ic_in_flight c = 0)"

text \<open>A worker takes work when one is free, or a call ends.\<close>

inductive worker_move ::
  "'c env \<Rightarrow> coordinator \<times> 'c telemetry \<Rightarrow> coordinator \<times> 'c telemetry \<Rightarrow> bool" for env where
  takes: "ic_queue c = Some (work # queue) \<Longrightarrow> length (ic_running c) < ic_concurrency c
    \<Longrightarrow> worker_move env (c, tel) (worker_take clock c, tel)"
| ends: "k < length (ic_running c) \<Longrightarrow> worker_move env (c, tel) (worker_finish env clock k outcome (c, tel))"

inductive_cases worker_moveE: "worker_move env s t"

inductive worker_moves ::
  "'c env \<Rightarrow> nat \<Rightarrow> coordinator \<times> 'c telemetry \<Rightarrow> coordinator \<times> 'c telemetry \<Rightarrow> bool" for env where
  none: "worker_moves env 0 s s"
| more_moves: "worker_moves env n s t \<Longrightarrow> worker_move env t u \<Longrightarrow> worker_moves env (Suc n) s u"

text \<open>Each work queued costs at most two moves, each call in flight one.\<close>

definition work_left :: "coordinator \<Rightarrow> nat" where
  "work_left c = 2 * (case ic_queue c of None \<Rightarrow> 0 | Some queue \<Rightarrow> length queue) + length (ic_running c)"

section \<open>What a move leaves\<close>

definition workload :: "coordinator \<Rightarrow> intelligence_work list option \<times> running_call list \<times> nat \<times> nat" where
  "workload c = (ic_queue c, ic_running c, ic_in_flight c, ic_concurrency c)"

lemma workload_bump [simp]: "workload (bump f c) = workload c"
  by (simp add: workload_def bump_def)

lemma workload_store [simp]: "workload (store_result work result c) = workload c"
  by (simp add: workload_def store_result_def)

lemma workload_forget [simp]: "workload (maybe_forget i c) = workload c"
  by (simp add: workload_def maybe_forget_def)

lemma workload_pending: "workload (c\<lparr>ic_pending := p\<rparr>) = workload c"
  by (simp add: workload_def)

lemma workload_release [simp]: "workload (release_pending i c) = workload c"
  by (simp add: release_pending_def Let_def workload_pending)

lemma workload_logs [simp]:
  "workload (log_latency elapsed c) = workload c" "workload (discard_stale c) = workload c"
  "workload (count_failure reason c) = workload c"
  by (simp_all add: log_latency_def discard_stale_def count_failure_def)

lemma workload_complete [simp]:
  "workload (fst (complete_call env clock work elapsed completion parse_s s)) = workload (fst s)"
  by (simp add: complete_call_def split_beta Let_def)

lemma workload_fail [simp]: "workload (fst (fail_call env clock work elapsed err s)) = workload (fst s)"
  by (simp add: fail_call_def split_beta Let_def)

lemma workload_tasks: "workload (c\<lparr>ic_tasks := ts, ic_in_flight := n\<rparr>)
    = (fst (workload c), fst (snd (workload c)), n, snd (snd (snd (workload c))))"
  by (simp add: workload_def)

lemma workload_finish:
  assumes "k < length (ic_running c)"
  shows "workload (fst (worker_finish env clock k outcome (c, tel)))
    = (ic_queue c, take k (ic_running c) @ drop (Suc k) (ic_running c), ic_in_flight c - 1, ic_concurrency c)"
proof -
  define d where "d = c\<lparr>ic_running := take k (ic_running c) @ drop (Suc k) (ic_running c)\<rparr>"
  define e where "e = (case outcome of
      CancelledCall \<Rightarrow> (discard_stale d, tel)
    | Completed completion parse_s \<Rightarrow>
        complete_call env clock (rn_work (ic_running c ! k)) (fc_mono clock - rn_started (ic_running c ! k)) completion parse_s (d, tel)
    | Raised err \<Rightarrow> fail_call env clock (rn_work (ic_running c ! k)) (fc_mono clock - rn_started (ic_running c ! k)) err (d, tel))"
  have e: "workload (fst e) = workload d" by (simp add: e_def split: call_outcome.split)
  then have parts: "ic_queue (fst e) = ic_queue c" "ic_in_flight (fst e) = ic_in_flight c"
    "ic_running (fst e) = take k (ic_running c) @ drop (Suc k) (ic_running c)" "ic_concurrency (fst e) = ic_concurrency c"
    by (simp_all add: workload_def d_def)
  have "fst (worker_finish env clock k outcome (c, tel))
      = release_pending (wk_signal_id (rn_work (ic_running c ! k)))
          ((fst e)\<lparr>ic_tasks := dict_pop (wk_signal_id (rn_work (ic_running c ! k))) (ic_tasks (fst e)),
                   ic_in_flight := ic_in_flight (fst e) - 1\<rparr>)"
    using assms by (cases outcome) (simp_all add: worker_finish_def Let_def e_def d_def split_beta)
  then show ?thesis using parts by (simp add: workload_tasks) (simp add: workload_def)
qed

lemma workload_take:
  assumes "ic_queue c = Some (work # queue)" "length (ic_running c) < ic_concurrency c"
  shows "(\<exists>call. workload (worker_take clock c) = (Some queue, ic_running c @ [call], Suc (ic_in_flight c), ic_concurrency c))
    \<or> workload (worker_take clock c) = (Some queue, ic_running c, ic_in_flight c, ic_concurrency c)"
  using assms by (simp add: worker_take_def Let_def) (simp add: workload_def)

lemma worker_move_less:
  assumes "worker_move env s t"
  shows "work_left (fst t) < work_left (fst s)"
  using assms
proof cases
  case (takes c work queue tel clock)
  then show ?thesis using workload_take [OF takes(3,4), of clock] by (auto simp: work_left_def workload_def)
next
  case (ends k c tel clock outcome)
  then show ?thesis using workload_finish [OF ends(3), of env clock outcome tel] by (auto simp: work_left_def workload_def)
qed

lemma worker_moves_bounded: "worker_moves env n s t \<Longrightarrow> n + work_left (fst t) \<le> work_left (fst s)"
  by (induction rule: worker_moves.induct) (auto dest: worker_move_less)

section \<open>Calls in flight are counted\<close>

definition slots :: "coordinator \<Rightarrow> bool \<times> running_call list \<times> nat \<times> nat" where
  "slots c = (ic_queue c = None, ic_running c, ic_in_flight c, ic_concurrency c)"

lemma slots_workload: "workload c = workload d \<Longrightarrow> slots c = slots d"
  by (simp add: slots_def workload_def)

definition counted :: "coordinator \<Rightarrow> bool" where
  "counted c \<longleftrightarrow> ic_in_flight c = length (ic_running c) \<and> 0 < ic_concurrency c \<and> (ic_queue c = None \<longrightarrow> ic_running c = [])"

lemma counted_slots: "slots c = slots d \<Longrightarrow> counted c = counted d"
  by (simp add: counted_def slots_def)

lemma workload_invalidate [simp]: "workload (invalidate i c) = workload c"
  by (simp add: invalidate_def Let_def cancel_in_flight_def split: option.split) (simp add: workload_def)

lemma workload_invalidates: "workload (fold invalidate ids c) = workload c"
  by (induction ids arbitrary: c) simp_all

lemma workload_retire [simp]: "workload (retire_inactive ids c) = workload c"
  by (simp add: retire_inactive_def Let_def workload_invalidates) (simp add: workload_def)

lemma slots_enqueue [simp]: "slots (snd (enqueue s payload c)) = slots c"
  by (simp add: enqueue_def Let_def slots_def bump_def split: option.split)

lemma slots_bump [simp]: "slots (bump f c) = slots c"
  by (rule slots_workload) simp

lemma slots_signal: "slots (fst (observe_signal env clock feed row s (c, tel))) = slots c"
  unfolding observe_signal_def Let_def
  by (auto simp: split_beta split: option.split bool.split prod.split)

lemma slots_fold:
  assumes "\<And>x c tel. slots (fst (f x (c, tel))) = slots c"
  shows "slots (fst (fold f xs (c, tel))) = slots c"
proof (induction xs arbitrary: c tel)
  case (Cons x xs)
  obtain c' tel' where f: "f x (c, tel) = (c', tel')" by (rule prod.exhaust)
  then show ?case using Cons.IH [of c' tel'] assms [of x c tel] by simp
qed simp

lemma slots_observe: "slots (fst (observe_tick env clock result feed_status_for active s)) = slots (fst s)"
proof -
  obtain c tel where s: "s = (c, tel)" by (rule prod.exhaust)
  obtain c' tel' where f: "fold (observe_row env clock feed_status_for) result
      (retire_inactive (current_active clock result active) c, tel) = (c', tel')" by (rule prod.exhaust)
  have row: "slots (fst (observe_row env clock feed_status_for row (c, tel))) = slots c" for row c tel
    unfolding observe_row_def by (rule slots_fold) (rule slots_signal)
  have "slots c' = slots (retire_inactive (current_active clock result active) c)"
    using slots_fold [of "observe_row env clock feed_status_for", OF row] f by (metis fst_conv)
  then show ?thesis
    using slots_workload [OF workload_retire, of "current_active clock result active" c]
    by (simp add: observe_tick_def s f Let_def split: option.split)
qed

lemma counted_step:
  assumes "coordinator_step env s t" "counted (fst s)"
  shows "counted (fst t)"
  using assms
proof cases
  case (observe clock result feed_status_for active)
  then show ?thesis using assms(2) counted_slots [OF slots_observe] by metis
next
  case (take c tel clock)
  have "counted (worker_take clock c)" if "counted c"
  proof (cases "\<exists>work queue. ic_queue c = Some (work # queue) \<and> length (ic_running c) < ic_concurrency c")
    case True
    then show ?thesis using workload_take [of c _ _ clock] that by (auto simp: counted_def workload_def)
  next
    case False
    then show ?thesis using that by (auto simp: worker_take_def split: option.split list.split)
  qed
  then show ?thesis using take assms(2) by simp
next
  case (finish clock k outcome)
  obtain c tel where s: "s = (c, tel)" by (rule prod.exhaust)
  show ?thesis
  proof (cases "k < length (ic_running c)")
    case True
    then show ?thesis using workload_finish [OF True, of env clock outcome tel] finish assms(2) s
      by (auto simp: counted_def workload_def)
  next
    case False
    then show ?thesis using finish assms(2) s by (simp add: worker_finish_def)
  qed
next
  case (start c tel)
  then show ?thesis using assms(2) by (auto simp: coordinator_start_def counted_def)
next
  case (shutdown c tel)
  then show ?thesis using assms(2) by (auto simp: coordinator_shutdown_def reset_after_shutdown_def counted_def)
qed

lemma counted_run: "coordinator_run env s t \<Longrightarrow> counted (fst s) \<Longrightarrow> counted (fst t)"
  by (induction rule: coordinator_run.induct) (auto dest: counted_step)

lemma worker_move_step: "worker_move env s t \<Longrightarrow> coordinator_step env s t"
  by (erule worker_moveE) (auto intro: coordinator_step.intros)

lemma worker_moves_run: "worker_moves env n s t \<Longrightarrow> coordinator_run env s0 s \<Longrightarrow> coordinator_run env s0 t"
  by (induction rule: worker_moves.induct) (auto intro: run_step worker_move_step)

text \<open>A coordinator that is not idle can move: a call can end, or a worker is free.\<close>

lemma worker_can_move:
  assumes "counted c" "\<not> coordinator_idle c"
  shows "\<exists>t. worker_move env (c, tel) t"
proof (cases "ic_running c")
  case Nil
  then obtain work queue where "ic_queue c = Some (work # queue)"
    using assms by (auto simp: coordinator_idle_def counted_def neq_Nil_conv split: option.splits)
  then show ?thesis using takes [of c work queue env tel] Nil assms(1) by (auto simp: counted_def)
next
  case (Cons call calls)
  then show ?thesis using ends [of 0 c env tel] by (metis length_greater_0_conv list.distinct(2))
qed

section \<open>Property\<close>

text \<open>C10: Waiting for the sidecar ends. From every state that the interleaving of ticks, workers, answers, start and
  shutdown can reach, the workers make at most two moves for each queued work and one for each call in flight until the
  next tick, in whatever order and with whatever outcome the calls end; as long as the coordinator is not idle some move
  is possible; and once it is idle no work is pending for any signal.\<close>

theorem idle_is_reached:
  assumes "coordinator_run env (new_coordinator queue_size concurrency budget policy, tel0) s" "worker_moves env n s t"
  shows "n \<le> 2 * (case ic_queue (fst s) of None \<Rightarrow> 0 | Some queue \<Rightarrow> length queue) + length (ic_running (fst s))
    \<and> (coordinator_idle (fst t) \<or> (\<exists>u. worker_move env t u))
    \<and> (coordinator_idle (fst t) \<longrightarrow> (\<forall>i. count_of (ic_pending (fst t)) i = 0))"
proof -
  have run: "coordinator_run env (new_coordinator queue_size concurrency budget policy, tel0) t"
    by (rule worker_moves_run [OF assms(2,1)])
  have "counted (fst t)"
    using counted_run [OF run] by (simp add: counted_def new_coordinator_def)
  then have move: "coordinator_idle (fst t) \<or> (\<exists>u. worker_move env t u)"
    using worker_can_move [of "fst t" env "snd t"] by auto
  have "coordinator_ok (fst t)" using coordinator_run_ok [OF run] new_coordinator_ok by simp
  then have ok: "ok_but {} (\<lambda>_. 0) (fst t)" by (simp add: coordinator_ok_def)
  have "count_of (ic_pending (fst t)) i = 0" if "coordinator_idle (fst t)" for i
    using ok_butD(4) [OF ok, of i] ok_butD(8) [OF ok] that
    by (auto simp: outstanding_def works_def coordinator_idle_def split: option.splits)
  then show ?thesis using worker_moves_bounded [OF assms(2)] move by (simp add: work_left_def)
qed

theorem idle_is_reached_witness:
  "\<exists>t. worker_moves sample_env 1 (busy_coordinator, None) t \<and> coordinator_idle (fst t)
     \<and> (\<forall>i. count_of (ic_pending (fst t)) i = 0)"
proof -
  let ?new = "new_coordinator 8 1 default_call_budget default_router_policy"
  let ?seen = "observe_tick sample_env sample_clock [sample_row] (\<lambda>_. LIVE) None (coordinator_start ?new, None)"
  have "coordinator_run sample_env (?new, None) (coordinator_start ?new, None)"
    by (rule run_step [OF run_refl coordinator_step.start])
  then have "coordinator_run sample_env (?new, None) ?seen" by (rule run_step [OF _ coordinator_step.observe])
  moreover have "coordinator_step sample_env ?seen (worker_take sample_clock (fst ?seen), snd ?seen)"
    using coordinator_step.take [of sample_env "fst ?seen" "snd ?seen" sample_clock] by simp
  ultimately have reached: "coordinator_run sample_env (?new, None) (worker_take sample_clock (fst ?seen), snd ?seen)"
    by (rule run_step)
  have "snd ?seen = None" by code_simp
  then have run: "coordinator_run sample_env (?new, None) (busy_coordinator, None)"
    using reached by (simp only: busy_coordinator_def)
  have "0 < length (ic_running busy_coordinator)" by code_simp
  from ends [OF this] have "worker_move sample_env (busy_coordinator, None)
      (worker_finish sample_env sample_clock 0 CancelledCall (busy_coordinator, None))" .
  from more_moves [OF none this]
  have moves: "worker_moves sample_env 1 (busy_coordinator, None)
      (worker_finish sample_env sample_clock 0 CancelledCall (busy_coordinator, None))" by simp
  have "coordinator_idle (fst (worker_finish sample_env sample_clock 0 CancelledCall (busy_coordinator, None)))" by code_simp
  then show ?thesis using idle_is_reached [OF run moves] moves by blast
qed

end
