(* ===== verification/Capabilities.thy ===== *)
theory Capabilities
  imports Wire
begin

text \<open>
  \<open>capabilities/\<close> and the tools of \<open>mcp_server/server.py\<close>: the read-only view of a running engine that other hosts
  than the daemon use. A call either answers or fails with a stable code; an unexpected exception is mapped to one.
\<close>

section \<open>Errors\<close>

datatype capability_error_code =
    CAP_NOT_FOUND
  | CAP_INVALID_ARGUMENT
  | CAP_NOT_RUNNING
  | CAP_UNAVAILABLE
  | CAP_TIMEOUT
  | CAP_INTERNAL

fun capability_code_value :: "capability_error_code \<Rightarrow> string" where
  "capability_code_value CAP_NOT_FOUND = ''not_found''"
| "capability_code_value CAP_INVALID_ARGUMENT = ''invalid_argument''"
| "capability_code_value CAP_NOT_RUNNING = ''not_running''"
| "capability_code_value CAP_UNAVAILABLE = ''unavailable''"
| "capability_code_value CAP_TIMEOUT = ''timeout''"
| "capability_code_value CAP_INTERNAL = ''internal''"

text \<open>What a call can raise: a capability error, or any other exception.\<close>

datatype failure = CapabilityError capability_error_code string | Unexpected exc

fun map_exception :: "failure \<Rightarrow> capability_error_code \<times> string" where
  "map_exception (CapabilityError code message) = (code, message)"
| "map_exception (Unexpected (TimeoutError m)) = (CAP_TIMEOUT, ''capability execution timed out'')"
| "map_exception (Unexpected (KeyError k)) = (CAP_NOT_FOUND, ''requested object was not found'')"
| "map_exception (Unexpected TypeError) = (CAP_INVALID_ARGUMENT, ''invalid capability argument'')"
| "map_exception (Unexpected (ValueError m)) = (CAP_INVALID_ARGUMENT, ''invalid capability argument'')"
| "map_exception (Unexpected e) = (CAP_INTERNAL, ''unexpected capability failure'')"

section \<open>Views\<close>

fun feed_severity :: "feed_status \<Rightarrow> nat" where
  "feed_severity LIVE = 0"
| "feed_severity DELAYED = 1"
| "feed_severity STALE = 2"
| "feed_severity DISCONNECTED = 3"

record symbol_feed_health =
  sf_symbol :: string
  sf_status :: feed_status
  sf_feed_latency_s :: "flt option"
  sf_last_update_age_s :: "flt option"

definition symbol_health_to_wire :: "symbol_feed_health \<Rightarrow> payload" where
  "symbol_health_to_wire r =
     [(''symbol'', PyStr (sf_symbol r)), (''status'', PyStr (feed_status_value (sf_status r))),
      (''feed_latency_s'', opt_flt (sf_feed_latency_s r)), (''last_update_age_s'', opt_flt (sf_last_update_age_s r))]"

record feed_health_report =
  fr_aggregate_status :: feed_status
  fr_symbols :: "symbol_feed_health list"

definition health_report_to_wire :: "feed_health_report \<Rightarrow> payload" where
  "health_report_to_wire r =
     [(''aggregate_status'', PyStr (feed_status_value (fr_aggregate_status r))),
      (''symbols'', PyList (map (\<lambda>s. PyDict (symbol_health_to_wire s)) (fr_symbols r)))]"

record event_view =
  vw_id :: string
  vw_symbol :: string
  vw_event_type :: string
  vw_direction :: string
  vw_severity :: int
  vw_market_timestamp :: flt
  vw_detected_timestamp :: flt
  vw_rule_name :: string

definition event_view_to_wire :: "event_view \<Rightarrow> payload" where
  "event_view_to_wire v =
     [(''id'', PyStr (vw_id v)), (''symbol'', PyStr (vw_symbol v)), (''event_type'', PyStr (vw_event_type v)),
      (''direction'', PyStr (vw_direction v)), (''severity'', PyInt (vw_severity v)),
      (''market_timestamp'', py_num (vw_market_timestamp v)), (''detected_timestamp'', py_num (vw_detected_timestamp v)),
      (''rule_name'', PyStr (vw_rule_name v))]"

definition event_view_of :: "market_event \<Rightarrow> event_view" where
  "event_view_of e =
     \<lparr>vw_id = ev_id e, vw_symbol = ev_symbol e, vw_event_type = event_type_value (ev_type e),
      vw_direction = event_direction_value (ev_direction e), vw_severity = ev_severity e,
      vw_market_timestamp = ev_market_timestamp e, vw_detected_timestamp = ev_detected_timestamp e,
      vw_rule_name = ev_rule_name e\<rparr>"

subsection \<open>The recent events: a deque of bounded length\<close>

record recent_events =
  rv_maxlen :: nat
  rv_events :: "event_view list"

definition new_recent_events :: "int \<Rightarrow> recent_events res" where
  "new_recent_events maxlen =
     (if maxlen < 1 then Inl (ValueError ''maxlen must be a positive integer'')
      else Inr \<lparr>rv_maxlen = nat maxlen, rv_events = []\<rparr>)"

definition deque_append :: "event_view \<Rightarrow> recent_events \<Rightarrow> recent_events" where
  "deque_append v b =
     b\<lparr>rv_events := (if length (rv_events b) < rv_maxlen b then rv_events b @ [v] else tl (rv_events b @ [v]))\<rparr>"

definition observe_events :: "engine_tick_result \<Rightarrow> recent_events \<Rightarrow> recent_events" where
  "observe_events result =
     fold (\<lambda>row. fold (\<lambda>event. deque_append (event_view_of event)) (sr_accepted_events row)) result"

text \<open>\<open>rows[-limit:]\<close> for a positive limit.\<close>

definition recent :: "string option \<Rightarrow> nat \<Rightarrow> recent_events \<Rightarrow> event_view list" where
  "recent symbol limit b =
     (let rows = filter (\<lambda>item. symbol = None \<or> symbol = Some (vw_symbol item)) (rv_events b)
      in drop (length rows - limit) rows)"

section \<open>The facade\<close>

text \<open>\<open>started\<close> is the present answer of the callback, when the owner of the tick loop gives one.\<close>

record ('p, 'c) capabilities =
  cp_engine :: "('p, 'c) engine"
  cp_intelligence :: "coordinator option"
  cp_events :: recent_events
  cp_started :: "bool option"

definition MAX_RECENT_EVENTS :: int where
  "MAX_RECENT_EVENTS = 200"

type_synonym 'a call = "failure + 'a"

definition new_capabilities ::
  "('p, 'c) engine \<Rightarrow> coordinator option \<Rightarrow> bool option \<Rightarrow> ('p, 'c) capabilities" where
  "new_capabilities eng intelligence started =
     \<lparr>cp_engine = eng, cp_intelligence = intelligence, cp_events = \<lparr>rv_maxlen = 200, rv_events = []\<rparr>, cp_started = started\<rparr>"

definition capabilities_observe_tick ::
  "engine_tick_result \<Rightarrow> ('p, 'c) capabilities \<Rightarrow> ('p, 'c) capabilities" where
  "capabilities_observe_tick result cp = cp\<lparr>cp_events := observe_events result (cp_events cp)\<rparr>"

definition not_running :: failure where
  "not_running = CapabilityError CAP_NOT_RUNNING ''core is not running''"

definition require_started :: "('p, 'c) capabilities \<Rightarrow> 'a call \<Rightarrow> 'a call" where
  "require_started cp rest =
     (if cp_started cp = Some False then Inl not_running else rest)"

definition annotation_of :: "('p, 'c) capabilities \<Rightarrow> string \<Rightarrow> intelligence_result option" where
  "annotation_of cp signal_id = Option.bind (cp_intelligence cp) (\<lambda>c. dict_get (ic_registry c) signal_id)"

definition invalid_symbol :: failure where
  "invalid_symbol = CapabilityError CAP_INVALID_ARGUMENT ''invalid symbol format; expected e.g. 600519.SH''"

definition ensure_known_symbol :: "('p, 'c) capabilities \<Rightarrow> pyval \<Rightarrow> string call" where
  "ensure_known_symbol cp symbol =
     (case symbol of
        PyStr s \<Rightarrow>
          if \<not> is_valid_symbol s then Inl invalid_symbol
          else if s \<notin> wi_symbol ` set (wl_list (en_watchlist (cp_engine cp)))
          then Inl (CapabilityError CAP_NOT_FOUND (''symbol is not on the watchlist: '' @ s))
          else Inr s
      | _ \<Rightarrow> Inl invalid_symbol)"

text \<open>The state of the whole list. The mapping leaves the engine with what the health tracker logged.\<close>

definition get_market_state ::
  "display \<Rightarrow> ('p, 'c) engine_env \<Rightarrow> fake_clock \<Rightarrow> ('p, 'c) capabilities \<Rightarrow> wire_market_state call \<times> ('p, 'c) capabilities" where
  "get_market_state dp ee clock cp =
     (if cp_started cp = Some False then (Inl not_running, cp)
      else let (w, eng) = map_engine_state dp ee clock (cp_engine cp) (cp_intelligence cp)
           in (Inr w, cp\<lparr>cp_engine := eng\<rparr>))"

definition get_symbol_state :: "display \<Rightarrow> pyval \<Rightarrow> ('p, 'c) capabilities \<Rightarrow> wire_symbol_state call" where
  "get_symbol_state dp symbol cp =
     require_started cp (
       res_bind (ensure_known_symbol cp symbol) (\<lambda>s.
         Inr (map_symbol_state dp (annotation_of cp) s (en_states (cp_engine cp) s))))"

definition get_active_signals :: "display \<Rightarrow> ('p, 'c) capabilities \<Rightarrow> (string, wire_signal list) dict call" where
  "get_active_signals dp cp =
     require_started cp (
       Inr (fold (\<lambda>item out.
              case en_states (cp_engine cp) (wi_symbol item) of
                None \<Rightarrow> out
              | Some state \<Rightarrow>
                  if st_active_signals state = [] then out
                  else dict_set (wi_symbol item)
                         (map (\<lambda>s. map_signal dp s (annotation_of cp (sg_id s))) (st_active_signals state)) out)
            (wl_list (en_watchlist (cp_engine cp))) []))"

text \<open>The signals in the order in which the search meets them.\<close>

definition shown_signals :: "('p, 'c) capabilities \<Rightarrow> signal list" where
  "shown_signals cp =
     concat (map (\<lambda>item. case en_states (cp_engine cp) (wi_symbol item) of None \<Rightarrow> [] | Some state \<Rightarrow> st_active_signals state)
       (wl_list (en_watchlist (cp_engine cp))))"

definition get_signal :: "display \<Rightarrow> pyval \<Rightarrow> ('p, 'c) capabilities \<Rightarrow> wire_signal call" where
  "get_signal dp signal_id cp =
     require_started cp (
       case signal_id of
         PyStr i \<Rightarrow>
           if blank i then Inl (CapabilityError CAP_INVALID_ARGUMENT ''signal_id must be a non-empty string'')
           else (case List.find (\<lambda>s. sg_id s = i) (shown_signals cp) of
                   Some s \<Rightarrow> Inr (map_signal dp s (annotation_of cp i))
                 | None \<Rightarrow> Inl (CapabilityError CAP_NOT_FOUND (''signal not found: '' @ i)))
       | _ \<Rightarrow> Inl (CapabilityError CAP_INVALID_ARGUMENT ''signal_id must be a non-empty string''))"

definition symbol_feed_health_of :: "fake_clock \<Rightarrow> health \<Rightarrow> string \<Rightarrow> symbol_feed_health" where
  "symbol_feed_health_of clock h symbol =
     \<lparr>sf_symbol = symbol, sf_status = peek_status h clock symbol, sf_feed_latency_s = feed_latency h symbol,
      sf_last_update_age_s = last_update_age h clock symbol\<rparr>"

text \<open>\<open>max\<close> with a key returns the first of the greatest.\<close>

definition get_feed_health :: "fake_clock \<Rightarrow> ('p, 'c) capabilities \<Rightarrow> feed_health_report call" where
  "get_feed_health clock cp =
     require_started cp (
       let rows = map (\<lambda>item. symbol_feed_health_of clock (en_health (cp_engine cp)) (wi_symbol item))
                    (wl_list (en_watchlist (cp_engine cp)))
       in Inr \<lparr>fr_aggregate_status =
                 (case map sf_status rows of [] \<Rightarrow> DISCONNECTED | s # ss \<Rightarrow> max_by feed_severity s ss),
               fr_symbols = rows\<rparr>)"

definition invalid_limit :: failure where
  "invalid_limit = CapabilityError CAP_INVALID_ARGUMENT ''limit must be an integer in [1, 200]''"

text \<open>A symbol that is no string makes \<open>re.match\<close> raise.\<close>

definition get_recent_events :: "pyval \<Rightarrow> pyval \<Rightarrow> ('p, 'c) capabilities \<Rightarrow> event_view list call" where
  "get_recent_events symbol limit cp =
     require_started cp (
       case limit of
         PyInt n \<Rightarrow>
           if \<not> (1 \<le> n \<and> n \<le> MAX_RECENT_EVENTS) then Inl invalid_limit
           else (case symbol of
                   PyNone \<Rightarrow> Inr (recent None (nat n) (cp_events cp))
                 | PyStr s \<Rightarrow>
                     if \<not> is_valid_symbol s then Inl invalid_symbol else Inr (recent (Some s) (nat n) (cp_events cp))
                 | _ \<Rightarrow> Inl (Unexpected TypeError))
       | _ \<Rightarrow> Inl invalid_limit)"

section \<open>The tools\<close>

datatype tool_call =
    ToolMarketState
  | ToolSymbolState pyval
  | ToolActiveSignals
  | ToolSignal pyval
  | ToolFeedHealth
  | ToolRecentEvents pyval pyval

definition error_envelope :: "string \<Rightarrow> string \<Rightarrow> payload" where
  "error_envelope code message =
     [(''ok'', PyBool False), (''error'', PyDict [(''code'', PyStr code), (''message'', PyStr message)])]"

text \<open>\<open>_guarded\<close>: an unexpected exception shows its code only.\<close>

fun guarded :: "pyval call \<Rightarrow> payload" where
  "guarded (Inr data) = [(''ok'', PyBool True), (''data'', data)]"
| "guarded (Inl (CapabilityError code message)) = error_envelope (capability_code_value code) message"
| "guarded (Inl (Unexpected e)) =
     error_envelope (capability_code_value (fst (map_exception (Unexpected e))))
       (capability_code_value (fst (map_exception (Unexpected e))))"

definition answer_with :: "('a \<Rightarrow> pyval) \<Rightarrow> 'a call \<Rightarrow> payload" where
  "answer_with f result = guarded (res_bind result (\<lambda>x. Inr (f x)))"

definition active_signals_to_wire :: "(string, wire_signal list) dict \<Rightarrow> pyval" where
  "active_signals_to_wire d = PyDict (map (\<lambda>(symbol, signals). (symbol, PyList (map (\<lambda>s. PyDict (signal_to_wire s)) signals))) d)"

fun call_tool ::
  "display \<Rightarrow> ('p, 'c) engine_env \<Rightarrow> fake_clock \<Rightarrow> tool_call \<Rightarrow> ('p, 'c) capabilities \<Rightarrow> payload \<times> ('p, 'c) capabilities" where
  "call_tool dp ee clock ToolMarketState cp =
     (let (result, cp) = get_market_state dp ee clock cp in (answer_with (\<lambda>w. PyDict (market_to_wire w)) result, cp))"
| "call_tool dp ee clock (ToolSymbolState symbol) cp =
     (answer_with (\<lambda>w. PyDict (symbol_to_wire w)) (get_symbol_state dp symbol cp), cp)"
| "call_tool dp ee clock ToolActiveSignals cp = (answer_with active_signals_to_wire (get_active_signals dp cp), cp)"
| "call_tool dp ee clock (ToolSignal signal_id) cp =
     (answer_with (\<lambda>w. PyDict (signal_to_wire w)) (get_signal dp signal_id cp), cp)"
| "call_tool dp ee clock ToolFeedHealth cp =
     (answer_with (\<lambda>r. PyDict (health_report_to_wire r)) (get_feed_health clock cp), cp)"
| "call_tool dp ee clock (ToolRecentEvents symbol limit) cp =
     (answer_with (\<lambda>vs. PyList (map (\<lambda>v. PyDict (event_view_to_wire v)) vs)) (get_recent_events symbol limit cp), cp)"

section \<open>The recent events are a window on the accepted events\<close>

definition last_n :: "nat \<Rightarrow> 'a list \<Rightarrow> 'a list" where
  "last_n n xs = drop (length xs - n) xs"

lemma length_last_n [simp]: "length (last_n n xs) = min n (length xs)"
  by (simp add: last_n_def)

lemma last_n_snoc:
  assumes "0 < n"
  shows "last_n n (xs @ [x]) = (if length (last_n n xs) < n then last_n n xs @ [x] else tl (last_n n xs @ [x]))"
proof (cases "length xs < n")
  case True
  then show ?thesis by (simp add: last_n_def)
next
  case False
  then have "drop (length xs - n) xs \<noteq> []" using assms by simp
  moreover have "Suc (length xs) - n = Suc (length xs - n)" using False by simp
  ultimately show ?thesis using False by (simp add: last_n_def drop_Suc tl_drop)
qed

lemma append_window:
  assumes "rv_events b = last_n (rv_maxlen b) xs" "0 < rv_maxlen b"
  shows "rv_events (deque_append v b) = last_n (rv_maxlen b) (xs @ [v])" "rv_maxlen (deque_append v b) = rv_maxlen b"
  using last_n_snoc [OF assms(2), of xs v] by (simp_all add: deque_append_def assms(1))

lemma append_all_window:
  assumes "rv_events b = last_n (rv_maxlen b) xs" "0 < rv_maxlen b"
  shows "rv_events (fold deque_append vs b) = last_n (rv_maxlen b) (xs @ vs) \<and> rv_maxlen (fold deque_append vs b) = rv_maxlen b"
  using assms
proof (induction vs arbitrary: b xs)
  case (Cons v vs)
  then show ?case using Cons.IH [of "deque_append v b" "xs @ [v]"] append_window [OF Cons.prems, of v] by simp
qed simp

lemma fold_concat_map: "fold (\<lambda>x. fold f (g x)) xs = fold f (concat (map g xs))"
  by (induction xs) (simp_all add: fun_eq_iff)

lemma observe_events_fold:
  "observe_events result = fold deque_append (map event_view_of (concat (map sr_accepted_events result)))"
  by (simp add: observe_events_def fold_concat_map fold_map comp_def)

lemma observe_all_fold:
  "fold observe_events results = fold deque_append (map event_view_of (concat (map sr_accepted_events (concat results))))"
  by (induction results) (simp_all add: observe_events_fold fun_eq_iff)

text \<open>After any ticks the buffer holds the most recent accepted events of all of them in the order in which they were
  accepted, at most as many as it was made for, and a query returns the newest of those of the symbol asked for, oldest
  first and never more than its limit.\<close>

theorem recent_events_window:
  assumes "new_recent_events maxlen = Inr b"
  shows "rv_events (fold observe_events results b)
      = last_n (nat maxlen) (map event_view_of (concat (map sr_accepted_events (concat results))))
    \<and> recent symbol limit (fold observe_events results b)
      = last_n limit (filter (\<lambda>v. symbol = None \<or> symbol = Some (vw_symbol v))
          (last_n (nat maxlen) (map event_view_of (concat (map sr_accepted_events (concat results))))))
    \<and> length (recent symbol limit (fold observe_events results b)) \<le> min limit (nat maxlen)"
proof -
  have b: "b = \<lparr>rv_maxlen = nat maxlen, rv_events = []\<rparr>" "0 < nat maxlen"
    using assms by (simp_all add: new_recent_events_def split: if_splits)
  let ?vs = "map event_view_of (concat (map sr_accepted_events (concat results)))"
  have events: "rv_events (fold observe_events results b) = last_n (nat maxlen) ?vs"
    using append_all_window [of b "[]" ?vs] b by (simp add: observe_all_fold last_n_def)
  have found: "recent symbol limit (fold observe_events results b)
      = last_n limit (filter (\<lambda>v. symbol = None \<or> symbol = Some (vw_symbol v)) (last_n (nat maxlen) ?vs))"
    by (simp only: recent_def events Let_def last_n_def)
  have "length (filter P (last_n (nat maxlen) ?vs)) \<le> nat maxlen" for P
    using length_filter_le [of P "last_n (nat maxlen) ?vs"] by simp
  then show ?thesis using events found by (simp add: min.coboundedI2)
qed

section \<open>Feed health\<close>

lemma feed_severity_worst: "feed_severity = feed_worst"
proof
  fix s show "feed_severity s = feed_worst s" by (cases s) simp_all
qed

lemma aggregate_peek:
  "fst (aggregate_status clock symbols h)
   = (case map (peek_status h clock) symbols of [] \<Rightarrow> DISCONNECTED | s # ss \<Rightarrow> max_by feed_worst s ss)"
proof -
  obtain ss h' where run: "health_statuses clock symbols h = (ss, h')" by (rule prod.exhaust)
  then have "ss = map (peek_status h clock) symbols" using health_statuses_frame [of clock symbols h] by simp
  then show ?thesis by (simp add: aggregate_status_def run split: list.split)
qed

lemma enabled_all:
  assumes "\<forall>item \<in> set (wl_list w). wi_enabled item"
  shows "enabled_symbols w = map wi_symbol (wl_list w)"
  using assms by (simp add: enabled_symbols_def)

text \<open>C36: The feed health report repeats the tracker: it has a row per listed symbol with the status of that symbol, and
  its aggregate, computed with a severity table of its own without touching the tracker, is the aggregate that the
  tracker itself computes for the list. When no symbol is disabled it is also the feed status of the market state.\<close>

theorem feed_health_repeats_tracker:
  assumes "get_feed_health clock cp = Inr r"
  shows "map (\<lambda>row. (sf_symbol row, sf_status row)) (fr_symbols r)
      = map (\<lambda>item. (wi_symbol item, peek_status (en_health (cp_engine cp)) clock (wi_symbol item)))
          (wl_list (en_watchlist (cp_engine cp)))
    \<and> fr_aggregate_status r
      = fst (aggregate_status clock (map wi_symbol (wl_list (en_watchlist (cp_engine cp)))) (en_health (cp_engine cp)))
    \<and> ((\<forall>item \<in> set (wl_list (en_watchlist (cp_engine cp))). wi_enabled item) \<longrightarrow>
       map_sum id wm_feed_status (fst (get_market_state dp ee clock cp)) = Inr (feed_status_value (fr_aggregate_status r)))"
proof -
  let ?w = "en_watchlist (cp_engine cp)" and ?h = "en_health (cp_engine cp)"
  have running: "cp_started cp \<noteq> Some False" using assms by (auto simp: get_feed_health_def require_started_def)
  have r: "fr_symbols r = map (\<lambda>item. symbol_feed_health_of clock ?h (wi_symbol item)) (wl_list ?w)"
    "fr_aggregate_status r = (case map (peek_status ?h clock) (map wi_symbol (wl_list ?w)) of
       [] \<Rightarrow> DISCONNECTED | s # ss \<Rightarrow> max_by feed_worst s ss)"
    using assms running unfolding get_feed_health_def require_started_def feed_severity_worst
    by (auto simp: Let_def symbol_feed_health_of_def comp_def)
  have aggregate: "fr_aggregate_status r = fst (aggregate_status clock (map wi_symbol (wl_list ?w)) ?h)"
    by (simp only: aggregate_peek r(2))
  have "map_sum id wm_feed_status (fst (get_market_state dp ee clock cp)) = Inr (feed_status_value (fr_aggregate_status r))"
    if "\<forall>item \<in> set (wl_list ?w). wi_enabled item"
    using running enabled_all [OF that] aggregate
    by (cases "wl_list ?w") (simp_all add: get_market_state_def map_engine_state_def Let_def split_beta aggregate_status_def)
  then show ?thesis using r(1) aggregate by (simp add: symbol_feed_health_of_def comp_def)
qed

section \<open>Calls only read\<close>

definition same_readings :: "health \<Rightarrow> health \<Rightarrow> bool" where
  "same_readings h h' \<longleftrightarrow>
     peek_status h' = peek_status h \<and> feed_latency h' = feed_latency h \<and> last_update_age h' = last_update_age h"

lemma same_readings_refl [simp]: "same_readings h h"
  by (simp add: same_readings_def)

lemma same_readings_trans: "same_readings a b \<Longrightarrow> same_readings b c \<Longrightarrow> same_readings a c"
  by (simp add: same_readings_def)

lemma statuses_read: "same_readings h (snd (health_statuses clock symbols h))"
proof (induction symbols arbitrary: h)
  case (Cons symbol symbols)
  obtain s h1 where h1: "health_status clock symbol h = (s, h1)" by (rule prod.exhaust)
  have "same_readings h h1" using health_status_frame [OF h1] by (simp add: same_readings_def fun_eq_iff)
  then show ?case using same_readings_trans [OF _ Cons.IH [of h1]] by (simp add: h1 split_beta)
qed simp

lemma aggregate_reads: "same_readings h (snd (aggregate_status clock symbols h))"
  using statuses_read [of h clock symbols]
  by (cases "health_statuses clock symbols h"; cases "fst (health_statuses clock symbols h)") (simp_all add: aggregate_status_def)

text \<open>The engine with another health tracker of the same readings.\<close>

definition reread :: "health \<Rightarrow> ('p, 'c) capabilities \<Rightarrow> ('p, 'c) capabilities" where
  "reread h cp = cp\<lparr>cp_engine := (cp_engine cp)\<lparr>en_health := h\<rparr>\<rparr>"

lemma reread_simps [simp]:
  "cp_started (reread h cp) = cp_started cp" "cp_events (reread h cp) = cp_events cp"
  "cp_intelligence (reread h cp) = cp_intelligence cp" "en_watchlist (cp_engine (reread h cp)) = en_watchlist (cp_engine cp)"
  "en_states (cp_engine (reread h cp)) = en_states (cp_engine cp)" "en_health (cp_engine (reread h cp)) = h"
  "en_provider (cp_engine (reread h cp)) = en_provider (cp_engine cp)"
  "annotation_of (reread h cp) = annotation_of cp" "reread h' (reread h cp) = reread h' cp"
  "shown_signals (reread h cp) = shown_signals cp" "require_started (reread h cp) = require_started cp"
  by (simp_all add: reread_def annotation_of_def shown_signals_def require_started_def fun_eq_iff)

lemma reread_own: "reread (en_health (cp_engine cp)) cp = cp"
  by (simp add: reread_def)

lemma market_state_reads:
  "\<exists>h. snd (get_market_state dp ee clock cp) = reread h cp \<and> same_readings (en_health (cp_engine cp)) h"
proof -
  have "snd (get_market_state dp ee clock cp) \<in> {reread (en_health (cp_engine cp)) cp,
      reread (snd (aggregate_status clock (enabled_symbols (en_watchlist (cp_engine cp))) (en_health (cp_engine cp)))) cp}"
    by (simp add: get_market_state_def map_engine_state_def Let_def split_beta reread_def)
  then show ?thesis using aggregate_reads same_readings_refl by blast
qed

lemma call_reads:
  "\<exists>h. snd (call_tool dp ee clock t cp) = reread h cp \<and> same_readings (en_health (cp_engine cp)) h"
proof (cases t)
  case ToolMarketState
  then show ?thesis using market_state_reads [of dp ee clock cp] by (simp add: split_beta)
qed (rule exI [where x = "en_health (cp_engine cp)"], simp add: reread_own)+

lemma lookups_reread [simp]:
  "get_symbol_state dp symbol (reread h cp) = get_symbol_state dp symbol cp"
  "get_active_signals dp (reread h cp) = get_active_signals dp cp"
  "get_signal dp symbol (reread h cp) = get_signal dp symbol cp"
  "get_recent_events symbol limit (reread h cp) = get_recent_events symbol limit cp"
  unfolding get_symbol_state_def ensure_known_symbol_def get_active_signals_def get_signal_def get_recent_events_def
    reread_simps by (rule refl)+

lemma feed_health_reread:
  "same_readings (en_health (cp_engine cp)) h \<Longrightarrow> get_feed_health clock (reread h cp) = get_feed_health clock cp"
  by (simp add: get_feed_health_def symbol_feed_health_of_def same_readings_def)

lemma market_state_reread:
  assumes "same_readings (en_health (cp_engine cp)) h"
  shows "fst (get_market_state dp ee clock (reread h cp)) = fst (get_market_state dp ee clock cp)"
proof -
  have "fst (aggregate_status clock symbols h) = fst (aggregate_status clock symbols (en_health (cp_engine cp)))" for symbols
    using assms by (simp add: aggregate_peek same_readings_def)
  then show ?thesis by (simp add: get_market_state_def map_engine_state_def Let_def split_beta)
qed

lemma answer_reread:
  assumes "same_readings (en_health (cp_engine cp)) h"
  shows "fst (call_tool dp ee clock t (reread h cp)) = fst (call_tool dp ee clock t cp)"
  using market_state_reread [OF assms] feed_health_reread [OF assms]
  by (cases t) (simp_all add: split_beta)

definition after_calls ::
  "display \<Rightarrow> ('p, 'c) engine_env \<Rightarrow> (fake_clock \<times> tool_call) list \<Rightarrow> ('p, 'c) capabilities \<Rightarrow> ('p, 'c) capabilities" where
  "after_calls dp ee calls cp = fold (\<lambda>(clock, t) cp. snd (call_tool dp ee clock t cp)) calls cp"

text \<open>C34: No capability changes anything that can be observed. Whatever calls a host makes, the list, the market states, the
  scheduler, the provider, the buffers, the pipeline and the recent events stay as they are, of the health tracker only
  what it last logged changes, and every call is answered as it would have been without the calls before it.\<close>

theorem capabilities_only_read:
  "\<exists>h. after_calls dp ee calls cp = cp\<lparr>cp_engine := (cp_engine cp)\<lparr>en_health := h\<rparr>\<rparr>
    \<and> same_readings (en_health (cp_engine cp)) h
    \<and> (\<forall>clock t. fst (call_tool dp ee clock t (after_calls dp ee calls cp)) = fst (call_tool dp ee clock t cp))"
proof -
  have reads: "\<exists>h. after_calls dp ee calls cp = reread h cp \<and> same_readings (en_health (cp_engine cp)) h" for cp
  proof (induction calls arbitrary: cp)
    case Nil
    have "after_calls dp ee [] cp = reread (en_health (cp_engine cp)) cp" by (simp add: after_calls_def reread_def)
    then show ?case using same_readings_refl by blast
  next
    case (Cons p calls)
    obtain clock t where p: "p = (clock, t)" by (rule prod.exhaust)
    obtain h where h: "snd (call_tool dp ee clock t cp) = reread h cp" "same_readings (en_health (cp_engine cp)) h"
      using call_reads by blast
    obtain h' where "after_calls dp ee calls (reread h cp) = reread h' (reread h cp)" "same_readings h h'"
      using Cons.IH [of "reread h cp"] by auto
    then show ?case using h same_readings_trans [OF h(2)] by (auto simp: after_calls_def p)
  qed
  then obtain h where h: "after_calls dp ee calls cp = reread h cp" "same_readings (en_health (cp_engine cp)) h" by blast
  then show ?thesis using answer_reread [OF h(2)] by (auto simp: reread_def)
qed

section \<open>Single lookups agree with the whole\<close>

lemma wl_ok_symbols:
  assumes "wl_ok w"
  shows "distinct (map wi_symbol (wl_list w))"
proof -
  have "map wi_symbol (wl_list w) = map fst (wl_items w)"
    using assms by (auto simp: wl_ok_def wl_list_def)
  then show ?thesis using assms by (simp add: wl_ok_def dict_wf_def)
qed

lemma fold_dict_new:
  assumes "distinct (map f items)" "set (map f items) \<inter> set (map fst d) = {}"
  shows "fold (\<lambda>item out. case g item of None \<Rightarrow> out | Some v \<Rightarrow> dict_set (f item) v out) items d
    = d @ List.map_filter (\<lambda>item. map_option (Pair (f item)) (g item)) items"
  using assms
proof (induction items arbitrary: d)
  case (Cons item items)
  show ?case
  proof (cases "g item")
    case None
    then show ?thesis using Cons.IH [of d] Cons.prems by (simp add: map_filter_simps)
  next
    case (Some v)
    have "dict_get d (f item) = None" using Cons.prems(2) by (simp add: map_of_eq_None_iff)
    then have "dict_set (f item) v d = d @ [(f item, v)]" by (rule dict_set_new)
    then show ?thesis using Cons.IH [of "d @ [(f item, v)]"] Cons.prems Some by (auto simp: map_filter_simps)
  qed
qed (simp add: map_filter_simps)

definition active_of :: "display \<Rightarrow> ('p, 'c) capabilities \<Rightarrow> watch_item \<Rightarrow> wire_signal list option" where
  "active_of dp cp item =
     (case en_states (cp_engine cp) (wi_symbol item) of
        None \<Rightarrow> None
      | Some state \<Rightarrow>
          if st_active_signals state = [] then None
          else Some (map (\<lambda>s. map_signal dp s (annotation_of cp (sg_id s))) (st_active_signals state)))"

lemma active_signals_listed:
  assumes "wl_ok (en_watchlist (cp_engine cp))" "get_active_signals dp cp = Inr d"
  shows "concat (map snd d) = map (\<lambda>s. map_signal dp s (annotation_of cp (sg_id s))) (shown_signals cp)"
proof -
  let ?items = "wl_list (en_watchlist (cp_engine cp))"
  have "d = fold (\<lambda>item out. case active_of dp cp item of None \<Rightarrow> out | Some v \<Rightarrow> dict_set (wi_symbol item) v out) ?items []"
    using assms(2) unfolding get_active_signals_def require_started_def active_of_def
    by (auto split: if_splits intro!: arg_cong [where f = "\<lambda>f. fold f ?items []"] simp: fun_eq_iff split: option.split)
  then have d: "d = List.map_filter (\<lambda>item. map_option (Pair (wi_symbol item)) (active_of dp cp item)) ?items"
    using fold_dict_new [OF wl_ok_symbols [OF assms(1)], of "[]" "active_of dp cp"] by simp
  have "concat (map snd (List.map_filter (\<lambda>item. map_option (Pair (wi_symbol item)) (active_of dp cp item)) items))
      = map (\<lambda>s. map_signal dp s (annotation_of cp (sg_id s)))
          (concat (map (\<lambda>item. case en_states (cp_engine cp) (wi_symbol item) of
             None \<Rightarrow> [] | Some state \<Rightarrow> st_active_signals state) items))" for items
    by (induction items) (auto simp: map_filter_simps active_of_def split: option.split)
  then show ?thesis by (simp add: d shown_signals_def)
qed

lemma find_listed: "List.find P xs = Some x \<Longrightarrow> x \<in> set xs \<and> P x"
  by (auto simp: find_Some_iff)

text \<open>C35: A single lookup agrees with the whole: a signal is found exactly when it is among the active signals that the
  grouped call returns, and what is found is one of them with the identifier asked for; a listed symbol's state is its row
  of the market state, and a valid symbol that is not listed is reported as not found.\<close>

theorem lookups_agree_with_whole:
  assumes "wl_ok (en_watchlist (cp_engine cp))" "get_active_signals dp cp = Inr d"
    and "fst (get_market_state dp ee clock cp) = Inr w"
  shows "(\<forall>i. raises (get_signal dp (PyStr i) cp) \<longleftrightarrow> blank i \<or> i \<notin> ws_id ` set (concat (map snd d)))
    \<and> (\<forall>i found. get_signal dp (PyStr i) cp = Inr found \<longrightarrow> found \<in> set (concat (map snd d)) \<and> ws_id found = i)
    \<and> (\<forall>symbol found. get_symbol_state dp (PyStr symbol) cp = Inr found \<longrightarrow>
         wy_symbol found = symbol \<and> found \<in> set (wm_symbols w))
    \<and> (\<forall>symbol. is_valid_symbol symbol \<and> symbol \<notin> wy_symbol ` set (wm_symbols w) \<longrightarrow>
         get_symbol_state dp (PyStr symbol) cp = Inl (CapabilityError CAP_NOT_FOUND (''symbol is not on the watchlist: '' @ symbol)))"
proof -
  let ?items = "wl_list (en_watchlist (cp_engine cp))"
  have running: "cp_started cp \<noteq> Some False" using assms(2) by (auto simp: get_active_signals_def require_started_def)
  note listed = active_signals_listed [OF assms(1,2)]
  have ids: "ws_id ` set (concat (map snd d)) = sg_id ` set (shown_signals cp)"
    by (simp only: listed set_map image_image) (simp add: map_signal_def)
  have raised: "raises (get_signal dp (PyStr i) cp) \<longleftrightarrow> blank i \<or> i \<notin> ws_id ` set (concat (map snd d))" for i
    unfolding ids using running
    by (auto simp: get_signal_def require_started_def find_None_iff split: option.split dest: find_listed)
  have found: "found \<in> set (concat (map snd d)) \<and> ws_id found = i" if asked: "get_signal dp (PyStr i) cp = Inr found" for i found
  proof -
    obtain s where s: "List.find (\<lambda>s. sg_id s = i) (shown_signals cp) = Some s" "found = map_signal dp s (annotation_of cp i)"
      using asked running
      by (cases "List.find (\<lambda>s. sg_id s = i) (shown_signals cp)") (simp_all add: get_signal_def require_started_def split: if_splits)
    then have "s \<in> set (shown_signals cp)" "sg_id s = i" using find_listed [OF s(1)] by simp_all
    then show ?thesis using s(2) by (simp only: listed set_map) (auto simp: map_signal_def)
  qed
  have lookup: "annotation_of cp = (\<lambda>i. Option.bind (cp_intelligence cp) (\<lambda>c. dict_get (ic_registry c) i))"
    by (simp add: annotation_of_def fun_eq_iff)
  have w: "wm_symbols w = map (\<lambda>item. map_symbol_state dp (annotation_of cp) (wi_symbol item)
      (en_states (cp_engine cp) (wi_symbol item))) ?items"
    using assms(3) running
    by (auto simp: get_market_state_def map_engine_state_def Let_def split_beta lookup)
  have symbols: "wy_symbol ` set (wm_symbols w) = wi_symbol ` set ?items"
    unfolding w set_map image_image by (simp add: map_symbol_state_def Let_def)
  have state: "wy_symbol found = symbol \<and> found \<in> set (wm_symbols w)"
    if "get_symbol_state dp (PyStr symbol) cp = Inr found" for symbol found
    using that running by (auto simp: get_symbol_state_def ensure_known_symbol_def require_started_def w map_symbol_state_def Let_def
        split: if_splits)
  have "get_symbol_state dp (PyStr symbol) cp = Inl (CapabilityError CAP_NOT_FOUND (''symbol is not on the watchlist: '' @ symbol))"
    if "is_valid_symbol symbol" "symbol \<notin> wy_symbol ` set (wm_symbols w)" for symbol
    using that running unfolding symbols by (simp add: get_symbol_state_def ensure_known_symbol_def require_started_def)
  then show ?thesis using raised found state by blast
qed

section \<open>Envelopes\<close>

definition failed_with :: "capability_error_code \<Rightarrow> string \<Rightarrow> payload" where
  "failed_with code message = error_envelope (capability_code_value code) message"

lemma guarded_shape:
  "(\<exists>data. guarded r = [(''ok'', PyBool True), (''data'', data)]) \<or> (\<exists>code message. guarded r = failed_with code message)"
  by (cases r rule: guarded.cases) (auto simp: failed_with_def)

text \<open>Every tool call is answered by an envelope, whatever its arguments and the state of the engine: either the data, or
  one of the six codes with a message; before the engine runs, and after it stopped, every tool answers
  not_running.\<close>

theorem every_call_has_envelope:
  "((\<exists>data. fst (call_tool dp ee clock t cp) = [(''ok'', PyBool True), (''data'', data)])
     \<or> (\<exists>code message. fst (call_tool dp ee clock t cp) = failed_with code message))
   \<and> (cp_started cp = Some False \<longrightarrow>
        call_tool dp ee clock t cp = (failed_with CAP_NOT_RUNNING ''core is not running'', cp))"
proof -
  have "\<exists>r. fst (call_tool dp ee clock t cp) = guarded r"
    by (cases t) (auto simp: answer_with_def split_beta)
  moreover have "call_tool dp ee clock t cp = (failed_with CAP_NOT_RUNNING ''core is not running'', cp)"
    if "cp_started cp = Some False"
    using that by (cases t) (simp_all add: answer_with_def get_market_state_def get_symbol_state_def get_active_signals_def
        get_signal_def get_feed_health_def get_recent_events_def require_started_def not_running_def failed_with_def)
  ultimately show ?thesis using guarded_shape by metis
qed

section \<open>Sample calls\<close>

definition seen_event :: "string \<Rightarrow> market_event" where
  "seen_event i =
     \<lparr>ev_id = i, ev_symbol = ''600519.SH'', ev_type = RAPID_MOVE, ev_direction = UP, ev_severity = 2,
      ev_market_timestamp = 100, ev_received_timestamp = 100, ev_detected_timestamp = 100, ev_metrics = [],
      ev_dedupe_key = i, ev_ttl_s = 60, ev_rule_name = ''rapid_move''\<rparr>"

theorem recent_events_window_witness:
  "\<exists>b. new_recent_events 2 = Inr b
     \<and> rv_events (fold observe_events
           [[sample_row\<lparr>sr_accepted_events := [seen_event ''a'', seen_event ''b'']\<rparr>],
            [sample_row\<lparr>sr_accepted_events := [seen_event ''c'']\<rparr>]] b)
       = map event_view_of [seen_event ''b'', seen_event ''c'']"
proof -
  have new: "new_recent_events 2 = Inr \<lparr>rv_maxlen = 2, rv_events = []\<rparr>" by (simp add: new_recent_events_def)
  show ?thesis
    using recent_events_window [OF new, of "[[sample_row\<lparr>sr_accepted_events := [seen_event ''a'', seen_event ''b'']\<rparr>],
        [sample_row\<lparr>sr_accepted_events := [seen_event ''c'']\<rparr>]]"]
    by (simp add: new last_n_def)
qed

definition sample_display :: display where
  "sample_display = \<lparr>dp_title = (\<lambda>_. ''title''), dp_summary = (\<lambda>_. ''summary'')\<rparr>"

definition sample_watched :: "(fake_provider, telemetry_event list) capabilities" where
  "sample_watched =
     new_capabilities
       (sample_engine\<lparr>en_states := [''600519.SH'' \<mapsto>
          \<lparr>st_symbol = ''600519.SH'', st_latest = None, st_level = HOT, st_feed_status = LIVE, st_feed_latency = None,
           st_last_update_age = None, st_features = None, st_active_signals = [sample_signal]\<rparr>]\<rparr>)
       None (Some True)"

theorem feed_health_repeats_tracker_witness:
  "\<exists>r. get_feed_health sample_clock sample_watched = Inr r
     \<and> map_sum id wm_feed_status (fst (get_market_state sample_display sample_engine_env sample_clock sample_watched))
       = Inr (feed_status_value (fr_aggregate_status r))"
proof -
  have "\<not> raises (get_feed_health sample_clock sample_watched)"
    by (simp add: sample_watched_def new_capabilities_def get_feed_health_def require_started_def Let_def)
  then obtain r where r: "get_feed_health sample_clock sample_watched = Inr r" unfolding not_raises_iff by blast
  have "\<forall>item \<in> set (wl_list (en_watchlist (cp_engine sample_watched))). wi_enabled item"
    by (simp add: sample_watched_def new_capabilities_def sample_engine_def wl_list_def)
  then show ?thesis using feed_health_repeats_tracker [OF r] r by blast
qed

theorem lookups_agree_with_whole_witness:
  "\<exists>found. get_signal sample_display (PyStr ''s1'') sample_watched = Inr found \<and> ws_id found = ''s1''"
proof -
  have wl: "wl_ok (en_watchlist (cp_engine sample_watched))"
    by (simp add: sample_watched_def new_capabilities_def sample_engine_def wl_ok_def dict_wf_def)
  have "\<not> raises (get_active_signals sample_display sample_watched)"
    by (simp add: sample_watched_def new_capabilities_def get_active_signals_def require_started_def)
  then obtain d where d: "get_active_signals sample_display sample_watched = Inr d" unfolding not_raises_iff by blast
  have "\<not> raises (fst (get_market_state sample_display sample_engine_env sample_clock sample_watched))"
    by (simp add: sample_watched_def new_capabilities_def get_market_state_def split_beta)
  then obtain w where w: "fst (get_market_state sample_display sample_engine_env sample_clock sample_watched) = Inr w"
    unfolding not_raises_iff by blast
  note agree = lookups_agree_with_whole [OF wl d w]
  have "\<not> raises (get_signal sample_display (PyStr ''s1'') sample_watched)" by code_simp
  then obtain found where "get_signal sample_display (PyStr ''s1'') sample_watched = Inr found" unfolding not_raises_iff by blast
  then show ?thesis using agree by blast
qed

theorem every_call_has_envelope_witness:
  "dict_get (fst (call_tool sample_display sample_engine_env sample_clock ToolFeedHealth
     (sample_watched\<lparr>cp_started := Some False\<rparr>))) ''ok'' = Some (PyBool False)"
  using every_call_has_envelope [of sample_display sample_engine_env sample_clock ToolFeedHealth
      "sample_watched\<lparr>cp_started := Some False\<rparr>"]
  by (simp add: failed_with_def error_envelope_def)

end
