(* ===== verification/Mcp.thy ===== *)
theory Mcp
  imports Capabilities
begin

text \<open>
  \<open>mcp_server/runtime.py\<close>: the process behind the tools. It resolves a list of symbols, owns one engine and its tick
  loop, and answers tool calls between two ticks, on the same event loop. Each start builds a new engine, with streams
  of identifiers of its own. What creating the provider gives is a parameter, and so is \<open>json.loads\<close>.
\<close>

section \<open>The list of symbols\<close>

text \<open>An exception of the start is the configuration error of this module, or escapes as it is.\<close>

datatype mcp_error = McpConfigError string | Escaped exc

definition PROVIDER_CHOICES :: "string list" where
  "PROVIDER_CHOICES = [''fake'', ''replay'', ''longbridge'']"

definition DEFAULT_FAKE_SYMBOLS :: "string list" where
  "DEFAULT_FAKE_SYMBOLS = [''600519.SH'', ''000001.SZ'', ''300750.SZ'']"

text \<open>A fixture as reading it as text gives it: no text at all (\<open>OSError\<close>, or bytes that are no text), or its lines.\<close>

datatype fixture_text = Unreadable | Lines "string list"

text \<open>What iterating a JSON value yields.\<close>

fun iterated :: "pyval \<Rightarrow> pyval list res" where
  "iterated (PyList xs) = Inr xs"
| "iterated (PyDict d) = Inr (map (\<lambda>(k, v). PyStr k) d)"
| "iterated (PyStr s) = Inr (map (\<lambda>c. PyStr [c]) s)"
| "iterated _ = Inl TypeError"

text \<open>\<open>quote["symbol"]\<close>: only a dictionary has string keys.\<close>

fun quote_symbol :: "pyval \<Rightarrow> pyval res" where
  "quote_symbol (PyDict d) = (case dict_get d ''symbol'' of None \<Rightarrow> Inl (KeyError ''symbol'') | Some v \<Rightarrow> Inr v)"
| "quote_symbol _ = Inl TypeError"

fun fixture_symbols :: "(pyval \<Rightarrow> string) \<Rightarrow> pyval list \<Rightarrow> string list \<Rightarrow> mcp_error + string list" where
  "fixture_symbols to_str [] seen = Inr seen"
| "fixture_symbols to_str (quote # quotes) seen =
     (case quote_symbol quote of
        Inl e \<Rightarrow> Inl (Escaped e)
      | Inr v \<Rightarrow>
          (let symbol = py_str to_str v
           in if \<not> is_valid_symbol symbol then Inl (McpConfigError (''fixture contains invalid symbol: '' @ symbol))
              else fixture_symbols to_str quotes (if symbol \<in> set seen then seen else seen @ [symbol])))"

definition replay_symbols ::
  "(string \<Rightarrow> pyval res) \<Rightarrow> (pyval \<Rightarrow> string) \<Rightarrow> fixture_text option \<Rightarrow> mcp_error + string list" where
  "replay_symbols loads to_str fixture =
     (case fixture of
        None \<Rightarrow> Inl (McpConfigError ''replay provider requires --replay <fixture path>'')
      | Some Unreadable \<Rightarrow> Inl (McpConfigError ''cannot read replay fixture'')
      | Some (Lines []) \<Rightarrow> Inl (Escaped IndexError)
      | Some (Lines (first # rest)) \<Rightarrow>
          (case loads first of
             Inl (ValueError m) \<Rightarrow> Inl (McpConfigError (''cannot read replay fixture: '' @ m))
           | Inl e \<Rightarrow> Inl (Escaped e)
           | Inr quotes \<Rightarrow>
               (case iterated quotes of
                  Inl e \<Rightarrow> Inl (Escaped e)
                | Inr items \<Rightarrow> fixture_symbols to_str items [])))"

definition provider_symbols ::
  "(string \<Rightarrow> pyval res) \<Rightarrow> (pyval \<Rightarrow> string) \<Rightarrow> string \<Rightarrow> fixture_text option \<Rightarrow> mcp_error + string list" where
  "provider_symbols loads to_str provider_name fixture =
     (if provider_name = ''replay'' then replay_symbols loads to_str fixture
      else if provider_name = ''fake'' then Inr DEFAULT_FAKE_SYMBOLS
      else Inl (McpConfigError (''provider '' @ provider_name @ '' requires an explicit watchlist (--symbols or --watchlist)'')))"

definition resolve_watchlist_symbols ::
  "(string \<Rightarrow> pyval res) \<Rightarrow> (pyval \<Rightarrow> string) \<Rightarrow> string \<Rightarrow> fixture_text option \<Rightarrow> string list \<Rightarrow> json_file option
    \<Rightarrow> mcp_error + string list" where
  "resolve_watchlist_symbols loads to_str provider_name fixture explicit watchlist_file =
     (if explicit \<noteq> [] then
        (case List.find (\<lambda>s. \<not> is_valid_symbol s) explicit of
           Some symbol \<Rightarrow> Inl (McpConfigError (''invalid symbol format: '' @ symbol))
         | None \<Rightarrow> Inr explicit)
      else case watchlist_file of
        None \<Rightarrow> provider_symbols loads to_str provider_name fixture
      | Some stored \<Rightarrow>
          if stored = Missing then provider_symbols loads to_str provider_name fixture
          else (case new_watchlist to_str True 10 True stored of
                  Inl e \<Rightarrow> Inl (Escaped e)
                | Inr w \<Rightarrow>
                    if wl_list w \<noteq> [] then Inr (map wi_symbol (wl_list w))
                    else provider_symbols loads to_str provider_name fixture))"

text \<open>\<open>cli/mcp.py\<close>: the option \<open>--symbols\<close>, split at the commas.\<close>

fun comma_parts :: "string \<Rightarrow> string list" where
  "comma_parts [] = [[]]"
| "comma_parts (c # cs) =
     (if c = CHR '','' then [] # comma_parts cs
      else (case comma_parts cs of [] \<Rightarrow> [[c]] | part # parts \<Rightarrow> (c # part) # parts))"

definition explicit_symbols :: "string option \<Rightarrow> string list" where
  "explicit_symbols raw =
     (case raw of None \<Rightarrow> [] | Some text \<Rightarrow> filter (\<lambda>s. s \<noteq> []) (map py_strip (comma_parts text)))"

section \<open>The runtime\<close>

record mcp_config =
  mc_provider_name :: string
  mc_fixture :: "fixture_text option"
  mc_symbols :: "string list"
  mc_live :: bool

text \<open>The checks of the constructor.\<close>

definition standalone_config :: "mcp_config \<Rightarrow> mcp_error + mcp_config" where
  "standalone_config mc =
     (if mc_provider_name mc \<notin> set PROVIDER_CHOICES
      then Inl (McpConfigError (''unknown provider '' @ mc_provider_name mc @ ''; choose from fake, replay, longbridge''))
      else if mc_provider_name mc = ''longbridge'' \<and> \<not> mc_live mc
      then Inl (McpConfigError ''longbridge is a live provider; pass --live to opt in explicitly'')
      else if mc_live mc \<and> mc_provider_name mc \<noteq> ''longbridge''
      then Inl (McpConfigError ''--live only applies to the longbridge provider'')
      else if mc_provider_name mc = ''replay'' \<and> mc_fixture mc = None
      then Inl (McpConfigError ''replay provider requires --replay <fixture path>'')
      else Inr mc)"

text \<open>The world of a runtime: for each start the streams and the provider it is given.\<close>

record ('p, 'c) mcp_env =
  me_loads :: "string \<Rightarrow> pyval res"
  me_to_str :: "pyval \<Rightarrow> string"
  me_display :: display
  me_policy :: scheduler_policy
  me_collector :: 'c
  me_engine :: "nat \<Rightarrow> ('p, 'c) engine_env"
  me_provider :: "nat \<Rightarrow> 'p res"

record ('p, 'c) standalone =
  sa_capabilities :: "('p, 'c) capabilities option"
  sa_telemetry :: bool
  sa_running :: bool
  sa_ticking :: bool
  sa_starts :: nat
  sa_run :: nat

definition new_standalone :: "('p, 'c) standalone" where
  "new_standalone =
     \<lparr>sa_capabilities = None, sa_telemetry = False, sa_running = False, sa_ticking = False, sa_starts = 0, sa_run = 0\<rparr>"

definition capabilities_of :: "('p, 'c) standalone \<Rightarrow> mcp_error + ('p, 'c) capabilities" where
  "capabilities_of s =
     (case sa_capabilities s of
        None \<Rightarrow> Inl (McpConfigError ''runtime not started'')
      | Some cp \<Rightarrow> Inr (cp\<lparr>cp_started := Some (sa_running s)\<rparr>))"

definition build_engine :: "('p, 'c) mcp_env \<Rightarrow> nat \<Rightarrow> watchlist \<Rightarrow> 'p \<Rightarrow> ('p, 'c) engine" where
  "build_engine me run w provider =
     \<lparr>en_watchlist = w, en_provider = provider, en_scheduler = new_scheduler (me_policy me),
      en_buffers = sb_new 3600 4096, en_states = Map.empty, en_health = new_health default_health_policy,
      en_pipeline = new_pipeline,
      en_telemetry = Some (new_runtime (env_telemetry_uuid (ee_env (me_engine me run))) None (me_collector me)),
      en_fetched = [],
      en_diagnostics = \<lparr>ed_out_of_order_count = 0, ed_duplicate_timestamp_count = 0, ed_recovery_count = 0,
        ed_last_fetch_error = None\<rparr>\<rparr>"

fun add_symbols :: "string list \<Rightarrow> watchlist \<Rightarrow> watchlist res" where
  "add_symbols [] w = Inr w"
| "add_symbols (symbol # symbols) w =
     res_bind (wl_add symbol (w, Missing)) (\<lambda>(item, w, file). add_symbols symbols w)"

text \<open>\<open>start\<close>: the outcome, and the runtime as it is then.\<close>

definition standalone_start ::
  "('p, 'c) mcp_env \<Rightarrow> mcp_config \<Rightarrow> ('p, 'c) standalone \<Rightarrow> (mcp_error + unit) \<times> ('p, 'c) standalone" where
  "standalone_start me mc s =
     (if sa_running s then (Inl (McpConfigError ''runtime already started''), s)
      else
        let run = sa_starts s; s = s\<lparr>sa_telemetry := True, sa_starts := Suc run\<rparr>
        in case me_provider me run of
             Inl (ValueError m) \<Rightarrow> (Inl (McpConfigError (''cannot create provider: '' @ m)), s)
           | Inl (ProviderError m) \<Rightarrow> (Inl (McpConfigError (''cannot create provider: '' @ m)), s)
           | Inl e \<Rightarrow> (Inl (Escaped e), s)
           | Inr provider \<Rightarrow>
               (case resolve_watchlist_symbols (me_loads me) (me_to_str me) (mc_provider_name mc) (mc_fixture mc)
                       (mc_symbols mc) None of
                  Inl e \<Rightarrow> (Inl e, s)
                | Inr symbols \<Rightarrow>
                    (case add_symbols symbols \<lparr>wl_path = False, wl_limit = 10, wl_persist = False, wl_items = []\<rparr> of
                       Inl e \<Rightarrow> (Inl (Escaped e), s)
                     | Inr w \<Rightarrow>
                         (Inr (), s\<lparr>sa_capabilities := Some (new_capabilities (build_engine me run w provider) None (Some True)),
                                    sa_running := True, sa_ticking := True, sa_run := run\<rparr>))))"

text \<open>\<open>stop\<close> cancels the loop and closes telemetry; the facade stays.\<close>

definition standalone_stop :: "('p, 'c) standalone \<Rightarrow> ('p, 'c) standalone" where
  "standalone_stop s = s\<lparr>sa_running := False, sa_ticking := False, sa_telemetry := False\<rparr>"

text \<open>A turn of the loop: the wait until the next one, and the runtime. The engine of the last start is the one ticking.\<close>

definition standalone_tick ::
  "('p, 'c) mcp_env \<Rightarrow> fake_clock \<Rightarrow> ('p, 'c) standalone \<Rightarrow> ((flt \<times> ('p, 'c) standalone) option) res" where
  "standalone_tick me clock s =
     (if \<not> sa_ticking s then Inr None
      else case sa_capabilities s of
        None \<Rightarrow> Inl AttributeError
      | Some cp \<Rightarrow>
          res_bind (engine_tick (me_engine me (sa_run s)) clock (cp_engine cp)) (\<lambda>(result, eng).
            let cp = capabilities_observe_tick result (cp\<lparr>cp_engine := eng\<rparr>)
            in Inr (Some (next_wait_s (en_scheduler eng) clock (enabled_symbols (en_watchlist eng)),
                 s\<lparr>sa_capabilities := Some cp\<rparr>))))"

definition standalone_call ::
  "('p, 'c) mcp_env \<Rightarrow> fake_clock \<Rightarrow> tool_call \<Rightarrow> ('p, 'c) standalone \<Rightarrow> (mcp_error + payload) \<times> ('p, 'c) standalone" where
  "standalone_call me clock t s =
     (case capabilities_of s of
        Inl e \<Rightarrow> (Inl e, s)
      | Inr cp \<Rightarrow>
          (case call_tool (me_display me) (me_engine me (sa_run s)) clock t cp of
             (envelope, cp) \<Rightarrow> (Inr envelope, s\<lparr>sa_capabilities := Some cp\<rparr>)))"

section \<open>Interleavings\<close>

inductive standalone_step ::
  "('p, 'c) mcp_env \<Rightarrow> ('p, 'c) standalone \<Rightarrow> ('p, 'c) standalone \<Rightarrow> bool" for me where
  starts: "standalone_start me mc s = (outcome, s') \<Longrightarrow> standalone_step me s s'"
| ticks: "standalone_tick me clock s = Inr (Some (wait, s')) \<Longrightarrow> standalone_step me s s'"
| calls: "standalone_call me clock t s = (answer, s') \<Longrightarrow> standalone_step me s s'"
| stops: "standalone_step me s (standalone_stop s)"

inductive standalone_run :: "('p, 'c) mcp_env \<Rightarrow> ('p, 'c) standalone \<Rightarrow> bool" for me where
  fresh: "standalone_run me new_standalone"
| after: "standalone_run me s \<Longrightarrow> standalone_step me s s' \<Longrightarrow> standalone_run me s'"

section \<open>Resolving\<close>

lemma fixture_symbols_valid:
  assumes "fixture_symbols to_str quotes seen = Inr symbols" "\<forall>s \<in> set seen. is_valid_symbol s" "distinct seen"
  shows "(\<forall>s \<in> set symbols. is_valid_symbol s) \<and> distinct symbols"
  using assms
proof (induction quotes arbitrary: seen)
  case (Cons quote quotes)
  obtain v where v: "quote_symbol quote = Inr v" using Cons.prems(1) by (cases "quote_symbol quote") simp_all
  let ?s = "py_str to_str v"
  have valid: "is_valid_symbol ?s" using Cons.prems(1) v by (simp add: Let_def split: if_splits)
  then have "fixture_symbols to_str quotes (if ?s \<in> set seen then seen else seen @ [?s]) = Inr symbols"
    using Cons.prems(1) v by (simp add: Let_def)
  from Cons.IH [OF this] show ?case using Cons.prems(2,3) valid by (cases "?s \<in> set seen") simp_all
qed simp

lemma default_symbols_valid: "\<forall>s \<in> set DEFAULT_FAKE_SYMBOLS. is_valid_symbol s"
proof -
  have "list_all is_valid_symbol DEFAULT_FAKE_SYMBOLS" by code_simp
  then show ?thesis by (simp add: list_all_iff)
qed

lemma replay_symbols_valid:
  assumes "replay_symbols loads to_str fixture = Inr symbols"
  shows "\<forall>s \<in> set symbols. is_valid_symbol s"
proof -
  obtain ls where ls: "fixture = Some (Lines ls)"
  proof (cases fixture)
    case (Some content)
    then show ?thesis using that assms by (cases content) (simp_all add: replay_symbols_def)
  qed (use assms in \<open>simp add: replay_symbols_def\<close>)
  obtain first rest where fixture: "fixture = Some (Lines (first # rest))"
    using assms ls by (cases ls) (simp_all add: replay_symbols_def)
  obtain quotes where quotes: "loads first = Inr quotes"
  proof (cases "loads first")
    case (Inl e)
    then show ?thesis using assms by (cases e) (simp_all add: replay_symbols_def fixture)
  qed (use that in blast)
  obtain items where "iterated quotes = Inr items"
    using assms by (cases "iterated quotes") (simp_all add: replay_symbols_def fixture quotes)
  then have "fixture_symbols to_str items [] = Inr symbols" using assms by (simp add: replay_symbols_def fixture quotes)
  from fixture_symbols_valid [OF this] show ?thesis by simp
qed

lemma resolved_valid:
  assumes "resolve_watchlist_symbols loads to_str provider_name fixture explicit None = Inr symbols"
  shows "\<forall>s \<in> set symbols. is_valid_symbol s"
proof (cases "explicit = []")
  case True
  then show ?thesis
    using assms default_symbols_valid replay_symbols_valid
    by (auto simp: resolve_watchlist_symbols_def provider_symbols_def split: if_splits)
next
  case False
  then have "List.find (\<lambda>s. \<not> is_valid_symbol s) explicit = None" "symbols = explicit"
    using assms by (cases "List.find (\<lambda>s. \<not> is_valid_symbol s) explicit"; simp add: resolve_watchlist_symbols_def)+
  then show ?thesis by (auto simp: find_None_iff)
qed

section \<open>The list of a start\<close>

text \<open>The list that a start has built: it holds the symbols, enabled, once each, and is not on disk.\<close>

definition list_of :: "string list \<Rightarrow> watchlist \<Rightarrow> bool" where
  "list_of symbols w \<longleftrightarrow>
     wl_ok w \<and> wl_limit w = 10 \<and> \<not> wl_persist w \<and> (\<forall>item \<in> set (wl_list w). wi_enabled item)
     \<and> map wi_symbol (wl_list w) = symbols"

lemma add_symbols_list:
  assumes "list_of seen w" "add_symbols symbols w = Inr w'"
  shows "list_of (fold (\<lambda>s seen. if s \<in> set seen then seen else seen @ [s]) symbols seen) w'"
  using assms
proof (induction symbols arbitrary: seen w)
  case (Cons symbol symbols)
  have keys: "map fst (wl_items w) = seen"
    using Cons.prems(1) by (force simp: list_of_def wl_ok_def wl_list_def)
  obtain item w1 stored where add: "wl_add symbol (w, Missing) = Inr (item, w1, stored)" "add_symbols symbols w1 = Inr w'"
    using Cons.prems(2) by (auto simp: res_simps)
  have "list_of (if symbol \<in> set seen then seen else seen @ [symbol]) w1"
  proof (cases "dict_get (wl_items w) symbol")
    case None
    then have new: "symbol \<notin> set seen" by (simp add: map_of_eq_None_iff flip: keys)
    let ?item = "\<lparr>wi_symbol = symbol, wi_enabled = True\<rparr>"
    have room: "int (length (wl_items w)) < wl_limit w"
    proof (rule ccontr)
      assume "\<not> int (length (wl_items w)) < wl_limit w"
      then show False using add(1) None by (simp add: wl_add_def)
    qed
    have "\<not> wl_persist w" using Cons.prems(1) by (simp add: list_of_def)
    then have "w1 = w\<lparr>wl_items := wl_items w @ [(symbol, ?item)]\<rparr>"
      using add(1) None room by (auto simp: wl_add_def Let_def wl_save_def dict_set_new)
    then show ?thesis
      using Cons.prems(1) new keys room by (auto simp: list_of_def wl_ok_def dict_wf_def wl_list_def)
  next
    case (Some existing)
    then have "symbol \<in> set seen" using keys by (metis map_of_SomeD fst_conv image_eqI set_map)
    then show ?thesis using add(1) Some Cons.prems(1) by (simp add: wl_add_def)
  qed
  then show ?case using Cons.IH [OF _ add(2)] by simp
qed simp

section \<open>A session\<close>

definition mcp_env_ok :: "('p, 'c) mcp_env \<Rightarrow> bool" where
  "mcp_env_ok me \<longleftrightarrow>
     (\<forall>run. inj (env_uuid (ee_env (me_engine me run))) \<and> counts_up (env_rules (ee_env (me_engine me run))))"

text \<open>What holds of a facade that runs over the list: the engine's invariant, the list, and the bounded events.\<close>

definition serves :: "('p, 'c) mcp_env \<Rightarrow> nat \<Rightarrow> string list \<Rightarrow> ('p, 'c) capabilities \<Rightarrow> bool" where
  "serves me run symbols cp \<longleftrightarrow>
     engine_ok (env_uuid (ee_env (me_engine me run))) (cp_engine cp)
     \<and> list_of symbols (en_watchlist (cp_engine cp)) \<and> (\<forall>s \<in> set symbols. is_valid_symbol s)
     \<and> cp_intelligence cp = None
     \<and> rv_maxlen (cp_events cp) = 200 \<and> length (rv_events (cp_events cp)) \<le> 200"

definition session_ok :: "('p, 'c) mcp_env \<Rightarrow> ('p, 'c) standalone \<Rightarrow> bool" where
  "session_ok me s \<longleftrightarrow>
     sa_ticking s = sa_running s
     \<and> (sa_running s \<longrightarrow> sa_capabilities s \<noteq> None)
     \<and> (\<forall>cp. sa_capabilities s = Some cp \<longrightarrow> (\<exists>symbols. serves me (sa_run s) symbols cp))"

lemma new_engine_ok:
  assumes "inj (env_uuid (ee_env (me_engine me run)))"
  shows "engine_ok (env_uuid (ee_env (me_engine me run))) (build_engine me run w provider)"
  by (simp add: build_engine_def engine_ok_def sb_inv_def sb_new_def latest_agree_def sb_latest_def pl_inv_def co_inv_new
      new_pipeline_def)

lemma deque_bounded:
  assumes "length (rv_events b) \<le> rv_maxlen b" "0 < rv_maxlen b"
  shows "rv_maxlen (fold deque_append vs b) = rv_maxlen b \<and> length (rv_events (fold deque_append vs b)) \<le> rv_maxlen b"
  using append_all_window [of b "rv_events b" vs] assms by (simp add: last_n_def)

definition without_repeats :: "string list \<Rightarrow> string list" where
  "without_repeats symbols = fold (\<lambda>s seen. if s \<in> set seen then seen else seen @ [s]) symbols []"

lemma set_without_repeats: "set (without_repeats symbols) = set symbols"
proof -
  have "set (fold (\<lambda>s seen. if s \<in> set seen then seen else seen @ [s]) symbols seen) = set seen \<union> set symbols" for seen
    by (induction symbols arbitrary: seen) auto
  then show ?thesis by (simp add: without_repeats_def)
qed

lemma empty_list_of: "list_of [] \<lparr>wl_path = False, wl_limit = 10, wl_persist = False, wl_items = []\<rparr>"
  by (simp add: list_of_def wl_ok_def dict_wf_def wl_list_def)

lemma start_cases:
  assumes "standalone_start me mc s = (outcome, s')" "\<not> sa_running s"
  shows "(\<exists>e. outcome = Inl e \<and> s' = s\<lparr>sa_telemetry := True, sa_starts := Suc (sa_starts s)\<rparr>)
    \<or> (\<exists>provider symbols w. outcome = Inr () \<and> me_provider me (sa_starts s) = Inr provider
        \<and> resolve_watchlist_symbols (me_loads me) (me_to_str me) (mc_provider_name mc) (mc_fixture mc) (mc_symbols mc) None = Inr symbols
        \<and> list_of (without_repeats symbols) w
        \<and> s' = s\<lparr>sa_telemetry := True, sa_starts := Suc (sa_starts s),
            sa_capabilities := Some (new_capabilities (build_engine me (sa_starts s) w provider) None (Some True)),
            sa_running := True, sa_ticking := True, sa_run := sa_starts s\<rparr>)"
proof (cases "me_provider me (sa_starts s)")
  case (Inl e)
  then show ?thesis using assms by (cases e) (auto simp: standalone_start_def Let_def)
next
  case provider: (Inr provider)
  show ?thesis
  proof (cases "resolve_watchlist_symbols (me_loads me) (me_to_str me) (mc_provider_name mc) (mc_fixture mc) (mc_symbols mc) None")
    case (Inl e)
    then show ?thesis using assms provider by (auto simp: standalone_start_def Let_def)
  next
    case symbols: (Inr symbols)
    show ?thesis
    proof (cases "add_symbols symbols \<lparr>wl_path = False, wl_limit = 10, wl_persist = False, wl_items = []\<rparr>")
      case (Inl e)
      then show ?thesis using assms provider symbols by (auto simp: standalone_start_def Let_def)
    next
      case (Inr w)
      have "list_of (without_repeats symbols) w"
        using add_symbols_list [OF empty_list_of Inr] by (simp add: without_repeats_def)
      then show ?thesis using assms provider symbols Inr by (auto simp: standalone_start_def Let_def)
    qed
  qed
qed

lemma started_serves:
  assumes "mcp_env_ok me" "list_of symbols w" "\<forall>s \<in> set symbols. is_valid_symbol s"
  shows "serves me run symbols (new_capabilities (build_engine me run w provider) None (Some True))"
  using assms new_engine_ok [of me run w provider]
  by (simp add: serves_def new_capabilities_def mcp_env_ok_def) (simp add: build_engine_def)

lemma tick_serves:
  assumes "mcp_env_ok me" "serves me (sa_run s) symbols cp" "sa_capabilities s = Some cp" "sa_ticking s"
  shows "\<exists>wait cp'. standalone_tick me clock s = Inr (Some (wait, s\<lparr>sa_capabilities := Some cp'\<rparr>)) \<and> serves me (sa_run s) symbols cp'"
proof -
  let ?ee = "me_engine me (sa_run s)"
  have env: "inj (env_uuid (ee_env ?ee))" "counts_up (env_rules (ee_env ?ee))" using assms(1) by (simp_all add: mcp_env_ok_def)
  have "engine_ok (env_uuid (ee_env ?ee)) (cp_engine cp)" using assms(2) by (simp add: serves_def)
  from engine_tick_run [OF this env, of clock] obtain result eng where run: "engine_tick ?ee clock (cp_engine cp) = Inr (result, eng)"
    "engine_ok (env_uuid (ee_env ?ee)) eng" "en_watchlist eng = en_watchlist (cp_engine cp)" by blast
  have events: "rv_maxlen (cp_events cp) = 200" "length (rv_events (cp_events cp)) \<le> 200" using assms(2) by (simp_all add: serves_def)
  have "rv_maxlen (observe_events result (cp_events cp)) = 200 \<and> length (rv_events (observe_events result (cp_events cp))) \<le> 200"
    using deque_bounded [of "cp_events cp"] events by (simp add: observe_events_fold)
  then have "serves me (sa_run s) symbols (capabilities_observe_tick result (cp\<lparr>cp_engine := eng\<rparr>))"
    using assms(2) run(2,3) by (simp add: serves_def capabilities_observe_tick_def)
  then show ?thesis using assms(3,4) by (auto simp: standalone_tick_def run(1) Let_def)
qed

lemma call_serves:
  assumes "serves me run symbols cp"
  shows "serves me run symbols (snd (call_tool dp ee clock t (cp\<lparr>cp_started := started\<rparr>)))"
proof -
  obtain h where h: "snd (call_tool dp ee clock t (cp\<lparr>cp_started := started\<rparr>)) = reread h (cp\<lparr>cp_started := started\<rparr>)"
    using call_reads by blast
  then show ?thesis using assms by (simp add: serves_def reread_def engine_ok_def latest_agree_def)
qed

lemma session_step:
  assumes "mcp_env_ok me" "standalone_step me s s'" "session_ok me s"
  shows "session_ok me s'"
  using assms(2)
proof cases
  case (starts mc outcome)
  show ?thesis
  proof (cases "sa_running s")
    case True
    then show ?thesis using starts assms(3) by (simp add: standalone_start_def)
  next
    case False
    from start_cases [OF starts False] show ?thesis
    proof (elim disjE exE conjE)
      fix e assume "s' = s\<lparr>sa_telemetry := True, sa_starts := Suc (sa_starts s)\<rparr>"
      then show ?thesis using assms(3) False by (simp add: session_ok_def)
    next
      fix provider symbols w
      assume symbols: "resolve_watchlist_symbols (me_loads me) (me_to_str me) (mc_provider_name mc) (mc_fixture mc) (mc_symbols mc) None = Inr symbols"
        "list_of (without_repeats symbols) w"
        and s': "s' = s\<lparr>sa_telemetry := True, sa_starts := Suc (sa_starts s),
            sa_capabilities := Some (new_capabilities (build_engine me (sa_starts s) w provider) None (Some True)),
            sa_running := True, sa_ticking := True, sa_run := sa_starts s\<rparr>"
      have "\<forall>x \<in> set (without_repeats symbols). is_valid_symbol x"
        using resolved_valid [OF symbols(1)] by (simp add: set_without_repeats)
      from started_serves [OF assms(1) symbols(2) this] show ?thesis by (auto simp: session_ok_def s')
    qed
  qed
next
  case (ticks clock wait)
  have ticking: "sa_ticking s" using ticks by (auto simp: standalone_tick_def split: if_splits)
  then obtain cp symbols where "sa_capabilities s = Some cp" "serves me (sa_run s) symbols cp"
    using assms(3) by (auto simp: session_ok_def)
  from tick_serves [OF assms(1) this(2,1) ticking, of clock] show ?thesis
    using ticks assms(3) by (auto simp: session_ok_def)
next
  case (calls clock t answer)
  show ?thesis
  proof (cases "sa_capabilities s")
    case None
    then show ?thesis using calls assms(3) by (simp add: standalone_call_def capabilities_of_def)
  next
    case (Some cp)
    then obtain symbols where "serves me (sa_run s) symbols cp" using assms(3) by (auto simp: session_ok_def)
    note kept = call_serves [OF this, of "me_display me" "me_engine me (sa_run s)" clock t "Some (sa_running s)"]
    have "s' = s\<lparr>sa_capabilities := Some (snd (call_tool (me_display me) (me_engine me (sa_run s)) clock t
        (cp\<lparr>cp_started := Some (sa_running s)\<rparr>)))\<rparr>"
      using calls Some by (auto simp: standalone_call_def capabilities_of_def split_beta)
    then show ?thesis using kept assms(3) by (auto simp: session_ok_def)
  qed
next
  case stops
  then show ?thesis using assms(3) by (simp add: session_ok_def standalone_stop_def)
qed

lemma session_run: "standalone_run me s \<Longrightarrow> mcp_env_ok me \<Longrightarrow> session_ok me s"
proof (induction rule: standalone_run.induct)
  case fresh
  then show ?case by (simp add: session_ok_def new_standalone_def)
next
  case (after s s')
  then show ?case using session_step by blast
qed

section \<open>Properties\<close>

text \<open>C33: Starting builds the whole or nothing. A start that succeeds runs over a list that holds the resolved symbols in
  their order, once each, all enabled and at most ten of them, with nothing observed yet; a start that fails, for whatever
  reason, leaves the runtime stopped with the facade it had, and a running runtime refuses to start again.\<close>

theorem start_builds_or_refuses:
  assumes "standalone_start me mc s = (outcome, s')"
  shows "(sa_running s \<longrightarrow> s' = s \<and> outcome = Inl (McpConfigError ''runtime already started''))
    \<and> (\<forall>e. \<not> sa_running s \<and> outcome = Inl e \<longrightarrow> \<not> sa_running s' \<and> sa_capabilities s' = sa_capabilities s)
    \<and> (outcome = Inr () \<longrightarrow> sa_running s' \<and> sa_ticking s' \<and> (\<exists>symbols cp.
         resolve_watchlist_symbols (me_loads me) (me_to_str me) (mc_provider_name mc) (mc_fixture mc) (mc_symbols mc) None = Inr symbols
         \<and> sa_capabilities s' = Some cp
         \<and> map wi_symbol (wl_list (en_watchlist (cp_engine cp))) = without_repeats symbols
         \<and> length (without_repeats symbols) \<le> 10
         \<and> enabled_symbols (en_watchlist (cp_engine cp)) = without_repeats symbols
         \<and> en_states (cp_engine cp) = Map.empty \<and> rv_events (cp_events cp) = []))"
proof (cases "sa_running s")
  case True
  then show ?thesis using assms by (auto simp: standalone_start_def)
next
  case False
  from start_cases [OF assms False] show ?thesis
  proof (elim disjE exE conjE)
    fix e assume "outcome = Inl e" "s' = s\<lparr>sa_telemetry := True, sa_starts := Suc (sa_starts s)\<rparr>"
    then show ?thesis using False by simp
  next
    fix provider symbols w
    assume symbols: "resolve_watchlist_symbols (me_loads me) (me_to_str me) (mc_provider_name mc) (mc_fixture mc) (mc_symbols mc) None = Inr symbols"
      "list_of (without_repeats symbols) w"
      and s': "outcome = Inr ()" "s' = s\<lparr>sa_telemetry := True, sa_starts := Suc (sa_starts s),
          sa_capabilities := Some (new_capabilities (build_engine me (sa_starts s) w provider) None (Some True)),
          sa_running := True, sa_ticking := True, sa_run := sa_starts s\<rparr>"
    have "map wi_symbol (wl_list w) = without_repeats symbols" "enabled_symbols w = map wi_symbol (wl_list w)"
      using symbols(2) enabled_all [of w] by (simp_all add: list_of_def)
    moreover have "length (wl_list w) \<le> 10" using symbols(2) by (simp add: list_of_def wl_ok_def wl_list_def)
    then have "length (without_repeats symbols) \<le> 10" using calculation(1) by (metis length_map)
    ultimately show ?thesis using False symbols(1) by (simp add: s' new_capabilities_def build_engine_def)
  qed
qed

text \<open>C32: Whatever the host does and whenever the loop turns, the session stays sound: the loop runs exactly while the
  runtime does and no turn of it raises; the recent events stay within two hundred; while it runs, each of the listed
  symbols is valid, so that asking for its state is answered; and before it runs and once it is stopped, no tool shows anything but
  that.\<close>

theorem mcp_session_safe:
  assumes "mcp_env_ok me" "standalone_run me s"
  shows "sa_ticking s = sa_running s
    \<and> (\<forall>clock. \<not> raises (standalone_tick me clock s))
    \<and> (sa_running s \<longrightarrow> (\<exists>cp. capabilities_of s = Inr cp \<and> length (rv_events (cp_events cp)) \<le> 200
         \<and> (\<forall>symbol \<in> set (map wi_symbol (wl_list (en_watchlist (cp_engine cp)))).
              \<not> raises (get_symbol_state (me_display me) (PyStr symbol) cp))))
    \<and> (\<not> sa_running s \<longrightarrow> (\<forall>clock t. fst (standalone_call me clock t s) \<in>
         {Inl (McpConfigError ''runtime not started''), Inr (failed_with CAP_NOT_RUNNING ''core is not running'')}))"
proof -
  have ok: "session_ok me s" using session_run assms by blast
  have tick: "\<not> raises (standalone_tick me clock s)" for clock
  proof (cases "sa_ticking s")
    case True
    then obtain cp symbols where "sa_capabilities s = Some cp" "serves me (sa_run s) symbols cp"
      using ok by (auto simp: session_ok_def)
    from tick_serves [OF assms(1) this(2,1) True, of clock] show ?thesis by auto
  qed (simp add: standalone_tick_def)
  have served: "\<exists>cp. capabilities_of s = Inr cp \<and> length (rv_events (cp_events cp)) \<le> 200
      \<and> (\<forall>symbol \<in> set (map wi_symbol (wl_list (en_watchlist (cp_engine cp)))).
           \<not> raises (get_symbol_state (me_display me) (PyStr symbol) cp))" if running: "sa_running s"
  proof -
    obtain cp symbols where cp: "sa_capabilities s = Some cp" "serves me (sa_run s) symbols cp"
      using ok running by (auto simp: session_ok_def)
    let ?cp = "cp\<lparr>cp_started := Some True\<rparr>"
    have "\<not> raises (get_symbol_state (me_display me) (PyStr symbol) ?cp)"
      if "symbol \<in> set (map wi_symbol (wl_list (en_watchlist (cp_engine cp))))" for symbol
      using that cp(2) by (auto simp: get_symbol_state_def require_started_def ensure_known_symbol_def serves_def list_of_def)
    then show ?thesis using cp running by (simp add: capabilities_of_def serves_def)
  qed
  have "fst (standalone_call me clock t s) \<in>
      {Inl (McpConfigError ''runtime not started''), Inr (failed_with CAP_NOT_RUNNING ''core is not running'')}"
    if "\<not> sa_running s" for clock t
    using every_call_has_envelope [of "me_display me" "me_engine me (sa_run s)" clock t] that
    by (auto simp: standalone_call_def capabilities_of_def split: option.split)
  then show ?thesis using ok tick served unfolding session_ok_def by blast
qed

section \<open>Samples\<close>

definition sample_mcp :: "(fake_provider, telemetry_event list) mcp_env" where
  "sample_mcp =
     \<lparr>me_loads = (\<lambda>_. Inl (ValueError ''Expecting value'')), me_to_str = (\<lambda>_. []), me_display = sample_display,
      me_policy = default_scheduler_policy, me_collector = [], me_engine = (\<lambda>_. sample_engine_env),
      me_provider = (\<lambda>_. Inr new_fake_provider)\<rparr>"

definition sample_mcp_config :: mcp_config where
  "sample_mcp_config = \<lparr>mc_provider_name = ''fake'', mc_fixture = None, mc_symbols = [], mc_live = False\<rparr>"

theorem start_builds_or_refuses_witness:
  "\<exists>s'. standalone_start sample_mcp sample_mcp_config new_standalone = (Inr (), s') \<and> sa_running s'
     \<and> (\<exists>cp. sa_capabilities s' = Some cp \<and> map wi_symbol (wl_list (en_watchlist (cp_engine cp))) = DEFAULT_FAKE_SYMBOLS)"
proof -
  obtain outcome s' where start: "standalone_start sample_mcp sample_mcp_config new_standalone = (outcome, s')"
    by (rule prod.exhaust)
  have "\<not> raises (fst (standalone_start sample_mcp sample_mcp_config new_standalone))" by code_simp
  then have outcome: "outcome = Inr ()" by (cases outcome) (simp_all add: start)
  have symbols: "resolve_watchlist_symbols (me_loads sample_mcp) (me_to_str sample_mcp) (mc_provider_name sample_mcp_config)
      (mc_fixture sample_mcp_config) (mc_symbols sample_mcp_config) None = Inr DEFAULT_FAKE_SYMBOLS"
    by (simp add: resolve_watchlist_symbols_def provider_symbols_def sample_mcp_config_def)
  have "without_repeats DEFAULT_FAKE_SYMBOLS = DEFAULT_FAKE_SYMBOLS" by code_simp
  then show ?thesis using start_builds_or_refuses [OF start] start outcome symbols by auto
qed

theorem mcp_session_safe_witness:
  "\<exists>s. standalone_run sample_mcp s \<and> sa_running s \<and> (\<exists>cp. capabilities_of s = Inr cp)
     \<and> fst (standalone_call sample_mcp sample_clock ToolActiveSignals (standalone_stop s))
       \<in> {Inl (McpConfigError ''runtime not started''), Inr (failed_with CAP_NOT_RUNNING ''core is not running'')}"
proof -
  let ?s = "snd (standalone_start sample_mcp sample_mcp_config new_standalone)"
  have env: "mcp_env_ok sample_mcp" using sample_env_ok by (simp add: mcp_env_ok_def sample_mcp_def)
  have run: "standalone_run sample_mcp ?s"
    by (rule after [OF fresh starts]) (rule prod.collapse [symmetric])
  then have stopped: "standalone_run sample_mcp (standalone_stop ?s)" by (rule after [OF _ stops])
  have running: "sa_running ?s" by code_simp
  have "\<not> sa_running (standalone_stop ?s)" by (simp add: standalone_stop_def)
  then show ?thesis
    using mcp_session_safe [OF env run] mcp_session_safe [OF env stopped] run running by blast
qed

end
