(* ===== verification/Redaction.thy ===== *)
theory Redaction
  imports Prelude "HOL-Library.Sublist"
begin

text \<open>
  \<open>str.replace\<close> and what it gives two of the adapters: before a message is shown or logged, every known secret in it is
  replaced by a marker. The locale states the contract once for both markers.
\<close>

section \<open>Replacing\<close>

text \<open>\<open>text.replace(old, new)\<close> for an \<open>old\<close> that is not empty: from the left, without overlaps.\<close>

function replace_all :: "string \<Rightarrow> string \<Rightarrow> string \<Rightarrow> string" where
  "replace_all old new body =
     (if old = [] \<or> body = [] then body
      else if prefix old body then new @ replace_all old new (drop (length old) body)
      else hd body # replace_all old new (tl body))"
  by pat_completeness auto
termination
  by (relation "measure (\<lambda>(old, new, body). length body)") (auto simp: prefix_def)

declare replace_all.simps [simp del]

lemma replace_all_Nil [simp]: "replace_all old new [] = []"
  by (subst replace_all.simps) simp

lemma replace_all_hit:
  "old \<noteq> [] \<Longrightarrow> prefix old body \<Longrightarrow> replace_all old new body = new @ replace_all old new (drop (length old) body)"
  by (subst replace_all.simps) auto

lemma replace_all_miss:
  "\<not> prefix old (c # cs) \<Longrightarrow> replace_all old new (c # cs) = c # replace_all old new cs"
  by (subst replace_all.simps) auto

section \<open>What is left in the text\<close>

lemma sublist_around:
  assumes "sublist p (xs @ c # ys)" "c \<notin> set p"
  shows "sublist p xs \<or> sublist p ys"
proof -
  have first: "q = []" if "prefix q (c # ys)" "c \<notin> set q" for q
    using that by (cases q) auto
  consider "sublist p xs" | "sublist p (c # ys)" | p1 p2 where "p = p1 @ p2" "suffix p1 xs" "prefix p2 (c # ys)"
    using assms(1) unfolding sublist_append by blast
  then show ?thesis
  proof cases
    case 2
    then show ?thesis using first [of p] assms(2) by (auto simp: sublist_Cons_right)
  next
    case 3
    then have "p2 = []" using first [of p2] assms(2) by simp
    then show ?thesis using 3 by (simp add: suffix_imp_sublist)
  qed simp
qed

lemma prefix_replaced:
  assumes "prefix p (replace_all old (a # new) body)" "a \<notin> set p"
  shows "prefix p body"
  using assms
proof (induction body arbitrary: p)
  case (Cons c cs)
  show ?case
  proof (cases "old \<noteq> [] \<and> prefix old (c # cs)")
    case True
    then show ?thesis using Cons.prems replace_all_hit [of old "c # cs"] by (cases p) auto
  next
    case False
    show ?thesis
    proof (cases "old = []")
      case True
      then show ?thesis using Cons.prems by (simp add: replace_all.simps [of "[]"])
    next
      case old: False
      then show ?thesis
        using Cons False replace_all_miss [of old c cs] by (cases p) auto
    qed
  qed
qed simp

text \<open>A text that a marker cannot take part in: it avoids both of its ends and is no part of it.\<close>

definition apart :: "string \<Rightarrow> string \<Rightarrow> bool" where
  "apart marker p \<longleftrightarrow> p \<noteq> [] \<and> marker \<noteq> [] \<and> hd marker \<notin> set p \<and> last marker \<notin> set p \<and> \<not> sublist p marker"

lemma sublist_marked:
  assumes "sublist p (marker @ xs)" "apart marker p"
  shows "sublist p xs"
proof -
  have marker: "marker @ xs = butlast marker @ last marker # xs" using assms(2) by (simp add: apart_def)
  have "\<not> sublist p (butlast marker)"
    using assms(2) unfolding apart_def
    by (metis append_butlast_last_id sublist_append_rightI sublist_order.order.trans)
  then show ?thesis using sublist_around [of p "butlast marker" "last marker" xs] assms by (simp add: marker apart_def)
qed

lemma sublist_Cons_cases: "sublist p (c # cs) \<Longrightarrow> prefix p (c # cs) \<or> sublist p cs"
  by (simp add: sublist_Cons_right)

lemma replaced_back:
  assumes "sublist p (replace_all old marker body)" "apart marker p"
  shows "sublist p body"
  using assms
proof (induction old marker body rule: replace_all.induct)
  case (1 old marker body)
  show ?case
  proof (cases "old = [] \<or> body = []")
    case True
    then show ?thesis using 1(3) by (simp add: replace_all.simps [of old])
  next
    case some: False
    then obtain c cs where body: "body = c # cs" by (cases body) auto
    show ?thesis
    proof (cases "prefix old body")
      case True
      then have "sublist p (marker @ replace_all old marker (drop (length old) body))"
        using 1(3) some by (simp add: replace_all_hit)
      then have "sublist p (replace_all old marker (drop (length old) body))" by (rule sublist_marked [OF _ 1(4)])
      then have "sublist p (drop (length old) body)" using 1(1) some True 1(4) by blast
      moreover have "sublist (drop (length old) body) body" by (rule suffix_imp_sublist [OF suffix_drop])
      ultimately show ?thesis by (rule sublist_order.order.trans)
    next
      case False
      then have eq: "replace_all old marker body = c # replace_all old marker cs" by (simp add: body replace_all_miss)
      then consider "prefix p (replace_all old marker body)" | "sublist p (replace_all old marker cs)"
        using 1(3) sublist_Cons_cases [of p c "replace_all old marker cs"] by auto
      then show ?thesis
      proof cases
        case 1
        have "marker = hd marker # tl marker" "hd marker \<notin> set p" using \<open>apart marker p\<close> by (simp_all add: apart_def)
        then have "prefix p body" using prefix_replaced [of p old "hd marker" "tl marker" body] 1 by simp
        then show ?thesis by (rule prefix_imp_sublist)
      next
        case 2
        then have "sublist p cs" using 1(2) some False \<open>apart marker p\<close> by (simp add: body)
        then show ?thesis by (simp add: body sublist_Cons_right)
      qed
    qed
  qed
qed

lemma replaced_gone:
  assumes "apart marker old"
  shows "\<not> sublist old (replace_all old marker body)"
  using assms
proof (induction old marker body rule: replace_all.induct)
  case (1 old marker body)
  have old: "old \<noteq> []" using 1(3) by (simp add: apart_def)
  show ?case
  proof (cases body)
    case Nil
    then show ?thesis using old by simp
  next
    case body: (Cons c cs)
    show ?thesis
    proof (cases "prefix old body")
      case True
      have "\<not> sublist old (replace_all old marker (drop (length old) body))" using 1(1) old True 1(3) body by simp
      then show ?thesis using sublist_marked [OF _ 1(3)] old True by (auto simp: replace_all_hit)
    next
      case False
      then have eq: "replace_all old marker body = c # replace_all old marker cs" by (simp add: body replace_all_miss)
      have "marker = hd marker # tl marker" "hd marker \<notin> set old" using 1(3) by (simp_all add: apart_def)
      then have "\<not> prefix old (replace_all old marker body)"
        using prefix_replaced [of old old "hd marker" "tl marker" body] False by auto
      moreover have "\<not> sublist old (replace_all old marker cs)" using 1(2) old False 1(3) body by simp
      ultimately show ?thesis using eq sublist_Cons_cases [of old c] by metis
    qed
  qed
qed

section \<open>The contract\<close>

text \<open>Secrets are replaced one after the other; one that is not set, or empty, is skipped.\<close>

fun redact_all :: "string \<Rightarrow> string list \<Rightarrow> string \<Rightarrow> string" where
  "redact_all marker [] message = message"
| "redact_all marker (secret # secrets) message =
     redact_all marker secrets (if secret = [] then message else replace_all secret marker message)"

locale redaction =
  fixes redact :: "string list \<Rightarrow> string \<Rightarrow> string" and marker :: string
  assumes redact_none: "redact [] message = message"
    and redact_next: "redact (secret # secrets) message =
      redact secrets (if secret = [] then message else replace_all secret marker message)"
begin

lemma nothing_new: "sublist p (redact secrets message) \<Longrightarrow> apart marker p \<Longrightarrow> sublist p message"
proof (induction secrets arbitrary: message)
  case (Cons secret secrets)
  then show ?case using replaced_back [of p secret marker message] by (auto simp: redact_next split: if_splits)
qed (simp add: redact_none)

text \<open>A secret that the marker cannot take part in is not in what is shown.\<close>

lemma secret_gone:
  assumes "secret \<in> set secrets" "apart marker secret"
  shows "\<not> sublist secret (redact secrets message)"
  using assms(1)
proof (induction secrets arbitrary: message)
  case (Cons x xs)
  show ?case
  proof (cases "secret \<in> set xs")
    case True
    then show ?thesis using Cons.IH by (simp add: redact_next)
  next
    case False
    then have "x = secret" using Cons.prems by simp
    then have "redact (x # xs) message = redact xs (replace_all secret marker message)"
      using assms(2) by (simp add: redact_next apart_def)
    then show ?thesis using nothing_new [of secret xs] replaced_gone [OF assms(2)] assms(2) by metis
  qed
qed simp

end

lemma redact_all_contract: "redaction (redact_all marker) marker"
  by unfold_locales simp_all

end
