(* ===== verification/Transport.thy ===== *)
theory Transport
  imports Providers Redaction
begin

text \<open>
  \<open>providers/longbridge.py\<close>, the side towards the vendor: how an exception of its SDK becomes one of the program's
  provider errors, what of its text is shown, and the life of the one client. The SDK is a parameter: what creating a
  client and asking it for quotes gives. Of \<open>str.isdigit\<close> the digits of ASCII are modelled, and an attribute that is a
  function either returns or raises \<open>TypeError\<close>.
\<close>

section \<open>Codes\<close>

datatype provider_error_kind = PlainError | AuthError | RateLimitError | UnavailableError | NoDataError

record provider_error =
  pe_kind :: provider_error_kind
  pe_message :: string

definition CREDENTIAL_KEYS :: "string list" where
  "CREDENTIAL_KEYS = [''LONGBRIDGE_APP_KEY'', ''LONGBRIDGE_APP_SECRET'', ''LONGBRIDGE_ACCESS_TOKEN'']"

definition MISSING_SDK_MESSAGE :: string where
  "MISSING_SDK_MESSAGE = ''longbridge SDK is not installed; run uv sync --extra live''"

definition RATE_LIMIT_CODES :: "int list" where
  "RATE_LIMIT_CODES = [301606, 429001, 429002]"

definition AUTH_CODES :: "int list" where
  "AUTH_CODES = [401003, 403201, 403203, 403205, 301604]"

definition NO_DATA_CODES :: "int list" where
  "NO_DATA_CODES = [301603]"

definition SERVER_CODES :: "int list" where
  "SERVER_CODES = [301602, 500000]"

type_synonym environ = "string \<rightharpoonup> string"

definition missing_credential_names :: "environ \<Rightarrow> string list" where
  "missing_credential_names env = filter (\<lambda>key. env key = None \<or> env key = Some []) CREDENTIAL_KEYS"

definition credentials_present :: "environ \<Rightarrow> bool" where
  "credentials_present env \<longleftrightarrow> missing_credential_names env = []"

definition credential_marker :: string where
  "credential_marker = ''<redacted>''"

definition redact_credentials :: "environ \<Rightarrow> string \<Rightarrow> string" where
  "redact_credentials env message = redact_all credential_marker (List.map_filter env CREDENTIAL_KEYS) message"

section \<open>Reading a code\<close>

text \<open>An exception: its two attributes, its text, and the classes that the handlers tell apart.\<close>

datatype code_attr = NoCode | CodeValue pyval | CodeCall "pyval option"

datatype exc_class = TimeoutClass | OsClass | OtherClass

record transport_exc =
  tx_code :: code_attr
  tx_error_code :: code_attr
  tx_text :: string
  tx_class :: exc_class

definition digit :: "char \<Rightarrow> bool" where
  "digit c \<longleftrightarrow> c \<in> set ''0123456789''"

definition word_char :: "char \<Rightarrow> bool" where
  "word_char c \<longleftrightarrow> digit c \<or> c \<in> set ''abcdefghijklmnopqrstuvwxyzABCDEFGHIJKLMNOPQRSTUVWXYZ_''"

fun digits_value :: "nat \<Rightarrow> string \<Rightarrow> nat" where
  "digits_value acc [] = acc"
| "digits_value acc (c # cs) = digits_value (10 * acc + (of_char c - 48)) cs"

fun raw_code :: "pyval \<Rightarrow> pyval option" where
  "raw_code (PyInt i) = (if i > 0 then Some (PyInt i) else None)"
| "raw_code (PyBool b) = (if b then Some (PyBool True) else None)"
| "raw_code (PyStr s) = (if s \<noteq> [] \<and> list_all digit s then Some (PyInt (int (digits_value 0 s))) else None)"
| "raw_code _ = None"

fun attr_code :: "code_attr \<Rightarrow> pyval option" where
  "attr_code NoCode = None"
| "attr_code (CodeValue v) = raw_code v"
| "attr_code (CodeCall None) = None"
| "attr_code (CodeCall (Some v)) = raw_code v"

text \<open>The words that \<open>_CODE_RE\<close> finds.\<close>

definition CODE_WORDS :: "string list" where
  "CODE_WORDS =
     [''301600'', ''301601'', ''301602'', ''301603'', ''301604'', ''301605'', ''301606'', ''301607'', ''301608'', ''301609'',
      ''401003'', ''403201'', ''403203'', ''403205'', ''429001'', ''429002'', ''500000'']"

text \<open>The leftmost of them between word boundaries; the flag tells whether the character before is part of a word.\<close>

fun search_code :: "bool \<Rightarrow> string \<Rightarrow> string option" where
  "search_code inside [] = None"
| "search_code inside (c # cs) =
     (if \<not> inside \<and> take 6 (c # cs) \<in> set CODE_WORDS \<and> (drop 6 (c # cs) = [] \<or> \<not> word_char (hd (drop 6 (c # cs))))
      then Some (take 6 (c # cs)) else search_code (word_char c) cs)"

definition extract_vendor_error_code :: "environ \<Rightarrow> transport_exc \<Rightarrow> pyval option" where
  "extract_vendor_error_code env x =
     (case attr_code (tx_code x) of
        Some code \<Rightarrow> Some code
      | None \<Rightarrow>
          (case attr_code (tx_error_code x) of
             Some code \<Rightarrow> Some code
           | None \<Rightarrow> map_option (\<lambda>word. PyInt (int (digits_value 0 word))) (search_code False (redact_credentials env (tx_text x)))))"

fun code_text :: "pyval \<Rightarrow> string" where
  "code_text (PyInt i) = show_nat (nat i)"
| "code_text _ = ''True''"

definition lower_char :: "char \<Rightarrow> char" where
  "lower_char c = (if of_char c \<ge> (65 :: nat) \<and> of_char c \<le> (90 :: nat) then char_of (of_char c + (32 :: nat)) else c)"

section \<open>Classifying\<close>

definition ACCESS_WORDS :: "string list" where
  "ACCESS_WORDS = [''token expired'', ''signature invalid'', ''apikey illegal'', ''ip is not allowed'', ''no access'']"

definition code_kind :: "pyval option \<Rightarrow> provider_error_kind option" where
  "code_kind code =
     (case code of
        Some (PyInt i) \<Rightarrow>
          if i \<in> set RATE_LIMIT_CODES then Some RateLimitError
          else if i \<in> set AUTH_CODES then Some AuthError
          else if i \<in> set NO_DATA_CODES then Some NoDataError
          else if i \<in> set SERVER_CODES then Some UnavailableError
          else None
      | _ \<Rightarrow> None)"

definition text_kind :: "string \<Rightarrow> provider_error_kind" where
  "text_kind shown =
     (let lowered = map lower_char shown
      in if sublist ''429001'' shown \<or> sublist ''429002'' shown \<or> sublist ''rate limit'' lowered then RateLimitError
         else if sublist ''no quote'' lowered then NoDataError
         else if list_ex (\<lambda>token. sublist token lowered) ACCESS_WORDS then AuthError
         else UnavailableError)"

definition classify_transport_error :: "environ \<Rightarrow> transport_exc \<Rightarrow> provider_error" where
  "classify_transport_error env x =
     (let shown = redact_credentials env (tx_text x);
          code = extract_vendor_error_code env x;
          message = (case code of
              None \<Rightarrow> shown
            | Some c \<Rightarrow> if sublist (code_text c) shown then shown else code_text c @ '' '' @ shown)
      in \<lparr>pe_kind = (case code_kind code of Some kind \<Rightarrow> kind | None \<Rightarrow> text_kind shown), pe_message = message\<rparr>)"

section \<open>The client\<close>

datatype 'k creation = Created 'k | NoSdk | CreateRefused provider_error | CreateRaised transport_exc

datatype quote_outcome = Quoted "vendor_quote list" | QuoteRefused provider_error | QuoteRaised transport_exc

text \<open>The world of a provider: the environment, what the n-th creation gives, what asking a client gives. A client that was
  handed in stays.\<close>

record 'k sdk_env =
  se_environ :: environ
  se_injected :: bool
  se_create :: "nat \<Rightarrow> 'k creation"
  se_quote :: "'k \<Rightarrow> string list \<Rightarrow> quote_outcome \<times> 'k"

record 'k sdk_state =
  sd_client :: "'k option"
  sd_attempts :: nat
  sd_context_create_count :: nat

text \<open>The constructor without a client of its own.\<close>

definition longbridge_start :: "'k sdk_env \<Rightarrow> bool \<Rightarrow> provider_error + 'k sdk_state" where
  "longbridge_start se installed =
     (if \<not> credentials_present (se_environ se)
      then Inl \<lparr>pe_kind = AuthError,
        pe_message = ''missing '' @ concat (map (\<lambda>key. key @ '', '') (butlast (missing_credential_names (se_environ se))))
          @ last (missing_credential_names (se_environ se)) @ ''; set environment variables (values are never logged)''\<rparr>
      else if \<not> installed then Inl \<lparr>pe_kind = UnavailableError, pe_message = MISSING_SDK_MESSAGE\<rparr>
      else Inr \<lparr>sd_client = None, sd_attempts = 0, sd_context_create_count = 0\<rparr>)"

definition ensure_sdk_client :: "'k sdk_env \<Rightarrow> 'k sdk_state \<Rightarrow> (provider_error + 'k) \<times> 'k sdk_state" where
  "ensure_sdk_client se sd =
     (case sd_client sd of
        Some k \<Rightarrow> (Inr k, sd)
      | None \<Rightarrow>
          (let attempt = sd_attempts sd; sd = sd\<lparr>sd_attempts := Suc attempt\<rparr>
           in case se_create se attempt of
                Created k \<Rightarrow>
                  (Inr k, sd\<lparr>sd_client := Some k, sd_context_create_count := Suc (sd_context_create_count sd)\<rparr>)
              | NoSdk \<Rightarrow> (Inl \<lparr>pe_kind = UnavailableError, pe_message = MISSING_SDK_MESSAGE\<rparr>, sd)
              | CreateRefused e \<Rightarrow> (Inl e, sd)
              | CreateRaised x \<Rightarrow> (Inl (classify_transport_error (se_environ se) x), sd)))"

definition invalidate_sdk :: "'k sdk_env \<Rightarrow> 'k sdk_state \<Rightarrow> 'k sdk_state" where
  "invalidate_sdk se sd = (if se_injected se then sd else sd\<lparr>sd_client := None\<rparr>)"

definition reply_of_error :: "provider_error \<Rightarrow> vendor_reply" where
  "reply_of_error e = (if pe_kind e = RateLimitError then RateLimited (pe_message e) else OtherError (pe_message e))"

text \<open>One request up to its reply, in the order of the handlers of \<open>fetch_quotes\<close>; the rest is \<open>longbridge_fetch\<close>.\<close>

definition sdk_quote :: "'k sdk_env \<Rightarrow> 'k sdk_state \<Rightarrow> string list \<Rightarrow> vendor_reply \<times> 'k sdk_state" where
  "sdk_quote se sd symbols =
     (case ensure_sdk_client se sd of
        (Inl e, sd) \<Rightarrow> (reply_of_error e, sd)
      | (Inr k, sd) \<Rightarrow>
          (case se_quote se k symbols of
             (Quoted payload, k) \<Rightarrow> (Payload payload, sd\<lparr>sd_client := Some k\<rparr>)
           | (QuoteRefused e, k) \<Rightarrow> (reply_of_error e, sd\<lparr>sd_client := Some k\<rparr>)
           | (QuoteRaised x, k) \<Rightarrow>
               (let sd = sd\<lparr>sd_client := Some k\<rparr>
                in if tx_class x = TimeoutClass then (TimedOut, invalidate_sdk se sd)
                   else (reply_of_error (classify_transport_error (se_environ se) x),
                         if tx_class x = OsClass then invalidate_sdk se sd else sd))))"

definition sdk_fetch ::
  "float_parser \<Rightarrow> (pyval \<Rightarrow> string) \<Rightarrow> 'k sdk_env \<Rightarrow> (provider_diagnostics \<times> 'k sdk_state) fetch" where
  "sdk_fetch parse str_of se p clock symbols = longbridge_fetch parse str_of (sdk_quote se) clock p clock symbols"

section \<open>No secret is shown\<close>

interpretation credentials: redaction "redact_all credential_marker" credential_marker
  by (rule redact_all_contract)

lemma show_nat_digits: "list_all digit (show_nat n)"
proof (induction n rule: show_nat.induct)
  case (1 n)
  have one: "digit (digit_char k)" if "k < 10" for k
  proof -
    have "list_all (\<lambda>k. digit (digit_char k)) [0..<10]" by code_simp
    then show ?thesis using that by (simp add: list_all_iff)
  qed
  show ?case using 1 one by (subst show_nat.simps) simp
qed

text \<open>A secret as keys and tokens are: it cannot take part in a marker or be part of a code, and has no blank.\<close>

definition secret_like :: "string \<Rightarrow> bool" where
  "secret_like secret \<longleftrightarrow>
     apart credential_marker secret \<and> CHR '' '' \<notin> set secret \<and> \<not> list_all digit secret \<and> \<not> sublist secret ''True''"

lemma code_text_shape: "list_all digit (code_text c) \<or> code_text c = ''True''"
  using show_nat_digits by (cases c) simp_all

lemma secret_not_in_code:
  assumes "secret_like secret"
  shows "\<not> sublist secret (code_text c)"
proof
  assume found: "sublist secret (code_text c)"
  then have "set secret \<subseteq> set (code_text c)" by (rule set_mono_sublist)
  then show False
    using code_text_shape [of c] found assms by (auto simp: secret_like_def list_all_iff)
qed

text \<open>C13: A credential is not shown. Whatever the vendor's exception carries, the message of the error that it becomes does
  not contain a secret of the environment, neither where the exception repeated it nor where the redaction of another, or
  the code in front, could have put it together. The secret is one that keys and tokens look like: it is not empty, has no
  blank and no angle bracket, is no part of the marker, is not made of digits only and is no part of the word True (a
  vendor's code, a number or a truth value, is shown as it is, so that a secret equal to a code would be).\<close>

theorem transport_hides_secrets:
  assumes "key \<in> set CREDENTIAL_KEYS" "env key = Some secret" "secret_like secret"
  shows "\<not> sublist secret (pe_message (classify_transport_error env x))"
proof -
  let ?shown = "redact_credentials env (tx_text x)"
  have "secret \<in> set (List.map_filter env CREDENTIAL_KEYS)"
    using assms(1,2) by (force simp: List.map_filter_def)
  then have shown: "\<not> sublist secret ?shown"
    unfolding redact_credentials_def
    using credentials.secret_gone assms(3) unfolding secret_like_def by blast
  show ?thesis
  proof
    assume found: "sublist secret (pe_message (classify_transport_error env x))"
    then obtain c where "sublist secret (code_text c @ CHR '' '' # ?shown)"
      using shown by (auto simp: classify_transport_error_def Let_def split: option.splits if_splits)
    then show False
      using sublist_around [of secret "code_text c" "CHR '' ''" ?shown] secret_not_in_code [OF assms(3), of c] shown assms(3)
      by (auto simp: secret_like_def)
  qed
qed

section \<open>One client for the life of the process\<close>

text \<open>A request that loses the client: it had one, and asking it timed out or broke the connection.\<close>

definition connection_lost :: "'k sdk_env \<Rightarrow> 'k sdk_state \<Rightarrow> string list \<Rightarrow> bool" where
  "connection_lost se sd symbols \<longleftrightarrow>
     (case fst (ensure_sdk_client se sd) of
        Inl e \<Rightarrow> False
      | Inr k \<Rightarrow>
          (case fst (se_quote se k symbols) of
             QuoteRaised x \<Rightarrow> tx_class x = TimeoutClass \<or> tx_class x = OsClass
           | _ \<Rightarrow> False))"

fun sdk_requests :: "'k sdk_env \<Rightarrow> string list list \<Rightarrow> nat \<times> 'k sdk_state \<Rightarrow> nat \<times> 'k sdk_state" where
  "sdk_requests se [] s = s"
| "sdk_requests se (symbols # requests) (losses, sd) =
     sdk_requests se requests
       (if connection_lost se sd symbols then Suc losses else losses, snd (sdk_quote se sd symbols))"

lemma sdk_quote_counts:
  assumes "sd_context_create_count sd = losses + of_bool (sd_client sd \<noteq> None)" "\<not> se_injected se"
  shows "sd_context_create_count (snd (sdk_quote se sd symbols))
    = (if connection_lost se sd symbols then Suc losses else losses) + of_bool (sd_client (snd (sdk_quote se sd symbols)) \<noteq> None)"
proof -
  obtain result sd1 where ensured: "ensure_sdk_client se sd = (result, sd1)" by (rule prod.exhaust)
  have sd1: "sd_context_create_count sd1 = losses + of_bool (sd_client sd1 \<noteq> None)" "\<And>k. result = Inr k \<Longrightarrow> sd_client sd1 = Some k"
    using ensured assms(1)
    by (auto simp: ensure_sdk_client_def Let_def split: option.splits creation.splits)
  show ?thesis
  proof (cases result)
    case (Inl e)
    then show ?thesis using sd1(1) by (simp add: sdk_quote_def connection_lost_def ensured)
  next
    case (Inr k)
    obtain outcome k' where quote: "se_quote se k symbols = (outcome, k')" by (rule prod.exhaust)
    show ?thesis
      using sd1(1) sd1(2) [OF Inr] assms(2)
      by (cases outcome) (auto simp: sdk_quote_def connection_lost_def ensured Inr quote Let_def invalidate_sdk_def)
  qed
qed

text \<open>The provider keeps one client. Over any requests the number of clients it has created is the number of requests
  that lost one, by a timeout or a broken connection, plus one if it has a client now: no other failure makes it create
  another, and a failed creation counts as none.\<close>

theorem one_client_until_lost:
  assumes "longbridge_start se installed = Inr sd" "\<not> se_injected se" "sdk_requests se requests (0, sd) = (losses, sd')"
  shows "sd_context_create_count sd' = losses + (if sd_client sd' = None then 0 else 1)"
proof -
  have inv: "sd_context_create_count sd = n + of_bool (sd_client sd \<noteq> None) \<Longrightarrow> sdk_requests se requests (n, sd) = (losses, sd')
    \<Longrightarrow> sd_context_create_count sd' = losses + of_bool (sd_client sd' \<noteq> None)" for n sd
  proof (induction requests arbitrary: n sd)
    case (Cons symbols requests)
    then show ?case using sdk_quote_counts [OF Cons.prems(1) assms(2), of symbols] by simp
  qed simp
  have "sd_context_create_count sd = 0 + of_bool (sd_client sd \<noteq> None)"
    using assms(1) by (auto simp: longbridge_start_def split: if_splits)
  from inv [OF this assms(3)] show ?thesis by simp
qed

section \<open>Samples\<close>

definition sample_secrets :: environ where
  "sample_secrets =
     [''LONGBRIDGE_APP_KEY'' \<mapsto> ''k3y'', ''LONGBRIDGE_APP_SECRET'' \<mapsto> ''s3cr3tKey'', ''LONGBRIDGE_ACCESS_TOKEN'' \<mapsto> ''t0ken'']"

definition sample_refusal :: transport_exc where
  "sample_refusal =
     \<lparr>tx_code = CodeValue (PyInt 401003), tx_error_code = NoCode, tx_text = ''no access for s3cr3tKey'', tx_class = OtherClass\<rparr>"

theorem transport_hides_secrets_witness:
  "pe_kind (classify_transport_error sample_secrets sample_refusal) = AuthError
   \<and> \<not> sublist ''s3cr3tKey'' (pe_message (classify_transport_error sample_secrets sample_refusal))"
proof -
  have key: "''LONGBRIDGE_APP_SECRET'' \<in> set CREDENTIAL_KEYS" "sample_secrets ''LONGBRIDGE_APP_SECRET'' = Some ''s3cr3tKey''"
    by code_simp+
  have "secret_like ''s3cr3tKey''" by code_simp
  from transport_hides_secrets [where env = sample_secrets and x = sample_refusal, OF key this]
  moreover have "pe_kind (classify_transport_error sample_secrets sample_refusal) = AuthError"
    by (simp add: classify_transport_error_def extract_vendor_error_code_def sample_refusal_def code_kind_def Let_def
        RATE_LIMIT_CODES_def AUTH_CODES_def)
  ultimately show ?thesis by blast
qed

definition sample_sdk :: "unit sdk_env" where
  "sample_sdk =
     \<lparr>se_environ = sample_secrets, se_injected = False, se_create = (\<lambda>_. Created ()),
      se_quote = (\<lambda>k symbols. if symbols = [] then (QuoteRaised (sample_refusal\<lparr>tx_class := TimeoutClass\<rparr>), k) else (Quoted [], k))\<rparr>"

theorem one_client_until_lost_witness:
  "\<exists>sd'. sdk_requests sample_sdk [[''A''], [], [''A''], [''B'']] (0, \<lparr>sd_client = None, sd_attempts = 0, sd_context_create_count = 0\<rparr>)
       = (1, sd')
     \<and> sd_client sd' = Some () \<and> sd_context_create_count sd' = 2"
proof -
  let ?new = "\<lparr>sd_client = None, sd_attempts = 0, sd_context_create_count = 0\<rparr> :: unit sdk_state"
  let ?requests = "[[''A''], [], [''A''], [''B'']]"
  have start: "longbridge_start sample_sdk True = Inr ?new" by code_simp
  have own: "\<not> se_injected sample_sdk" by (simp add: sample_sdk_def)
  obtain losses sd' where run: "sdk_requests sample_sdk ?requests (0, ?new) = (losses, sd')" by (rule prod.exhaust)
  have "fst (sdk_requests sample_sdk ?requests (0, ?new)) = 1"
    "sd_client (snd (sdk_requests sample_sdk ?requests (0, ?new))) = Some ()" by code_simp+
  then have "losses = 1" "sd_client sd' = Some ()" by (simp_all only: run fst_conv snd_conv)
  then show ?thesis using one_client_until_lost [OF start own run] run by (auto simp del: sdk_requests.simps)
qed

end
