(* ===== verification/Model_Provider.thy ===== *)
theory Model_Provider
  imports Coordinator Redaction
begin

text \<open>
  \<open>intelligence/providers/dashscope.py\<close>, \<open>factory.py\<close>, \<open>model_settings.py\<close>, \<open>redaction.py\<close>, \<open>fake.py\<close> and
  \<open>bootstrap.py\<close>: the adapter between the coordinator and a model, and how the sidecar is set up. What the network
  answers is a parameter, and so are \<open>json.loads\<close>, \<open>json.dumps\<close>, \<open>float()\<close> and \<open>int()\<close> of a text.
\<close>

section \<open>The transport\<close>

text \<open>What \<open>urlopen\<close> does: a response whose body decodes as UTF-8 or GB18030 or not at all, a timeout, an HTTP error with
  its status and detail, another URL error with its reason, or any other exception.\<close>

datatype url_outcome =
    Response int "string option" "string option"
  | UrlTimeout
  | HttpError int string
  | UrlError string
  | UrlRaises exc

datatype transport_reply = Replied int string | TransportTimeout | TransportRaises intelligence_error

definition lower_text :: "string \<Rightarrow> string" where
  "lower_text = map (\<lambda>c. if of_char c \<ge> (65 :: nat) \<and> of_char c \<le> (90 :: nat) then char_of (of_char c + (32 :: nat)) else c)"

definition default_transport :: "url_outcome \<Rightarrow> transport_reply" where
  "default_transport outcome =
     (case outcome of
        UrlTimeout \<Rightarrow> TransportRaises IntelligenceTimeout
      | HttpError status detail \<Rightarrow> Replied status detail
      | UrlError reason \<Rightarrow>
          if sublist ''timed out'' (lower_text reason) then TransportRaises IntelligenceTimeout
          else TransportRaises IntelligenceTransport
      | UrlRaises e \<Rightarrow> TransportRaises (OtherException e)
      | Response status utf8 gb18030 \<Rightarrow>
          (case utf8 of
             Some body \<Rightarrow> Replied status body
           | None \<Rightarrow>
               (case gb18030 of
                  Some body \<Rightarrow> Replied status body
                | None \<Rightarrow> TransportRaises (IntelligenceMalformed ''unable to decode model response''))))"

section \<open>A completion\<close>

record dash_scope =
  ds_api_key :: string
  ds_model :: string
  ds_endpoint :: string
  ds_max_output_tokens :: int

definition SYSTEM_PROMPT :: string where
  "SYSTEM_PROMPT =
     ''You are a market tape analyst. Reply with a JSON object only, keys: '' @
     ''worth_highlight (bool), reason (string), confidence (0..1), summary (string). '' @
     ''Use only the supplied structured facts. Do not give buy/sell or trading advice. '' @
     ''Do not invent prices, volumes, or events.''"

definition rstrip_slash :: "string \<Rightarrow> string" where
  "rstrip_slash s = rev (dropWhile (\<lambda>c. c = CHR ''/'') (rev s))"

definition new_dash_scope :: "string \<Rightarrow> string \<Rightarrow> string \<Rightarrow> int \<Rightarrow> intelligence_error + dash_scope" where
  "new_dash_scope api_key model base_url max_output_tokens =
     (if blank api_key then Inl IntelligenceAuth
      else Inr \<lparr>ds_api_key = api_key, ds_model = model, ds_endpoint = rstrip_slash base_url @ ''/chat/completions'',
                ds_max_output_tokens = max_output_tokens\<rparr>)"

definition request_headers :: "dash_scope \<Rightarrow> (string \<times> string) list" where
  "request_headers ds =
     [(''Authorization'', ''Bearer '' @ ds_api_key ds), (''Content-Type'', ''application/json'')]"

definition request_body :: "(pyval \<Rightarrow> string) \<Rightarrow> dash_scope \<Rightarrow> payload \<Rightarrow> pyval" where
  "request_body dumps ds facts =
     PyDict
       [(''model'', PyStr (ds_model ds)),
        (''messages'', PyList
          [PyDict [(''role'', PyStr ''system''), (''content'', PyStr SYSTEM_PROMPT)],
           PyDict [(''role'', PyStr ''user''), (''content'', PyStr (dumps (PyDict facts)))]]),
        (''response_format'', PyDict [(''type'', PyStr ''json_object'')]),
        (''max_tokens'', PyInt (ds_max_output_tokens ds)), (''temperature'', PyFloat (Fin (1 / 5))),
        (''enable_thinking'', PyBool False)]"

definition http_error :: "int \<Rightarrow> intelligence_error" where
  "http_error status =
     (if status = 401 \<or> status = 403 then IntelligenceAuth
      else if status = 429 then IntelligenceRateLimit
      else if status \<ge> 500 then IntelligenceUnavailable
      else IntelligenceTransport)"

fun non_negative_int :: "pyval \<Rightarrow> int option" where
  "non_negative_int (PyInt i) = (if i < 0 then None else Some i)"
| "non_negative_int _ = None"

definition usage_tokens :: "pyval \<Rightarrow> int option \<times> int option" where
  "usage_tokens envelope =
     (case envelope of
        PyDict d \<Rightarrow>
          (case dict_get d ''usage'' of
             Some (PyDict usage) \<Rightarrow>
               (non_negative_int (get_or_none usage ''prompt_tokens''), non_negative_int (get_or_none usage ''completion_tokens''))
           | _ \<Rightarrow> (None, None))
      | _ \<Rightarrow> (None, None))"

text \<open>\<open>envelope["choices"][0]["message"]["content"]\<close>, any failure of which is the same error.\<close>

fun key_of :: "string \<Rightarrow> pyval \<Rightarrow> pyval option" where
  "key_of key (PyDict d) = dict_get d key"
| "key_of key _ = None"

fun first_of :: "pyval \<Rightarrow> pyval option" where
  "first_of (PyList (x # xs)) = Some x"
| "first_of (PyStr (c # cs)) = Some (PyStr [c])"
| "first_of _ = None"

definition envelope_content :: "pyval \<Rightarrow> pyval option" where
  "envelope_content envelope =
     Option.bind (key_of ''choices'' envelope) (\<lambda>choices.
     Option.bind (first_of choices) (\<lambda>choice.
     Option.bind (key_of ''message'' choice) (key_of ''content'')))"

record model_world =
  mw_loads :: "string \<Rightarrow> pyval option"
  mw_dumps :: "pyval \<Rightarrow> string"
  mw_advice :: "string \<Rightarrow> bool"
  mw_transport :: "string \<Rightarrow> (string \<times> string) list \<Rightarrow> pyval \<Rightarrow> flt \<Rightarrow> transport_reply"

definition complete_sync :: "model_world \<Rightarrow> dash_scope \<Rightarrow> payload \<Rightarrow> flt \<Rightarrow> intelligence_error + model_completion" where
  "complete_sync mw ds facts timeout_s =
     (case mw_transport mw (ds_endpoint ds) (request_headers ds) (request_body (mw_dumps mw) ds facts) timeout_s of
        TransportTimeout \<Rightarrow> Inl IntelligenceTimeout
      | TransportRaises e \<Rightarrow> Inl e
      | Replied status body \<Rightarrow>
          if status \<ge> 400 then Inl (http_error status)
          else (case mw_loads mw body of
                  None \<Rightarrow> Inl (IntelligenceMalformed ''model envelope is not JSON'')
                | Some envelope \<Rightarrow>
                    (case envelope_content envelope of
                       None \<Rightarrow> Inl (IntelligenceMalformed ''model envelope missing content'')
                     | Some (PyStr content) \<Rightarrow>
                         res_bind (parse_model_output (mw_loads mw) (mw_advice mw) content) (\<lambda>parsed.
                           let (token_in, token_out) = usage_tokens envelope
                           in Inr (if token_in = None \<and> token_out = None then parsed
                                   else parsed\<lparr>mc_token_in := token_in, mc_token_out := token_out\<rparr>))
                     | Some _ \<Rightarrow> Inl (IntelligenceMalformed ''model content is not a string''))))"

section \<open>The scripted model\<close>

record fake_model =
  fm_scripted :: model_completion
  fm_error :: "intelligence_error option"
  fm_calls :: "payload list"

definition new_fake_model :: fake_model where
  "new_fake_model =
     \<lparr>fm_scripted = \<lparr>mc_worth_highlight = True, mc_reason = ''scripted'', mc_confidence = 1 / 2,
        mc_summary = ''scripted summary'', mc_token_in = None, mc_token_out = None\<rparr>,
      fm_error = None, fm_calls = []\<rparr>"

definition fake_complete :: "payload \<Rightarrow> fake_model \<Rightarrow> (intelligence_error + model_completion) \<times> fake_model" where
  "fake_complete facts fm =
     (case fm_error fm of None \<Rightarrow> Inr (fm_scripted fm) | Some e \<Rightarrow> Inl e, fm\<lparr>fm_calls := fm_calls fm @ [facts]\<rparr>)"

section \<open>Settings and the factory\<close>

type_synonym environment = "string \<rightharpoonup> string"

record model_settings =
  ms_provider :: string
  ms_model :: string
  ms_base_url :: string
  ms_timeout_s :: pyfloat
  ms_max_output_tokens :: int
  ms_api_key_env :: string

definition env_or :: "environment \<Rightarrow> string \<Rightarrow> string \<Rightarrow> string" where
  "env_or env key fallback = (case env key of None \<Rightarrow> fallback | Some v \<Rightarrow> v)"

text \<open>\<open>float()\<close> and \<open>int()\<close> of a text raise \<open>ValueError\<close> when they are \<open>None\<close> here.\<close>

record number_parsers =
  np_float :: "string \<Rightarrow> pyfloat option"
  np_int :: "string \<Rightarrow> int option"
  np_repr :: "string \<Rightarrow> string"

definition load_model_settings :: "number_parsers \<Rightarrow> environment \<Rightarrow> model_settings res" where
  "load_model_settings np env =
     (let timeout_raw = env_or env ''MARKET_SENTINEL_INTEL_TIMEOUT_S'' ''8.0'';
          tokens_raw = env_or env ''MARKET_SENTINEL_INTEL_MAX_OUTPUT_TOKENS'' ''150''
      in case np_float np timeout_raw of
        None \<Rightarrow> Inl (ValueError (''could not convert string to float: '' @ np_repr np timeout_raw))
      | Some timeout_s \<Rightarrow>
          (case np_int np tokens_raw of
             None \<Rightarrow> Inl (ValueError (''invalid literal for int() with base 10: '' @ np_repr np tokens_raw))
           | Some tokens \<Rightarrow>
               Inr \<lparr>ms_provider = env_or env ''MARKET_SENTINEL_INTEL_PROVIDER'' ''dashscope'',
                    ms_model = env_or env ''MARKET_SENTINEL_INTEL_MODEL'' ''qwen3.7-max-2026-06-08'',
                    ms_base_url = rstrip_slash (env_or env ''MARKET_SENTINEL_INTEL_BASE_URL''
                      ''https://dashscope.aliyuncs.com/compatible-mode/v1''),
                    ms_timeout_s = timeout_s, ms_max_output_tokens = tokens,
                    ms_api_key_env = env_or env ''MARKET_SENTINEL_INTEL_API_KEY_ENV'' ''DASHSCOPE_API_KEY''\<rparr>))"

datatype model_provider = FakeModel fake_model | DashScope dash_scope

text \<open>Both the errors of the sidecar and others, which \<open>OtherException\<close> holds.\<close>

definition create_intelligence_provider ::
  "number_parsers \<Rightarrow> string option \<Rightarrow> model_settings option \<Rightarrow> string option \<Rightarrow> environment
    \<Rightarrow> intelligence_error + model_provider" where
  "create_intelligence_provider np name settings api_key env =
     res_bind (case settings of
                 Some s \<Rightarrow> Inr s
               | None \<Rightarrow> (case load_model_settings np env of Inl e \<Rightarrow> Inl (OtherException e) | Inr s \<Rightarrow> Inr s)) (\<lambda>resolved.
       let named = (case name of None \<Rightarrow> ms_provider resolved | Some n \<Rightarrow> if n = [] then ms_provider resolved else n);
           chosen = lower_text (py_strip named)
       in if chosen = ''fake'' then Inr (FakeModel new_fake_model)
          else if chosen = ''dashscope'' then
            (let key = (case api_key of Some k \<Rightarrow> k | None \<Rightarrow> env_or env (ms_api_key_env resolved) [])
             in if key = [] then Inl IntelligenceAuth
                else res_bind (new_dash_scope key (ms_model resolved) (ms_base_url resolved) (ms_max_output_tokens resolved))
                       (\<lambda>ds. Inr (DashScope ds)))
          else Inl (OtherException (ValueError (''unknown intelligence provider: '' @ chosen))))"

section \<open>Setting up the sidecar\<close>

definition redact_model_secrets :: "string \<Rightarrow> string list \<Rightarrow> string" where
  "redact_model_secrets message secrets = redact_all ''[redacted]'' secrets message"

record sidecar =
  sc_provider :: model_provider
  sc_coordinator :: coordinator
  sc_timeout_s :: pyfloat
  sc_secrets :: "string list"

text \<open>The text of an exception: of the sidecar's errors only the one that can occur here.\<close>

fun error_text :: "intelligence_error \<Rightarrow> string" where
  "error_text IntelligenceAuth = ''API key is not set''"
| "error_text (OtherException (ValueError m)) = m"
| "error_text _ = []"

text \<open>An exception that is neither a sidecar's error nor a \<open>ValueError\<close> escapes.\<close>

fun escapes :: "intelligence_error \<Rightarrow> exc option" where
  "escapes (OtherException (ValueError m)) = None"
| "escapes (OtherException e) = Some e"
| "escapes _ = None"

definition intelligence_flag :: "environment \<Rightarrow> bool" where
  "intelligence_flag env \<longleftrightarrow>
     lower_text (py_strip (env_or env ''MARKET_SENTINEL_INTEL_ENABLED'' [])) \<in> set [''1'', ''true'', ''yes'']"

text \<open>The outcome with the message that is logged. The secret is known only once the settings are read.\<close>

definition optional_intelligence ::
  "number_parsers \<Rightarrow> environment \<Rightarrow> bool option \<Rightarrow> (sidecar option \<times> string option) res" where
  "optional_intelligence np env enabled =
     (if enabled = Some False then Inr (None, None)
      else if enabled = None \<and> \<not> intelligence_flag env then Inr (None, None)
      else
        let settings = (case load_model_settings np env of Inl e \<Rightarrow> Inl (OtherException e) | Inr s \<Rightarrow> Inr s);
            name = (case settings of Inl e \<Rightarrow> [] | Inr s \<Rightarrow> env_or env ''MARKET_SENTINEL_INTEL_PROVIDER'' (ms_provider s));
            secret = (case settings of Inl e \<Rightarrow> []
                      | Inr s \<Rightarrow> if lower_text (py_strip name) \<noteq> ''fake'' then env_or env (ms_api_key_env s) [] else []);
            secrets = (if secret = [] then [] else [secret])
        in case res_bind settings (\<lambda>s.
                  res_bind (create_intelligence_provider np (Some name) (Some s) (if secret = [] then None else Some secret) env)
                    (\<lambda>provider. Inr
                       \<lparr>sc_provider = provider, sc_coordinator = new_coordinator 8 1 default_call_budget default_router_policy,
                        sc_timeout_s = ms_timeout_s s, sc_secrets = secrets\<rparr>)) of
             Inr sc \<Rightarrow> Inr (Some sc, None)
           | Inl e \<Rightarrow>
               (case escapes e of
                  Some x \<Rightarrow> Inl x
                | None \<Rightarrow>
                    Inr (None, Some (''intelligence sidecar disabled; continuing Rule-only: ''
                      @ redact_model_secrets (error_text e) secrets))))"

section \<open>What a completion has passed\<close>

lemma usage_tokens_non_negative:
  assumes "usage_tokens envelope = (a, b)"
  shows "\<forall>n. a = Some n \<longrightarrow> 0 \<le> n" "\<forall>n. b = Some n \<longrightarrow> 0 \<le> n"
proof -
  have one: "non_negative_int v = Some n \<Longrightarrow> 0 \<le> n" for v n by (cases v) (auto split: if_splits)
  show "\<forall>n. a = Some n \<longrightarrow> 0 \<le> n" "\<forall>n. b = Some n \<longrightarrow> 0 \<le> n"
    using assms one by (auto simp: usage_tokens_def split: pyval.splits option.splits)
qed

lemma parse_model_output_tokens:
  assumes "parse_model_output loads advice content = Inr c"
  shows "mc_token_in c = None" "mc_token_out c = None"
proof -
  obtain data where data: "loads content = Some (PyDict data)"
    using assms by (auto simp: parse_model_output_def malformed_def split: option.splits pyval.splits)
  show "mc_token_in c = None" "mc_token_out c = None"
    using assms by (auto simp: parse_model_output_def data malformed_def
        split: if_splits pyval.splits sum.splits option.splits pyfloat.splits)
qed

text \<open>C12: Nothing that a model or the network sends reaches a signal unchecked. A completion is returned only for a reply
  below status 400 whose body is JSON and holds, as the content of the first choice's message, a text that passed the
  checks on the model's answer; the completion is what those checks made of that text (a confidence in [0, 1], a reason
  and a summary that are not blank and hold no trading advice), with the token counts of the same body, none negative.\<close>

theorem completion_is_checked:
  assumes "complete_sync mw ds facts timeout_s = Inr c"
  shows "\<exists>status body envelope content parsed.
      mw_transport mw (ds_endpoint ds) (request_headers ds) (request_body (mw_dumps mw) ds facts) timeout_s
        = Replied status body \<and> status < 400
    \<and> mw_loads mw body = Some envelope \<and> envelope_content envelope = Some (PyStr content)
    \<and> parse_model_output (mw_loads mw) (mw_advice mw) content = Inr parsed
    \<and> c = parsed\<lparr>mc_token_in := fst (usage_tokens envelope), mc_token_out := snd (usage_tokens envelope)\<rparr>
    \<and> 0 \<le> mc_confidence c \<and> mc_confidence c \<le> 1
    \<and> (\<exists>reason summary. mc_reason c = py_strip reason \<and> mc_summary c = py_strip summary
        \<and> \<not> mw_advice mw reason \<and> \<not> mw_advice mw summary \<and> py_strip reason \<noteq> [] \<and> py_strip summary \<noteq> [])
    \<and> (\<forall>n. mc_token_in c = Some n \<or> mc_token_out c = Some n \<longrightarrow> 0 \<le> n)"
proof -
  obtain status body where reply: "mw_transport mw (ds_endpoint ds) (request_headers ds) (request_body (mw_dumps mw) ds facts) timeout_s
      = Replied status body" "status < 400"
    using assms by (simp add: complete_sync_def split: transport_reply.splits if_splits)
  obtain envelope where envelope: "mw_loads mw body = Some envelope"
    using assms reply by (cases "mw_loads mw body") (simp_all add: complete_sync_def)
  obtain content where content: "envelope_content envelope = Some (PyStr content)"
  proof (cases "envelope_content envelope")
    case (Some v)
    then show thesis using that assms reply envelope by (cases v) (simp_all add: complete_sync_def)
  qed (use assms reply envelope in \<open>simp add: complete_sync_def\<close>)
  obtain parsed where parsed: "parse_model_output (mw_loads mw) (mw_advice mw) content = Inr parsed"
    using assms reply envelope content
    by (cases "parse_model_output (mw_loads mw) (mw_advice mw) content") (simp_all add: complete_sync_def)
  obtain a b where tokens: "usage_tokens envelope = (a, b)" by (rule prod.exhaust)
  have "c = (if a = None \<and> b = None then parsed else parsed\<lparr>mc_token_in := a, mc_token_out := b\<rparr>)"
    using assms reply envelope content parsed by (simp add: complete_sync_def tokens)
  then have c: "c = parsed\<lparr>mc_token_in := a, mc_token_out := b\<rparr>"
    using parse_model_output_tokens [OF parsed] by (cases parsed) simp
  have same: "mc_confidence c = mc_confidence parsed" "mc_reason c = mc_reason parsed" "mc_summary c = mc_summary parsed"
    by (simp_all add: c)
  have counts: "\<forall>n. mc_token_in c = Some n \<or> mc_token_out c = Some n \<longrightarrow> 0 \<le> n"
    using usage_tokens_non_negative [OF tokens] by (auto simp: c)
  have made: "c = parsed\<lparr>mc_token_in := fst (usage_tokens envelope), mc_token_out := snd (usage_tokens envelope)\<rparr>"
    by (simp add: c tokens)
  have safe: "0 \<le> mc_confidence c" "mc_confidence c \<le> 1"
    "\<exists>reason summary. mc_reason c = py_strip reason \<and> mc_summary c = py_strip summary
      \<and> \<not> mw_advice mw reason \<and> \<not> mw_advice mw summary \<and> py_strip reason \<noteq> [] \<and> py_strip summary \<noteq> []"
    using parse_model_output_safe [OF parsed] unfolding same by blast+
  show ?thesis
    by (rule exI [of _ status], rule exI [of _ body], rule exI [of _ envelope], rule exI [of _ content], rule exI [of _ parsed])
      (intro conjI reply envelope content parsed made safe counts)
qed

section \<open>Setting up never fails\<close>

interpretation model_secrets: redaction "redact_all ''[redacted]''" "''[redacted]''"
  by (rule redact_all_contract)

lemma settings_fail: "load_model_settings np env = Inl e \<Longrightarrow> \<exists>m. e = ValueError m"
  by (auto simp: load_model_settings_def Let_def split: option.splits)

lemma create_fail:
  assumes "create_intelligence_provider np name (Some s) api_key env = Inl e"
  shows "escapes e = None"
proof -
  have dash: "new_dash_scope key model url n = Inl e' \<Longrightarrow> e' = IntelligenceAuth" for key model url n e'
    by (auto simp: new_dash_scope_def split: if_splits)
  show ?thesis
    using assms by (auto simp: create_intelligence_provider_def Let_def res_bind_Inl_iff split: if_splits dest: dash)
qed

lemma created_key:
  assumes "create_intelligence_provider np name (Some s) api_key env = Inr (DashScope ds)"
  shows "\<not> blank (ds_api_key ds)" "api_key \<noteq> None \<Longrightarrow> api_key = Some (ds_api_key ds)"
  using assms
  by (auto simp: create_intelligence_provider_def Let_def new_dash_scope_def res_bind_Inr_iff split: if_splits)

definition disabled_notice :: string where
  "disabled_notice = ''intelligence sidecar disabled; continuing Rule-only:''"

text \<open>The model that the settings choose, and whether an adapter for it can be made.\<close>

definition chosen_model :: "model_settings \<Rightarrow> string" where
  "chosen_model s = lower_text (py_strip (ms_provider s))"

definition usable_model :: "environment \<Rightarrow> model_settings \<Rightarrow> bool" where
  "usable_model env s \<longleftrightarrow>
     chosen_model s = ''fake'' \<or> chosen_model s = ''dashscope'' \<and> \<not> blank (env_or env (ms_api_key_env s) [])"

lemma settings_provider:
  "load_model_settings np env = Inr s \<Longrightarrow> env_or env ''MARKET_SENTINEL_INTEL_PROVIDER'' (ms_provider s) = ms_provider s"
  by (auto simp: load_model_settings_def Let_def env_or_def split: option.splits)

lemma create_iff:
  "\<not> raises (create_intelligence_provider np (Some (ms_provider s)) (Some s) (if key = [] then None else Some key) env)
    \<longleftrightarrow> chosen_model s = ''fake''
      \<or> chosen_model s = ''dashscope'' \<and> \<not> blank (if key = [] then env_or env (ms_api_key_env s) [] else key)"
proof -
  have named: "(if ms_provider s = [] then ms_provider s else ms_provider s) = ms_provider s" by simp
  have empty: "blank []" by (simp add: blank_def)
  show ?thesis
    by (auto simp: create_intelligence_provider_def new_dash_scope_def chosen_model_def Let_def empty)
qed

text \<open>C11: The rules never depend on the sidecar. Whatever the environment holds, setting it up returns. If it is not asked for
  there is no sidecar and no message; if it is, there is either a sidecar or a message, and a sidecar exactly if the settings
  can be read and name the scripted model, or the vendor's with a key that is not blank. The sidecar is in a sound initial
  state, waits as long as the settings say, and a vendor's adapter holds the key of the environment. Once settings that
  name the vendor are read, the message does not contain that key, if the key is not empty, has no blank and no square
  bracket and is no part of the marker or of the fixed words of the message.\<close>

theorem sidecar_setup_total:
  "\<exists>found logged. optional_intelligence np env enabled = Inr (found, logged)
    \<and> (found = None \<and> logged = None \<longleftrightarrow> \<not> (enabled = Some True \<or> enabled = None \<and> intelligence_flag env))
    \<and> (found = None \<or> logged = None)
    \<and> (found \<noteq> None \<longleftrightarrow> (enabled = Some True \<or> enabled = None \<and> intelligence_flag env)
         \<and> (\<exists>s. load_model_settings np env = Inr s \<and> usable_model env s))
    \<and> (\<forall>sc. found = Some sc \<longrightarrow> coordinator_ok (sc_coordinator sc)
         \<and> (\<exists>s. load_model_settings np env = Inr s \<and> sc_timeout_s sc = ms_timeout_s s
              \<and> (\<forall>ds. sc_provider sc = DashScope ds \<longrightarrow>
                   env (ms_api_key_env s) = Some (ds_api_key ds) \<and> sc_secrets sc = [ds_api_key ds] \<and> \<not> blank (ds_api_key ds))))
    \<and> (\<forall>message s key. logged = Some message \<and> load_model_settings np env = Inr s \<and> env (ms_api_key_env s) = Some key
         \<and> chosen_model s \<noteq> ''fake''
         \<and> apart ''[redacted]'' key \<and> CHR '' '' \<notin> set key \<and> \<not> sublist key disabled_notice
         \<longrightarrow> \<not> sublist key message)"
proof (cases "enabled = Some False \<or> enabled = None \<and> \<not> intelligence_flag env")
  case True
  then show ?thesis by (auto simp: optional_intelligence_def)
next
  case asked: False
  then have on: "enabled = Some True \<or> enabled = None \<and> intelligence_flag env" by (cases enabled) auto
  show ?thesis
  proof (cases "load_model_settings np env")
    case (Inl e)
    then obtain m where "e = ValueError m" using settings_fail by blast
    then show ?thesis using asked on Inl by (auto simp: optional_intelligence_def Let_def)
  next
    case (Inr s)
    note provider = settings_provider [OF Inr]
    define secret where "secret = (if chosen_model s \<noteq> ''fake'' then env_or env (ms_api_key_env s) [] else [])"
    define created where
      "created = create_intelligence_provider np (Some (ms_provider s)) (Some s) (if secret = [] then None else Some secret) env"
    have run: "optional_intelligence np env enabled = (case created of
        Inr provider \<Rightarrow> Inr (Some \<lparr>sc_provider = provider,
          sc_coordinator = new_coordinator 8 1 default_call_budget default_router_policy, sc_timeout_s = ms_timeout_s s,
          sc_secrets = (if secret = [] then [] else [secret])\<rparr>, None)
      | Inl e \<Rightarrow> (case escapes e of Some x \<Rightarrow> Inl x
          | None \<Rightarrow> Inr (None, Some (disabled_notice @ CHR '' '' #
              redact_all ''[redacted]'' (if secret = [] then [] else [secret]) (error_text e)))))"
      using asked Inr provider
      by (cases created) (auto simp: optional_intelligence_def Let_def created_def secret_def chosen_model_def
          redact_model_secrets_def disabled_notice_def split: option.split)
    have usable: "\<not> raises created \<longleftrightarrow> usable_model env s"
      unfolding created_def create_iff usable_model_def secret_def by auto
    show ?thesis
    proof (cases created)
      case made: (Inr adapter)
      have key: "secret = ds_api_key ds \<and> \<not> blank secret \<and> env (ms_api_key_env s) = Some secret" if "adapter = DashScope ds" for ds
      proof -
        have "chosen_model s \<noteq> ''fake''"
          using made that by (auto simp: created_def create_intelligence_provider_def chosen_model_def Let_def split: if_splits)
        then show ?thesis
          using created_key [OF made [unfolded created_def that]] made that
          by (auto simp: secret_def env_or_def blank_def created_def create_intelligence_provider_def Let_def
              split: if_splits option.splits)
      qed
      have "secret \<noteq> []" if "adapter = DashScope ds" for ds using key [OF that] by (auto simp: blank_def)
      then show ?thesis
        using on made usable Inr key new_coordinator_ok by (auto simp: run)
    next
      case (Inl e)
      then have none: "escapes e = None" unfolding created_def by (rule create_fail)
      let ?shown = "redact_all ''[redacted]'' (if secret = [] then [] else [secret]) (error_text e)"
      have hidden: "\<not> sublist key (disabled_notice @ CHR '' '' # ?shown)"
        if "env (ms_api_key_env s) = Some key" "chosen_model s \<noteq> ''fake''" "apart ''[redacted]'' key"
          "CHR '' '' \<notin> set key" "\<not> sublist key disabled_notice" for key
      proof -
        have "secret = key" "key \<noteq> []" using that(1,2,3) by (simp_all add: secret_def env_or_def apart_def)
        then have "\<not> sublist key ?shown" using model_secrets.secret_gone [of key "[key]"] that(3) by simp
        then show ?thesis using sublist_around [OF _ that(4)] that(5) by blast
      qed
      have "\<not> usable_model env s" using usable Inl by simp
      then show ?thesis using Inl none Inr on hidden by (auto simp: run)
    qed
  qed
qed

section \<open>Samples\<close>

definition sample_envelope :: pyval where
  "sample_envelope =
     PyDict
       [(''choices'', PyList [PyDict [(''message'', PyDict [(''content'', PyStr ''answer'')])]]),
        (''usage'', PyDict [(''prompt_tokens'', PyInt 12), (''completion_tokens'', PyInt (-1))])]"

definition sample_answer :: pyval where
  "sample_answer =
     PyDict
       [(''worth_highlight'', PyBool True), (''reason'', PyStr '' volume ''), (''confidence'', PyFloat (Fin (1 / 2))),
        (''summary'', PyStr ''s'')]"

definition sample_world :: model_world where
  "sample_world =
     \<lparr>mw_loads = [''envelope'' \<mapsto> sample_envelope, ''answer'' \<mapsto> sample_answer], mw_dumps = (\<lambda>_. []),
      mw_advice = (\<lambda>_. False), mw_transport = (\<lambda>_ _ _ _. Replied 200 ''envelope'')\<rparr>"

definition sample_model :: dash_scope where
  "sample_model = \<lparr>ds_api_key = ''k3y'', ds_model = ''m'', ds_endpoint = ''u'', ds_max_output_tokens = 150\<rparr>"

theorem completion_is_checked_witness:
  "\<exists>c. complete_sync sample_world sample_model [] 8 = Inr c \<and> mc_reason c = ''volume'' \<and> mc_token_out c = None
     \<and> 0 \<le> mc_confidence c \<and> mc_confidence c \<le> 1"
proof -
  have "map_sum id (\<lambda>c. (mc_reason c, mc_token_out c)) (complete_sync sample_world sample_model [] 8) = Inr (''volume'', None)"
    by code_simp
  then obtain c where c: "complete_sync sample_world sample_model [] 8 = Inr c" "mc_reason c = ''volume''" "mc_token_out c = None"
    by (cases "complete_sync sample_world sample_model [] 8") simp_all
  show ?thesis using completion_is_checked [OF c(1)] c by blast
qed

definition sample_parsers :: number_parsers where
  "sample_parsers = \<lparr>np_float = (\<lambda>_. Some (Fin 8)), np_int = (\<lambda>_. Some 150), np_repr = (\<lambda>_. [])\<rparr>"

definition sample_environment :: environment where
  "sample_environment = [''MARKET_SENTINEL_INTEL_PROVIDER'' \<mapsto> ''k3y-model'', ''DASHSCOPE_API_KEY'' \<mapsto> ''k3y'']"

theorem sidecar_setup_total_witness:
  "\<exists>message. optional_intelligence sample_parsers sample_environment (Some True) = Inr (None, Some message)
     \<and> \<not> sublist ''k3y'' message"
proof -
  have "map_sum id (\<lambda>(found, logged). (Option.is_none found, Option.is_none logged))
      (optional_intelligence sample_parsers sample_environment (Some True)) = Inr (True, False)"
    by code_simp
  moreover have "map_sum id (\<lambda>s. (ms_api_key_env s, chosen_model s = ''fake'')) (load_model_settings sample_parsers sample_environment)
      = Inr (''DASHSCOPE_API_KEY'', False)"
    by code_simp
  moreover have "sample_environment ''DASHSCOPE_API_KEY'' = Some ''k3y''" by code_simp
  moreover have "apart ''[redacted]'' ''k3y''" "CHR '' '' \<notin> set ''k3y''" "\<not> sublist ''k3y'' disabled_notice" by code_simp+
  ultimately show ?thesis
    using sidecar_setup_total [of sample_parsers sample_environment "Some True"]
    by (cases "load_model_settings sample_parsers sample_environment") (auto simp: Option.is_none_def)
qed

end
