(* ===== verification/Spec2Isabelle.thy ===== *)
theory Spec2Isabelle
  imports Sessions Normalizer Ring_Buffer Features Event_Rules Gates Cluster Composer Telemetry Pipeline
    Health Scheduler Watchlist Providers Engine Intelligence Coordinator Wire Daemon Jsonl Evaluation Tuning
    Comparison Draining Capabilities Mcp Redaction Transport Model_Provider
begin

text \<open>
  MarketSentinel watches a list of stocks: it polls quotes, keeps a bounded history per symbol, computes
  features, detects events, composes them into signals and alerts, and serves a host program over a line
  protocol. This development models that program (the Python package under
  src/src/market_sentinel) and proves what makes each part and their composition correct.

  The parts and the theories that model them, in the order data flows:

  Prelude: exceptions as values (exc + 'a with res_bind), the raw JSON values, dictionaries in insertion
  order, bisection, and the collections res_simps, dict_simps, inv_intros. Domain: the enums and
  dataclasses of domain/ and runtime/results.py, the clock of clock.py.

  Sessions (market_data/session.py): calendar arithmetic, session tests, the cash session overlap.
  Normalizer (market_data/normalizer.py): raw quotes to snapshots. Ring_Buffer (market_data/ring_buffer.py,
  buffers.py): the history of a symbol, refined against a timeline, the set of its quotes by time.

  Features (features/): anchors, minute bars against a reference definition, indicators with their ranges.
  Event_Rules (events/): thresholds, the six rules and the detector; every detected event is well formed.

  Gates (signals/dedupe.py, cooldown.py): both gates as instances of the locale escalation_gate, whose
  window bound is proved once. Cluster and Composer (signals/cluster.py, copy.py, composer.py): lineages,
  episodes, identities, and the four tables of the composer with their invariant.

  Telemetry (telemetry/contract.py, collector.py, runtime.py, host_interaction.py, user_feedback.py):
  observations, their validation and records, and the runtime that never fails its caller.
  Pipeline (signals/pipeline.py): detection, deduplication, composition, cooldown and what they emit.

  Health, Scheduler, Watchlist, Providers (health/, scheduler/, orchestration/warming.py, watchlist/,
  providers/): the feed tracker as a function of its history, attention levels and pacing, the bounded list
  with its file, and the providers as interpretations of the locale market_provider.

  Engine (runtime/engine.py, market_data/state.py): one tick, composed of all of the above. It never raises,
  keeps every invariant, projects health, paces itself and contains a failing provider.

  Intelligence and Coordinator (intelligence/): the router, the facts sent to a model, the checks on its
  answer, and the coordinator as a transition system whose steps are the code between two suspension points:
  observing a tick, a worker taking work, a call that ends, start and shutdown. Along a path of steps, the
  requests of a signal that stays active are within its budget, and a call that was overtaken publishes
  nothing. Draining: the moves of the workers between two ticks, which end in the state idle() waits for.

  Redaction, Transport and Model_Provider: str.replace and the contract of showing no secret, as the locale
  redaction; the vendor side of providers/longbridge.py, with the codes and texts of an exception, what of it
  is shown, and the life of the one client, joined to Providers.longbridge_fetch by sdk_fetch; and the model's
  adapter with its settings, factory and setup (intelligence/providers/dashscope.py, factory.py,
  model_settings.py, bootstrap.py, fake.py, redaction.py). What the network or the SDK answers is a parameter.

  Wire and Daemon (ipc/): the messages, the mapping of the engine's state to them, every host command, the
  dispatcher and the tick loop; a session interleaves host lines, ticks, the end of input and the workers.

  Jsonl (telemetry/jsonl.py, factory.py, evaluation/reader.py): the append-only log over bytes, its rotation,
  the repair of a cut-off last line, and the reader. Sanitizer and Evaluation (evaluation/): the recursive
  projection that the reports share, with its contract as the locale sanitizer, and the offline report with
  its statistics over any records a log can hold.

  Tuning (tuning/config.py, store.py, feedback.py): the strict configuration, snapshots that are written once
  and read back, and the feedback that counts as evidence. Comparison (tuning/replay.py, compare.py, report.py):
  a recorded fixture is replayed through the whole engine under two configurations, and the metrics of both
  with their differences form a report. A fixture is held as its parsed batches of raw quotes; each replay
  has its own streams of identifiers.

  Capabilities and Mcp (capabilities/, mcp_server/, cli/mcp.py): the read-only tools over a running engine, the
  buffer of recent events, and the standalone runtime as a transition system of starts, turns of its loop,
  tool calls and stops.

  Correspondence. A dataclass is a record, an enum a datatype; a function that may raise returns exc + 'a;
  a method becomes a function from the state it reads to the state it leaves. Names follow the source, with
  a prefix on record fields. Finite floats are exact rationals: rounding is outside the model, NaN and the
  infinities occur where raw input is parsed. A clock stands still during one operation. uuid4 is a stream
  of identifiers with the number of draws in the state; telemetry draws from a stream of its own. Display
  copy is a structured value (the template and its facts). The JSON files hold JSON values; json.loads,
  float() and str() of strings, and the text of patterns are parameters. No fuel is used: every recursion is
  structural or has a measure.

  Not modelled, and why: the choice of the data directory is configuration of the operating system. The
  printed form of reports (evaluation/render.py), the command line with its demo, display and diagnostics
  (cli/), and the live probes and benchmarks under tools/ only print or time what is modelled here. What a
  network, an SDK, FastMCP, json.loads and json.dumps answer is a parameter wherever the program uses it.
\<close>

end
